(* ===== verification/Dyad_Base.thy ===== *)
theory Dyad_Base
  imports Main "HOL-Library.Word"
begin

text \<open>
  The prelude of the development: the machine types, C strings and byte buffers the
  components share, the return codes of \<^verbatim>\<open>include/dyad/common/dyad_rc.h\<close>, and the generic
  list and word lemmas the component theories rely on.
\<close>

unbundle bit_operations_syntax

section \<open>Machine types\<close>

type_synonym uint8 = "8 word"
type_synonym uint32 = "32 word"
type_synonym uint64 = "64 word"

text \<open>\<^verbatim>\<open>size_t\<close> is 64 bits wide on the platforms the code is built for.\<close>

type_synonym size_t = "64 word"

section \<open>Fact collections\<close>

named_theorems clist "facts on C strings, buffers and index ranges"

section \<open>C strings\<close>

text \<open>
  A C string is the list of its characters before the terminating NUL. \<open>strncmp_eq a b n\<close>
  is the test \<^verbatim>\<open>strncmp (a, b, n) == 0\<close>: the comparison stops at the first NUL or after
  \<open>n\<close> characters, so it holds exactly when the first \<open>n\<close> characters agree.
\<close>

definition strncmp_eq :: "string \<Rightarrow> string \<Rightarrow> nat \<Rightarrow> bool" where
  "strncmp_eq a b n \<longleftrightarrow> take n a = take n b"

definition bytes_of_string :: "string \<Rightarrow> uint8 list" where
  "bytes_of_string s = map of_char s"

lemma length_bytes_of_string [simp]: "length (bytes_of_string s) = length s"
  by (simp add: bytes_of_string_def)

lemma bytes_of_string_append [simp]:
  "bytes_of_string (s @ t) = bytes_of_string s @ bytes_of_string t"
  by (simp add: bytes_of_string_def)

lemma bytes_of_string_take [simp]: "bytes_of_string (take n s) = take n (bytes_of_string s)"
  by (simp add: bytes_of_string_def take_map)

lemma strncmp_eq_refl [simp]: "strncmp_eq a a n"
  by (simp add: strncmp_eq_def)

lemma strncmp_eq_prefix [clist]:
  "strncmp_eq p s (length p) \<longleftrightarrow> take (length p) s = p"
  by (auto simp: strncmp_eq_def)

lemma take_eq_prefix_iff [clist]: "take (length p) s = p \<longleftrightarrow> (\<exists>r. s = p @ r)"
  by (metis append_eq_conv_conj append_take_drop_id)

section \<open>Return codes\<close>

datatype dyad_rc =
    RC_OK | RC_SYSFAIL
  | RC_NOCTX | RC_BADMETADATA | RC_BADFIO | RC_BADMANAGEDPATH | RC_BADDTLMODE | RC_UNTRACKED
  | RC_BAD_B64DECODE | RC_BAD_COMM_MODE | RC_BAD_CLI_ARG_DEF | RC_BAD_CLI_PARSE | RC_BADBUF
  | RC_BUSY | RC_BADCACHEMODE
  | RC_FLUXFAIL | RC_BADCOMMIT | RC_NOTFOUND | RC_BADFETCH | RC_BADRPC | RC_BADPACK
  | RC_BADUNPACK | RC_RPC_FINISHED
  | RC_UCXINIT_FAIL | RC_UCXWAIT_FAIL | RC_UCXEP_FAIL | RC_UCXCOMM_FAIL | RC_UCXMMAP_FAIL
  | RC_UCXRKEY_PACK_FAILED | RC_UCXRKEY_UNPACK_FAILED
  | RC_MARGOINIT_FAIL | RC_MARGO_BAD_PROTO

fun rc_code :: "dyad_rc \<Rightarrow> int" where
  "rc_code RC_OK = 0"
| "rc_code RC_SYSFAIL = - 1"
| "rc_code RC_NOCTX = - 1000"
| "rc_code RC_BADMETADATA = - 1001"
| "rc_code RC_BADFIO = - 1002"
| "rc_code RC_BADMANAGEDPATH = - 1003"
| "rc_code RC_BADDTLMODE = - 1004"
| "rc_code RC_UNTRACKED = - 1005"
| "rc_code RC_BAD_B64DECODE = - 1006"
| "rc_code RC_BAD_COMM_MODE = - 1007"
| "rc_code RC_BAD_CLI_ARG_DEF = - 1008"
| "rc_code RC_BAD_CLI_PARSE = - 1009"
| "rc_code RC_BADBUF = - 1010"
| "rc_code RC_BUSY = - 1011"
| "rc_code RC_BADCACHEMODE = - 1012"
| "rc_code RC_FLUXFAIL = - 2000"
| "rc_code RC_BADCOMMIT = - 2001"
| "rc_code RC_NOTFOUND = - 2002"
| "rc_code RC_BADFETCH = - 2003"
| "rc_code RC_BADRPC = - 2004"
| "rc_code RC_BADPACK = - 2005"
| "rc_code RC_BADUNPACK = - 2006"
| "rc_code RC_RPC_FINISHED = - 2007"
| "rc_code RC_UCXINIT_FAIL = - 3001"
| "rc_code RC_UCXWAIT_FAIL = - 3002"
| "rc_code RC_UCXEP_FAIL = - 3003"
| "rc_code RC_UCXCOMM_FAIL = - 3004"
| "rc_code RC_UCXMMAP_FAIL = - 3005"
| "rc_code RC_UCXRKEY_PACK_FAILED = - 3006"
| "rc_code RC_UCXRKEY_UNPACK_FAILED = - 3007"
| "rc_code RC_MARGOINIT_FAIL = - 4001"
| "rc_code RC_MARGO_BAD_PROTO = - 4002"

definition is_error :: "dyad_rc \<Rightarrow> bool" where
  "is_error rc \<longleftrightarrow> rc_code rc < 0"

lemma is_error_iff [simp]: "is_error rc \<longleftrightarrow> rc \<noteq> RC_OK"
  by (cases rc) (simp_all add: is_error_def)

lemma rc_code_inj: "rc_code a = rc_code b \<Longrightarrow> a = b"
  by (cases a; cases b; simp)

section \<open>Generic lemmas\<close>

lemma less_8_iff: "n < 8 \<longleftrightarrow> n \<in> {0, 1, 2, 3, 4, 5, 6, 7}" for n :: nat
  by auto

lemma foldl_cong_list: "(\<And>a x. x \<in> set xs \<Longrightarrow> f a x = g a x) \<Longrightarrow> foldl f a xs = foldl g a xs"
  by (induction xs arbitrary: a) auto

lemma foldl_inj:
  assumes "\<And>x a b. x \<in> set xs \<Longrightarrow> f a x = f b x \<Longrightarrow> a = b"
    and "foldl f a xs = foldl f b xs"
  shows "a = b"
  using assms
proof (induction xs arbitrary: a b)
  case (Cons y ys)
  have eq: "foldl f (f a y) ys = foldl f (f b y) ys" using Cons.prems(2) by simp
  have "f a y = f b y"
  proof (rule Cons.IH [OF _ eq])
    show "u = v" if "x \<in> set ys" "f u x = f v x" for x u v
      using Cons.prems(1) [of x u v] that by simp
  qed
  then show ?case using Cons.prems(1) [of y a b] by simp
qed simp

text \<open>Induction in steps of three elements, for the codecs that work on triplets.\<close>

lemma by3_induct [case_names Nil One Two Three]:
  assumes "P []" and "\<And>a. P [a]" and "\<And>a b. P [a, b]"
    and "\<And>a b c xs. P xs \<Longrightarrow> P (a # b # c # xs)"
  shows "P xs"
proof (induction xs rule: length_induct)
  case (1 xs)
  consider "xs = []" | a where "xs = [a]" | a b where "xs = [a, b]"
    | a b c ys where "xs = a # b # c # ys"
    by (metis list.exhaust)
  then show ?case using 1 assms by cases auto
qed

end
