(* ===== verification/Murmur3.thy ===== *)
theory Murmur3
  imports Dyad_Base
begin

text \<open>
  The hash functions of \<^verbatim>\<open>src/dyad/utils/murmur3.c\<close>. A key is its list of bytes; blocks are
  read little-endian, as on the platforms the code is built for. Every \<^verbatim>\<open>case\<close> of the tail
  \<^verbatim>\<open>switch\<close> ends in a \<^verbatim>\<open>break\<close> in this copy of the code, and the model keeps that. The \<^verbatim>\<open>int len\<close> of the
  source is the length of this list, so the model speaks of keys shorter than \<open>2 ^ 31\<close> bytes; the callers hash paths.
\<close>

section \<open>Rotations and finalisers\<close>

definition rotl32 :: "uint32 \<Rightarrow> nat \<Rightarrow> uint32" where
  "rotl32 x r = push_bit r x OR drop_bit (32 - r) x"

definition rotl64 :: "uint64 \<Rightarrow> nat \<Rightarrow> uint64" where
  "rotl64 x r = push_bit r x OR drop_bit (64 - r) x"

definition fmix32 :: "uint32 \<Rightarrow> uint32" where
  "fmix32 h =
     (let h = h XOR drop_bit 16 h;
          h = h * 0x85ebca6b;
          h = h XOR drop_bit 13 h;
          h = h * 0xc2b2ae35;
          h = h XOR drop_bit 16 h
      in h)"

definition fmix64 :: "uint64 \<Rightarrow> uint64" where
  "fmix64 k =
     (let k = k XOR drop_bit 33 k;
          k = k * 0xff51afd7ed558ccd;
          k = k XOR drop_bit 33 k;
          k = k * 0xc4ceb9fe1a85ec53;
          k = k XOR drop_bit 33 k
      in k)"

text \<open>\<open>getblock\<close>: the little-endian value of the \<open>n\<close> bytes at position \<open>p\<close>.\<close>

definition le_bytes :: "uint8 list \<Rightarrow> 'a::len word" where
  "le_bytes bs = foldr (\<lambda>b acc. ucast b OR push_bit 8 acc) bs 0"

definition getblock32 :: "uint8 list \<Rightarrow> nat \<Rightarrow> uint32" where
  "getblock32 data i = le_bytes (take 4 (drop (4 * i) data))"

definition getblock64 :: "uint8 list \<Rightarrow> nat \<Rightarrow> uint64" where
  "getblock64 data i = le_bytes (take 8 (drop (8 * i) data))"

section \<open>The 32-bit variant\<close>

definition mix_k32 :: "uint32 \<Rightarrow> uint32 \<Rightarrow> nat \<Rightarrow> uint32 \<Rightarrow> uint32" where
  "mix_k32 k ca r cb = rotl32 (k * ca) r * cb"

definition x86_32_round :: "uint8 list \<Rightarrow> uint32 \<Rightarrow> nat \<Rightarrow> uint32" where
  "x86_32_round data h1 i =
     (let k1 = mix_k32 (getblock32 data i) 0xcc9e2d51 15 0x1b873593;
          h1 = h1 XOR k1;
          h1 = rotl32 h1 13
      in h1 * 5 + 0xe6546b64)"

definition x86_32_tail :: "uint8 list \<Rightarrow> nat \<Rightarrow> uint32 \<Rightarrow> uint32" where
  "x86_32_tail tail m h1 =
     (if m = 3 then (let k1 = push_bit 16 (ucast (tail ! 2) :: uint32) in h1)
      else if m = 2 then (let k1 = push_bit 8 (ucast (tail ! 1) :: uint32) in h1)
      else if m = 1 then (let k1 = ucast (tail ! 0) in h1 XOR mix_k32 k1 0xcc9e2d51 15 0x1b873593)
      else h1)"

definition MurmurHash3_x86_32 :: "uint8 list \<Rightarrow> nat \<Rightarrow> uint32 \<Rightarrow> uint32" where
  "MurmurHash3_x86_32 key len seed =
     (let nblocks = len div 4;
          h1 = foldl (x86_32_round key) seed [0..<nblocks];
          h1 = x86_32_tail (drop (4 * nblocks) key) (len mod 4) h1;
          h1 = h1 XOR word_of_nat len
      in fmix32 h1)"

section \<open>The 128-bit variant for 32-bit machines\<close>

type_synonym x86_state = "uint32 \<times> uint32 \<times> uint32 \<times> uint32"

definition x86_128_round :: "uint8 list \<Rightarrow> x86_state \<Rightarrow> nat \<Rightarrow> x86_state" where
  "x86_128_round data = (\<lambda>(h1, h2, h3, h4) i.
     (let k1 = mix_k32 (getblock32 data (4 * i)) 0x239b961b 15 0xab0e9789;
          h1 = (rotl32 (h1 XOR k1) 19 + h2) * 5 + 0x561ccd1b;
          k2 = mix_k32 (getblock32 data (4 * i + 1)) 0xab0e9789 16 0x38b34ae5;
          h2 = (rotl32 (h2 XOR k2) 17 + h3) * 5 + 0x0bcaa747;
          k3 = mix_k32 (getblock32 data (4 * i + 2)) 0x38b34ae5 17 0xa1e38b93;
          h3 = (rotl32 (h3 XOR k3) 15 + h4) * 5 + 0x96cd1c35;
          k4 = mix_k32 (getblock32 data (4 * i + 3)) 0xa1e38b93 18 0x239b961b;
          h4 = (rotl32 (h4 XOR k4) 13 + h1) * 5 + 0x32ac3b17
      in (h1, h2, h3, h4)))"

definition x86_128_tail :: "uint8 list \<Rightarrow> nat \<Rightarrow> x86_state \<Rightarrow> x86_state" where
  "x86_128_tail tail m h = (case h of (h1, h2, h3, h4) \<Rightarrow>
     (if m = 15 then (let k4 = push_bit 16 (ucast (tail ! 14) :: uint32) in h)
      else if m = 14 then (let k4 = push_bit 8 (ucast (tail ! 13) :: uint32) in h)
      else if m = 13 then (let k4 = ucast (tail ! 12) in (h1, h2, h3, h4 XOR mix_k32 k4 0xa1e38b93 18 0x239b961b))
      else if m = 12 then (let k3 = push_bit 24 (ucast (tail ! 11) :: uint32) in h)
      else if m = 11 then (let k3 = push_bit 16 (ucast (tail ! 10) :: uint32) in h)
      else if m = 10 then (let k3 = push_bit 8 (ucast (tail ! 9) :: uint32) in h)
      else if m = 9 then (let k3 = ucast (tail ! 8) in (h1, h2, h3 XOR mix_k32 k3 0x38b34ae5 17 0xa1e38b93, h4))
      else if m = 8 then (let k2 = push_bit 24 (ucast (tail ! 7) :: uint32) in h)
      else if m = 7 then (let k2 = push_bit 16 (ucast (tail ! 6) :: uint32) in h)
      else if m = 6 then (let k2 = push_bit 8 (ucast (tail ! 5) :: uint32) in h)
      else if m = 5 then (let k2 = ucast (tail ! 4) in (h1, h2 XOR mix_k32 k2 0xab0e9789 16 0x38b34ae5, h3, h4))
      else if m = 4 then (let k1 = push_bit 24 (ucast (tail ! 3) :: uint32) in h)
      else if m = 3 then (let k1 = push_bit 16 (ucast (tail ! 2) :: uint32) in h)
      else if m = 2 then (let k1 = push_bit 8 (ucast (tail ! 1) :: uint32) in h)
      else if m = 1 then (let k1 = ucast (tail ! 0) in (h1 XOR mix_k32 k1 0x239b961b 15 0xab0e9789, h2, h3, h4))
      else h))"

definition x86_128_sum :: "x86_state \<Rightarrow> x86_state" where
  "x86_128_sum = (\<lambda>(h1, h2, h3, h4).
     (let h1 = h1 + h2; h1 = h1 + h3; h1 = h1 + h4
      in (h1, h2 + h1, h3 + h1, h4 + h1)))"

definition x86_128_final :: "nat \<Rightarrow> x86_state \<Rightarrow> x86_state" where
  "x86_128_final len = (\<lambda>(h1, h2, h3, h4).
     (let n = word_of_nat len;
          (h1, h2, h3, h4) = x86_128_sum (h1 XOR n, h2 XOR n, h3 XOR n, h4 XOR n)
      in x86_128_sum (fmix32 h1, fmix32 h2, fmix32 h3, fmix32 h4)))"

definition MurmurHash3_x86_128 :: "uint8 list \<Rightarrow> nat \<Rightarrow> uint32 \<Rightarrow> x86_state" where
  "MurmurHash3_x86_128 key len seed =
     (let nblocks = len div 16;
          h = foldl (x86_128_round key) (seed, seed, seed, seed) [0..<nblocks];
          h = x86_128_tail (drop (16 * nblocks) key) (len mod 16) h
      in x86_128_final len h)"

section \<open>The 128-bit variant for 64-bit machines\<close>

type_synonym x64_state = "uint64 \<times> uint64"

definition mix_k64 :: "uint64 \<Rightarrow> uint64 \<Rightarrow> nat \<Rightarrow> uint64 \<Rightarrow> uint64" where
  "mix_k64 k ca r cb = rotl64 (k * ca) r * cb"

definition mix_h64 :: "uint64 \<Rightarrow> nat \<Rightarrow> uint64 \<Rightarrow> uint64 \<Rightarrow> uint64" where
  "mix_h64 h r h' c = (rotl64 h r + h') * 5 + c"

definition x64_round :: "uint64 \<times> uint64 \<Rightarrow> x64_state \<Rightarrow> x64_state" where
  "x64_round = (\<lambda>(k1, k2) (h1, h2).
     (let k1 = mix_k64 k1 0x87c37b91114253d5 31 0x4cf5ad432745937f;
          h1 = mix_h64 (h1 XOR k1) 27 h2 0x52dce729;
          k2 = mix_k64 k2 0x4cf5ad432745937f 33 0x87c37b91114253d5;
          h2 = mix_h64 (h2 XOR k2) 31 h1 0x38495ab5
      in (h1, h2)))"

definition x64_block :: "uint8 list \<Rightarrow> nat \<Rightarrow> uint64 \<times> uint64" where
  "x64_block data i = (getblock64 data (2 * i), getblock64 data (2 * i + 1))"

definition x64_body :: "uint8 list \<Rightarrow> nat \<Rightarrow> x64_state \<Rightarrow> x64_state" where
  "x64_body data nblocks h = foldl (\<lambda>h i. x64_round (x64_block data i) h) h [0..<nblocks]"

definition x64_tail :: "uint8 list \<Rightarrow> nat \<Rightarrow> x64_state \<Rightarrow> x64_state" where
  "x64_tail tail m h = (case h of (h1, h2) \<Rightarrow>
     (if m = 15 then (let k2 = push_bit 48 (ucast (tail ! 14) :: uint64) in h)
      else if m = 14 then (let k2 = push_bit 40 (ucast (tail ! 13) :: uint64) in h)
      else if m = 13 then (let k2 = push_bit 32 (ucast (tail ! 12) :: uint64) in h)
      else if m = 12 then (let k2 = push_bit 24 (ucast (tail ! 11) :: uint64) in h)
      else if m = 11 then (let k2 = push_bit 16 (ucast (tail ! 10) :: uint64) in h)
      else if m = 10 then (let k2 = push_bit 8 (ucast (tail ! 9) :: uint64) in h)
      else if m = 9 then (let k2 = ucast (tail ! 8) in (h1, h2 XOR mix_k64 k2 0x4cf5ad432745937f 33 0x87c37b91114253d5))
      else if m = 8 then (let k1 = push_bit 56 (ucast (tail ! 7) :: uint64) in h)
      else if m = 7 then (let k1 = push_bit 48 (ucast (tail ! 6) :: uint64) in h)
      else if m = 6 then (let k1 = push_bit 40 (ucast (tail ! 5) :: uint64) in h)
      else if m = 5 then (let k1 = push_bit 32 (ucast (tail ! 4) :: uint64) in h)
      else if m = 4 then (let k1 = push_bit 24 (ucast (tail ! 3) :: uint64) in h)
      else if m = 3 then (let k1 = push_bit 16 (ucast (tail ! 2) :: uint64) in h)
      else if m = 2 then (let k1 = push_bit 8 (ucast (tail ! 1) :: uint64) in h)
      else if m = 1 then (let k1 = ucast (tail ! 0) in (h1 XOR mix_k64 k1 0x87c37b91114253d5 31 0x4cf5ad432745937f, h2))
      else h))"

definition x64_sum :: "x64_state \<Rightarrow> x64_state" where
  "x64_sum = (\<lambda>(h1, h2). (let h1 = h1 + h2 in (h1, h2 + h1)))"

definition x64_final :: "nat \<Rightarrow> x64_state \<Rightarrow> x64_state" where
  "x64_final len = (\<lambda>(h1, h2).
     (let (h1, h2) = x64_sum (h1 XOR word_of_nat len, h2 XOR word_of_nat len)
      in x64_sum (fmix64 h1, fmix64 h2)))"

definition MurmurHash3_x64_128 :: "uint8 list \<Rightarrow> nat \<Rightarrow> uint32 \<Rightarrow> x64_state" where
  "MurmurHash3_x64_128 key len seed =
     (let nblocks = len div 16;
          h = x64_body key nblocks (ucast seed, ucast seed);
          h = x64_tail (drop (16 * nblocks) key) (len mod 16) h
      in x64_final len h)"

section \<open>The mixing steps lose no information\<close>

named_theorems mix_inj "steps of the hash that are injective"

lemma rot_index:
  fixes n r :: nat
  shows "r < 64 \<Longrightarrow> n < 64 \<Longrightarrow> (n + 64 - r) mod 64 = (if r \<le> n then n - r else 64 + n - r)"
    and "r < 32 \<Longrightarrow> n < 32 \<Longrightarrow> (n + 32 - r) mod 32 = (if r \<le> n then n - r else 32 + n - r)"
  by (auto simp: mod_if)

lemma rotl64_eq_word_rotl: "r < 64 \<Longrightarrow> rotl64 x r = word_rotl r x"
  by (rule bit_word_eqI)
     (auto simp: rotl64_def bit_simps bit_word_rotl_iff rot_index dest: bit_imp_le_length)

lemma rotl32_eq_word_rotl: "r < 32 \<Longrightarrow> rotl32 x r = word_rotl r x"
  by (rule bit_word_eqI)
     (auto simp: rotl32_def bit_simps bit_word_rotl_iff rot_index dest: bit_imp_le_length)

lemma rotl64_inj [mix_inj]: "r < 64 \<Longrightarrow> rotl64 x r = rotl64 y r \<longleftrightarrow> x = y"
  by (metis rotl64_eq_word_rotl word_rot_lr)

lemma mult_unit_inj:
  fixes c d :: "'a::len word"
  assumes "c * d = 1"
  shows "a * c = b * c \<longleftrightarrow> a = b"
  by (metis assms mult.assoc mult.right_neutral)

lemma x64_units [mix_inj]:
  fixes a b :: uint64
  shows "a * 0xff51afd7ed558ccd = b * 0xff51afd7ed558ccd \<longleftrightarrow> a = b"
    and "a * 0xc4ceb9fe1a85ec53 = b * 0xc4ceb9fe1a85ec53 \<longleftrightarrow> a = b"
    and "a * 0x87c37b91114253d5 = b * 0x87c37b91114253d5 \<longleftrightarrow> a = b"
    and "a * 0x4cf5ad432745937f = b * 0x4cf5ad432745937f \<longleftrightarrow> a = b"
    and "a * 5 = b * 5 \<longleftrightarrow> a = b"
  by (rule mult_unit_inj [where d = "0x4f74430c22a54005"], simp,
      rule mult_unit_inj [where d = "0x9cb4b2f8129337db"], simp,
      rule mult_unit_inj [where d = "0xa98409e882ce4d7d"], simp,
      rule mult_unit_inj [where d = "0xa81e14edd9de2c7f"], simp,
      rule mult_unit_inj [where d = "0xcccccccccccccccd"], simp)

lemma x86_units [mix_inj]:
  fixes a b :: uint32
  shows "a * 0x85ebca6b = b * 0x85ebca6b \<longleftrightarrow> a = b"
    and "a * 0xc2b2ae35 = b * 0xc2b2ae35 \<longleftrightarrow> a = b"
  by (rule mult_unit_inj [where d = "0xa5cb9243"], simp,
      rule mult_unit_inj [where d = "0x7ed1b41d"], simp)

lemma xorshift64_33 [mix_inj]:
  fixes x y :: uint64
  shows "x XOR drop_bit 33 x = y XOR drop_bit 33 y \<longleftrightarrow> x = y"
proof -
  have "(z XOR drop_bit 33 z) XOR drop_bit 33 (z XOR drop_bit 33 z) = z" for z :: uint64
    by (rule bit_word_eqI) (auto simp: bit_simps)
  then show ?thesis by metis
qed

lemma xorshift32_16 [mix_inj]:
  fixes x y :: uint32
  shows "x XOR drop_bit 16 x = y XOR drop_bit 16 y \<longleftrightarrow> x = y"
proof -
  have "(z XOR drop_bit 16 z) XOR drop_bit 16 (z XOR drop_bit 16 z) = z" for z :: uint32
    by (rule bit_word_eqI) (auto simp: bit_simps)
  then show ?thesis by metis
qed

lemma xorshift32_13 [mix_inj]:
  fixes x y :: uint32
  shows "x XOR drop_bit 13 x = y XOR drop_bit 13 y \<longleftrightarrow> x = y"
proof -
  have "(\<lambda>v. v XOR drop_bit 13 v XOR drop_bit 26 v) (z XOR drop_bit 13 z) = z" for z :: uint32
    by (rule bit_word_eqI) (auto simp: bit_simps)
  then show ?thesis by metis
qed

lemma xor_right_inj [mix_inj]: "x XOR k = y XOR k \<longleftrightarrow> x = (y :: 'a::len word)"
  by (metis xor.assoc xor.right_neutral xor_self_eq)

lemma xor_left_inj [mix_inj]: "k XOR x = k XOR y \<longleftrightarrow> x = (y :: 'a::len word)"
  by (metis xor.assoc xor.left_neutral xor_self_eq)

lemma fmix64_inj [mix_inj]: "fmix64 x = fmix64 y \<longleftrightarrow> x = y"
  by (simp add: fmix64_def Let_def mix_inj)

lemma fmix32_inj [mix_inj]: "fmix32 x = fmix32 y \<longleftrightarrow> x = y"
  by (simp add: fmix32_def Let_def mix_inj)

lemma x64_sum_inj [mix_inj]: "x64_sum h = x64_sum h' \<longleftrightarrow> h = h'"
proof
  assume eq: "x64_sum h = x64_sum h'"
  obtain a b c d where h: "h = (a, b)" "h' = (c, d)" by (cases h; cases h')
  have "x64_sum h = (a + b, b + (a + b))" "x64_sum h' = (c + d, d + (c + d))"
    by (simp_all only: h x64_sum_def Let_def prod.case)
  with eq have s: "a + b = c + d" and t: "b + (a + b) = d + (c + d)"
    by (metis prod.inject)+
  from t have "b + (c + d) = d + (c + d)" by (simp only: s)
  then have "b = d" by (rule add_right_imp_eq)
  with s show "h = h'" unfolding h by simp
qed simp

lemma x64_final_eq:
  "x64_final len h = x64_sum (map_prod fmix64 fmix64
     (x64_sum (map_prod (\<lambda>x. x XOR word_of_nat len) (\<lambda>x. x XOR word_of_nat len) h)))"
  by (cases h) (simp add: x64_final_def x64_sum_def Let_def)

lemma map_prod_inj_iff:
  "(\<And>x y. f x = f y \<longleftrightarrow> x = y) \<Longrightarrow> (\<And>x y. g x = g y \<longleftrightarrow> x = y)
   \<Longrightarrow> map_prod f g p = map_prod f g q \<longleftrightarrow> p = q"
  by (cases p; cases q) simp

lemma x64_final_inj [mix_inj]: "x64_final len h = x64_final len h' \<longleftrightarrow> h = h'"
  by (simp add: x64_final_eq x64_sum_inj map_prod_inj_iff fmix64_inj xor_right_inj)

lemma mix_h64_inj [mix_inj]:
  "r < 64 \<Longrightarrow> mix_h64 x r y c = mix_h64 x' r y c \<longleftrightarrow> x = x'"
  by (simp add: mix_h64_def mix_inj)

lemma mix_k64_inj [mix_inj]:
  "mix_k64 x 0x87c37b91114253d5 31 0x4cf5ad432745937f = mix_k64 y 0x87c37b91114253d5 31 0x4cf5ad432745937f \<longleftrightarrow> x = y"
  "mix_k64 x 0x4cf5ad432745937f 33 0x87c37b91114253d5 = mix_k64 y 0x4cf5ad432745937f 33 0x87c37b91114253d5 \<longleftrightarrow> x = y"
  by (simp_all add: mix_k64_def mix_inj)

lemma x64_round_state_inj: "x64_round k h = x64_round k h' \<Longrightarrow> h = h'"
  by (cases k; cases h; cases h') (auto simp: x64_round_def Let_def mix_inj)

lemma x64_round_key_inj: "x64_round k h = x64_round k' h \<Longrightarrow> k = k'"
  by (cases k; cases k'; cases h) (auto simp: x64_round_def Let_def mix_inj)

lemma x64_tail_state_inj: "x64_tail t m h = x64_tail t m h' \<Longrightarrow> h = h'"
  by (cases h; cases h') (auto simp: x64_tail_def Let_def mix_inj split: if_splits)

section \<open>What the hash reads\<close>

lemma bit_le_bytes:
  "bit (le_bytes bs :: 'a::len word) n \<longleftrightarrow>
     n < LENGTH('a) \<and> n div 8 < length bs \<and> bit (bs ! (n div 8)) (n mod 8)"
proof (induction bs arbitrary: n)
  case Nil
  show ?case by (simp add: le_bytes_def)
next
  case (Cons b bs)
  have rec: "(le_bytes (b # bs) :: 'a word) = ucast b OR push_bit 8 (le_bytes bs)"
    by (simp add: le_bytes_def)
  show ?case
  proof (cases "n < 8")
    case True
    then show ?thesis by (auto simp: rec bit_simps dest: bit_imp_le_length)
  next
    case False
    then have "n div 8 = Suc ((n - 8) div 8)" "n mod 8 = (n - 8) mod 8"
      by (simp_all add: div_if mod_if)
    then show ?thesis using False
      by (auto simp: rec bit_simps Cons.IH dest: bit_imp_le_length)
  qed
qed

lemma le_bytes_inj:
  fixes bs cs :: "uint8 list"
  assumes "(le_bytes bs :: 'a::len word) = le_bytes cs"
    and len: "length bs = length cs" "8 * length bs \<le> LENGTH('a)"
  shows "bs = cs"
proof (rule nth_equalityI [OF len(1)])
  fix i assume i: "i < length bs"
  show "bs ! i = cs ! i"
  proof (rule bit_word_eqI)
    fix n assume n: "n < LENGTH(8)"
    have "bit (le_bytes bs :: 'a word) (8 * i + n) \<longleftrightarrow> bit (le_bytes cs :: 'a word) (8 * i + n)"
      by (simp add: assms(1))
    moreover have "(8 * i + n) div 8 = i" "(8 * i + n) mod 8 = n" "8 * i + n < LENGTH('a)"
      using n i len by simp_all
    ultimately show "bit (bs ! i) n \<longleftrightarrow> bit (cs ! i) n"
      using i len(1) by (simp add: bit_le_bytes)
  qed
qed

lemma getblock64_cong:
  assumes "take (8 * Suc i) data = take (8 * Suc i) data'"
  shows "getblock64 data i = getblock64 data' i"
proof -
  have "take 8 (drop (8 * i) d) = drop (8 * i) (take (8 * Suc i) d)" for d :: "uint8 list"
    by (simp add: drop_take)
  with assms show ?thesis by (simp add: getblock64_def)
qed

lemma take_le_cong: "take n xs = take n ys \<Longrightarrow> m \<le> n \<Longrightarrow> take m xs = take m ys"
  by (metis min.absorb1 take_take)

lemma x64_block_cong:
  assumes "take (16 * Suc i) data = take (16 * Suc i) data'"
  shows "x64_block data i = x64_block data' i"
  using assms take_le_cong [OF assms]
  by (auto simp: x64_block_def intro!: getblock64_cong)

lemma x64_body_cong:
  assumes "take (16 * nb) data = take (16 * nb) data'"
  shows "x64_body data nb h = x64_body data' nb h"
  unfolding x64_body_def
proof (rule foldl_cong_list)
  fix h i assume "i \<in> set [0..<nb]"
  then have "take (16 * Suc i) data = take (16 * Suc i) data'"
    by (intro take_le_cong [OF assms]) auto
  then show "x64_round (x64_block data i) h = x64_round (x64_block data' i) h"
    using x64_block_cong by metis
qed

lemma x64_body_state_inj: "x64_body data nb h = x64_body data nb h' \<Longrightarrow> h = h'"
  unfolding x64_body_def by (erule foldl_inj [rotated]) (rule x64_round_state_inj)

lemma drop_le_cong: "drop n xs = drop n ys \<Longrightarrow> n \<le> m \<Longrightarrow> drop m xs = drop m ys"
  by (metis drop_drop le_add_diff_inverse2)

lemma x64_block_drop_cong:
  assumes "drop (16 * i) data = drop (16 * i) data'"
  shows "x64_block data i = x64_block data' i"
proof -
  have "drop (8 * (2 * i)) data = drop (8 * (2 * i)) data'"
    "drop (8 * (2 * i + 1)) data = drop (8 * (2 * i + 1)) data'"
    by (rule drop_le_cong [OF assms], simp)+
  then show ?thesis by (simp add: x64_block_def getblock64_def)
qed

lemma x64_block_inj:
  assumes eq: "x64_block key i = x64_block key' i"
    and len: "16 * Suc i \<le> length key" "16 * Suc i \<le> length key'"
  shows "take 16 (drop (16 * i) key) = take 16 (drop (16 * i) key')"
proof -
  have inj: "take 8 (drop (8 * j) key) = take 8 (drop (8 * j) key')"
    if "getblock64 key j = getblock64 key' j" "j < 2 * Suc i" for j
    using that len by (intro le_bytes_inj [where ?'a = 64]) (auto simp: getblock64_def)
  have halves: "take 16 (drop (16 * i) d) = take 8 (drop (8 * (2 * i)) d) @ take 8 (drop (8 * (2 * i + 1)) d)"
    for d :: "uint8 list"
    using take_add [of 8 8 "drop (16 * i) d"] by (simp add: add.commute)
  show ?thesis
    unfolding halves using eq inj [of "2 * i"] inj [of "2 * i + 1"] by (simp add: x64_block_def)
qed

lemma x64_body_one_block:
  assumes i: "i < nb" and len: "16 * nb \<le> length key" "length key' = length key"
    and before: "take (16 * i) key = take (16 * i) key'"
    and after: "drop (16 * Suc i) key = drop (16 * Suc i) key'"
    and body: "x64_body key nb h = x64_body key' nb h"
  shows "key = key'"
proof -
  let ?f = "\<lambda>d h j. x64_round (x64_block d j) h"
  have idx: "[0..<nb] = [0..<i] @ i # [Suc i..<nb]"
    using i by (metis upt_conv_Cons le_add_diff_inverse less_imp_le upt_add_eq_append zero_le)
  have pre: "foldl (?f key) h [0..<i] = foldl (?f key') h [0..<i]"
    using x64_body_cong [OF before] by (simp add: x64_body_def)
  have "x64_block key j = x64_block key' j" if "j \<in> set [Suc i..<nb]" for j
    using that by (intro x64_block_drop_cong drop_le_cong [OF after]) auto
  then have post: "foldl (?f key) g [Suc i..<nb] = foldl (?f key') g [Suc i..<nb]" for g
    by (intro foldl_cong_list) metis
  have "?f key (foldl (?f key) h [0..<i]) i = ?f key' (foldl (?f key) h [0..<i]) i"
    using body pre post
    by (auto simp: x64_body_def idx intro!: foldl_inj [of "[Suc i..<nb]" "?f key'"]
        dest: x64_round_state_inj)
  then have "x64_block key i = x64_block key' i" by (rule x64_round_key_inj)
  then have "take 16 (drop (16 * i) key) = take 16 (drop (16 * i) key')"
    using i len by (intro x64_block_inj) auto
  with before after show ?thesis
    by (metis append_take_drop_id drop_drop mult_Suc_right)
qed

section \<open>Properties\<close>

text \<open>
  C25: no collision inside a block. Two keys of the same length that agree everywhere but in one
  full 16-byte block get different 128-bit hashes, for every seed: each mixing step of
  \<^verbatim>\<open>MurmurHash3_x64_128\<close> is injective.
\<close>

theorem x64_128_one_block_differs:
  assumes "length key = len" and "length key' = len" and "i < len div 16"
    and "take (16 * i) key = take (16 * i) key'"
    and "drop (16 * Suc i) key = drop (16 * Suc i) key'"
    and "key \<noteq> key'"
  shows "MurmurHash3_x64_128 key len seed \<noteq> MurmurHash3_x64_128 key' len seed"
proof
  let ?nb = "len div 16"
  assume "MurmurHash3_x64_128 key len seed = MurmurHash3_x64_128 key' len seed"
  moreover have "drop (16 * ?nb) key = drop (16 * ?nb) key'"
    by (rule drop_le_cong [OF assms(5)]) (use assms(3) in auto)
  ultimately have "x64_body key ?nb (ucast seed, ucast seed) = x64_body key' ?nb (ucast seed, ucast seed)"
    by (simp add: MurmurHash3_x64_128_def Let_def x64_final_inj) (blast dest: x64_tail_state_inj)
  then have "key = key'"
    by (rule x64_body_one_block [OF assms(3) _ _ assms(4,5), rotated 2]) (use assms(1,2) in auto)
  with assms(6) show False by simp
qed

theorem x64_128_one_block_differs_witness:
  "MurmurHash3_x64_128 (replicate 31 7 @ [1]) 32 57 \<noteq> MurmurHash3_x64_128 (replicate 31 7 @ [2]) 32 57"
  by (rule x64_128_one_block_differs [where i = 1]) code_simp+

text \<open>
  C26: the tail of a key is hashed in part only. Because every tail case ends in a
  \<^verbatim>\<open>break\<close>, the bytes after the last full block do not enter the hash at all unless the length
  is 1 or 9 modulo 16, and then only one of them does.
\<close>

theorem x64_128_tail_ignored:
  assumes "take (16 * (len div 16)) key = take (16 * (len div 16)) key'"
    and "len mod 16 = 1 \<Longrightarrow> drop (16 * (len div 16)) key ! 0 = drop (16 * (len div 16)) key' ! 0"
    and "len mod 16 = 9 \<Longrightarrow> drop (16 * (len div 16)) key ! 8 = drop (16 * (len div 16)) key' ! 8"
  shows "MurmurHash3_x64_128 key len seed = MurmurHash3_x64_128 key' len seed"
proof -
  have "x64_tail (drop (16 * (len div 16)) key) (len mod 16) h
      = x64_tail (drop (16 * (len div 16)) key') (len mod 16) h" for h
    using assms(2,3) by (auto simp: x64_tail_def split: prod.split)
  then show ?thesis
    using x64_body_cong [OF assms(1)] by (simp add: MurmurHash3_x64_128_def Let_def)
qed

theorem x64_128_tail_ignored_witness:
  "MurmurHash3_x64_128 (replicate 16 7 @ [1, 2, 3]) 19 57
     = MurmurHash3_x64_128 (replicate 16 7 @ [9, 8, 7]) 19 57"
  by (rule x64_128_tail_ignored, code_simp) simp_all

end
