(* ===== verification/Base64.thy ===== *)
theory Base64
  imports Dyad_Base
begin

text \<open>
  The base64 codec of \<^verbatim>\<open>src/dyad/utils/base64/base64.c\<close>. Characters and buffer cells are
  bytes; a decode map holds \<^verbatim>\<open>signed char\<close> values, with \<open>- 1\<close> for a byte outside the
  alphabet. The encoder returns the errno it sets, or the number it returns together
  with the destination buffer it leaves behind; the decoder writes into a given buffer, and a write outside of it is \<open>None\<close>.
\<close>

section \<open>The maps\<close>

record base64_maps_t =
  encode_map :: "uint8 list"
  decode_map :: "int list"

datatype b64_errno = EDOM | EINVAL | EOVERFLOW

definition sixbit_to_b64 :: "base64_maps_t \<Rightarrow> uint8 \<Rightarrow> uint8" where
  "sixbit_to_b64 maps sixbit = encode_map maps ! unat sixbit"

definition sixbit_from_b64 :: "base64_maps_t \<Rightarrow> uint8 \<Rightarrow> b64_errno + uint8" where
  "sixbit_from_b64 maps b64letter =
     (let ret = decode_map maps ! unat b64letter
      in if ret = - 1 then Inl EDOM else Inr (word_of_int ret))"

definition base64_char_in_alphabet :: "base64_maps_t \<Rightarrow> uint8 \<Rightarrow> bool" where
  "base64_char_in_alphabet maps b64char \<longleftrightarrow> decode_map maps ! unat b64char \<noteq> - 1"

definition base64_init_maps :: "uint8 list \<Rightarrow> base64_maps_t" where
  "base64_init_maps src =
     \<lparr>encode_map = src,
      decode_map = foldl (\<lambda>m i. m[unat (src ! i) := int i]) (replicate 256 (- 1)) [0..<64]\<rparr>"

definition rfc4648_alphabet :: "uint8 list" where
  "rfc4648_alphabet =
     bytes_of_string ''ABCDEFGHIJKLMNOPQRSTUVWXYZabcdefghijklmnopqrstuvwxyz0123456789+/''"

definition base64_maps_rfc4648 :: base64_maps_t where
  "base64_maps_rfc4648 =
     \<lparr>encode_map = rfc4648_alphabet,
      decode_map = [
        - 1, - 1, - 1, - 1, - 1, - 1, - 1, - 1, - 1, - 1, - 1, - 1, - 1, - 1, - 1, - 1,
        - 1, - 1, - 1, - 1, - 1, - 1, - 1, - 1, - 1, - 1, - 1, - 1, - 1, - 1, - 1, - 1,
        - 1, - 1, - 1, - 1, - 1, - 1, - 1, - 1, - 1, - 1, - 1, 62, - 1, - 1, - 1, 63,
        52, 53, 54, 55, 56, 57, 58, 59, 60, 61, - 1, - 1, - 1, - 1, - 1, - 1,
        - 1, 0, 1, 2, 3, 4, 5, 6, 7, 8, 9, 10, 11, 12, 13, 14,
        15, 16, 17, 18, 19, 20, 21, 22, 23, 24, 25, - 1, - 1, - 1, - 1, - 1,
        - 1, 26, 27, 28, 29, 30, 31, 32, 33, 34, 35, 36, 37, 38, 39, 40,
        41, 42, 43, 44, 45, 46, 47, 48, 49, 50, 51, - 1, - 1, - 1, - 1, - 1,
        - 1, - 1, - 1, - 1, - 1, - 1, - 1, - 1, - 1, - 1, - 1, - 1, - 1, - 1, - 1, - 1,
        - 1, - 1, - 1, - 1, - 1, - 1, - 1, - 1, - 1, - 1, - 1, - 1, - 1, - 1, - 1, - 1,
        - 1, - 1, - 1, - 1, - 1, - 1, - 1, - 1, - 1, - 1, - 1, - 1, - 1, - 1, - 1, - 1,
        - 1, - 1, - 1, - 1, - 1, - 1, - 1, - 1, - 1, - 1, - 1, - 1, - 1, - 1, - 1, - 1,
        - 1, - 1, - 1, - 1, - 1, - 1, - 1, - 1, - 1, - 1, - 1, - 1, - 1, - 1, - 1, - 1,
        - 1, - 1, - 1, - 1, - 1, - 1, - 1, - 1, - 1, - 1, - 1, - 1, - 1, - 1, - 1, - 1,
        - 1, - 1, - 1, - 1, - 1, - 1, - 1, - 1, - 1, - 1, - 1, - 1, - 1, - 1, - 1, - 1,
        - 1, - 1, - 1, - 1, - 1, - 1, - 1, - 1, - 1, - 1, - 1, - 1, - 1, - 1, - 1, - 1]\<rparr>"

section \<open>Encoding\<close>

definition base64_encoded_length :: "size_t \<Rightarrow> size_t" where
  "base64_encoded_length srclen = ((srclen + 2) div 3) * 4"

definition base64_encode_triplet_using_maps ::
  "base64_maps_t \<Rightarrow> uint8 \<Rightarrow> uint8 \<Rightarrow> uint8 \<Rightarrow> uint8 list" where
  "base64_encode_triplet_using_maps maps a b c =
     [sixbit_to_b64 maps (drop_bit 2 (a AND 0xfc)),
      sixbit_to_b64 maps (push_bit 4 (a AND 0x3) OR drop_bit 4 (b AND 0xf0)),
      sixbit_to_b64 maps (drop_bit 6 (c AND 0xc0) OR push_bit 2 (b AND 0xf)),
      sixbit_to_b64 maps (c AND 0x3f)]"

definition pad_char :: uint8 where "pad_char = 61"

text \<open>\<^verbatim>\<open>longsrc\<close> is the source padded with zero bytes; the last \<^verbatim>\<open>3 - srclen\<close> letters become
  padding.\<close>

definition base64_encode_tail_using_maps :: "base64_maps_t \<Rightarrow> uint8 list \<Rightarrow> uint8 list" where
  "base64_encode_tail_using_maps maps src =
     (let longsrc = src @ replicate (3 - length src) 0;
          dest = base64_encode_triplet_using_maps maps (longsrc ! 0) (longsrc ! 1) (longsrc ! 2)
      in take (1 + length src) dest @ replicate (3 - length src) pad_char)"

text \<open>The \<^verbatim>\<open>while\<close> loop over whole triplets, then the tail when bytes are left.\<close>

fun encode_loop :: "base64_maps_t \<Rightarrow> uint8 list \<Rightarrow> uint8 list" where
  "encode_loop maps (a # b # c # rest) =
     base64_encode_triplet_using_maps maps a b c @ encode_loop maps rest"
| "encode_loop maps [] = []"
| "encode_loop maps src = base64_encode_tail_using_maps maps src"

definition base64_encode_using_maps ::
  "base64_maps_t \<Rightarrow> size_t \<Rightarrow> uint8 list \<Rightarrow> b64_errno + (nat \<times> uint8 list)" where
  "base64_encode_using_maps maps destlen src =
     (if destlen < base64_encoded_length (of_nat (length src)) then Inl EOVERFLOW
      else (let out = encode_loop maps src
            in Inr (length out, out @ replicate (unat destlen - length out) 0)))"

section \<open>Decoding\<close>

definition base64_decoded_length :: "size_t \<Rightarrow> size_t" where
  "base64_decoded_length srclen = (srclen + 3) div 4 * 3"

text \<open>
  The decoder writes into the caller's buffer, whose cells are a list: \<open>put_bytes\<close> is a write, and \<open>None\<close> one
  that leaves the buffer. A result is the errno or the number returned, with the buffer as it is left behind, also after an
  error.
\<close>

definition put_bytes :: "uint8 list \<Rightarrow> nat \<Rightarrow> uint8 list \<Rightarrow> uint8 list option" where
  "put_bytes dest off bs =
     (if off + length bs \<le> length dest then Some (take off dest @ bs @ drop (off + length bs) dest) else None)"

text \<open>The three bytes of a quartet.\<close>

definition quartet_bytes :: "base64_maps_t \<Rightarrow> uint8 \<Rightarrow> uint8 \<Rightarrow> uint8 \<Rightarrow> uint8 \<Rightarrow> b64_errno + uint8 list" where
  "quartet_bytes maps s0 s1 s2 s3 =
     (case (sixbit_from_b64 maps s0, sixbit_from_b64 maps s1,
            sixbit_from_b64 maps s2, sixbit_from_b64 maps s3) of
        (Inr a, Inr b, Inr c, Inr d) \<Rightarrow>
          Inr [push_bit 2 a OR drop_bit 4 b,
               push_bit 4 (b AND 0xf) OR drop_bit 2 c,
               push_bit 6 (c AND 0x3) OR d]
      | _ \<Rightarrow> Inl EDOM)"

definition base64_decode_quartet_using_maps ::
  "base64_maps_t \<Rightarrow> uint8 list \<Rightarrow> nat \<Rightarrow> uint8 \<Rightarrow> uint8 \<Rightarrow> uint8 \<Rightarrow> uint8
     \<Rightarrow> ((b64_errno + unit) \<times> uint8 list) option" where
  "base64_decode_quartet_using_maps maps dest off s0 s1 s2 s3 =
     (case quartet_bytes maps s0 s1 s2 s3 of
        Inl e \<Rightarrow> Some (Inl e, dest)
      | Inr bs \<Rightarrow> map_option (\<lambda>dest. (Inr (), dest)) (put_bytes dest off bs))"

lemma decode_quartet_room:
  assumes "quartet_bytes maps s0 s1 s2 s3 = Inr [a, b, c]" "off + 3 \<le> length dest"
  shows "base64_decode_quartet_using_maps maps dest off s0 s1 s2 s3
     = Some (Inr (), take off dest @ [a, b, c] @ drop (off + 3) dest)"
proof -
  have l: "length [a, b, c] = 3" by simp
  show ?thesis using assms unfolding base64_decode_quartet_using_maps_def put_bytes_def assms(1) sum.case l by simp
qed

definition strip_padding :: "uint8 list \<Rightarrow> uint8 list" where
  "strip_padding src = rev (dropWhile (\<lambda>c. c = pad_char) (rev src))"

text \<open>
  The whole quartet is written, also when fewer bytes count. Copying more than four letters would leave \<^verbatim>\<open>longsrc\<close>.
\<close>

definition base64_decode_tail_using_maps ::
  "base64_maps_t \<Rightarrow> uint8 list \<Rightarrow> nat \<Rightarrow> uint8 list \<Rightarrow> ((b64_errno + nat) \<times> uint8 list) option" where
  "base64_decode_tail_using_maps maps dest off src =
     (let s = strip_padding src; insize = length s in
      if insize = 0 then Some (Inr 0, dest)
      else if insize = 1 then Some (Inl EINVAL, dest)
      else if 4 < insize then None
      else (let longsrc = s @ replicate (4 - insize) 65 in
            case base64_decode_quartet_using_maps maps dest off
                   (longsrc ! 0) (longsrc ! 1) (longsrc ! 2) (longsrc ! 3) of
              None \<Rightarrow> None
            | Some (Inl e, dest) \<Rightarrow> Some (Inl e, dest)
            | Some (Inr _, dest) \<Rightarrow> Some (Inr (insize - 1), dest)))"

text \<open>The \<^verbatim>\<open>for\<close> loop decodes quartets while more than four letters are left.\<close>

fun decode_loop ::
  "base64_maps_t \<Rightarrow> uint8 list \<Rightarrow> nat \<Rightarrow> uint8 list \<Rightarrow> ((b64_errno + nat) \<times> uint8 list) option" where
  "decode_loop maps dest dest_offset (s0 # s1 # s2 # s3 # s4 # rest) =
     (case base64_decode_quartet_using_maps maps dest dest_offset s0 s1 s2 s3 of
        None \<Rightarrow> None
      | Some (Inl e, dest) \<Rightarrow> Some (Inl e, dest)
      | Some (Inr _, dest) \<Rightarrow> decode_loop maps dest (dest_offset + 3) (s4 # rest))"
| "decode_loop maps dest dest_offset src =
     (case base64_decode_tail_using_maps maps dest dest_offset src of
        None \<Rightarrow> None
      | Some (Inl e, dest) \<Rightarrow> Some (Inl e, dest)
      | Some (Inr m, dest) \<Rightarrow> Some (Inr (dest_offset + m), dest))"

definition base64_decode_using_maps ::
  "base64_maps_t \<Rightarrow> uint8 list \<Rightarrow> size_t \<Rightarrow> uint8 list \<Rightarrow> ((b64_errno + nat) \<times> uint8 list) option" where
  "base64_decode_using_maps maps dest destlen src =
     (if destlen < base64_decoded_length (of_nat (length src)) then Some (Inl EOVERFLOW, dest)
      else (case decode_loop maps dest 0 src of
              None \<Rightarrow> None
            | Some (Inl e, dest) \<Rightarrow> Some (Inl e, dest)
            | Some (Inr n, dest) \<Rightarrow>
                map_option (\<lambda>dest. (Inr n, dest)) (put_bytes dest n (replicate (unat (destlen - of_nat n)) 0))))"

lemma decode_loop_short:
  "length src \<le> 4 \<Longrightarrow> decode_loop maps dest off src =
     (case base64_decode_tail_using_maps maps dest off src of
        None \<Rightarrow> None
      | Some (Inl e, dest) \<Rightarrow> Some (Inl e, dest)
      | Some (Inr m, dest) \<Rightarrow> Some (Inr (off + m), dest))"
  by (cases "(maps, dest, off, src)" rule: decode_loop.cases) auto

section \<open>The alphabet interface\<close>

text \<open>
  What the codec needs of a pair of maps: the two maps are inverse on six-bit values, no letter
  is the padding character, and the letter \<open>A\<close> the decoder pads with is in the alphabet.
\<close>

locale b64_maps =
  fixes maps :: base64_maps_t
  assumes from_to: "take_bit 6 v = v \<Longrightarrow> sixbit_from_b64 maps (sixbit_to_b64 maps v) = Inr v"
    and to_not_pad: "take_bit 6 v = v \<Longrightarrow> sixbit_to_b64 maps v \<noteq> pad_char"
    and fill_letter: "\<exists>v. sixbit_from_b64 maps 65 = Inr v"
begin

lemma sixbit_parts:
  fixes a b c :: uint8
  shows "take_bit 6 (drop_bit 2 (a AND 0xfc)) = drop_bit 2 (a AND 0xfc)"
    and "take_bit 6 (push_bit 4 (a AND 0x3) OR drop_bit 4 (b AND 0xf0))
           = push_bit 4 (a AND 0x3) OR drop_bit 4 (b AND 0xf0)"
    and "take_bit 6 (drop_bit 6 (c AND 0xc0) OR push_bit 2 (b AND 0xf))
           = drop_bit 6 (c AND 0xc0) OR push_bit 2 (b AND 0xf)"
    and "take_bit 6 (c AND 0x3f) = c AND 0x3f"
  by ((rule bit_word_eqI, auto simp: bit_simps less_8_iff)[1])+

lemma byte_parts:
  fixes a b c :: uint8
  shows "push_bit 2 (drop_bit 2 (a AND 0xfc)) OR
         drop_bit 4 (push_bit 4 (a AND 0x3) OR drop_bit 4 (b AND 0xf0)) = a"
    and "push_bit 4 ((push_bit 4 (a AND 0x3) OR drop_bit 4 (b AND 0xf0)) AND 0xf) OR
         drop_bit 2 (drop_bit 6 (c AND 0xc0) OR push_bit 2 (b AND 0xf)) = b"
    and "push_bit 6 ((drop_bit 6 (c AND 0xc0) OR push_bit 2 (b AND 0xf)) AND 0x3) OR (c AND 0x3f) = c"
  by ((rule bit_word_eqI, auto simp: bit_simps less_8_iff numeral_2_eq_2 [symmetric])[1])+

lemma quartet_triplet:
  assumes "base64_encode_triplet_using_maps maps a b c = [s0, s1, s2, s3]"
  shows "quartet_bytes maps s0 s1 s2 s3 = Inr [a, b, c]"
proof -
  have s: "s0 = sixbit_to_b64 maps (drop_bit 2 (a AND 0xfc))"
    "s1 = sixbit_to_b64 maps (push_bit 4 (a AND 0x3) OR drop_bit 4 (b AND 0xf0))"
    "s2 = sixbit_to_b64 maps (drop_bit 6 (c AND 0xc0) OR push_bit 2 (b AND 0xf))"
    "s3 = sixbit_to_b64 maps (c AND 0x3f)"
    using assms by (simp_all only: base64_encode_triplet_using_maps_def list.inject)
  show ?thesis
    by (simp only: s quartet_bytes_def sixbit_parts [THEN from_to]
        prod.case sum.case byte_parts)
qed

lemma triplet_length [simp]: "length (base64_encode_triplet_using_maps maps a b c) = 4"
  by (simp add: base64_encode_triplet_using_maps_def)

lemma triplet_cases:
  obtains s0 s1 s2 s3 where "base64_encode_triplet_using_maps maps a b c = [s0, s1, s2, s3]"
    and "s0 \<noteq> pad_char" "s1 \<noteq> pad_char" "s2 \<noteq> pad_char" "s3 \<noteq> pad_char"
proof
  show "base64_encode_triplet_using_maps maps a b c =
    [sixbit_to_b64 maps (drop_bit 2 (a AND 0xfc)),
     sixbit_to_b64 maps (push_bit 4 (a AND 0x3) OR drop_bit 4 (b AND 0xf0)),
     sixbit_to_b64 maps (drop_bit 6 (c AND 0xc0) OR push_bit 2 (b AND 0xf)),
     sixbit_to_b64 maps (c AND 0x3f)]"
    by (simp only: base64_encode_triplet_using_maps_def)
qed (rule sixbit_parts [THEN to_not_pad])+

text \<open>
  The tail: one, two or three bytes are encoded as two, three or four letters and padding, and
  the decoder gets exactly these bytes back.
\<close>

lemma dropWhile_replicate:
  "dropWhile (\<lambda>c. c = p) (replicate n p @ ys) = dropWhile (\<lambda>c. c = p) ys"
  by (induction n) auto

lemma strip_padding_letters:
  "s \<noteq> pad_char \<Longrightarrow> strip_padding (xs @ [s] @ replicate n pad_char) = xs @ [s]"
  by (simp add: strip_padding_def dropWhile_replicate)

lemma quartet_prefix:
  assumes "quartet_bytes maps s0 s1 s2 s3 = Inr [a, b, c]" and "sixbit_from_b64 maps x = Inr v"
  shows "\<exists>c'. quartet_bytes maps s0 s1 s2 x = Inr [a, b, c']"
    and "\<exists>b' c'. quartet_bytes maps s0 s1 x x = Inr [a, b', c']"
  using assms
  by (auto simp: quartet_bytes_def split: sum.splits)

lemma decode_tail_encode:
  assumes "0 < length xs" "length xs \<le> 3" "off + 3 \<le> length dest"
  shows "\<exists>ys. base64_decode_tail_using_maps maps dest off (base64_encode_tail_using_maps maps xs)
      = Some (Inr (length xs), take off dest @ xs @ ys) \<and> off + length xs + length ys = length dest"
proof -
  obtain v where fill: "sixbit_from_b64 maps 65 = Inr v" using fill_letter by blast
  from assms consider a where "xs = [a]" | a b where "xs = [a, b]" | a b c where "xs = [a, b, c]"
    by (auto simp: le_Suc_eq numeral_3_eq_3 length_Suc_conv)
  then show ?thesis
  proof cases
    case (1 a)
    obtain s0 s1 s2 s3 where t: "base64_encode_triplet_using_maps maps a 0 0 = [s0, s1, s2, s3]"
      and n: "s1 \<noteq> pad_char" by (rule triplet_cases)
    show ?thesis
      using strip_padding_letters [OF n, of "[s0]" 2] quartet_prefix(2) [OF quartet_triplet [OF t] fill] assms(3)
      by (auto simp: 1 base64_encode_tail_using_maps_def base64_decode_tail_using_maps_def t
          base64_decode_quartet_using_maps_def put_bytes_def numeral_2_eq_2 numeral_3_eq_3 Let_def)
  next
    case (2 a b)
    obtain s0 s1 s2 s3 where t: "base64_encode_triplet_using_maps maps a b 0 = [s0, s1, s2, s3]"
      and n: "s2 \<noteq> pad_char" by (rule triplet_cases)
    show ?thesis
      using strip_padding_letters [OF n, of "[s0, s1]" 1] quartet_prefix(1) [OF quartet_triplet [OF t] fill] assms(3)
      by (auto simp: 2 base64_encode_tail_using_maps_def base64_decode_tail_using_maps_def t
          base64_decode_quartet_using_maps_def put_bytes_def numeral_2_eq_2 numeral_3_eq_3 Let_def)
  next
    case (3 a b c)
    obtain s0 s1 s2 s3 where t: "base64_encode_triplet_using_maps maps a b c = [s0, s1, s2, s3]"
      and n: "s3 \<noteq> pad_char" by (rule triplet_cases)
    show ?thesis
      using strip_padding_letters [OF n, of "[s0, s1, s2]" 0] quartet_triplet [OF t] assms(3)
      by (auto simp: 3 base64_encode_tail_using_maps_def base64_decode_tail_using_maps_def t
          base64_decode_quartet_using_maps_def put_bytes_def numeral_2_eq_2 numeral_3_eq_3 Let_def)
  qed
qed

text \<open>The whole input: the decoder inverts the encoder.\<close>

lemma encode_tail_length: "length xs \<le> 3 \<Longrightarrow> length (base64_encode_tail_using_maps maps xs) = 4"
  by (simp add: base64_encode_tail_using_maps_def Let_def)

lemma encode_loop_length: "length (encode_loop maps xs) = 4 * ((length xs + 2) div 3)"
proof (induction xs rule: by3_induct)
  case (Three a b c xs)
  then show ?case by simp presburger
qed (simp_all add: encode_tail_length)

lemma encode_loop_nonempty: "xs \<noteq> [] \<Longrightarrow> encode_loop maps xs \<noteq> []"
  using encode_loop_length [of xs] by (cases xs) auto

lemma thirds: "0 < n \<Longrightarrow> 3 \<le> 3 * ((n + 2) div 3)" "(n + 3 + 2) div 3 = (n + 2) div 3 + 1" for n :: nat
  by presburger+

lemma decode_tail_encode_loop:
  assumes "length xs \<le> 3" "off + 3 * ((length xs + 2) div 3) \<le> length dest"
  shows "\<exists>ys. decode_loop maps dest off (if xs = [] then [] else base64_encode_tail_using_maps maps xs)
      = Some (Inr (off + length xs), take off dest @ xs @ ys) \<and> off + length xs + length ys = length dest"
proof (cases "xs = []")
  case True
  then show ?thesis
    using assms by (simp add: base64_decode_tail_using_maps_def strip_padding_def)
      (metis append_take_drop_id length_drop le_add_diff_inverse)
next
  case False
  then have "off + 3 \<le> length dest" using assms(2) thirds(1) [of "length xs"] by simp
  with decode_tail_encode [OF _ assms(1)] False obtain ys where
    "base64_decode_tail_using_maps maps dest off (base64_encode_tail_using_maps maps xs)
       = Some (Inr (length xs), take off dest @ xs @ ys)" "off + length xs + length ys = length dest"
    by blast
  with False show ?thesis by (simp add: decode_loop_short encode_tail_length [OF assms(1)])
qed

lemma decode_encode_loop:
  "off + 3 * ((length xs + 2) div 3) \<le> length dest \<Longrightarrow>
   \<exists>ys. decode_loop maps dest off (encode_loop maps xs) = Some (Inr (off + length xs), take off dest @ xs @ ys)
      \<and> off + length xs + length ys = length dest"
proof (induction xs arbitrary: dest off rule: by3_induct)
  case (Three a b c xs)
  obtain s0 s1 s2 s3 where t: "base64_encode_triplet_using_maps maps a b c = [s0, s1, s2, s3]"
    and n: "s3 \<noteq> pad_char" by (rule triplet_cases)
  show ?case
  proof (cases "encode_loop maps xs")
    case Nil
    then have xs: "xs = []" using encode_loop_nonempty by blast
    with t have "encode_loop maps (a # b # c # xs) = base64_encode_tail_using_maps maps [a, b, c]"
      by (simp add: base64_encode_tail_using_maps_def)
    with decode_tail_encode_loop [of "[a, b, c]" off dest] Three.prems show ?thesis by (simp add: xs)
  next
    case (Cons s4 rest)
    let ?d = "take off dest @ [a, b, c] @ drop (off + 3) dest"
    have "length (a # b # c # xs) + 2 = length xs + 3 + 2" by simp
    then have room: "off + 3 + 3 * ((length xs + 2) div 3) \<le> length dest"
      using Three.prems thirds(2) [of "length xs"] by (simp only: distrib_left mult_1_right ac_simps)
    then have "off + 3 + 3 * ((length xs + 2) div 3) \<le> length ?d" by simp
    from Three.IH [OF this] obtain ys where "decode_loop maps ?d (off + 3) (s4 # rest)
        = Some (Inr (off + 3 + length xs), take (off + 3) ?d @ xs @ ys)" "off + 3 + length xs + length ys = length ?d"
      unfolding Cons by blast
    moreover have "take (off + 3) ?d = take off dest @ [a, b, c]" "length ?d = length dest" using room by simp_all
    moreover have "decode_loop maps dest off (encode_loop maps (a # b # c # xs)) = decode_loop maps ?d (off + 3) (s4 # rest)"
      using Cons t decode_quartet_room [OF quartet_triplet [OF t]] room by simp
    moreover have "off + length (a # b # c # xs) = off + 3 + length xs" by simp
    ultimately show ?thesis by (simp del: encode_loop.simps decode_loop.simps length_Cons)
  qed
next
  case Nil
  with decode_tail_encode_loop [of "[]" off dest] show ?case by simp
next
  case (One a)
  with decode_tail_encode_loop [of "[a]" off dest] show ?case by simp
next
  case (Two a b)
  with decode_tail_encode_loop [of "[a, b]" off dest] show ?case by simp
qed

end

section \<open>Maps that satisfy the interface\<close>

definition good_alphabet :: "uint8 list \<Rightarrow> bool" where
  "good_alphabet al \<longleftrightarrow> length al = 64 \<and> distinct al \<and> pad_char \<notin> set al \<and> 65 \<in> set al"

lemma foldl_update_lookup:
  assumes "inj_on f {..<n}" and "\<forall>i<n. f i < length m"
  shows "j < n \<Longrightarrow> foldl (\<lambda>m i. m[f i := g i]) m [0..<n] ! f j = g j"
proof -
  have "length (foldl (\<lambda>m i. m[f i := g i]) m [0..<k]) = length m" for k
    by (induction k) auto
  then show "j < n \<Longrightarrow> ?thesis" using assms
  proof (induction n)
    case (Suc n)
    then show ?case
      by (cases "j = n") (auto simp: inj_on_def nth_list_update less_Suc_eq lessThan_Suc)
  qed simp
qed

lemma unat_less_256: "unat (x :: uint8) < 256"
  using unsigned_less [of x] by simp

lemma init_maps_lookup:
  assumes "good_alphabet al" "i < 64"
  shows "decode_map (base64_init_maps al) ! unat (al ! i) = int i"
  unfolding base64_init_maps_def
  using assms
  by (simp, intro foldl_update_lookup)
     (auto simp: good_alphabet_def inj_on_def nth_eq_iff_index_eq unat_less_256
       dest!: word_unat_eq_iff [THEN iffD2])

lemma init_maps_b64_maps:
  assumes "good_alphabet al"
  shows "b64_maps (base64_init_maps al)"
proof
  fix v :: uint8 assume "take_bit 6 v = v"
  then have v: "unat v < 64"
    using take_bit_nat_less_exp [of 6 "unat v"] by (simp flip: unsigned_take_bit_eq)
  have uint_nn: "uint v \<noteq> - 1" using uint_ge_0 [of v] by linarith
  show "sixbit_from_b64 (base64_init_maps al) (sixbit_to_b64 (base64_init_maps al) v) = Inr v"
    using init_maps_lookup [OF assms v] uint_nn
    by (auto simp: sixbit_from_b64_def sixbit_to_b64_def base64_init_maps_def)
  show "sixbit_to_b64 (base64_init_maps al) v \<noteq> pad_char"
    using assms v by (auto simp: good_alphabet_def sixbit_to_b64_def base64_init_maps_def in_set_conv_nth)
next
  from assms obtain i where "i < 64" "al ! i = 65"
    by (auto simp: good_alphabet_def in_set_conv_nth)
  then show "\<exists>v. sixbit_from_b64 (base64_init_maps al) 65 = Inr v"
    using init_maps_lookup [OF assms, of i] by (simp add: sixbit_from_b64_def Let_def)
qed

text \<open>The literal table of the code is the table its own initialiser computes.\<close>

lemma rfc4648_alphabet_good: "good_alphabet rfc4648_alphabet"
  by code_simp

interpretation rfc4648: b64_maps base64_maps_rfc4648
proof -
  have "base64_maps_rfc4648 = base64_init_maps rfc4648_alphabet" by code_simp
  then show "b64_maps base64_maps_rfc4648"
    using init_maps_b64_maps [OF rfc4648_alphabet_good] by simp
qed

section \<open>Sizes\<close>

lemma unat_encoded_length:
  assumes "n < 2 ^ 62"
  shows "unat (base64_encoded_length (of_nat n)) = 4 * ((n + 2) div 3)"
proof -
  have a: "unat (of_nat n + 2 :: size_t) = n + 2"
    using assms by (simp add: unat_word_ariths unat_of_nat take_bit_eq_mod)
  have "4 * ((n + 2) div 3) < 2 ^ 64" using assms by auto
  then show ?thesis
    using assms by (simp add: base64_encoded_length_def unat_word_ariths unat_div a unat_of_nat take_bit_eq_mod)
qed

lemma unat_decoded_length:
  assumes "n < 2 ^ 63"
  shows "unat (base64_decoded_length (of_nat n)) = (n + 3) div 4 * 3"
proof -
  have a: "unat (of_nat n + 3 :: size_t) = n + 3"
    using assms by (simp add: unat_word_ariths unat_of_nat take_bit_eq_mod)
  have "(n + 3) div 4 * 3 < 2 ^ 64" using assms by auto
  then show ?thesis
    using assms by (simp add: base64_decoded_length_def unat_word_ariths unat_div a unat_of_nat take_bit_eq_mod)
qed

lemma unat_rest: "k \<le> unat d \<Longrightarrow> unat (d - of_nat k) = unat d - k" for d :: size_t
proof -
  assume k: "k \<le> unat d"
  then have "k < 2 ^ LENGTH(64)" using unsigned_less by (rule le_less_trans)
  with k show ?thesis by (simp add: unat_sub word_le_nat_alt unat_of_nat take_bit_nat_eq_self)
qed

text \<open>
  Every write of the decoder is inside a buffer with room for the decoded length, whatever becomes of the decoding.
\<close>

definition within :: "nat \<Rightarrow> nat \<Rightarrow> uint8 list \<Rightarrow> ((b64_errno + nat) \<times> uint8 list) option \<Rightarrow> bool" where
  "within n off dest r \<longleftrightarrow> (\<exists>x d. r = Some (x, d) \<and> length d = length dest \<and> (\<forall>k. x = Inr k \<longrightarrow> k \<le> off + n))"

lemma put_bytes_length: "put_bytes dest off bs = Some d \<Longrightarrow> length d = length dest"
  by (auto simp: put_bytes_def split: if_splits)

lemma decode_quartet_within:
  assumes "off + 3 \<le> length dest"
  obtains x d where "base64_decode_quartet_using_maps maps dest off s0 s1 s2 s3 = Some (x, d)" "length d = length dest"
proof -
  have "length bs = 3" if "quartet_bytes maps s0 s1 s2 s3 = Inr bs" for bs
    using that by (auto simp: quartet_bytes_def split: sum.splits)
  with assms that show thesis
    by (cases "quartet_bytes maps s0 s1 s2 s3") (auto simp: base64_decode_quartet_using_maps_def put_bytes_def)
qed

lemma decode_tail_within:
  assumes "length src \<le> 4" "src \<noteq> [] \<longrightarrow> off + 3 \<le> length dest"
  shows "within (if src = [] then 0 else 3) 0 dest (base64_decode_tail_using_maps maps dest off src)"
proof -
  let ?s = "strip_padding src"
  have l: "length ?s \<le> length src" using length_dropWhile_le [of _ "rev src"] by (simp add: strip_padding_def)
  show ?thesis
  proof (cases "length ?s \<le> 1")
    case True
    then have "length ?s = 0 \<or> length ?s = 1" by linarith
    then show ?thesis by (elim disjE) (simp_all add: base64_decode_tail_using_maps_def within_def Let_def)
  next
    case False
    with l have "src \<noteq> []" by auto
    with assms(2) have "off + 3 \<le> length dest" by simp
    moreover define long where "long = ?s @ replicate (4 - length ?s) 65"
    ultimately obtain x d where "base64_decode_quartet_using_maps maps dest off (long ! 0) (long ! 1) (long ! 2) (long ! 3) = Some (x, d)"
      "length d = length dest" by (rule_tac decode_quartet_within)
    moreover have "base64_decode_tail_using_maps maps dest off src =
       (case base64_decode_quartet_using_maps maps dest off (long ! 0) (long ! 1) (long ! 2) (long ! 3) of
          None \<Rightarrow> None
        | Some (Inl e, dest) \<Rightarrow> Some (Inl e, dest)
        | Some (Inr _, dest) \<Rightarrow> Some (Inr (length ?s - 1), dest))"
      using False l assms(1) by (auto simp: base64_decode_tail_using_maps_def Let_def long_def)
    moreover have "length ?s - 1 \<le> 3" using l assms(1) by simp
    ultimately show ?thesis using \<open>src \<noteq> []\<close> by (cases x) (simp_all add: within_def)
  qed
qed

lemma decode_short_within:
  assumes "length src \<le> 4" "off + (length src + 3) div 4 * 3 \<le> length dest"
  shows "within ((length src + 3) div 4 * 3) off dest (decode_loop maps dest off src)"
proof -
  have n: "(length src + 3) div 4 * 3 = (if src = [] then 0 else 3)" using assms(1) by (cases src) auto
  have "within (if src = [] then 0 else 3) 0 dest (base64_decode_tail_using_maps maps dest off src)"
    by (rule decode_tail_within) (use assms n in auto)
  then show ?thesis
    unfolding n decode_loop_short [OF assms(1)] by (auto simp: within_def split: sum.split)
qed

lemma decode_loop_within:
  "off + (length src + 3) div 4 * 3 \<le> length dest \<Longrightarrow>
   within ((length src + 3) div 4 * 3) off dest (decode_loop maps dest off src)"
proof (induction maps dest off src rule: decode_loop.induct)
  case (1 maps dest off s0 s1 s2 s3 s4 rest)
  let ?l = "length (s4 # rest)"
  have n: "(length (s0 # s1 # s2 # s3 # s4 # rest) + 3) div 4 * 3 = 3 + (?l + 3) div 4 * 3" by (simp, presburger)
  from "1.prems" n have "off + 3 \<le> length dest" by simp
  then obtain x d where d: "base64_decode_quartet_using_maps maps dest off s0 s1 s2 s3 = Some (x, d)" "length d = length dest"
    by (rule decode_quartet_within)
  show ?case
  proof (cases x)
    case (Inr u)
    have "within ((?l + 3) div 4 * 3) (off + 3) d (decode_loop maps d (off + 3) (s4 # rest))"
      by (rule "1.IH" [OF d(1) refl Inr]) (use "1.prems" n d(2) in simp)
    with d Inr n show ?thesis by (auto simp: within_def)
  qed (use d in \<open>simp add: within_def\<close>)
qed (rule decode_short_within, simp, assumption)+

section \<open>Properties\<close>

lemma decode_encoded:
  assumes e: "e = encode_loop base64_maps_rfc4648 src"
    and "base64_decoded_length (of_nat (length e)) \<le> backlen" "length dest = unat backlen" "length e < 2 ^ 63"
  shows "base64_decode_using_maps base64_maps_rfc4648 dest backlen e
           = Some (Inr (length src), src @ replicate (unat backlen - length src) 0)"
proof -
  have "length e = 4 * ((length src + 2) div 3)" unfolding e by (rule rfc4648.encode_loop_length)
  then have "unat (base64_decoded_length (of_nat (length e))) = 3 * ((length src + 2) div 3)"
    using unat_decoded_length [OF assms(4)] by simp
  with assms(2) have room: "3 * ((length src + 2) div 3) \<le> unat backlen" by (simp add: word_le_nat_alt)
  then have "length src \<le> unat backlen" by presburger
  then have rest: "unat (backlen - of_nat (length src)) = unat backlen - length src" by (rule unat_rest)
  from rfc4648.decode_encode_loop [of 0 src dest] room assms(3) obtain ys where
    "decode_loop base64_maps_rfc4648 dest 0 e = Some (Inr (length src), src @ ys)" "length src + length ys = unat backlen"
    unfolding e by auto
  moreover have "\<not> backlen < base64_decoded_length (of_nat (length e))" using assms(2) by simp
  ultimately show ?thesis
    using rest by (simp only: base64_decode_using_maps_def if_False option.case prod.case sum.case)
      (simp add: put_bytes_def)
qed

text \<open>
  C23: round trip. Whatever \<^verbatim>\<open>base64_encode\<close> writes into a large enough buffer, \<^verbatim>\<open>base64_decode\<close>
  turns back into the source bytes, followed by zeros up to the end of its buffer, whatever the buffer held before. (A text in
  memory has fewer than \<open>2 ^ 63\<close> characters.)
\<close>

theorem base64_roundtrip:
  assumes "base64_encode_using_maps base64_maps_rfc4648 destlen src = Inr (n, out)"
    and "base64_decoded_length (of_nat n) \<le> backlen" and "length dest = unat backlen" and "n < 2 ^ 63"
  shows "base64_decode_using_maps base64_maps_rfc4648 dest backlen (take n out)
           = Some (Inr (length src), src @ replicate (unat backlen - length src) 0)"
proof -
  from assms(1) have "take n out = encode_loop base64_maps_rfc4648 src" "n = length (take n out)"
    by (auto simp: base64_encode_using_maps_def Let_def split: if_splits)
  with assms(2-) show ?thesis by (intro decode_encoded) simp_all
qed

theorem base64_roundtrip_witness:
  "base64_decode_using_maps base64_maps_rfc4648 [1, 2, 3, 4, 5, 6] 6
     (take 8 (bytes_of_string ''3q2+7w=='' @ [0, 0]))
   = Some (Inr (length [222, 173, 190, 239 :: uint8]),
          [222, 173, 190, 239] @ replicate (unat (6 :: size_t) - length [222, 173, 190, 239 :: uint8]) 0)"
proof (rule base64_roundtrip [where destlen = 10])
  show "base64_encode_using_maps base64_maps_rfc4648 10 [222, 173, 190, 239] = Inr (8, bytes_of_string ''3q2+7w=='' @ [0, 0])"
    "base64_decoded_length (of_nat 8) \<le> 6" by code_simp+
qed simp_all

text \<open>
  The literal decode table. The 256 entries written out in the source are exactly the table
  \<^verbatim>\<open>base64_init_maps\<close> builds from the RFC 4648 alphabet.
\<close>

theorem base64_rfc4648_table: "base64_maps_rfc4648 = base64_init_maps rfc4648_alphabet"
  by code_simp

text \<open>
  C24: the decoder never writes outside its buffer. For any maps and any input, valid or not, every write of
  \<^verbatim>\<open>base64_decode_using_maps\<close> (the three bytes of each quartet, also of the padded one and of those before an
  error, and the final zeros) is inside the buffer of \<^verbatim>\<open>destlen\<close> bytes, so the call returns and leaves a buffer of that size; what
  it reports as decoded is at most \<^verbatim>\<open>base64_decoded_length\<close>, which the size check has compared with the buffer.
\<close>

theorem base64_decode_in_bounds:
  assumes "length src < 2 ^ 63" and "length dest = unat destlen"
  shows "\<exists>r d. base64_decode_using_maps maps dest destlen src = Some (r, d) \<and> length d = unat destlen
     \<and> (\<forall>n. r = Inr n \<longrightarrow> n \<le> unat (base64_decoded_length (of_nat (length src))) \<and> n \<le> unat destlen)"
proof (cases "destlen < base64_decoded_length (of_nat (length src))")
  case False
  let ?n = "(length src + 3) div 4 * 3"
  have n: "unat (base64_decoded_length (of_nat (length src))) = ?n" by (rule unat_decoded_length [OF assms(1)])
  with False have room: "?n \<le> length dest" by (simp add: word_le_nat_alt word_less_nat_alt assms(2))
  with decode_loop_within [of 0 src dest maps] obtain x d where
    x: "decode_loop maps dest 0 src = Some (x, d)" "length d = length dest" "\<forall>k. x = Inr k \<longrightarrow> k \<le> ?n"
    by (auto simp: within_def)
  show ?thesis
  proof (cases x)
    case (Inr k)
    then have k: "k \<le> ?n" "k \<le> unat destlen" using x(3) room assms(2) by auto
    then have "unat (destlen - of_nat k) = unat destlen - k" by (intro unat_rest)
    with False x Inr k n assms(2) show ?thesis by (simp add: base64_decode_using_maps_def put_bytes_def)
  qed (use False x assms(2) in \<open>simp add: base64_decode_using_maps_def\<close>)
qed (use assms(2) in \<open>simp add: base64_decode_using_maps_def\<close>)

theorem base64_decode_in_bounds_witness:
  "\<exists>r d. base64_decode_using_maps base64_maps_rfc4648 [1, 2, 3] 3 [81, 81, 61, 61] = Some (r, d) \<and> length d = unat (3 :: size_t)
     \<and> (\<forall>n. r = Inr n \<longrightarrow> n \<le> unat (base64_decoded_length (of_nat (length [81, 81, 61, 61 :: uint8])))
          \<and> n \<le> unat (3 :: size_t))"
  by (rule base64_decode_in_bounds [of "[81, 81, 61, 61]" "[1, 2, 3]" 3 base64_maps_rfc4648]) simp_all

end
