(* ===== verification/Structures.thy ===== *)
theory Structures
  imports Complex_Main Dyad_Base
begin

text \<open>
  The data the components share: \<^verbatim>\<open>struct dyad_ctx\<close> of
  \<^verbatim>\<open>src/dyad/common/dyad_structures_int.h\<close> with its default value, the modes of
  \<^verbatim>\<open>include/dyad/common/dyad_dtl.h\<close> and \<^verbatim>\<open>dyad_cache.h\<close>, the transport handle of
  \<^verbatim>\<open>src/dyad/dtl/dyad_dtl_api.h\<close> as far as the Flux transport uses it, and the policy handle of
  \<^verbatim>\<open>src/dyad/cache/dyad_cache_api.h\<close>. A pointer that may be \<^verbatim>\<open>NULL\<close> is an \<open>option\<close>.
\<close>

section \<open>Modes\<close>

datatype dyad_dtl_mode = DTL_UCX | DTL_MARGO | DTL_FLUX_RPC | DTL_END

abbreviation "DTL_DEFAULT \<equiv> DTL_FLUX_RPC"

fun dyad_dtl_mode_name :: "dyad_dtl_mode \<Rightarrow> string" where
  "dyad_dtl_mode_name DTL_UCX = ''UCX''"
| "dyad_dtl_mode_name DTL_MARGO = ''MARGO''"
| "dyad_dtl_mode_name DTL_FLUX_RPC = ''FLUX_RPC''"
| "dyad_dtl_mode_name DTL_END = ''DTL_UNKNOWN''"

datatype dyad_dtl_comm_mode = COMM_NONE | COMM_RECV | COMM_SEND | COMM_END

datatype dyad_cache_policy_mode = CACHE_NONE | CACHE_LRU | CACHE_FIFO | CACHE_END

abbreviation "CACHE_DEFAULT \<equiv> CACHE_LRU"

fun dyad_cache_policy_name :: "dyad_cache_policy_mode \<Rightarrow> string" where
  "dyad_cache_policy_name CACHE_NONE = ''NONE''"
| "dyad_cache_policy_name CACHE_LRU = ''LRU''"
| "dyad_cache_policy_name CACHE_FIFO = ''FIFO''"
| "dyad_cache_policy_name CACHE_END = ''CACHE_UNKNOWN''"

section \<open>File metadata\<close>

text \<open>The fields of \<^verbatim>\<open>struct stat\<close> the code reads. \<open>st_mode\<close> holds the permission bits.\<close>

record c_stat =
  st_isdir :: bool
  st_isreg :: bool
  st_mode :: nat
  st_size :: int
  st_atime :: int
  st_mtime :: int

section \<open>The transport handle\<close>

text \<open>Flux futures and messages are opaque handles, numbered by the model.\<close>

type_synonym flux_future = nat
type_synonym flux_msg = nat
type_synonym flux_handle = nat

record dyad_dtl_flux =
  fdtl_h :: "flux_handle option"
  fdtl_comm_mode :: dyad_dtl_comm_mode
  fdtl_debug :: bool
  fdtl_f :: "flux_future option"
  fdtl_msg :: "flux_msg option"

text \<open>
  \<open>dtl_wired\<close> tells whether an init function has filled in the function pointers;
  \<open>dtl_has_detach\<close> whether \<^verbatim>\<open>rpc_detach_request\<close> is among them.
\<close>

record dyad_dtl =
  dtl_mode :: dyad_dtl_mode
  flux_dtl_handle :: "dyad_dtl_flux option"
  dtl_wired :: bool
  dtl_has_detach :: bool
  send_detached_is_thread_safe :: bool

section \<open>The cache-eviction policy handle\<close>

record dyad_cache_policy =
  policy_mode :: dyad_cache_policy_mode
  policy_handle :: bool
  get_recency_key :: "(c_stat option \<Rightarrow> dyad_rc + int) option"

section \<open>The context\<close>

record dyad_ctx =
  ctx_h :: "flux_handle option"
  dtl_handle :: "dyad_dtl option"
  ctx_fname :: "string option"
  use_fs_locks :: bool
  prod_real_path :: "string option"
  cons_real_path :: "string option"
  prod_managed_len :: uint32
  cons_managed_len :: uint32
  prod_real_len :: uint32
  cons_real_len :: uint32
  prod_managed_hash :: uint32
  cons_managed_hash :: uint32
  prod_real_hash :: uint32
  cons_real_hash :: uint32
  delim_len :: uint32
  ctx_debug :: bool
  ctx_check :: bool
  reenter :: bool
  initialized :: bool
  shared_storage :: bool
  async_publish :: bool
  fsync_write :: bool
  key_depth :: uint32
  key_bins :: uint32
  ctx_rank :: uint32
  service_mux :: uint32
  node_idx :: uint32
  ctx_pid :: int
  kvs_namespace :: "string option"
  prod_managed_path :: "string option"
  cons_managed_path :: "string option"
  relative_to_managed_path :: bool
  cache_policy :: "dyad_cache_policy option"
  cache_policy_mode :: dyad_cache_policy_mode
  cache_capacity_bytes :: uint64
  cache_low_watermark_frac :: rat
  cache_grace_period_sec :: uint32
  origin_path :: "string option"

definition dyad_ctx_default :: dyad_ctx where
  "dyad_ctx_default =
     \<lparr>ctx_h = None, dtl_handle = None, ctx_fname = None, use_fs_locks = False,
      prod_real_path = None, cons_real_path = None,
      prod_managed_len = 0, cons_managed_len = 0, prod_real_len = 0, cons_real_len = 0,
      prod_managed_hash = 0, cons_managed_hash = 0, prod_real_hash = 0, cons_real_hash = 0,
      delim_len = 0,
      ctx_debug = False, ctx_check = False, reenter = False, initialized = True,
      shared_storage = False, async_publish = False, fsync_write = False,
      key_depth = 3, key_bins = 1024, ctx_rank = 0, service_mux = 1, node_idx = 0, ctx_pid = - 1,
      kvs_namespace = None, prod_managed_path = None, cons_managed_path = None,
      relative_to_managed_path = False,
      cache_policy = None, cache_policy_mode = CACHE_NONE, cache_capacity_bytes = 0,
      cache_low_watermark_frac = 8 / 10, cache_grace_period_sec = 5, origin_path = None\<rparr>"

section \<open>Constants of the build\<close>

definition PATH_MAX :: nat where "PATH_MAX = 4096"

definition PATH_DELIM :: string where "PATH_DELIM = ''/''"

definition DYAD_SEED :: uint32 where "DYAD_SEED = 104723"

text \<open>\<^verbatim>\<open>DYAD_POSIX_TRANSFER_GRANULARITY\<close>: one GiB.\<close>

definition TRANSFER_GRANULARITY :: nat where "TRANSFER_GRANULARITY = 1024 * 1024 * 1024"

text \<open>Build options: \<^verbatim>\<open>DYAD_SYNC_DIR\<close> and \<^verbatim>\<open>DYAD_SPIN_WAIT\<close> are off unless the build defines them.\<close>

definition DYAD_SYNC_DIR :: bool where "DYAD_SYNC_DIR = False"

definition DYAD_SPIN_WAIT :: bool where "DYAD_SPIN_WAIT = False"

text \<open>A path copied with \<^verbatim>\<open>strncpy (dst, src, PATH_MAX - 1)\<close>.\<close>

definition copy_path :: "string \<Rightarrow> string" where
  "copy_path s = take (PATH_MAX - 1) s"

end
