(* ===== verification/Posix.thy ===== *)
theory Posix
  imports Structures "HOL-Library.State_Monad"
begin

text \<open>
  The part of the C library and the kernel the code runs on, as a state monad over a \<open>world\<close>:
  a file system of named inodes, the open files and advisory record locks of the process, the
  locks other processes hold, \<^verbatim>\<open>errno\<close>, the clock and the file mode mask. Every system call
  first takes the next entry of the schedule \<open>faults\<close>, by which it may fail with any error or
  transfer less than it was asked for; an empty schedule means the call does its normal work.
  A call that has to wait for a lock resumes when the holder is done, with the contents
  the holder leaves in the file (\<open>others\<close>). A directory is read in the order \<open>dir_order\<close> gives its
  entries. Names are looked up literally, permissions are not
  checked (a refusal is a fault), and descriptors are numbered upwards and never reused.
  The section at the end is the calculus of weakest preconditions the proofs of stateful code use.
\<close>

section \<open>The world\<close>

datatype c_errno =
    E_NONE | EINVAL | ENOENT | EEXIST | EISDIR | ENOTDIR | EBADF | EAGAIN | EACCES | EINTR
  | EIO | ENOSPC | EDEADLK | ENOMEM | ENOTEMPTY | ENODATA | EPROTO | ENOSYS | ETIMEDOUT
  | EFAULT | ECONNREFUSED | ECOMM

datatype fault = Good | Err c_errno | Short nat

datatype lock_kind = F_RDLCK | F_WRLCK

type_synonym bytes = "uint8 list"

record inode =
  i_dir :: bool
  i_mode :: nat
  i_data :: bytes
  i_atime :: int
  i_mtime :: int

record open_file =
  o_ino :: nat
  o_rd :: bool
  o_wr :: bool
  o_app :: bool
  o_off :: nat
  o_path :: string

record world =
  names :: "string \<rightharpoonup> nat"
  inodes :: "nat \<rightharpoonup> inode"
  next_ino :: nat
  fds :: "nat \<rightharpoonup> open_file"
  next_fd :: nat
  locks :: "nat \<rightharpoonup> lock_kind"
  others :: "nat \<rightharpoonup> lock_kind \<times> bytes"
  errno :: c_errno
  now :: int
  file_mask :: nat
  dir_order :: "string \<Rightarrow> string list"
  faults :: "fault list"

type_synonym ('x, 'a) io = "('x world_scheme, 'a) state"

section \<open>Open flags\<close>

type_synonym oflag = "32 word"

definition O_RDONLY :: oflag where "O_RDONLY = 0"
definition O_WRONLY :: oflag where "O_WRONLY = 1"
definition O_RDWR :: oflag where "O_RDWR = 2"
definition O_ACCMODE :: oflag where "O_ACCMODE = 3"
definition O_CREAT :: oflag where "O_CREAT = 0x40"
definition O_EXCL :: oflag where "O_EXCL = 0x80"
definition O_TRUNC :: oflag where "O_TRUNC = 0x200"
definition O_APPEND :: oflag where "O_APPEND = 0x400"
definition O_DIRECTORY :: oflag where "O_DIRECTORY = 0x10000"

definition has_flag :: "oflag \<Rightarrow> oflag \<Rightarrow> bool" where
  "has_flag flags f \<longleftrightarrow> flags AND f = f"

definition opens_read :: "oflag \<Rightarrow> bool" where
  "opens_read flags \<longleftrightarrow> flags AND O_ACCMODE = O_RDONLY \<or> flags AND O_ACCMODE = O_RDWR"

definition opens_write :: "oflag \<Rightarrow> bool" where
  "opens_write flags \<longleftrightarrow> flags AND O_ACCMODE = O_WRONLY \<or> flags AND O_ACCMODE = O_RDWR"

lemmas oflag_defs = O_RDONLY_def O_WRONLY_def O_RDWR_def O_ACCMODE_def O_CREAT_def O_EXCL_def
  O_TRUNC_def O_APPEND_def O_DIRECTORY_def has_flag_def opens_read_def opens_write_def

section \<open>Path components\<close>

text \<open>\<^verbatim>\<open>dirname\<close>: what precedes the last component, \<open>.\<close> when there is no delimiter.\<close>

definition strip_trailing :: "string \<Rightarrow> string" where
  "strip_trailing p = rev (dropWhile (\<lambda>c. c = CHR ''/'') (rev p))"

definition dirname :: "string \<Rightarrow> string" where
  "dirname p =
     (let q = strip_trailing p in
      if q = [] then (if p = [] then ''.'' else ''/'')
      else let d = rev (dropWhile (\<lambda>c. c \<noteq> CHR ''/'') (rev q)) in
           if d = [] then ''.''
           else let e = strip_trailing d in if e = [] then ''/'' else e)"

section \<open>System calls\<close>

definition fail :: "c_errno \<Rightarrow> 'x world_scheme \<Rightarrow> int \<times> 'x world_scheme" where
  "fail e w = (- 1, w\<lparr>errno := e\<rparr>)"

text \<open>A call that consults the schedule.\<close>

definition syscall :: "(fault \<Rightarrow> 'x world_scheme \<Rightarrow> 'a \<times> 'x world_scheme) \<Rightarrow> ('x, 'a) io" where
  "syscall f = State (\<lambda>w. case faults w of [] \<Rightarrow> f Good w | x # xs \<Rightarrow> f x (w\<lparr>faults := xs\<rparr>))"

definition inode_of_fd :: "'x world_scheme \<Rightarrow> int \<Rightarrow> (open_file \<times> inode) option" where
  "inode_of_fd w fd =
     (if fd < 0 then None
      else case fds w (nat fd) of None \<Rightarrow> None
        | Some f \<Rightarrow> (case inodes w (o_ino f) of None \<Rightarrow> None | Some i \<Rightarrow> Some (f, i)))"

definition inode_of_path :: "'x world_scheme \<Rightarrow> string \<Rightarrow> inode option" where
  "inode_of_path w p = (case names w p of None \<Rightarrow> None | Some n \<Rightarrow> inodes w n)"

definition is_dir :: "'x world_scheme \<Rightarrow> string \<Rightarrow> bool" where
  "is_dir w p = (case inode_of_path w p of None \<Rightarrow> False | Some i \<Rightarrow> i_dir i)"

text \<open>\<^verbatim>\<open>malloc\<close>, \<^verbatim>\<open>calloc\<close> and \<^verbatim>\<open>strdup\<close>: whether memory was obtained.\<close>

definition sys_malloc :: "('x, bool) io" where
  "sys_malloc = syscall (\<lambda>flt w. case flt of Err e \<Rightarrow> (False, w\<lparr>errno := ENOMEM\<rparr>) | _ \<Rightarrow> (True, w))"

definition new_fd :: "nat \<Rightarrow> string \<Rightarrow> oflag \<Rightarrow> 'x world_scheme \<Rightarrow> int \<times> 'x world_scheme" where
  "new_fd ino path flags w =
     (int (next_fd w),
      w\<lparr>fds := (fds w)(next_fd w \<mapsto>
           \<lparr>o_ino = ino, o_rd = opens_read flags, o_wr = opens_write flags,
            o_app = has_flag flags O_APPEND, o_off = 0, o_path = path\<rparr>),
        next_fd := next_fd w + 1\<rparr>)"

definition new_file :: "string \<Rightarrow> inode \<Rightarrow> 'x world_scheme \<Rightarrow> 'x world_scheme" where
  "new_file path i w =
     w\<lparr>names := (names w)(path \<mapsto> next_ino w), inodes := (inodes w)(next_ino w \<mapsto> i),
       next_ino := next_ino w + 1\<rparr>"

text \<open>The permission bits a new file gets: those requested without those of the mask.\<close>

definition masked :: "nat \<Rightarrow> 'x world_scheme \<Rightarrow> nat" where
  "masked mode w = mode - (mode AND file_mask w)"

definition sys_open :: "string \<Rightarrow> oflag \<Rightarrow> nat \<Rightarrow> ('x, int) io" where
  "sys_open path flags mode = syscall (\<lambda>flt w. case flt of Err e \<Rightarrow> fail e w | _ \<Rightarrow>
     (case names w path of
        None \<Rightarrow>
          if \<not> has_flag flags O_CREAT then fail ENOENT w
          else if \<not> is_dir w (dirname path) then fail ENOENT w
          else new_fd (next_ino w) path flags
                 (new_file path \<lparr>i_dir = False, i_mode = masked mode w, i_data = [],
                                 i_atime = now w, i_mtime = now w\<rparr> w)
      | Some n \<Rightarrow>
          (case inodes w n of
             None \<Rightarrow> fail ENOENT w
           | Some i \<Rightarrow>
               if has_flag flags O_CREAT \<and> has_flag flags O_EXCL then fail EEXIST w
               else if i_dir i \<and> opens_write flags then fail EISDIR w
               else if \<not> i_dir i \<and> has_flag flags O_DIRECTORY then fail ENOTDIR w
               else if has_flag flags O_TRUNC \<and> opens_write flags
               then new_fd n path flags (w\<lparr>inodes := (inodes w)(n \<mapsto> i\<lparr>i_data := [], i_mtime := now w\<rparr>)\<rparr>)
               else new_fd n path flags w)))"

text \<open>Closing any descriptor of a file drops the process's record locks on the file.\<close>

definition drop_fd :: "int \<Rightarrow> 'x world_scheme \<Rightarrow> 'x world_scheme" where
  "drop_fd fd w =
     (case fds w (nat fd) of
        None \<Rightarrow> w
      | Some f \<Rightarrow> w\<lparr>fds := (fds w)(nat fd := None), locks := (locks w)(o_ino f := None)\<rparr>)"

definition sys_close :: "int \<Rightarrow> ('x, int) io" where
  "sys_close fd = syscall (\<lambda>flt w.
     if fd < 0 \<or> fds w (nat fd) = None then fail EBADF w
     else case flt of Err e \<Rightarrow> fail e (drop_fd fd w) | _ \<Rightarrow> (0, drop_fd fd w))"

definition limit :: "fault \<Rightarrow> nat \<Rightarrow> nat" where
  "limit flt n = (case flt of Short k \<Rightarrow> min k n | _ \<Rightarrow> n)"

definition set_off :: "int \<Rightarrow> nat \<Rightarrow> 'x world_scheme \<Rightarrow> 'x world_scheme" where
  "set_off fd off w =
     (case fds w (nat fd) of
        None \<Rightarrow> w | Some f \<Rightarrow> w\<lparr>fds := (fds w)(nat fd \<mapsto> f\<lparr>o_off := off\<rparr>)\<rparr>)"

text \<open>The bytes of a buffer a call has filled are part of its result.\<close>

definition sys_pread :: "int \<Rightarrow> nat \<Rightarrow> nat \<Rightarrow> ('x, int \<times> bytes) io" where
  "sys_pread fd n off = syscall (\<lambda>flt w.
     let bad = (\<lambda>e. ((- 1, []), w\<lparr>errno := e\<rparr>)) in
     case flt of Err e \<Rightarrow> bad e | _ \<Rightarrow>
     (case inode_of_fd w fd of
        None \<Rightarrow> bad EBADF
      | Some (f, i) \<Rightarrow>
          if \<not> o_rd f then bad EBADF
          else if i_dir i then bad EISDIR
          else let d = take (limit flt n) (drop off (i_data i)) in ((int (length d), d), w)))"

definition sys_read :: "int \<Rightarrow> nat \<Rightarrow> ('x, int \<times> bytes) io" where
  "sys_read fd n = syscall (\<lambda>flt w.
     let bad = (\<lambda>e. ((- 1, []), w\<lparr>errno := e\<rparr>)) in
     case flt of Err e \<Rightarrow> bad e | _ \<Rightarrow>
     (case inode_of_fd w fd of
        None \<Rightarrow> bad EBADF
      | Some (f, i) \<Rightarrow>
          if \<not> o_rd f then bad EBADF
          else if i_dir i then bad EISDIR
          else let d = take (limit flt n) (drop (o_off f) (i_data i))
               in ((int (length d), d), set_off fd (o_off f + length d) w)))"

text \<open>Data written at an offset; a hole before it is filled with zeros.\<close>

definition overlay :: "bytes \<Rightarrow> nat \<Rightarrow> bytes \<Rightarrow> bytes" where
  "overlay old off new =
     (if new = [] then old
      else take off old @ replicate (off - length old) 0 @ new @ drop (off + length new) old)"

definition set_data :: "nat \<Rightarrow> bytes \<Rightarrow> 'x world_scheme \<Rightarrow> 'x world_scheme" where
  "set_data n d w =
     (case inodes w n of
        None \<Rightarrow> w
      | Some i \<Rightarrow> w\<lparr>inodes := (inodes w)(n \<mapsto> i\<lparr>i_data := d, i_mtime := now w\<rparr>)\<rparr>)"

definition sys_pwrite :: "int \<Rightarrow> bytes \<Rightarrow> nat \<Rightarrow> ('x, int) io" where
  "sys_pwrite fd buf off = syscall (\<lambda>flt w. case flt of Err e \<Rightarrow> fail e w | _ \<Rightarrow>
     (case inode_of_fd w fd of
        None \<Rightarrow> fail EBADF w
      | Some (f, i) \<Rightarrow>
          if \<not> o_wr f then fail EBADF w
          else let d = take (limit flt (length buf)) buf
               in (int (length d), set_data (o_ino f) (overlay (i_data i) off d) w)))"

definition sys_write :: "int \<Rightarrow> bytes \<Rightarrow> ('x, int) io" where
  "sys_write fd buf = syscall (\<lambda>flt w. case flt of Err e \<Rightarrow> fail e w | _ \<Rightarrow>
     (case inode_of_fd w fd of
        None \<Rightarrow> fail EBADF w
      | Some (f, i) \<Rightarrow>
          if \<not> o_wr f then fail EBADF w
          else let d = take (limit flt (length buf)) buf;
                   off = (if o_app f then length (i_data i) else o_off f)
               in (int (length d),
                   set_off fd (off + length d) (set_data (o_ino f) (overlay (i_data i) off d) w))))"

definition sys_ftruncate :: "int \<Rightarrow> nat \<Rightarrow> ('x, int) io" where
  "sys_ftruncate fd len = syscall (\<lambda>flt w. case flt of Err e \<Rightarrow> fail e w | _ \<Rightarrow>
     (case inode_of_fd w fd of
        None \<Rightarrow> fail EBADF w
      | Some (f, i) \<Rightarrow>
          if \<not> o_wr f then fail EBADF w
          else (0, set_data (o_ino f)
                     (take len (i_data i) @ replicate (len - length (i_data i)) 0) w)))"

definition stat_of :: "inode \<Rightarrow> c_stat" where
  "stat_of i = \<lparr>st_isdir = i_dir i, st_isreg = (\<not> i_dir i), st_mode = i_mode i,
     st_size = int (length (i_data i)), st_atime = i_atime i, st_mtime = i_mtime i\<rparr>"

text \<open>\<^verbatim>\<open>stat\<close> and \<^verbatim>\<open>fstat\<close>: \<open>None\<close> is the result \<^verbatim>\<open>-1\<close>.\<close>

definition sys_stat :: "string \<Rightarrow> ('x, c_stat option) io" where
  "sys_stat path = syscall (\<lambda>flt w. case flt of Err e \<Rightarrow> (None, w\<lparr>errno := e\<rparr>) | _ \<Rightarrow>
     (case inode_of_path w path of
        None \<Rightarrow> (None, w\<lparr>errno := ENOENT\<rparr>) | Some i \<Rightarrow> (Some (stat_of i), w)))"

definition sys_fstat :: "int \<Rightarrow> ('x, c_stat option) io" where
  "sys_fstat fd = syscall (\<lambda>flt w. case flt of Err e \<Rightarrow> (None, w\<lparr>errno := e\<rparr>) | _ \<Rightarrow>
     (case inode_of_fd w fd of
        None \<Rightarrow> (None, w\<lparr>errno := EBADF\<rparr>) | Some (f, i) \<Rightarrow> (Some (stat_of i), w)))"

definition sys_mkdir :: "string \<Rightarrow> nat \<Rightarrow> ('x, int) io" where
  "sys_mkdir path mode = syscall (\<lambda>flt w. case flt of Err e \<Rightarrow> fail e w | _ \<Rightarrow>
     if names w path \<noteq> None then fail EEXIST w
     else if \<not> is_dir w (dirname path) then fail ENOENT w
     else (0, new_file path \<lparr>i_dir = True, i_mode = masked mode w, i_data = [],
                             i_atime = now w, i_mtime = now w\<rparr> w))"

definition sys_umask :: "nat \<Rightarrow> ('x, nat) io" where
  "sys_umask m = State (\<lambda>w. (file_mask w, w\<lparr>file_mask := m\<rparr>))"

definition sys_unlink :: "string \<Rightarrow> ('x, int) io" where
  "sys_unlink path = syscall (\<lambda>flt w. case flt of Err e \<Rightarrow> fail e w | _ \<Rightarrow>
     (case inode_of_path w path of
        None \<Rightarrow> fail ENOENT w
      | Some i \<Rightarrow> if i_dir i then fail EISDIR w else (0, w\<lparr>names := (names w)(path := None)\<rparr>)))"

text \<open>
  \<^verbatim>\<open>opendir\<close> and the names the calls of \<^verbatim>\<open>readdir\<close> return: those that exist, in the order of the
  directory. \<open>None\<close> is the result \<^verbatim>\<open>NULL\<close>.
\<close>

definition entry_path :: "string \<Rightarrow> string \<Rightarrow> string" where
  "entry_path dir name = dir @ ''/'' @ name"

definition dir_names :: "'x world_scheme \<Rightarrow> string \<Rightarrow> string list" where
  "dir_names w dir =
     [''.'', ''..''] @ filter (\<lambda>n. names w (entry_path dir n) \<noteq> None) (dir_order w dir)"

definition sys_readdir :: "string \<Rightarrow> ('x, string list option) io" where
  "sys_readdir dir = syscall (\<lambda>flt w. case flt of Err e \<Rightarrow> (None, w\<lparr>errno := e\<rparr>) | _ \<Rightarrow>
     if is_dir w dir then (Some (dir_names w dir), w) else (None, w\<lparr>errno := ENOTDIR\<rparr>))"

definition sys_fsync :: "int \<Rightarrow> ('x, int) io" where
  "sys_fsync fd = syscall (\<lambda>flt w. case flt of Err e \<Rightarrow> fail e w | _ \<Rightarrow>
     if inode_of_fd w fd = None then fail EBADF w else (0, w))"

section \<open>Record locks\<close>

definition conflicts :: "lock_kind \<Rightarrow> lock_kind \<Rightarrow> bool" where
  "conflicts k k' \<longleftrightarrow> k = F_WRLCK \<or> k' = F_WRLCK"

definition may_lock :: "lock_kind \<Rightarrow> open_file \<Rightarrow> bool" where
  "may_lock k f = (case k of F_RDLCK \<Rightarrow> o_rd f | F_WRLCK \<Rightarrow> o_wr f)"

definition set_lock :: "nat \<Rightarrow> lock_kind \<Rightarrow> 'x world_scheme \<Rightarrow> 'x world_scheme" where
  "set_lock n k w = w\<lparr>locks := (locks w)(n \<mapsto> k)\<rparr>"

text \<open>\<^verbatim>\<open>F_SETLKW\<close>: waits for a conflicting holder, who leaves its data in the file.\<close>

definition sys_setlkw :: "int \<Rightarrow> lock_kind \<Rightarrow> ('x, int) io" where
  "sys_setlkw fd k = syscall (\<lambda>flt w. case flt of Err e \<Rightarrow> fail e w | _ \<Rightarrow>
     (case inode_of_fd w fd of
        None \<Rightarrow> fail EBADF w
      | Some (f, i) \<Rightarrow>
          if \<not> may_lock k f then fail EBADF w
          else (0, set_lock (o_ino f) k
                 (case others w (o_ino f) of
                    None \<Rightarrow> w
                  | Some (k', d) \<Rightarrow>
                      if conflicts k k'
                      then set_data (o_ino f) d (w\<lparr>others := (others w)(o_ino f := None)\<rparr>)
                      else w))))"

text \<open>\<^verbatim>\<open>F_SETLK\<close>: fails with \<^verbatim>\<open>EAGAIN\<close> on a conflict.\<close>

definition sys_setlk :: "int \<Rightarrow> lock_kind \<Rightarrow> ('x, int) io" where
  "sys_setlk fd k = syscall (\<lambda>flt w. case flt of Err e \<Rightarrow> fail e w | _ \<Rightarrow>
     (case inode_of_fd w fd of
        None \<Rightarrow> fail EBADF w
      | Some (f, i) \<Rightarrow>
          if \<not> may_lock k f then fail EBADF w
          else (case others w (o_ino f) of
                  Some (k', d) \<Rightarrow>
                    if conflicts k k' then fail EAGAIN w else (0, set_lock (o_ino f) k w)
                | None \<Rightarrow> (0, set_lock (o_ino f) k w))))"

definition sys_unlock :: "int \<Rightarrow> ('x, int) io" where
  "sys_unlock fd = syscall (\<lambda>flt w. case flt of Err e \<Rightarrow> fail e w | _ \<Rightarrow>
     (case inode_of_fd w fd of
        None \<Rightarrow> fail EBADF w
      | Some (f, i) \<Rightarrow> (0, w\<lparr>locks := (locks w)(o_ino f := None)\<rparr>)))"

text \<open>\<^verbatim>\<open>readlink\<close> on \<^verbatim>\<open>/proc/self/fd\<close>, the name the descriptor was opened with; \<^verbatim>\<open>nanosleep\<close>.\<close>

definition sys_readlink_fd :: "int \<Rightarrow> nat \<Rightarrow> ('x, string option) io" where
  "sys_readlink_fd fd n = syscall (\<lambda>flt w. case flt of Err e \<Rightarrow> (None, w\<lparr>errno := e\<rparr>) | _ \<Rightarrow>
     (case inode_of_fd w fd of
        None \<Rightarrow> (None, w\<lparr>errno := ENOENT\<rparr>) | Some (f, i) \<Rightarrow> (Some (take n (o_path f)), w)))"

definition sys_nanosleep :: "int \<Rightarrow> ('x, unit) io" where
  "sys_nanosleep ns = State (\<lambda>w. ((), w\<lparr>now := now w + ns div 1000000000\<rparr>))"

definition sys_time :: "('x, int) io" where
  "sys_time = State (\<lambda>w. (now w, w))"

text \<open>\<^verbatim>\<open>pread\<close> at an offset that arrives as a \<^verbatim>\<open>size_t\<close>: as an \<^verbatim>\<open>off_t\<close> it may be negative.\<close>

definition sys_pread_at :: "int \<Rightarrow> nat \<Rightarrow> size_t \<Rightarrow> ('x, int \<times> bytes) io" where
  "sys_pread_at fd n off =
     (if sint off < 0 then State (\<lambda>w. ((- 1, []), w\<lparr>errno := EINVAL\<rparr>)) else sys_pread fd n (unat off))"

definition get_errno :: "('x, c_errno) io" where
  "get_errno = State (\<lambda>w. (errno w, w))"

definition set_errno :: "c_errno \<Rightarrow> ('x, unit) io" where
  "set_errno e = State (\<lambda>w. ((), w\<lparr>errno := e\<rparr>))"

section \<open>Weakest preconditions\<close>

definition wp :: "('s, 'a) state \<Rightarrow> ('a \<Rightarrow> 's \<Rightarrow> bool) \<Rightarrow> 's \<Rightarrow> bool" where
  "wp m Q w = (case run_state m w of (a, w') \<Rightarrow> Q a w')"

named_theorems wps "weakest preconditions of the operations"

lemma wp_return [wps, simp]: "wp (State_Monad.return x) Q = Q x"
  by (rule ext) (simp add: wp_def)

lemma wp_bind [wps]: "wp (m \<bind> f) Q = wp m (\<lambda>a. wp (f a) Q)"
  by (rule ext) (simp add: wp_def split: prod.split)

lemma wp_If [wps]: "wp (if b then m else m') Q w = (if b then wp m Q w else wp m' Q w)"
  by simp

lemma wp_State [wps]: "wp (State f) Q w = (case f w of (a, w') \<Rightarrow> Q a w')"
  by (simp add: wp_def)

lemma wp_syscall:
  "wp (syscall f) Q w =
     (case faults w of [] \<Rightarrow> (case f Good w of (a, w') \<Rightarrow> Q a w')
      | x # xs \<Rightarrow> (case f x (w\<lparr>faults := xs\<rparr>) of (a, w') \<Rightarrow> Q a w'))"
  by (simp add: wp_def syscall_def split: list.split)

lemma wp_mono: "wp m P w \<Longrightarrow> (\<And>a w'. P a w' \<Longrightarrow> Q a w') \<Longrightarrow> wp m Q w"
  by (auto simp: wp_def split: prod.splits)

lemma wp_conj: "wp m P w \<Longrightarrow> wp m Q w \<Longrightarrow> wp m (\<lambda>a w'. P a w' \<and> Q a w') w"
  by (auto simp: wp_def split: prod.splits)

lemma wp_True [simp]: "wp m (\<lambda>_ _. True) w"
  by (simp add: wp_def split: prod.split)

lemma wp_run: "wp m Q w \<longleftrightarrow> Q (fst (run_state m w)) (snd (run_state m w))"
  by (simp add: wp_def split: prod.split)

lemma wp_map_prod_let [wps]: "wp (let x = e in f x) Q w = (let x = e in wp (f x) Q w)"
  by simp

text \<open>An operation keeps a relation between the state before and the state after.\<close>

definition keeps :: "('s \<Rightarrow> bool) \<Rightarrow> ('s, 'a) state \<Rightarrow> bool" where
  "keeps I m \<longleftrightarrow> (\<forall>w. I w \<longrightarrow> wp m (\<lambda>_. I) w)"

named_theorems keep "operations that keep an invariant"

lemma keepsI: "(\<And>w. I w \<Longrightarrow> wp m (\<lambda>_. I) w) \<Longrightarrow> keeps I m"
  by (simp add: keeps_def)

lemma keepsD: "keeps I m \<Longrightarrow> I w \<Longrightarrow> wp m (\<lambda>_. I) w"
  by (simp add: keeps_def)

lemma keeps_return [keep]: "keeps I (State_Monad.return x)"
  by (simp add: keeps_def)

lemma keeps_bind [keep]: "keeps I m \<Longrightarrow> (\<And>a. keeps I (f a)) \<Longrightarrow> keeps I (m \<bind> f)"
  unfolding keeps_def wp_bind by (blast intro: wp_mono)

lemma keeps_If [keep]: "(b \<Longrightarrow> keeps I m) \<Longrightarrow> (\<not> b \<Longrightarrow> keeps I m') \<Longrightarrow> keeps I (if b then m else m')"
  by simp

lemma keeps_Let [keep]: "(\<And>x. keeps I (f x)) \<Longrightarrow> keeps I (let x = e in f x)"
  by simp

lemma keeps_case_option [keep]:
  "(x = None \<Longrightarrow> keeps I m) \<Longrightarrow> (\<And>y. x = Some y \<Longrightarrow> keeps I (f y))
   \<Longrightarrow> keeps I (case x of None \<Rightarrow> m | Some y \<Rightarrow> f y)"
  by (cases x) simp_all

lemma keeps_case_prod [keep]:
  "(\<And>a b. x = (a, b) \<Longrightarrow> keeps I (f a b)) \<Longrightarrow> keeps I (case x of (a, b) \<Rightarrow> f a b)"
  by (cases x) simp

lemma keeps_syscall:
  assumes "\<And>flt w xs. I w \<Longrightarrow> I (w\<lparr>faults := xs\<rparr>)"
    and "\<And>flt w. I w \<Longrightarrow> I (snd (f flt w))"
  shows "keeps I (syscall f)"
  using assms by (auto simp: keeps_def wp_syscall split: list.split prod.splits) (metis snd_conv)+

section \<open>Well-formed worlds\<close>

text \<open>Names and descriptors refer to inodes, and the counters are ahead of what is in use.\<close>

definition wf_world :: "'x world_scheme \<Rightarrow> bool" where
  "wf_world w \<longleftrightarrow>
     (\<forall>n i. inodes w n = Some i \<longrightarrow> n < next_ino w)
   \<and> (\<forall>p n. names w p = Some n \<longrightarrow> inodes w n \<noteq> None)
   \<and> (\<forall>k f. fds w k = Some f \<longrightarrow> k < next_fd w \<and> inodes w (o_ino f) \<noteq> None)"

lemma wf_world_next_fd: "wf_world w \<Longrightarrow> fds w (next_fd w) = None"
  unfolding wf_world_def by (metis less_irrefl not_Some_eq)

lemma wf_world_next_ino: "wf_world w \<Longrightarrow> inodes w (next_ino w) = None"
  unfolding wf_world_def by (metis less_irrefl not_Some_eq)

lemma wf_world_faults [simp]: "wf_world (w\<lparr>faults := x\<rparr>) = wf_world w"
  by (simp add: wf_world_def)

lemma wf_world_simps [simp]:
  "wf_world (w\<lparr>errno := e\<rparr>) = wf_world w"
  "wf_world (w\<lparr>locks := l\<rparr>) = wf_world w"
  "wf_world (w\<lparr>others := l'\<rparr>) = wf_world w"
  "wf_world (w\<lparr>file_mask := m\<rparr>) = wf_world w"
  "wf_world (w\<lparr>now := t\<rparr>) = wf_world w"
  by (simp_all add: wf_world_def)

lemma wf_world_new_fd:
  "wf_world w \<Longrightarrow> inodes w n \<noteq> None \<Longrightarrow> wf_world (snd (new_fd n path flags w))"
  by (auto simp: wf_world_def new_fd_def less_Suc_eq)

lemma wf_world_new_file: "wf_world w \<Longrightarrow> wf_world (new_file p i w)"
  by (auto simp: wf_world_def new_file_def less_Suc_eq)

lemma wf_world_set_inode:
  "wf_world w \<Longrightarrow> inodes w n \<noteq> None \<Longrightarrow> wf_world (w\<lparr>inodes := (inodes w)(n \<mapsto> i)\<rparr>)"
  by (auto simp: wf_world_def)

lemma wf_world_set_data: "wf_world w \<Longrightarrow> wf_world (set_data n d w)"
  by (auto simp: set_data_def intro: wf_world_set_inode split: option.split)

lemma wf_world_set_off: "wf_world w \<Longrightarrow> wf_world (set_off fd off w)"
  by (auto simp: set_off_def wf_world_def split: option.split)

lemma wf_world_drop_fd: "wf_world w \<Longrightarrow> wf_world (drop_fd fd w)"
  by (auto simp: drop_fd_def wf_world_def split: option.split)

lemma wf_world_unlink: "wf_world w \<Longrightarrow> wf_world (w\<lparr>names := (names w)(p := None)\<rparr>)"
  by (auto simp: wf_world_def)

lemma wf_world_set_lock: "wf_world w \<Longrightarrow> wf_world (set_lock n k w)"
  by (simp add: set_lock_def)

lemmas wf_world_intros = wf_world_new_fd wf_world_new_file wf_world_set_inode wf_world_set_data
  wf_world_set_off wf_world_drop_fd wf_world_unlink wf_world_set_lock

lemma new_file_inode [simp]: "inodes (new_file p i w) (next_ino w) = Some i"
  by (simp add: new_file_def)

lemma keeps_wf_syscall:
  "(\<And>flt w. wf_world w \<Longrightarrow> wf_world (snd (f flt w))) \<Longrightarrow> keeps wf_world (syscall f)"
  by (rule keeps_syscall) simp_all

lemma wf_sys_open [keep]: "keeps wf_world (sys_open p fl m)"
  unfolding sys_open_def fail_def
  by (rule keeps_wf_syscall) (auto split: fault.split option.split intro!: wf_world_intros)

lemma wf_sys_malloc [keep]: "keeps wf_world sys_malloc"
  unfolding sys_malloc_def by (rule keeps_wf_syscall) (auto split: fault.split)

lemma wf_sys_close [keep]: "keeps wf_world (sys_close fd)"
  unfolding sys_close_def fail_def
  by (rule keeps_wf_syscall) (auto split: fault.split option.split intro!: wf_world_intros)

lemma wf_sys_read [keep]: "keeps wf_world (sys_read fd n)" "keeps wf_world (sys_pread fd n off)"
  unfolding sys_read_def sys_pread_def Let_def
  by (rule keeps_wf_syscall, auto split: fault.split option.split intro!: wf_world_intros)+

lemma wf_sys_write [keep]: "keeps wf_world (sys_write fd d)" "keeps wf_world (sys_pwrite fd d off)"
  "keeps wf_world (sys_ftruncate fd n)"
  unfolding sys_write_def sys_pwrite_def sys_ftruncate_def Let_def fail_def
  by (rule keeps_wf_syscall, auto split: fault.split option.split intro!: wf_world_intros)+

lemma wf_sys_stat [keep]: "keeps wf_world (sys_stat p)" "keeps wf_world (sys_fstat fd)"
  unfolding sys_stat_def sys_fstat_def
  by (rule keeps_wf_syscall, auto split: fault.split option.split)+

lemma wf_sys_names [keep]: "keeps wf_world (sys_mkdir p m)" "keeps wf_world (sys_unlink p)"
  "keeps wf_world (sys_fsync fd)"
  unfolding sys_mkdir_def sys_unlink_def sys_fsync_def fail_def
  by (rule keeps_wf_syscall, auto split: fault.split option.split intro!: wf_world_intros)+

lemma wf_sys_readdir [keep]: "keeps wf_world (sys_readdir dir)" "keeps wf_world sys_time"
proof -
  show "keeps wf_world (sys_readdir dir)"
    unfolding sys_readdir_def
    by (rule keeps_wf_syscall) (auto split: fault.split)
qed (simp add: keeps_def sys_time_def wp_State)

lemma wf_sys_pread_at [keep]: "keeps wf_world (sys_pread_at fd n off)"
  unfolding sys_pread_at_def by (intro keep) (simp_all add: keeps_def wp_State)

lemma wf_sys_locks [keep]: "keeps wf_world (sys_setlkw fd k)" "keeps wf_world (sys_setlk fd k)"
  "keeps wf_world (sys_unlock fd)"
  unfolding sys_setlkw_def sys_setlk_def sys_unlock_def fail_def
  by (rule keeps_wf_syscall, auto split: fault.split option.split intro!: wf_world_intros)+

lemma wf_sys_state [keep]: "keeps wf_world (sys_umask m)" "keeps wf_world get_errno"
  "keeps wf_world (set_errno e)" "keeps wf_world (sys_nanosleep t)"
  by (simp_all add: keeps_def sys_umask_def get_errno_def set_errno_def sys_nanosleep_def wp_State)

lemma wf_sys_readlink [keep]: "keeps wf_world (sys_readlink_fd fd n)"
  unfolding sys_readlink_fd_def
  by (rule keeps_wf_syscall) (auto split: fault.split option.split)

end
