(* ===== verification/Posix_Rules.thy ===== *)
theory Posix_Rules
  imports Posix
begin

text \<open>
  Rules for the system calls of the theory \<open>Posix\<close>, used by every component: what the lookups
  see after an update, weakest-precondition rules that hold for every schedule, the effect
  of reading, writing and locking, how creating files extends the file system, and the worlds
  the witnesses run in.
\<close>

section \<open>Lookups and updates\<close>

lemma inode_of_fd_Some:
  "inode_of_fd w fd = Some (f, i) \<longleftrightarrow> 0 \<le> fd \<and> fds w (nat fd) = Some f \<and> inodes w (o_ino f) = Some i"
  by (auto simp: inode_of_fd_def split: option.splits)

lemma inode_of_fd_faults [simp]: "inode_of_fd (w\<lparr>faults := x\<rparr>) fd = inode_of_fd w fd"
  by (simp add: inode_of_fd_def split: option.split)

lemma inode_of_path_faults [simp]: "inode_of_path (w\<lparr>faults := x\<rparr>) p = inode_of_path w p"
  by (simp add: inode_of_path_def split: option.split)

lemma inode_of_fd_set_lock [simp]: "inode_of_fd (set_lock n k w) fd = inode_of_fd w fd"
  by (simp add: set_lock_def inode_of_fd_def split: option.split)

lemma inode_of_fd_set_data:
  "inode_of_fd (set_data n d w) fd = map_option (\<lambda>(f, i).
     (f, if o_ino f = n then i\<lparr>i_data := d, i_mtime := now w\<rparr> else i)) (inode_of_fd w fd)"
  by (auto simp: set_data_def inode_of_fd_def split: option.split)

lemma inode_of_fd_others [simp]: "inode_of_fd (w\<lparr>others := l\<rparr>) fd = inode_of_fd w fd"
  by (simp add: inode_of_fd_def split: option.split)

lemma locks_simps [simp]: "locks (set_lock n k w) = (locks w)(n \<mapsto> k)"
  "others (set_lock n k w) = others w" "locks (set_data n d w) = locks w"
  "others (set_data n d w) = others w"
  by (simp_all add: set_lock_def set_data_def split: option.split)

lemma set_lock_same [simp]: "fds (set_lock n k w) = fds w" "names (set_lock n k w) = names w"
  "inodes (set_lock n k w) = inodes w" "faults (set_lock n k w) = faults w"
  by (simp_all add: set_lock_def)

lemma new_file_same [simp]: "faults (new_file p i w) = faults w" "file_mask (new_file p i w) = file_mask w"
  "now (new_file p i w) = now w" "inode_of_path (new_file p i w) p = Some i"
  by (simp_all add: new_file_def inode_of_path_def)

lemma errno_same [simp]: "inode_of_path (w\<lparr>errno := e\<rparr>) p = inode_of_path w p"
  "is_dir (w\<lparr>errno := e\<rparr>) p = is_dir w p"
  by (simp_all add: inode_of_path_def is_dir_def split: option.split)

lemma file_mask_same [simp]: "inode_of_path (w\<lparr>file_mask := e\<rparr>) p = inode_of_path w p"
  "is_dir (w\<lparr>file_mask := e\<rparr>) p = is_dir w p"
  by (simp_all add: inode_of_path_def is_dir_def split: option.split)

lemma masked_0 [simp]: "file_mask w = 0 \<Longrightarrow> masked m w = m"
  by (simp add: masked_def)

lemma names_None_iff: "wf_world w \<Longrightarrow> names w p = None \<longleftrightarrow> inode_of_path w p = None"
  by (auto simp: wf_world_def inode_of_path_def split: option.splits)

lemma overlay_nil [simp]: "overlay d off [] = d"
  by (simp add: overlay_def)

lemma overlay_splice: "overlay (overlay d off a) (off + length a) b = overlay d off (a @ b)"
proof (cases "a = [] \<or> b = []")
  case False
  have "off + length b + (off + length a) - (min (length d) off + (off - length d))
      = off + (length a + length b)"
    by linarith
  with False show ?thesis by (simp add: overlay_def)
qed auto

section \<open>Calls that change nothing but \<^verbatim>\<open>errno\<close>\<close>

definition quiet :: "'x world_scheme \<Rightarrow> 'x world_scheme \<Rightarrow> bool" where
  "quiet w w' \<longleftrightarrow> (\<exists>e. w' = w\<lparr>errno := e, faults := tl (faults w)\<rparr>)"

lemma quiet_same:
  assumes "quiet w w'"
  shows "names w' = names w" "inodes w' = inodes w" "next_ino w' = next_ino w" "fds w' = fds w"
    "next_fd w' = next_fd w" "locks w' = locks w" "others w' = others w" "file_mask w' = file_mask w"
    "now w' = now w" "faults w' = tl (faults w)" "world.more w' = world.more w"
    "inode_of_fd w' fd = inode_of_fd w fd" "inode_of_path w' p = inode_of_path w p"
    "wf_world w' = wf_world w" "is_dir w' p = is_dir w p"
  using assms by (auto simp: quiet_def inode_of_fd_def inode_of_path_def is_dir_def
      split: option.split)

lemma quiet_intros:
  "faults w = x # xs \<Longrightarrow> quiet w (w\<lparr>faults := xs\<rparr>)"
  "faults w = [] \<Longrightarrow> quiet w w"
  "faults w = x # xs \<Longrightarrow> quiet w (w\<lparr>faults := xs, errno := e\<rparr>)"
  "faults w = [] \<Longrightarrow> quiet w (w\<lparr>errno := e\<rparr>)"
  unfolding quiet_def by (rule exI [of _ "errno w"], simp, rule exI [of _ "errno w"], simp,
    rule exI [of _ e], simp, rule exI [of _ e], simp)

lemma wp_sys_fstat:
  assumes "\<And>r w'. quiet w w' \<Longrightarrow>
      r = None \<and> faults w \<noteq> [] \<or> r = map_option (stat_of \<circ> snd) (inode_of_fd w fd) \<Longrightarrow> Q r w'"
  shows "wp (sys_fstat fd) Q w"
  unfolding sys_fstat_def wp_syscall
  by (auto split: list.split fault.split option.split intro!: assms quiet_intros)

lemma wp_sys_stat:
  assumes "\<And>r w'. quiet w w' \<Longrightarrow>
      r = None \<and> faults w \<noteq> [] \<or> r = map_option stat_of (inode_of_path w p) \<Longrightarrow> Q r w'"
  shows "wp (sys_stat p) Q w"
  unfolding sys_stat_def wp_syscall
  by (auto split: list.split fault.split option.split intro!: assms quiet_intros)

lemma wp_sys_malloc:
  assumes "\<And>r w'. quiet w w' \<Longrightarrow> \<not> r \<and> faults w \<noteq> [] \<or> r \<Longrightarrow> Q r w'"
  shows "wp sys_malloc Q w"
  unfolding sys_malloc_def wp_syscall
  by (auto split: list.split fault.split option.split intro!: assms quiet_intros)

lemma wp_set_errno [wps]: "wp (set_errno e) Q w = Q () (w\<lparr>errno := e\<rparr>)"
  by (simp add: set_errno_def wps)

lemma wp_get_errno [wps]: "wp get_errno Q w = Q (errno w) w"
  by (simp add: get_errno_def wps)

section \<open>Reading and writing\<close>

text \<open>A descriptor open for writing at an offset, and a schedule without errors.\<close>

definition writable_at :: "'x world_scheme \<Rightarrow> int \<Rightarrow> nat \<Rightarrow> nat \<Rightarrow> bytes \<Rightarrow> bool" where
  "writable_at w fd n off d \<longleftrightarrow>
     (\<exists>f i. inode_of_fd w fd = Some (f, i) \<and> o_ino f = n \<and> o_wr f \<and> \<not> o_app f \<and> o_off f = off
        \<and> i_data i = d)"

definition no_err :: "'x world_scheme \<Rightarrow> bool" where
  "no_err w \<longleftrightarrow> (\<forall>e. Err e \<notin> set (faults w))"

lemma writable_at_write:
  assumes "writable_at w fd n off d"
  shows "writable_at (set_off fd off' (set_data n d' w)) fd n off' d'"
  using assms by (auto simp: writable_at_def inode_of_fd_Some set_off_def set_data_def)

lemma no_err_simps [simp]: "no_err (set_off fd k w) = no_err w" "no_err (set_data n d w) = no_err w"
  "faults (set_off fd k w) = faults w" "faults (set_data n d w) = faults w"
  by (auto simp: no_err_def set_off_def set_data_def split: option.splits)

lemma wp_sys_write:
  assumes "writable_at w fd n off d" "no_err w"
  shows "wp (sys_write fd buf)
     (\<lambda>r w'. \<exists>k \<le> length buf. r = int k \<and> writable_at w' fd n (off + k) (overlay d off (take k buf))
        \<and> no_err w' \<and> length (faults w') \<le> length (faults w)
        \<and> (k = length buf \<or> length (faults w') < length (faults w))) w"
proof -
  from assms(1) obtain f i where f: "inode_of_fd w fd = Some (f, i)" "o_ino f = n" "o_wr f"
    "\<not> o_app f" "o_off f = off" "i_data i = d" by (auto simp: writable_at_def)
  have wr: "writable_at (w\<lparr>faults := xs\<rparr>) fd n off d" for xs
    using assms(1) by (simp add: writable_at_def)
  show ?thesis
  proof (cases "faults w")
    case Nil
    then show ?thesis
      using assms f writable_at_write [OF assms(1)]
      by (auto simp: sys_write_def wp_syscall limit_def)
  next
    case (Cons x xs)
    with assms(2) have "no_err (w\<lparr>faults := xs\<rparr>)" "\<forall>e. x \<noteq> Err e" by (auto simp: no_err_def)
    then show ?thesis
      using f Cons writable_at_write [OF wr]
      by (cases x) (auto simp: sys_write_def wp_syscall limit_def Let_def
          intro!: exI [of _ "length buf"] exI [of _ "min _ (length buf)"])
  qed
qed

definition readable_at :: "'x world_scheme \<Rightarrow> int \<Rightarrow> nat \<Rightarrow> nat \<Rightarrow> bytes \<Rightarrow> bool" where
  "readable_at w fd n off d \<longleftrightarrow>
     (\<exists>f i. inode_of_fd w fd = Some (f, i) \<and> o_ino f = n \<and> o_rd f \<and> o_off f = off
        \<and> i_data i = d \<and> \<not> i_dir i)"

lemma quiet_readable_at: "quiet w w' \<Longrightarrow> readable_at w' fd n off d = readable_at w fd n off d"
  by (simp add: readable_at_def quiet_same)

lemma wp_sys_read:
  assumes "readable_at w fd n off d"
    and "\<And>w'. faults w \<noteq> [] \<Longrightarrow> quiet w w' \<Longrightarrow> Q (- 1, []) w'"
    and "\<And>k w'. k \<le> len \<Longrightarrow> k \<le> length (drop off d) \<Longrightarrow>
        k = min len (length (drop off d)) \<or> faults w \<noteq> [] \<Longrightarrow> readable_at w' fd n (off + k) d \<Longrightarrow>
        Q (int k, take k (drop off d)) w'"
  shows "wp (sys_read fd len) Q w"
proof -
  from assms(1) obtain f i where f: "inode_of_fd w fd = Some (f, i)" "o_ino f = n" "o_rd f"
    "o_off f = off" "i_data i = d" "\<not> i_dir i" by (auto simp: readable_at_def)
  have rd: "readable_at (set_off fd off' (w\<lparr>faults := xs\<rparr>)) fd n off' d" for off' xs
    using f by (auto simp: readable_at_def inode_of_fd_Some set_off_def)
  have rd': "readable_at (set_off fd off' w) fd n off' d" for off'
    using f by (auto simp: readable_at_def inode_of_fd_Some set_off_def)
  have eq: "take len (drop off d) = take (min len (length (drop off d))) (drop off d)" for len
    by (simp add: min_def)
  show ?thesis
  proof (cases "faults w")
    case Nil
    have "Q (int (min len (length d - off)), take (min len (length d - off)) (drop off d))
      (set_off fd (off + min len (length d - off)) w)"
      using assms(3) [of "min len (length d - off)"] rd' Nil by simp
    then show ?thesis
      using Nil f eq [of len] by (simp add: sys_read_def wp_syscall limit_def Let_def min.commute)
  next
    case (Cons x xs)
    have "Q (int (min k (length d - off)), take (min k (length d - off)) (drop off d))
      (set_off fd (off + min k (length d - off)) (w\<lparr>faults := xs\<rparr>))" if "k \<le> len" for k
      using assms(3) [of "min k (length d - off)"] rd Cons that by simp
    from this [of len] this [of "min m len" for m] show ?thesis
      using Cons f eq assms(2) [OF _ quiet_intros(3)]
      by (cases x) (simp_all add: sys_read_def wp_syscall limit_def Let_def min.commute)
  qed
qed

section \<open>Locking\<close>

text \<open>\<^verbatim>\<open>F_SETLKW\<close> either fails and changes nothing, or waits for the conflicting holder, if any.\<close>

definition after_wait :: "'x world_scheme \<Rightarrow> open_file \<Rightarrow> lock_kind \<Rightarrow> 'x world_scheme" where
  "after_wait w f k =
     (case others w (o_ino f) of
        None \<Rightarrow> w
      | Some (k', d) \<Rightarrow>
          if conflicts k k' then set_data (o_ino f) d (w\<lparr>others := (others w)(o_ino f := None)\<rparr>) else w)"

lemma wp_sys_setlkw:
  assumes "\<And>w'. quiet w w' \<Longrightarrow> Q (- 1) w'"
    and "\<And>f i w'. (w' = w \<or> (\<exists>xs. w' = w\<lparr>faults := xs\<rparr>)) \<Longrightarrow> inode_of_fd w fd = Some (f, i) \<Longrightarrow>
       may_lock k f \<Longrightarrow> Q 0 (set_lock (o_ino f) k (after_wait w' f k))"
  shows "wp (sys_setlkw fd k) Q w"
proof -
  have ok: "Q 0 (set_lock (o_ino f) k (after_wait w' f k))"
    if "w' = w \<or> (\<exists>xs. w' = w\<lparr>faults := xs\<rparr>)" "inode_of_fd w' fd = Some (f, i)" "may_lock k f" for f i w'
    using assms(2) [OF that(1) _ that(3)] that by auto
  show ?thesis
    unfolding sys_setlkw_def wp_syscall fail_def after_wait_def [symmetric]
    by (auto split: list.split fault.split option.split intro!: assms(1) ok quiet_intros)
qed

lemma wp_sys_setlk:
  assumes "\<And>w'. quiet w w' \<Longrightarrow> Q (- 1) w'"
    and "\<And>f i w'. (w' = w \<or> (\<exists>xs. w' = w\<lparr>faults := xs\<rparr>)) \<Longrightarrow> inode_of_fd w fd = Some (f, i) \<Longrightarrow>
       may_lock k f \<Longrightarrow> (\<forall>k' d. others w (o_ino f) = Some (k', d) \<longrightarrow> \<not> conflicts k k') \<Longrightarrow>
       Q 0 (set_lock (o_ino f) k w')"
  shows "wp (sys_setlk fd k) Q w"
proof -
  have ok: "Q 0 (set_lock (o_ino f) k w')"
    if "w' = w \<or> (\<exists>xs. w' = w\<lparr>faults := xs\<rparr>)" "inode_of_fd w' fd = Some (f, i)" "may_lock k f"
      "\<forall>k' d. others w (o_ino f) = Some (k', d) \<longrightarrow> \<not> conflicts k k'" for f i w'
    using assms(2) [OF that(1) _ that(3,4)] that(1,2) by auto
  show ?thesis
    unfolding sys_setlk_def wp_syscall fail_def
    by (auto split: list.split fault.split option.split intro!: assms(1) ok quiet_intros)
qed

lemma conflicts_write [simp]: "conflicts F_WRLCK k" "conflicts k F_WRLCK"
  by (simp_all add: conflicts_def)

lemma after_wait_excl: "others (after_wait w f F_WRLCK) (o_ino f) = None"
  by (auto simp: after_wait_def split: option.split)

lemma after_wait_inode: "inode_of_fd w fd = Some (f, i) \<Longrightarrow>
    \<exists>j. inode_of_fd (after_wait w f' k) fd = Some (f, j)"
  by (auto simp: after_wait_def inode_of_fd_set_data split: option.split)

lemma inode_of_fd_faults_or:
  "w' = w \<or> (\<exists>xs. w' = w\<lparr>faults := xs\<rparr>) \<Longrightarrow> inode_of_fd w' fd = inode_of_fd w fd"
  by auto

section \<open>Paths and new files\<close>

lemma length_strip_trailing: "length (strip_trailing p) \<le> length p"
  using length_dropWhile_le [of _ "rev p"] by (simp add: strip_trailing_def)

lemma strip_trailing_last: "strip_trailing p \<noteq> [] \<Longrightarrow> last (strip_trailing p) \<noteq> CHR ''/''"
  unfolding strip_trailing_def using hd_dropWhile [of "\<lambda>c. c = CHR ''/''" "rev p"]
  by (simp add: last_rev)

lemma length_dirname:
  assumes "p \<notin> {''/'', ''.''}" "dirname p \<notin> {''/'', ''.''}"
  shows "length (dirname p) < length p"
proof -
  define q where "q = strip_trailing p"
  define d where "d = rev (dropWhile (\<lambda>c. c \<noteq> CHR ''/'') (rev q))"
  from assms(2) have q: "q \<noteq> []" and dn: "dirname p = strip_trailing d"
    by (auto simp: dirname_def Let_def q_def d_def split: if_splits)
  from q have "last q \<noteq> CHR ''/''" unfolding q_def by (rule strip_trailing_last)
  with q obtain r c where "q = r @ [c]" "c \<noteq> CHR ''/''"
    by (cases q rule: rev_cases) auto
  then have "length d < length q"
    using length_dropWhile_le [of "\<lambda>c. c \<noteq> CHR ''/''" "rev r"] by (simp add: d_def)
  with dn length_strip_trailing [of d] length_strip_trailing [of p] show ?thesis
    by (simp add: q_def)
qed

definition path_rank :: "string \<Rightarrow> nat" where
  "path_rank p = (if p \<in> {''/'', ''.''} then 0 else length p + 1)"

lemma path_rank_dirname: "p \<notin> {''/'', ''.''} \<Longrightarrow> path_rank (dirname p) < path_rank p"
  using length_dirname [of p] by (auto simp: path_rank_def)

lemma path_rank_roots: "p \<in> {''/'', ''.''} \<Longrightarrow> path_rank (dirname p) = 0"
  by (elim insertE emptyE; hypsubst; code_simp)

definition roots_ok :: "'x world_scheme \<Rightarrow> bool" where
  "roots_ok w \<longleftrightarrow> is_dir w ''/'' \<and> is_dir w ''.''"

text \<open>What creating a directory and its parents changes: names that are added.\<close>

definition grows :: "(string \<Rightarrow> bool) \<Rightarrow> 'x world_scheme \<Rightarrow> 'x world_scheme \<Rightarrow> bool" where
  "grows P w w' \<longleftrightarrow>
     (\<forall>q n. names w q = Some n \<longrightarrow> names w' q = Some n)
   \<and> (\<forall>n i. inodes w n = Some i \<longrightarrow> inodes w' n = Some i)
   \<and> (\<forall>q. names w q = None \<and> names w' q \<noteq> None \<longrightarrow> P q)
   \<and> fds w' = fds w \<and> locks w' = locks w \<and> others w' = others w \<and> file_mask w' = file_mask w"

lemma grows_refl [simp]: "grows P w w"
  by (auto simp: grows_def)

lemma grows_errno [simp]: "grows P (w\<lparr>errno := e\<rparr>) w' = grows P w w'"
  "grows P w (w'\<lparr>errno := e\<rparr>) = grows P w w'"
  by (simp_all add: grows_def)

lemma grows_inode_of_path:
  "grows P w w' \<Longrightarrow> inode_of_path w q = Some i \<Longrightarrow> inode_of_path w' q = Some i"
  by (auto simp: grows_def inode_of_path_def split: option.splits)

lemma grows_is_dir: "grows P w w' \<Longrightarrow> is_dir w q \<Longrightarrow> is_dir w' q"
  by (auto simp: is_dir_def split: option.splits dest: grows_inode_of_path)

lemma grows_trans: "grows P w w' \<Longrightarrow> grows R w' w'' \<Longrightarrow> (\<And>q. R q \<Longrightarrow> P q) \<Longrightarrow> grows P w w''"
  unfolding grows_def by (metis option.exhaust)

lemma grows_mono: "grows P w w' \<Longrightarrow> (\<And>q. P q \<Longrightarrow> R q) \<Longrightarrow> grows R w w'"
  unfolding grows_def by blast

lemma grows_new_file:
  assumes "wf_world w" "names w p = None" "P p"
  shows "grows P w (new_file p i w)"
proof -
  have "inodes w (next_ino w) = None" by (rule wf_world_next_ino [OF assms(1)])
  with assms(2,3) show ?thesis by (auto simp: grows_def new_file_def)
qed

text \<open>The ancestors of a path: its directory, the directory of that, and so on.\<close>

definition ancestors_ok :: "'x world_scheme \<Rightarrow> string \<Rightarrow> bool" where
  "ancestors_ok w p \<longleftrightarrow>
     (\<forall>k > 0. inode_of_path w ((dirname ^^ k) p) = None \<or> is_dir w ((dirname ^^ k) p))"

lemma ancestors_ok_dirname:
  assumes "ancestors_ok w p"
  shows "ancestors_ok w (dirname p)" "inode_of_path w (dirname p) = None \<or> is_dir w (dirname p)"
proof -
  show "ancestors_ok w (dirname p)"
    unfolding ancestors_ok_def
  proof safe
    fix k :: nat
    assume "0 < k" "\<not> is_dir w ((dirname ^^ k) (dirname p))"
    then show "inode_of_path w ((dirname ^^ k) (dirname p)) = None"
      using assms [unfolded ancestors_ok_def, rule_format, of "Suc k"]
      by (simp only: funpow_Suc_right o_def) simp
  qed
  show "inode_of_path w (dirname p) = None \<or> is_dir w (dirname p)"
    using assms [unfolded ancestors_ok_def, rule_format, of 1] by simp
qed

lemma roots_ok_exists: "roots_ok w \<Longrightarrow> inode_of_path w p = None \<Longrightarrow> p \<notin> {''/'', ''.''}"
  by (auto simp: roots_ok_def is_dir_def)

lemma roots_ok_grows: "grows P w w' \<Longrightarrow> roots_ok w \<Longrightarrow> roots_ok w'"
  by (simp add: roots_ok_def grows_is_dir)

definition new_dir :: "nat \<Rightarrow> 'x world_scheme \<Rightarrow> inode" where
  "new_dir m w = \<lparr>i_dir = True, i_mode = masked m w, i_data = [], i_atime = now w, i_mtime = now w\<rparr>"

lemma wp_sys_stat_good:
  assumes "faults w = []" "Q (map_option stat_of (inode_of_path w p)) (if inode_of_path w p = None
    then w\<lparr>errno := ENOENT\<rparr> else w)"
  shows "wp (sys_stat p) Q w"
  using assms by (cases "inode_of_path w p") (simp_all add: sys_stat_def wp_syscall)

lemma wp_sys_mkdir_good:
  assumes "faults w = []" "wf_world w" "inode_of_path w p = None" "is_dir w (dirname p)"
    and "Q 0 (new_file p (new_dir m w) w)"
  shows "wp (sys_mkdir p m) Q w"
  using assms by (simp add: sys_mkdir_def wp_syscall names_None_iff new_dir_def)

section \<open>Example worlds\<close>

text \<open>A world with the directories \<^verbatim>\<open>/\<close> and \<^verbatim>\<open>.\<close>, and one with a file in addition.\<close>

definition dir_inode :: inode where
  "dir_inode = \<lparr>i_dir = True, i_mode = 493, i_data = [], i_atime = 0, i_mtime = 0\<rparr>"

definition file_inode :: "bytes \<Rightarrow> inode" where
  "file_inode d = \<lparr>i_dir = False, i_mode = 420, i_data = d, i_atime = 0, i_mtime = 0\<rparr>"

definition root_world :: world where
  "root_world = \<lparr>names = [''/'' \<mapsto> 0, ''.'' \<mapsto> 1], inodes = [0 \<mapsto> dir_inode, 1 \<mapsto> dir_inode],
     next_ino = 2, fds = Map.empty, next_fd = 3, locks = Map.empty, others = Map.empty,
     errno = E_NONE, now = 0, file_mask = 18, dir_order = (\<lambda>_. []), faults = []\<rparr>"

definition open_world :: "bytes \<Rightarrow> world" where
  "open_world d = root_world\<lparr>names := (names root_world)(''/f'' \<mapsto> 2),
     inodes := (inodes root_world)(2 \<mapsto> file_inode d), next_ino := 3,
     fds := [3 \<mapsto> \<lparr>o_ino = 2, o_rd = True, o_wr = True, o_app = False, o_off = 0, o_path = ''/f''\<rparr>],
     next_fd := 4\<rparr>"

end
