(* ===== verification/Dyad_World.thy ===== *)
theory Dyad_World
  imports Posix_Rules
begin

text \<open>
  The world of a process that runs DYAD: the POSIX world, the context the process works with (the
  thread-local pointer \<^verbatim>\<open>ctx\<close> of \<^verbatim>\<open>src/dyad/core/dyad_ctx.c\<close>, \<open>None\<close> when it is \<^verbatim>\<open>NULL\<close>), its
  environment variables, what \<^verbatim>\<open>realpath\<close> makes of a path, its process number, its open streams
  (descriptor and bytes not yet written), and the state of the Flux instance it talks to. Flux is not part of the
  repository: its state is of any type \<open>'e\<close>, and its calls are the fields of a record that the
  components take as an argument (theory \<open>Flux\<close>).
\<close>

record 'e dyad_world = world +
  cell :: "dyad_ctx option"
  environ :: "string \<rightharpoonup> string"
  realpaths :: "string \<rightharpoonup> string"
  self_pid :: int
  streams :: "nat \<rightharpoonup> int \<times> bytes"
  next_stream :: nat
  flux :: 'e

type_synonym ('e, 'x) dworld = "('e, 'x) dyad_world_ext world_scheme"

type_synonym ('e, 'x, 'a) dio = "(('e, 'x) dworld, 'a) state"

section \<open>The context\<close>

text \<open>The pointer itself, and the structure it points to.\<close>

definition get_cell :: "('e, 'x, dyad_ctx option) dio" where
  "get_cell = State (\<lambda>w. (cell w, w))"

definition the_ctx :: "('e, 'x, dyad_ctx) dio" where
  "the_ctx = State (\<lambda>w. (the (cell w), w))"

definition set_cell :: "dyad_ctx option \<Rightarrow> ('e, 'x, unit) dio" where
  "set_cell c = State (\<lambda>w. ((), w\<lparr>cell := c\<rparr>))"

definition upd_ctx :: "(dyad_ctx \<Rightarrow> dyad_ctx) \<Rightarrow> ('e, 'x, unit) dio" where
  "upd_ctx f = State (\<lambda>w. ((), w\<lparr>cell := map_option f (cell w)\<rparr>))"

definition sys_getenv :: "string \<Rightarrow> ('e, 'x, string option) dio" where
  "sys_getenv v = State (\<lambda>w. (environ w v, w))"

definition sys_setenv :: "string \<Rightarrow> string \<Rightarrow> ('e, 'x, unit) dio" where
  "sys_setenv v s = State (\<lambda>w. ((), w\<lparr>environ := (environ w)(v \<mapsto> s)\<rparr>))"

definition sys_realpath :: "string \<Rightarrow> ('e, 'x, string option) dio" where
  "sys_realpath p = State (\<lambda>w. (realpaths w p, w))"

definition sys_getpid :: "('e, 'x, int) dio" where
  "sys_getpid = State (\<lambda>w. (self_pid w, w))"

section \<open>Calls to Flux\<close>

text \<open>A call works on the state of Flux; when it fails it leaves its reason in \<^verbatim>\<open>errno\<close>.\<close>

definition flux_call :: "('e \<Rightarrow> (c_errno + 'a) \<times> 'e) \<Rightarrow> ('e, 'x, 'a option) dio" where
  "flux_call f = State (\<lambda>w.
     case f (flux w) of
       (Inl e, s) \<Rightarrow> (None, w\<lparr>flux := s, errno := e\<rparr>)
     | (Inr a, s) \<Rightarrow> (Some a, w\<lparr>flux := s\<rparr>))"

definition flux_do :: "('e \<Rightarrow> 'e) \<Rightarrow> ('e, 'x, unit) dio" where
  "flux_do f = State (\<lambda>w. ((), w\<lparr>flux := f (flux w)\<rparr>))"

text \<open>Calls to the other libraries, whose states \<open>'e\<close> holds as well, and queries that change nothing.\<close>

definition lib_call :: "('e \<Rightarrow> 'a \<times> 'e) \<Rightarrow> ('e, 'x, 'a) dio" where
  "lib_call f = State (\<lambda>w. case f (flux w) of (a, s) \<Rightarrow> (a, w\<lparr>flux := s\<rparr>))"

definition lib_get :: "('e \<Rightarrow> 'a) \<Rightarrow> ('e, 'x, 'a) dio" where
  "lib_get f = State (\<lambda>w. (f (flux w), w))"

section \<open>Rules\<close>

lemma wp_cell [wps]:
  "wp get_cell P w = P (cell w) w"
  "wp the_ctx R w = R (the (cell w)) w"
  "wp (set_cell c) Q w = Q () (w\<lparr>cell := c\<rparr>)"
  "wp (upd_ctx f) Q w = Q () (w\<lparr>cell := map_option f (cell w)\<rparr>)"
  "wp (sys_getenv v) S w = S (environ w v) w"
  "wp (sys_setenv v s) Q w = Q () (w\<lparr>environ := (environ w)(v \<mapsto> s)\<rparr>)"
  "wp (sys_realpath p) S w = S (realpaths w p) w"
  "wp sys_getpid T w = T (self_pid w) w"
  by (simp_all add: sys_setenv_def sys_realpath_def sys_getpid_def get_cell_def the_ctx_def set_cell_def upd_ctx_def sys_getenv_def wp_State)

lemma wp_flux_do [wps]: "wp (flux_do f) Q w = Q () (w\<lparr>flux := f (flux w)\<rparr>)"
  by (simp add: flux_do_def wp_State)

lemma wp_flux_call:
  "wp (flux_call f) Q w =
     (case f (flux w) of
        (Inl e, s) \<Rightarrow> Q None (w\<lparr>flux := s, errno := e\<rparr>)
      | (Inr a, s) \<Rightarrow> Q (Some a) (w\<lparr>flux := s\<rparr>))"
  by (simp add: flux_call_def wp_State split: prod.split sum.split)

lemma wp_lib: "wp (lib_call f) Q w = Q (fst (f (flux w))) (w\<lparr>flux := snd (f (flux w))\<rparr>)"
  by (simp add: lib_call_def wp_State split: prod.split)

lemma wp_lib_call: "wp (lib_call f) Q w = (case f (flux w) of (a, s) \<Rightarrow> Q a (w\<lparr>flux := s\<rparr>))"
  by (simp add: wp_lib split: prod.split)

lemma wp_lib_get [wps]: "wp (lib_get f) Q w = Q (f (flux w)) w"
  by (simp add: lib_get_def wp_State)

lemma wf_world_more [simp]: "wf_world (dyad_world.more_update f w) = wf_world w"
  "wf_world (w\<lparr>cell := c\<rparr>) = wf_world w" "wf_world (w\<lparr>environ := v\<rparr>) = wf_world w"
  "wf_world (w\<lparr>flux := s\<rparr>) = wf_world w" "wf_world (w\<lparr>realpaths := r\<rparr>) = wf_world w"
  "wf_world (w\<lparr>streams := t\<rparr>) = wf_world w" "wf_world (w\<lparr>next_stream := n\<rparr>) = wf_world w"
  by (simp_all add: wf_world_def)

lemma wf_cell [keep]: "keeps wf_world get_cell" "keeps wf_world the_ctx" "keeps wf_world (set_cell c)"
  "keeps wf_world (upd_ctx f)" "keeps wf_world (sys_getenv v)" "keeps wf_world (flux_do g)"
  "keeps wf_world (sys_setenv v s)" "keeps wf_world (sys_realpath p)" "keeps wf_world sys_getpid"
  by (simp_all add: keeps_def wps)

lemma wf_flux_call [keep]: "keeps wf_world (flux_call f)"
  by (auto simp: keeps_def wp_flux_call split: prod.split sum.split)

end
