(* ===== verification/Cache_Policy.thy ===== *)
theory Cache_Policy
  imports Dyad_World
begin

text \<open>
  The eviction policies: \<^verbatim>\<open>src/dyad/cache/lru_cache.c\<close>, \<^verbatim>\<open>fifo_cache.c\<close> and the policy handle of
  \<^verbatim>\<open>dyad_cache_api.c\<close>. A policy is a recency key computed from the attributes of a file, the
  smallest key being evicted first. Both policies are instances of one interface.
\<close>

section \<open>LRU and FIFO\<close>

definition dyad_cache_lru_get_recency_key :: "c_stat option \<Rightarrow> dyad_rc + int" where
  "dyad_cache_lru_get_recency_key st =
     (case st of None \<Rightarrow> Inl RC_BADBUF | Some st \<Rightarrow> Inr (st_atime st))"

definition dyad_cache_fifo_get_recency_key :: "c_stat option \<Rightarrow> dyad_rc + int" where
  "dyad_cache_fifo_get_recency_key st =
     (case st of None \<Rightarrow> Inl RC_BADBUF | Some st \<Rightarrow> Inr (st_mtime st))"

text \<open>Updates of the handle inside the context.\<close>

definition upd_policy :: "(dyad_cache_policy \<Rightarrow> dyad_cache_policy) \<Rightarrow> ('e, 'x, unit) dio" where
  "upd_policy f = upd_ctx (\<lambda>c. c\<lparr>cache_policy := map_option f (cache_policy c)\<rparr>)"

definition dyad_cache_lru_init :: "('e, 'x, dyad_rc) dio" where
  "dyad_cache_lru_init = do {
     ok \<leftarrow> sys_malloc;
     upd_policy (\<lambda>p. p\<lparr>policy_handle := ok\<rparr>);
     if \<not> ok then State_Monad.return RC_SYSFAIL
     else do {
       upd_policy (\<lambda>p. p\<lparr>get_recency_key := Some dyad_cache_lru_get_recency_key\<rparr>);
       State_Monad.return RC_OK } }"

definition dyad_cache_fifo_init :: "('e, 'x, dyad_rc) dio" where
  "dyad_cache_fifo_init = do {
     ok \<leftarrow> sys_malloc;
     upd_policy (\<lambda>p. p\<lparr>policy_handle := ok\<rparr>);
     if \<not> ok then State_Monad.return RC_SYSFAIL
     else do {
       upd_policy (\<lambda>p. p\<lparr>get_recency_key := Some dyad_cache_fifo_get_recency_key\<rparr>);
       State_Monad.return RC_OK } }"

definition dyad_cache_lru_finalize :: "('e, 'x, dyad_rc) dio" where
  "dyad_cache_lru_finalize = do {
     c \<leftarrow> the_ctx;
     (if cache_policy c \<noteq> None then upd_policy (\<lambda>p. p\<lparr>policy_handle := False\<rparr>)
      else State_Monad.return ());
     State_Monad.return RC_OK }"

definition dyad_cache_fifo_finalize :: "('e, 'x, dyad_rc) dio" where
  "dyad_cache_fifo_finalize = do {
     c \<leftarrow> the_ctx;
     (if cache_policy c \<noteq> None then upd_policy (\<lambda>p. p\<lparr>policy_handle := False\<rparr>)
      else State_Monad.return ());
     State_Monad.return RC_OK }"

section \<open>The policy handle\<close>

definition dyad_cache_policy_init :: "dyad_cache_policy_mode \<Rightarrow> ('e, 'x, dyad_rc) dio" where
  "dyad_cache_policy_init mode = do {
     ok \<leftarrow> sys_malloc;
     if \<not> ok then do {
       upd_ctx (\<lambda>c. c\<lparr>cache_policy := None\<rparr>);
       State_Monad.return RC_SYSFAIL }
     else do {
       upd_ctx (\<lambda>c. c\<lparr>cache_policy :=
          Some \<lparr>policy_mode = mode, policy_handle = False, get_recency_key = None\<rparr>\<rparr>);
       case mode of
         CACHE_LRU \<Rightarrow> dyad_cache_lru_init
       | CACHE_FIFO \<Rightarrow> dyad_cache_fifo_init
       | CACHE_NONE \<Rightarrow> State_Monad.return RC_OK
       | CACHE_END \<Rightarrow> State_Monad.return RC_BADCACHEMODE } }"

definition dyad_cache_policy_finalize :: "('e, 'x, dyad_rc) dio" where
  "dyad_cache_policy_finalize = do {
     c \<leftarrow> the_ctx;
     case cache_policy c of
       None \<Rightarrow> State_Monad.return RC_OK
     | Some p \<Rightarrow> do {
         _ \<leftarrow> (case policy_mode p of
                CACHE_LRU \<Rightarrow> dyad_cache_lru_finalize
              | CACHE_FIFO \<Rightarrow> dyad_cache_fifo_finalize
              | _ \<Rightarrow> State_Monad.return RC_OK);
         upd_ctx (\<lambda>c. c\<lparr>cache_policy := None\<rparr>);
         State_Monad.return RC_OK } }"

section \<open>The interface of a policy\<close>

text \<open>
  What eviction relies on: a key exists for every file that could be examined, is refused
  for none, and orders files by one of their times.
\<close>

locale recency_policy =
  fixes key :: "c_stat option \<Rightarrow> dyad_rc + int"
    and time_of :: "c_stat \<Rightarrow> int"
  assumes key_Some: "key (Some st) = Inr (time_of st)"
    and key_None: "key None = Inl RC_BADBUF"
begin

lemma key_error_iff: "(\<exists>rc. key st = Inl rc) \<longleftrightarrow> st = None"
  by (cases st) (auto simp: key_Some key_None)

lemma key_mono: "key (Some a) = Inr i \<Longrightarrow> key (Some b) = Inr j \<Longrightarrow> i \<le> j \<longleftrightarrow> time_of a \<le> time_of b"
  by (simp add: key_Some)

end

interpretation lru: recency_policy dyad_cache_lru_get_recency_key st_atime
  by unfold_locales (simp_all add: dyad_cache_lru_get_recency_key_def)

interpretation fifo: recency_policy dyad_cache_fifo_get_recency_key st_mtime
  by unfold_locales (simp_all add: dyad_cache_fifo_get_recency_key_def)

section \<open>Lifecycle of the handle\<close>

lemma wp_upd_policy [wps]:
  "wp (upd_policy f) Q w =
     Q () (w\<lparr>cell := map_option (\<lambda>c. c\<lparr>cache_policy := map_option f (cache_policy c)\<rparr>) (cell w)\<rparr>)"
  by (simp add: upd_policy_def wps)

text \<open>The handle a successful initialisation leaves.\<close>

definition policy_ready :: "dyad_cache_policy_mode \<Rightarrow> dyad_cache_policy \<Rightarrow> bool" where
  "policy_ready mode p \<longleftrightarrow> policy_mode p = mode
   \<and> get_recency_key p = (case mode of
        CACHE_LRU \<Rightarrow> Some dyad_cache_lru_get_recency_key
      | CACHE_FIFO \<Rightarrow> Some dyad_cache_fifo_get_recency_key
      | _ \<Rightarrow> None)"

lemma policy_eq_iff [simp]:
  "c\<lparr>cache_policy := Some p\<rparr> = c\<lparr>cache_policy := Some q\<rparr> \<longleftrightarrow> p = q" for c :: dyad_ctx
proof
  assume "c\<lparr>cache_policy := Some p\<rparr> = c\<lparr>cache_policy := Some q\<rparr>"
  then have "cache_policy (c\<lparr>cache_policy := Some p\<rparr>) = cache_policy (c\<lparr>cache_policy := Some q\<rparr>)"
    by (rule arg_cong)
  then show "p = q" by simp
qed simp

lemma wp_malloc_cases:
  assumes "\<And>b w'. cell w' = cell w \<Longrightarrow> realpaths w' = realpaths w \<Longrightarrow> Q b w'"
  shows "wp sys_malloc Q w"
  using assms by (auto simp: sys_malloc_def wp_syscall split: list.split fault.split)

definition policy_init_result :: "dyad_cache_policy_mode \<Rightarrow> ('e, 'x) dworld \<Rightarrow> dyad_rc \<Rightarrow> ('e, 'x) dworld \<Rightarrow> bool" where
  "policy_init_result mode w rc w' \<longleftrightarrow>
     (rc = RC_OK \<and> mode \<noteq> CACHE_END \<and> realpaths w' = realpaths w
        \<and> (\<exists>p. policy_ready mode p
               \<and> cell w' = map_option (\<lambda>c. c\<lparr>cache_policy := Some p\<rparr>) (cell w)))
     \<or> rc = RC_SYSFAIL \<or> (rc = RC_BADCACHEMODE \<and> mode = CACHE_END)"

lemma wp_policy_init: "wp (dyad_cache_policy_init mode) (policy_init_result mode w) w"
  unfolding dyad_cache_policy_init_def wps
proof (rule wp_malloc_cases, goal_cases)
  case (1 ok w')
  note simps = policy_init_result_def policy_ready_def wps dyad_cache_lru_init_def dyad_cache_fifo_init_def 1
    option.map_comp comp_def
  let ?p = "\<lambda>m key. \<lparr>policy_mode = m, policy_handle = m \<noteq> CACHE_NONE, get_recency_key = key\<rparr>"
  show ?case
  proof (cases ok)
    case True
    show ?thesis
    proof (cases mode)
      case CACHE_NONE
      then show ?thesis
        by (simp add: simps True) (rule exI [of _ "?p CACHE_NONE None"], simp)
    next
      case CACHE_LRU
      show ?thesis
        unfolding CACHE_LRU
        by (simp add: simps True, rule wp_malloc_cases, simp add: simps)
          (rule impI, rule exI [of _ "?p CACHE_LRU (Some dyad_cache_lru_get_recency_key)"], simp)
    next
      case CACHE_FIFO
      show ?thesis
        unfolding CACHE_FIFO
        by (simp add: simps True, rule wp_malloc_cases, simp add: simps)
          (rule impI, rule exI [of _ "?p CACHE_FIFO (Some dyad_cache_fifo_get_recency_key)"], simp)
    qed (simp add: simps True)
  qed (simp add: simps)
qed

text \<open>
  Initialising the cache policy either succeeds and leaves exactly the recency key of the
  requested mode, or reports why: memory, or the sentinel mode.
\<close>

theorem policy_init_spec:
  "wp (dyad_cache_policy_init mode)
     (\<lambda>rc w'. (rc = RC_OK \<and> mode \<noteq> CACHE_END
                 \<and> (\<exists>p. policy_ready mode p
                        \<and> cell w' = map_option (\<lambda>c. c\<lparr>cache_policy := Some p\<rparr>) (cell w)))
            \<or> rc = RC_SYSFAIL \<or> (rc = RC_BADCACHEMODE \<and> mode = CACHE_END)) w"
  by (rule wp_mono [OF wp_policy_init]) (auto simp: policy_init_result_def)

lemma policy_finalize_clears:
  assumes "cell w = Some c"
  shows "wp dyad_cache_policy_finalize (\<lambda>rc w'. rc = RC_OK \<and> cell w' = Some (c\<lparr>cache_policy := None\<rparr>)) w"
  using assms unfolding dyad_cache_policy_finalize_def
  by (cases "cache_policy c")
    (auto simp: wps dyad_cache_lru_finalize_def dyad_cache_fifo_finalize_def
      split: dyad_cache_policy_mode.split)

end
