(* ===== verification/Flux.thy ===== *)
theory Flux
  imports Dyad_World
begin

text \<open>
  The calls of Flux and of its JSON library that DYAD makes. Their code is not in the repository,
  so they are the fields of a record over an arbitrary state \<open>'e\<close> of Flux, an argument of every
  definition that uses them. A failing call returns its \<^verbatim>\<open>errno\<close>; a pointer that may be \<^verbatim>\<open>NULL\<close> is
  an \<open>option\<close>. JSON objects are the lists of their members.
\<close>

datatype json_val = JStr string | JInt int

type_synonym json = "(string \<times> json_val) list"

type_synonym flux_txn = nat

text \<open>What became of a future when \<^verbatim>\<open>flux_future_wait_for\<close> or \<^verbatim>\<open>_then\<close> is called is Flux's business.\<close>

record 'e flux_ops =
  fx_open :: "'e \<Rightarrow> (c_errno + flux_handle) \<times> 'e"
  fx_close :: "flux_handle option \<Rightarrow> 'e \<Rightarrow> 'e"
  fx_get_rank :: "flux_handle option \<Rightarrow> 'e \<Rightarrow> (c_errno + uint32) \<times> 'e"
  fx_json_pack :: "json \<Rightarrow> 'e \<Rightarrow> (c_errno + json) \<times> 'e"
  fx_rpc_pack :: "flux_handle option \<Rightarrow> string \<Rightarrow> uint32 \<Rightarrow> json \<Rightarrow> 'e \<Rightarrow> (c_errno + flux_future) \<times> 'e"
  fx_rpc_get :: "flux_future option \<Rightarrow> 'e \<Rightarrow> (c_errno + unit) \<times> 'e"
  fx_rpc_get_raw :: "flux_future \<Rightarrow> 'e \<Rightarrow> (c_errno + bytes) \<times> 'e"
  fx_future_get :: "flux_future \<Rightarrow> 'e \<Rightarrow> (c_errno + unit) \<times> 'e"
  fx_future_then :: "flux_future \<Rightarrow> 'e \<Rightarrow> (c_errno + unit) \<times> 'e"
  fx_future_wait_for :: "flux_future \<Rightarrow> 'e \<Rightarrow> (c_errno + unit) \<times> 'e"
  fx_future_reset :: "flux_future \<Rightarrow> 'e \<Rightarrow> 'e"
  fx_future_destroy :: "flux_future option \<Rightarrow> 'e \<Rightarrow> 'e"
  fx_txn_create :: "'e \<Rightarrow> (c_errno + flux_txn) \<times> 'e"
  fx_txn_pack :: "flux_txn \<Rightarrow> string \<Rightarrow> int \<Rightarrow> 'e \<Rightarrow> (c_errno + unit) \<times> 'e"
  fx_txn_destroy :: "flux_txn \<Rightarrow> 'e \<Rightarrow> 'e"
  fx_kvs_commit :: "flux_handle option \<Rightarrow> string option \<Rightarrow> flux_txn \<Rightarrow> 'e \<Rightarrow> (c_errno + flux_future) \<times> 'e"
  fx_kvs_lookup :: "flux_handle option \<Rightarrow> string option \<Rightarrow> bool \<Rightarrow> string \<Rightarrow> 'e \<Rightarrow> (c_errno + flux_future) \<times> 'e"
  fx_lookup_get :: "flux_future \<Rightarrow> 'e \<Rightarrow> (c_errno + int) \<times> 'e"
  fx_request_unpack :: "flux_msg \<Rightarrow> 'e \<Rightarrow> (c_errno + json) \<times> 'e"
  fx_respond_raw :: "flux_handle option \<Rightarrow> flux_msg option \<Rightarrow> bytes \<Rightarrow> 'e \<Rightarrow> (c_errno + unit) \<times> 'e"
  fx_respond_error :: "flux_handle option \<Rightarrow> flux_msg \<Rightarrow> c_errno \<Rightarrow> 'e \<Rightarrow> (c_errno + unit) \<times> 'e"
  fx_msg_incref :: "flux_msg option \<Rightarrow> 'e \<Rightarrow> 'e"
  fx_msg_decref :: "flux_msg option \<Rightarrow> 'e \<Rightarrow> 'e"
  fx_msg_is_streaming :: "flux_msg \<Rightarrow> 'e \<Rightarrow> bool"
  fx_msg_get_userid :: "flux_msg \<Rightarrow> 'e \<Rightarrow> (c_errno + uint32) \<times> 'e"

text \<open>\<^verbatim>\<open>rc < 0\<close> for a call that returns an \<^verbatim>\<open>int\<close>, and \<^verbatim>\<open>f == NULL\<close> for one that returns a pointer.\<close>

definition flux_failed :: "'a option \<Rightarrow> bool" where
  "flux_failed r \<longleftrightarrow> r = None"

text \<open>The topics of \<^verbatim>\<open>include/dyad/common/dyad_dtl.h\<close>.\<close>

definition DYAD_DTL_RPC_NAME :: string where "DYAD_DTL_RPC_NAME = ''dyad.fetch''"

definition DYAD_DTL_RPC_RANGE_NAME :: string where "DYAD_DTL_RPC_RANGE_NAME = ''dyad.fetch_range''"

text \<open>Unpacking members of an object: \<^verbatim>\<open>s:s\<close> and \<^verbatim>\<open>s:I\<close> of the format strings.\<close>

definition member_str :: "string \<Rightarrow> json \<Rightarrow> string option" where
  "member_str k obj = (case map_of obj k of Some (JStr s) \<Rightarrow> Some s | _ \<Rightarrow> None)"

definition member_int :: "string \<Rightarrow> json \<Rightarrow> int option" where
  "member_int k obj = (case map_of obj k of Some (JInt i) \<Rightarrow> Some i | _ \<Rightarrow> None)"

definition int_of_size :: "size_t \<Rightarrow> int" where
  "int_of_size n = sint n"

definition size_of_int :: "int \<Rightarrow> size_t" where
  "size_of_int i = of_int i"

lemma size_of_int_of_size [simp]: "size_of_int (int_of_size n) = n"
  by (simp add: size_of_int_def int_of_size_def)

end
