(* ===== verification/Flux_Dtl.thy ===== *)
theory Flux_Dtl
  imports Flux
begin

text \<open>
  The Flux transport, \<^verbatim>\<open>src/dyad/dtl/flux_dtl.c\<close>, and the selection of a transport,
  \<^verbatim>\<open>dyad_dtl_api.c\<close>, built without UCX and Margo. The handle lives in the context; buffers the
  transport hands out are lists of bytes, \<open>None\<close> being \<^verbatim>\<open>NULL\<close>.
\<close>

section \<open>The handle\<close>

definition upd_dtl :: "(dyad_dtl \<Rightarrow> dyad_dtl) \<Rightarrow> ('e, 'x, unit) dio" where
  "upd_dtl f = upd_ctx (\<lambda>c. c\<lparr>dtl_handle := map_option f (dtl_handle c)\<rparr>)"

definition upd_flux_dtl :: "(dyad_dtl_flux \<Rightarrow> dyad_dtl_flux) \<Rightarrow> ('e, 'x, unit) dio" where
  "upd_flux_dtl f = upd_dtl (\<lambda>d. d\<lparr>flux_dtl_handle := map_option f (flux_dtl_handle d)\<rparr>)"

definition the_flux_dtl :: "('e, 'x, dyad_dtl_flux) dio" where
  "the_flux_dtl = do {
     c \<leftarrow> the_ctx;
     State_Monad.return (the (flux_dtl_handle (the (dtl_handle c)))) }"

definition dyad_dtl_flux_init :: "dyad_dtl_mode \<Rightarrow> dyad_dtl_comm_mode \<Rightarrow> bool \<Rightarrow> ('e, 'x, dyad_rc) dio" where
  "dyad_dtl_flux_init mode comm_mode debug = do {
     ok \<leftarrow> sys_malloc;
     if \<not> ok then do {
       upd_dtl (\<lambda>d. d\<lparr>flux_dtl_handle := None\<rparr>);
       State_Monad.return RC_SYSFAIL }
     else do {
       c \<leftarrow> the_ctx;
       upd_dtl (\<lambda>d. d\<lparr>flux_dtl_handle := Some \<lparr>fdtl_h = ctx_h c, fdtl_comm_mode = comm_mode,
                        fdtl_debug = debug, fdtl_f = None, fdtl_msg = None\<rparr>\<rparr>);
       upd_dtl (\<lambda>d. d\<lparr>dtl_wired := True, dtl_has_detach := True,
                      send_detached_is_thread_safe := False\<rparr>);
       State_Monad.return RC_OK } }"

section \<open>Packing and unpacking requests\<close>

definition dyad_dtl_flux_rpc_pack ::
  "'e flux_ops \<Rightarrow> string \<Rightarrow> uint32 \<Rightarrow> ('e, 'x, dyad_rc \<times> json option) dio" where
  "dyad_dtl_flux_rpc_pack F upath producer_rank = do {
     packed_obj \<leftarrow> flux_call (fx_json_pack F [(''upath'', JStr upath)]);
     State_Monad.return (if packed_obj = None then RC_BADPACK else RC_OK, packed_obj) }"

definition dyad_dtl_flux_rpc_unpack ::
  "'e flux_ops \<Rightarrow> flux_msg \<Rightarrow> ('e, 'x, dyad_rc \<times> string option) dio" where
  "dyad_dtl_flux_rpc_unpack F msg = do {
     r \<leftarrow> flux_call (fx_request_unpack F msg);
     case Option.bind r (member_str ''upath'') of
       None \<Rightarrow> State_Monad.return (RC_BADUNPACK, None)
     | Some upath \<Rightarrow> do {
         upd_flux_dtl (\<lambda>d. d\<lparr>fdtl_msg := Some msg\<rparr>);
         State_Monad.return (RC_OK, Some upath) } }"

definition dyad_dtl_flux_rpc_pack_range ::
  "'e flux_ops \<Rightarrow> string \<Rightarrow> uint32 \<Rightarrow> size_t \<Rightarrow> size_t \<Rightarrow> ('e, 'x, dyad_rc \<times> json option) dio" where
  "dyad_dtl_flux_rpc_pack_range F upath producer_rank offset len = do {
     packed_obj \<leftarrow> flux_call (fx_json_pack F
        [(''upath'', JStr upath), (''offset'', JInt (int_of_size offset)),
         (''length'', JInt (int_of_size len))]);
     State_Monad.return (if packed_obj = None then RC_BADPACK else RC_OK, packed_obj) }"

text \<open>The members of a ranged request.\<close>

definition unpack_range :: "json \<Rightarrow> (string \<times> size_t \<times> size_t) option" where
  "unpack_range obj =
     (case (member_str ''upath'' obj, member_int ''offset'' obj, member_int ''length'' obj) of
        (Some upath, Some offset_val, Some length_val) \<Rightarrow>
          Some (upath, size_of_int offset_val, size_of_int length_val)
      | _ \<Rightarrow> None)"

definition dyad_dtl_flux_rpc_unpack_range ::
  "'e flux_ops \<Rightarrow> flux_msg \<Rightarrow> ('e, 'x, dyad_rc \<times> (string \<times> size_t \<times> size_t) option) dio" where
  "dyad_dtl_flux_rpc_unpack_range F msg = do {
     r \<leftarrow> flux_call (fx_request_unpack F msg);
     case Option.bind r unpack_range of
       None \<Rightarrow> State_Monad.return (RC_BADUNPACK, None)
     | Some req \<Rightarrow> do {
         upd_flux_dtl (\<lambda>d. d\<lparr>fdtl_msg := Some msg\<rparr>);
         State_Monad.return (RC_OK, Some req) } }"

definition dyad_dtl_flux_rpc_respond :: "flux_msg \<Rightarrow> ('e, 'x, dyad_rc) dio" where
  "dyad_dtl_flux_rpc_respond orig_msg = State_Monad.return RC_OK"

definition dyad_dtl_flux_rpc_recv_response :: "flux_future \<Rightarrow> ('e, 'x, dyad_rc) dio" where
  "dyad_dtl_flux_rpc_recv_response f = do {
     upd_flux_dtl (\<lambda>d. d\<lparr>fdtl_f := Some f\<rparr>);
     State_Monad.return RC_OK }"

section \<open>Buffers\<close>

text \<open>
  The argument is \<^verbatim>\<open>data_buf\<close>: \<open>None\<close> when the pointer is \<^verbatim>\<open>NULL\<close>, \<open>Some None\<close> when it points to
  \<^verbatim>\<open>NULL\<close>. A fresh buffer is filled with zeros.
\<close>

definition dyad_dtl_flux_get_buffer ::
  "nat \<Rightarrow> bytes option option \<Rightarrow> ('e, 'x, dyad_rc \<times> bytes option option) dio" where
  "dyad_dtl_flux_get_buffer data_size data_buf =
     (if data_buf = None \<or> data_buf \<noteq> Some None then State_Monad.return (RC_BADBUF, data_buf)
      else do {
        ok \<leftarrow> sys_malloc;
        State_Monad.return
          (if \<not> ok then (RC_SYSFAIL, data_buf) else (RC_OK, Some (Some (replicate data_size 0)))) })"

definition dyad_dtl_flux_return_buffer ::
  "bytes option option \<Rightarrow> ('e, 'x, dyad_rc \<times> bytes option option) dio" where
  "dyad_dtl_flux_return_buffer data_buf =
     State_Monad.return
       (if data_buf = None \<or> data_buf = Some None then (RC_BADBUF, data_buf) else (RC_OK, Some None))"

section \<open>Sending and receiving\<close>

definition dyad_dtl_flux_establish_connection :: "('e, 'x, dyad_rc) dio" where
  "dyad_dtl_flux_establish_connection = State_Monad.return RC_OK"

definition dyad_dtl_flux_send :: "'e flux_ops \<Rightarrow> bytes \<Rightarrow> ('e, 'x, dyad_rc) dio" where
  "dyad_dtl_flux_send F buf = do {
     d \<leftarrow> the_flux_dtl;
     rc \<leftarrow> flux_call (fx_respond_raw F (fdtl_h d) (fdtl_msg d) buf);
     State_Monad.return (if flux_failed rc then RC_FLUXFAIL else RC_OK) }"

text \<open>\<open>(*buf, *buflen)\<close> before and after.\<close>

definition dyad_dtl_flux_recv ::
  "'e flux_ops \<Rightarrow> bytes option \<times> nat \<Rightarrow> ('e, 'x, dyad_rc \<times> bytes option \<times> nat) dio" where
  "dyad_dtl_flux_recv F out = do {
     set_errno E_NONE;
     d \<leftarrow> the_flux_dtl;
     case fdtl_f d of
       None \<Rightarrow> State_Monad.return (RC_FLUXFAIL, out)
     | Some f \<Rightarrow> do {
         tmp_buf \<leftarrow> flux_call (fx_rpc_get_raw F f);
         r \<leftarrow> (case tmp_buf of
                None \<Rightarrow> do {
                  e \<leftarrow> get_errno;
                  State_Monad.return (if e = ENODATA then RC_RPC_FINISHED else RC_BADRPC, out) }
              | Some tmp_buf \<Rightarrow> do {
                  (rc, buf) \<leftarrow> dyad_dtl_flux_get_buffer (length tmp_buf) (Some (fst out));
                  State_Monad.return
                    (if is_error rc then (rc, None, 0)
                     else (RC_OK, Some tmp_buf, length tmp_buf)) });
         flux_do (fx_future_reset F f);
         State_Monad.return r } }"

section \<open>Detached requests\<close>

record dyad_dtl_flux_req_state =
  rs_h :: "flux_handle option"
  rs_msg :: "flux_msg option"

definition dyad_dtl_flux_detach_request ::
  "'e flux_ops \<Rightarrow> ('e, 'x, dyad_rc \<times> dyad_dtl_flux_req_state option) dio" where
  "dyad_dtl_flux_detach_request F = do {
     d \<leftarrow> the_flux_dtl;
     ok \<leftarrow> sys_malloc;
     if \<not> ok then State_Monad.return (RC_SYSFAIL, None)
     else do {
       flux_do (fx_msg_incref F (fdtl_msg d));
       upd_flux_dtl (\<lambda>d. d\<lparr>fdtl_msg := None\<rparr>);
       State_Monad.return (RC_OK, Some \<lparr>rs_h = fdtl_h d, rs_msg = fdtl_msg d\<rparr>) } }"

definition dyad_dtl_flux_send_detached ::
  "'e flux_ops \<Rightarrow> dyad_dtl_flux_req_state \<Rightarrow> bytes \<Rightarrow> ('e, 'x, dyad_rc) dio" where
  "dyad_dtl_flux_send_detached F state buf = do {
     rc \<leftarrow> flux_call (fx_respond_raw F (rs_h state) (rs_msg state) buf);
     flux_do (fx_msg_decref F (rs_msg state));
     State_Monad.return (if flux_failed rc then RC_FLUXFAIL else RC_OK) }"

definition dyad_dtl_flux_abort_detached ::
  "'e flux_ops \<Rightarrow> dyad_dtl_flux_req_state \<Rightarrow> ('e, 'x, dyad_rc) dio" where
  "dyad_dtl_flux_abort_detached F state = do {
     flux_do (fx_msg_decref F (rs_msg state));
     State_Monad.return RC_OK }"

definition dyad_dtl_flux_close_connection :: "('e, 'x, dyad_rc) dio" where
  "dyad_dtl_flux_close_connection = do {
     d \<leftarrow> the_flux_dtl;
     (if fdtl_f d \<noteq> None then upd_flux_dtl (\<lambda>d. d\<lparr>fdtl_f := None\<rparr>) else State_Monad.return ());
     (if fdtl_msg d \<noteq> None then upd_flux_dtl (\<lambda>d. d\<lparr>fdtl_msg := None\<rparr>) else State_Monad.return ());
     State_Monad.return RC_OK }"

definition dyad_dtl_flux_finalize :: "('e, 'x, dyad_rc) dio" where
  "dyad_dtl_flux_finalize = do {
     c \<leftarrow> the_ctx;
     (if dtl_handle c = None then State_Monad.return ()
      else do {
        upd_flux_dtl (\<lambda>d. d\<lparr>fdtl_h := None\<rparr>);
        upd_flux_dtl (\<lambda>d. d\<lparr>fdtl_f := None\<rparr>);
        upd_flux_dtl (\<lambda>d. d\<lparr>fdtl_msg := None\<rparr>);
        upd_dtl (\<lambda>d. d\<lparr>flux_dtl_handle := None\<rparr>) });
     State_Monad.return RC_OK }"

section \<open>Selecting a transport\<close>

definition dyad_dtl_init :: "dyad_dtl_mode \<Rightarrow> dyad_dtl_comm_mode \<Rightarrow> bool \<Rightarrow> ('e, 'x, dyad_rc) dio" where
  "dyad_dtl_init mode comm_mode debug = do {
     ok \<leftarrow> sys_malloc;
     if \<not> ok then do {
       upd_ctx (\<lambda>c. c\<lparr>dtl_handle := None\<rparr>);
       State_Monad.return RC_SYSFAIL }
     else do {
       upd_ctx (\<lambda>c. c\<lparr>dtl_handle := Some \<lparr>dtl_mode = mode, flux_dtl_handle = None, dtl_wired = False,
                        dtl_has_detach = False, send_detached_is_thread_safe = False\<rparr>\<rparr>);
       if mode = DTL_FLUX_RPC then dyad_dtl_flux_init mode comm_mode debug
       else State_Monad.return RC_BADDTLMODE } }"

definition dyad_dtl_finalize :: "('e, 'x, dyad_rc) dio" where
  "dyad_dtl_finalize = do {
     c \<leftarrow> the_ctx;
     (case dtl_handle c of
        None \<Rightarrow> State_Monad.return RC_OK
      | Some d \<Rightarrow>
          if dtl_mode d = DTL_FLUX_RPC
          then (if flux_dtl_handle d \<noteq> None then dyad_dtl_flux_finalize else State_Monad.return RC_OK)
          else State_Monad.return RC_BADDTLMODE);
     upd_ctx (\<lambda>c. c\<lparr>dtl_handle := None\<rparr>);
     State_Monad.return RC_OK }"

section \<open>Rules\<close>

lemma wp_upd_dtl [wps]:
  "wp (upd_dtl f) Q w =
     Q () (w\<lparr>cell := map_option (\<lambda>c. c\<lparr>dtl_handle := map_option f (dtl_handle c)\<rparr>) (cell w)\<rparr>)"
  by (simp add: upd_dtl_def wps)

lemma wp_upd_flux_dtl [wps]:
  "wp (upd_flux_dtl f) Q w =
     Q () (w\<lparr>cell := map_option (\<lambda>c. c\<lparr>dtl_handle := map_option
        (\<lambda>d. d\<lparr>flux_dtl_handle := map_option f (flux_dtl_handle d)\<rparr>) (dtl_handle c)\<rparr>) (cell w)\<rparr>)"
  by (simp add: upd_flux_dtl_def wps)

lemma wp_the_flux_dtl [wps]:
  "wp the_flux_dtl Q w = Q (the (flux_dtl_handle (the (dtl_handle (the (cell w)))))) w"
  by (simp add: the_flux_dtl_def wps)

lemma unpack_range_pack [simp]:
  "unpack_range [(''upath'', JStr upath), (''offset'', JInt (int_of_size offset)),
                 (''length'', JInt (int_of_size len))] = Some (upath, offset, len)"
  by (simp add: unpack_range_def member_str_def member_int_def)

lemma member_str_pack [simp]: "member_str ''upath'' [(''upath'', JStr upath)] = Some upath"
  by (simp add: member_str_def)

lemma wf_flux_dtl [keep]: "keeps wf_world (upd_dtl f)" "keeps wf_world (upd_flux_dtl g)"
  "keeps wf_world the_flux_dtl" "keeps wf_world dyad_dtl_flux_close_connection"
  "keeps wf_world (dyad_dtl_flux_rpc_recv_response f')" "keeps wf_world (dyad_dtl_flux_recv F out)"
  "keeps wf_world (dyad_dtl_flux_rpc_pack F p k)" "keeps wf_world (dyad_dtl_flux_rpc_pack_range F p k a b)"
  unfolding upd_dtl_def upd_flux_dtl_def the_flux_dtl_def dyad_dtl_flux_close_connection_def
    dyad_dtl_flux_rpc_recv_response_def dyad_dtl_flux_recv_def dyad_dtl_flux_rpc_pack_def
    dyad_dtl_flux_rpc_pack_range_def dyad_dtl_flux_get_buffer_def
  by (intro keep)+

end
