(* ===== verification/Path_Utils.thy ===== *)
theory Path_Utils
  imports Structures Murmur3
begin

text \<open>
  The path functions of \<^verbatim>\<open>src/dyad/utils/utils.c\<close>: hashing of paths and path prefixes,
  concatenation, extraction of the user part of a path, and the test that a path lies under a
  managed directory. \<^verbatim>\<open>realpath\<close> is an argument. The pointer-overlap tests of \<^verbatim>\<open>concat_str\<close>
  and \<^verbatim>\<open>extract_user_path\<close> compare addresses; their outcome is the argument \<open>no_overlap\<close>.
\<close>

section \<open>Hashing\<close>

text \<open>
  \<^verbatim>\<open>uint32_t hash[4]\<close> is the little-endian view of the two 64-bit words; the callers reduce it
  by exclusive or.
\<close>

definition xor_words :: "x64_state \<Rightarrow> uint32" where
  "xor_words = (\<lambda>(h1, h2).
     ucast h1 XOR ucast (drop_bit 32 h1) XOR ucast h2 XOR ucast (drop_bit 32 h2))"

text \<open>Strings shorter than 128 characters are filled up with \<open>@\<close>.\<close>

definition pad128 :: "string \<Rightarrow> string" where
  "pad128 s = s @ replicate (128 - length s) CHR ''@''"

definition hash_str :: "string option \<Rightarrow> uint32 \<Rightarrow> uint32" where
  "hash_str str seed =
     (case str of
        None \<Rightarrow> 0
      | Some s \<Rightarrow>
          if length s = 0 then 0
          else let (str_long, str_len) = (if length s < 128 then (pad128 s, 128) else (s, length s))
               in xor_words (MurmurHash3_x64_128 (bytes_of_string str_long) str_len seed) + 1)"

definition hash_path_prefix :: "string option \<Rightarrow> uint32 \<Rightarrow> nat \<Rightarrow> uint32" where
  "hash_path_prefix str seed len =
     (case str of
        None \<Rightarrow> 0
      | Some s \<Rightarrow>
          if len = 0 then 0
          else if length s < len then 0
          else let (str_long, str_len) = (if len < 128 then (pad128 (take len s), 128) else (s, len))
               in xor_words (MurmurHash3_x64_128 (bytes_of_string str_long) str_len seed) + 1)"

section \<open>Concatenation\<close>

text \<open>\<open>None\<close> is the \<^verbatim>\<open>NULL\<close> result, on which the buffer \<^verbatim>\<open>str\<close> is left as it was.\<close>

definition concat_str :: "bool \<Rightarrow> string \<Rightarrow> string \<Rightarrow> string \<Rightarrow> nat \<Rightarrow> string option" where
  "concat_str no_overlap str to_append connector str_capacity =
     (let str_len_org = length str; con_len = length connector; app_len = length to_append;
          all_len = str_len_org + con_len + app_len in
      if all_len + 1 > str_capacity then None
      else
        let con_end = (str_len_org \<ge> con_len
                       \<and> strncmp_eq (drop (str_len_org - con_len) str) connector con_len);
            str_len = (if con_end then str_len_org - con_len else str_len_org)
        in if \<not> no_overlap then None
           else Some (take str_len str @ connector @ to_append))"

section \<open>The user part of a path\<close>

definition extract_user_path ::
  "bool \<Rightarrow> string \<Rightarrow> string \<Rightarrow> string \<Rightarrow> nat \<Rightarrow> string option" where
  "extract_user_path no_overlap prefix full delim upath_capacity =
     (let prefix_len = length prefix; full_len = length full; delim_len = length delim in
      if \<not> no_overlap then None
      else if \<not> strncmp_eq prefix full prefix_len then None
      else if full_len > PATH_MAX \<or> delim_len > PATH_MAX \<or> prefix_len > PATH_MAX then None
      else
        let prefix_len = (if prefix_len \<ge> delim_len
                             \<and> strncmp_eq (drop (prefix_len - delim_len) prefix) delim delim_len
                          then prefix_len - delim_len else prefix_len) in
        if full_len \<le> prefix_len + delim_len then None
        else if \<not> strncmp_eq (drop prefix_len full) delim delim_len then None
        else
          let u_len = full_len - prefix_len - delim_len in
          if u_len + 1 > upath_capacity then None
          else Some (drop (full_len - u_len) full))"

section \<open>Is a path under the managed directory?\<close>

text \<open>
  The outcome of the test: no match, a match with the user part of the path, or a read through
  a \<^verbatim>\<open>NULL\<close> prefix, which is undefined behaviour in the code (\<^verbatim>\<open>strlen (NULL)\<close>).
\<close>

datatype path_match = No_match | Match string | Null_deref

text \<open>
  One attempt of \<^verbatim>\<open>cmp_canonical_path_prefix\<close>: compare the hash of the first characters with the
  stored hash, then extract the user path.
\<close>

definition try_prefix :: "uint32 \<Rightarrow> uint32 \<Rightarrow> string option \<Rightarrow> string \<Rightarrow> nat \<Rightarrow> path_match" where
  "try_prefix prefix_len prefix_hash prefix path upath_capacity =
     (if hash_path_prefix (Some path) DYAD_SEED (unat prefix_len) = prefix_hash
      then (case prefix of
              None \<Rightarrow> Null_deref
            | Some p \<Rightarrow>
                (case extract_user_path True p path PATH_DELIM upath_capacity of
                   None \<Rightarrow> No_match | Some u \<Rightarrow> Match u))
      else No_match)"

text \<open>The next attempt is made only when the one before it found no match.\<close>

definition or_else :: "path_match \<Rightarrow> path_match \<Rightarrow> path_match" where
  "or_else m m' = (case m of No_match \<Rightarrow> m' | _ \<Rightarrow> m)"

text \<open>The two attempts the code makes on a path, and again on its canonical form.\<close>

definition try_both ::
  "uint32 \<times> uint32 \<times> string option \<Rightarrow> uint32 \<times> uint32 \<times> string option \<Rightarrow> nat
     \<Rightarrow> string \<Rightarrow> path_match" where
  "try_both = (\<lambda>(prefix_len, prefix_hash, prefix) (can_prefix_len, can_prefix_hash, can_prefix)
     upath_capacity path.
     or_else (try_prefix prefix_len prefix_hash prefix path upath_capacity)
       (if can_prefix_len > 0
        then try_prefix can_prefix_len can_prefix_hash can_prefix path upath_capacity
        else No_match))"

definition cmp_canonical_path_prefix ::
  "(string \<Rightarrow> string option) \<Rightarrow> dyad_ctx option \<Rightarrow> bool \<Rightarrow> string \<Rightarrow> nat \<Rightarrow> path_match" where
  "cmp_canonical_path_prefix realpath ctx is_prod path upath_capacity =
     (case ctx of
        None \<Rightarrow> No_match
      | Some c \<Rightarrow>
          let prefix = (if is_prod then prod_managed_path c else cons_managed_path c);
              can_prefix = (if is_prod then prod_real_path c else cons_real_path c);
              prefix_len = (if is_prod then prod_managed_len c else cons_managed_len c);
              can_prefix_len = (if is_prod then prod_real_len c else cons_real_len c);
              prefix_hash = (if is_prod then prod_managed_hash c else cons_managed_hash c);
              can_prefix_hash = (if is_prod then prod_real_hash c else cons_real_hash c);
              attempt = try_both (prefix_len, prefix_hash, prefix)
                (can_prefix_len, can_prefix_hash, can_prefix) upath_capacity
          in or_else (attempt path)
               (case realpath path of None \<Rightarrow> No_match | Some can_path \<Rightarrow> attempt can_path))"

section \<open>Hashing a prefix and hashing the string itself\<close>

lemma x64_128_key_take:
  assumes "take len key = take len key'" "len \<le> length key" "len \<le> length key'"
  shows "MurmurHash3_x64_128 key len seed = MurmurHash3_x64_128 key' len seed"
proof -
  have body: "take (16 * (len div 16)) key = take (16 * (len div 16)) key'"
    by (rule take_le_cong [OF assms(1)]) simp
  have nth: "drop (16 * (len div 16)) key ! i = drop (16 * (len div 16)) key' ! i" if "i < len mod 16" for i
  proof -
    have "16 * (len div 16) + i < len" using that by presburger
    then have "key ! (16 * (len div 16) + i) = key' ! (16 * (len div 16) + i)"
      using assms(1) by (metis nth_take)
    then show ?thesis using that assms(2,3) by (simp add: nth_drop)
  qed
  have "x64_tail (drop (16 * (len div 16)) key) (len mod 16) h
      = x64_tail (drop (16 * (len div 16)) key') (len mod 16) h" for h
    using nth by (auto simp: x64_tail_def split: prod.split)
  then show ?thesis
    using x64_body_cong [OF body] by (simp add: MurmurHash3_x64_128_def Let_def)
qed

lemma hash_path_prefix_append:
  "hash_path_prefix (Some (p @ r)) seed (length p) = hash_str (Some p) seed"
proof (cases "length p < 128")
  case False
  have "MurmurHash3_x64_128 (bytes_of_string (p @ r)) (length p) seed
      = MurmurHash3_x64_128 (bytes_of_string p) (length p) seed"
    by (rule x64_128_key_take) simp_all
  with False show ?thesis by (auto simp: hash_path_prefix_def hash_str_def)
qed (auto simp: hash_path_prefix_def hash_str_def)

section \<open>What extraction computes\<close>

text \<open>A path lies under a directory: the directory without a trailing delimiter, the delimiter,
  and a user path that is not empty.\<close>

definition strip_delim :: "string \<Rightarrow> string" where
  "strip_delim d = (if d \<noteq> [] \<and> last d = CHR ''/'' then butlast d else d)"

definition under_dir :: "string \<Rightarrow> string \<Rightarrow> string \<Rightarrow> bool" where
  "under_dir d path u \<longleftrightarrow> path = strip_delim d @ CHR ''/'' # u \<and> u \<noteq> []"

lemma strip_delim_append_delim [simp]: "strip_delim (s @ ''/'') = s"
  by (simp add: strip_delim_def)

lemma under_dir_unique: "under_dir d path u \<Longrightarrow> under_dir d path v \<Longrightarrow> u = v"
  by (simp add: under_dir_def)

lemma delim_end:
  "length p \<ge> 1 \<and> strncmp_eq (drop (length p - 1) p) ''/'' 1 \<longleftrightarrow> p \<noteq> [] \<and> last p = CHR ''/''"
  by (cases p rule: rev_cases) (auto simp: strncmp_eq_def)

lemma take1_iff: "take (Suc 0) xs = [c] \<longleftrightarrow> (\<exists>u. xs = c # u)"
  by (cases xs) auto

lemma extract_user_path_iff:
  "extract_user_path True p path PATH_DELIM cap = Some u \<longleftrightarrow>
     under_dir p path u \<and> length u < cap \<and> length path \<le> PATH_MAX"
proof -
  define n where "n = length (strip_delim p)"
  have n: "n = (if length p \<ge> 1 \<and> strncmp_eq (drop (length p - 1) p) ''/'' 1
                then length p - 1 else length p)"
    unfolding n_def strip_delim_def delim_end by simp
  have len1: "length ''/'' = 1" by simp
  have "extract_user_path True p path PATH_DELIM cap = Some u \<longleftrightarrow>
     take (length p) path = p \<and> length path \<le> PATH_MAX \<and> length p \<le> PATH_MAX \<and>
     n + 1 < length path \<and> take 1 (drop n path) = ''/'' \<and>
     length path - n - 1 < cap \<and> u = drop (n + 1) path"
    unfolding extract_user_path_def Let_def PATH_DELIM_def len1 n [symmetric]
    by (auto simp: strncmp_eq_prefix PATH_MAX_def strncmp_eq_def [of "drop n path"])
  also have "\<dots> \<longleftrightarrow> under_dir p path u \<and> length u < cap \<and> length path \<le> PATH_MAX"
  proof (cases "p \<noteq> [] \<and> last p = CHR ''/''")
    case True
    then obtain t where t: "p = t @ ''/''" by (cases p rule: rev_cases) auto
    then have "n = length t" by (simp add: n_def)
    then show ?thesis
      unfolding take_eq_prefix_iff by (auto simp: t under_dir_def)
  next
    case False
    then have "strip_delim p = p" "n = length p" by (auto simp: n_def strip_delim_def)
    then show ?thesis
      unfolding take_eq_prefix_iff by (auto simp: under_dir_def take1_iff)
  qed
  finally show ?thesis .
qed

section \<open>The context's path fields\<close>

text \<open>
  The invariant \<^verbatim>\<open>dyad_set_prod_path\<close> and \<^verbatim>\<open>dyad_set_cons_path\<close> maintain for a managed path and
  its canonical form: the stored length and hash are those of the stored string, and an absent
  canonical form has length zero.
\<close>

definition path_field_ok :: "string option \<Rightarrow> uint32 \<Rightarrow> uint32 \<Rightarrow> bool" where
  "path_field_ok p len h \<longleftrightarrow>
     (case p of None \<Rightarrow> len = 0 \<and> h = 0
              | Some s \<Rightarrow> 0 < length s \<and> unat len = length s \<and> h = hash_str p DYAD_SEED)"

definition ctx_paths_ok :: "bool \<Rightarrow> dyad_ctx \<Rightarrow> bool" where
  "ctx_paths_ok is_prod c \<longleftrightarrow>
     (if is_prod
      then path_field_ok (prod_managed_path c) (prod_managed_len c) (prod_managed_hash c)
         \<and> path_field_ok (prod_real_path c) (prod_real_len c) (prod_real_hash c)
      else path_field_ok (cons_managed_path c) (cons_managed_len c) (cons_managed_hash c)
         \<and> path_field_ok (cons_real_path c) (cons_real_len c) (cons_real_hash c))"

lemma path_field_ok_len_pos: "path_field_ok p len h \<Longrightarrow> 0 < len \<longleftrightarrow> p \<noteq> None"
  by (auto simp: path_field_ok_def word_gt_0 unat_eq_zero split: option.splits)

text \<open>With a consistent field the hash test never rejects a path that extraction accepts.\<close>

lemma try_prefix_eq:
  assumes "path_field_ok (Some p) len h"
  shows "try_prefix len h (Some p) path cap =
    (case extract_user_path True p path PATH_DELIM cap of None \<Rightarrow> No_match | Some u \<Rightarrow> Match u)"
proof (cases "extract_user_path True p path PATH_DELIM cap")
  case (Some u)
  then have "strncmp_eq p path (length p)"
    by (auto simp: extract_user_path_def Let_def split: if_splits)
  then obtain r where "path = p @ r" by (auto simp: clist)
  with assms Some show ?thesis
    by (simp add: try_prefix_def path_field_ok_def hash_path_prefix_append)
qed (simp add: try_prefix_def)

text \<open>A path is managed when it lies under the managed path or its canonical form.\<close>

definition managed_dirs :: "bool \<Rightarrow> dyad_ctx \<Rightarrow> string list" where
  "managed_dirs is_prod c =
     (case (if is_prod then prod_managed_path c else cons_managed_path c) of None \<Rightarrow> [] | Some d \<Rightarrow> [d]) @
     (case (if is_prod then prod_real_path c else cons_real_path c) of None \<Rightarrow> [] | Some d \<Rightarrow> [d])"

fun first_match :: "string list \<Rightarrow> string \<Rightarrow> nat \<Rightarrow> path_match" where
  "first_match [] path cap = No_match"
| "first_match (d # ds) path cap =
     (case extract_user_path True d path PATH_DELIM cap of
        None \<Rightarrow> first_match ds path cap | Some u \<Rightarrow> Match u)"

lemma first_match_Match:
  "first_match ds path cap = Match u \<Longrightarrow>
     \<exists>d \<in> set ds. under_dir d path u \<and> length u < cap \<and> length path \<le> PATH_MAX"
  by (induction ds) (auto split: option.splits simp: extract_user_path_iff)

lemma first_match_No_match:
  "first_match ds path cap = No_match \<longleftrightarrow>
     (\<forall>d \<in> set ds. extract_user_path True d path PATH_DELIM cap = None)"
  by (induction ds) (auto split: option.splits)

lemma first_match_no_null [simp]: "first_match ds path cap \<noteq> Null_deref"
  by (induction ds) (auto split: option.splits)

lemma or_else_simps [simp]:
  "or_else No_match m = m" "or_else (Match u) m = Match u" "or_else Null_deref m = Null_deref"
  by (simp_all add: or_else_def)

section \<open>Properties\<close>

text \<open>
  C14: the hash shortcut is exact. On a context whose path fields are consistent and whose managed
  path is set, \<^verbatim>\<open>cmp_canonical_path_prefix\<close> gives the same answer as trying the managed path and
  its canonical form on the path itself and then on its \<^verbatim>\<open>realpath\<close>, without any hashing.
\<close>

theorem cmp_canonical_path_prefix_exact:
  assumes "ctx_paths_ok is_prod c"
    and "(if is_prod then prod_managed_path c else cons_managed_path c) = Some d"
  shows "cmp_canonical_path_prefix realpath (Some c) is_prod path cap =
     or_else (first_match (managed_dirs is_prod c) path cap)
       (case realpath path of None \<Rightarrow> No_match
        | Some q \<Rightarrow> first_match (managed_dirs is_prod c) q cap)"
proof -
  let ?len = "if is_prod then prod_managed_len c else cons_managed_len c"
  let ?h = "if is_prod then prod_managed_hash c else cons_managed_hash c"
  let ?real = "if is_prod then prod_real_path c else cons_real_path c"
  let ?rlen = "if is_prod then prod_real_len c else cons_real_len c"
  let ?rh = "if is_prod then prod_real_hash c else cons_real_hash c"
  from assms have ok: "path_field_ok (Some d) ?len ?h" "path_field_ok ?real ?rlen ?rh"
    by (auto simp: ctx_paths_ok_def split: if_splits)
  have "try_both (?len, ?h, Some d) (?rlen, ?rh, ?real) cap q
        = first_match (managed_dirs is_prod c) q cap" for q
  proof (cases ?real)
    case None
    then show ?thesis
      using path_field_ok_len_pos [OF ok(2)] assms(2)
      by (simp add: try_both_def try_prefix_eq [OF ok(1)] managed_dirs_def split: option.split)
  next
    case (Some r)
    then show ?thesis
      using path_field_ok_len_pos [OF ok(2)] assms(2) ok(2)
      by (simp add: try_both_def try_prefix_eq [OF ok(1)] try_prefix_eq managed_dirs_def split: option.split)
  qed
  then show ?thesis
    by (cases "realpath path") (simp_all only: cmp_canonical_path_prefix_def option.case Let_def assms(2))
qed


definition example_ctx :: "string \<Rightarrow> dyad_ctx" where
  "example_ctx d = dyad_ctx_default
     \<lparr>cons_managed_path := Some d, cons_managed_len := of_nat (length d),
      cons_managed_hash := hash_str (Some d) DYAD_SEED\<rparr>"

lemma example_ctx_ok: "d \<noteq> [] \<Longrightarrow> length d < 2 ^ 32 \<Longrightarrow> ctx_paths_ok False (example_ctx d)"
  by (simp add: ctx_paths_ok_def path_field_ok_def example_ctx_def dyad_ctx_default_def
      unat_of_nat take_bit_nat_eq_self)

lemma cmp_canonical_path_prefix_exact_witness:
  "cmp_canonical_path_prefix (\<lambda>_. None) (Some (example_ctx ''/d'')) False ''/d/f'' 10 = Match ''f''"
proof -
  have "cmp_canonical_path_prefix (\<lambda>_. None) (Some (example_ctx ''/d'')) False ''/d/f'' 10
      = or_else (first_match (managed_dirs False (example_ctx ''/d'')) ''/d/f'' 10) No_match"
    by (subst cmp_canonical_path_prefix_exact [where d = "''/d''"])
      (simp_all add: example_ctx_ok, simp add: example_ctx_def)
  also have "\<dots> = Match ''f''"
    by (simp add: managed_dirs_def example_ctx_def dyad_ctx_default_def extract_user_path_def
        PATH_DELIM_def PATH_MAX_def strncmp_eq_def)
  finally show ?thesis .
qed

lemma or_else_Match: "or_else m m' = Match u \<longleftrightarrow> m = Match u \<or> m = No_match \<and> m' = Match u"
  by (cases m) simp_all

lemma try_prefix_Match:
  "try_prefix len h p path cap = Match u \<Longrightarrow>
     \<exists>d. p = Some d \<and> under_dir d path u \<and> length u < cap"
  by (auto simp: try_prefix_def extract_user_path_iff split: if_splits option.splits)

lemma try_both_Match:
  "try_both (len, h, p) (len', h', p') cap path = Match u \<Longrightarrow>
     \<exists>d. (p = Some d \<or> p' = Some d) \<and> under_dir d path u \<and> length u < cap"
  by (auto simp: try_both_def or_else_Match dest: try_prefix_Match split: if_splits)

text \<open>
  Soundness of the path test. Whenever it matches, whatever the stored lengths and hashes are,
  the path or its canonical form lies under one of the two managed directories, and the
  user part it returns is what follows the directory and the delimiter and fits the buffer.
\<close>


theorem cmp_canonical_path_prefix_sound:
  assumes "cmp_canonical_path_prefix realpath (Some c) is_prod path cap = Match u"
  shows "\<exists>d q. d \<in> set (managed_dirs is_prod c) \<and> (q = path \<or> realpath path = Some q)
     \<and> under_dir d q u \<and> length u < cap"
proof -
  let ?p = "if is_prod then prod_managed_path c else cons_managed_path c"
  let ?r = "if is_prod then prod_real_path c else cons_real_path c"
  from assms obtain q len h len' h' where q: "q = path \<or> realpath path = Some q"
    and m: "try_both (len, h, ?p) (len', h', ?r) cap q = Match u"
    unfolding cmp_canonical_path_prefix_def option.case Let_def or_else_Match
    by (cases "realpath path") (simp_all, blast+)
  from try_both_Match [OF m] obtain d where d: "?p = Some d \<or> ?r = Some d"
    and u: "under_dir d q u" "length u < cap" by blast
  from d have "d \<in> set (managed_dirs is_prod c)"
    by (cases is_prod) (auto simp: managed_dirs_def)
  with q u show ?thesis by blast
qed

lemma cmp_canonical_path_prefix_sound_witness:
  "\<exists>d q. d \<in> set (managed_dirs False (example_ctx ''/d'')) \<and> (q = ''/d/f'' \<or> False)
     \<and> under_dir d q ''f'' \<and> length ''f'' < 10"
proof -
  have "cmp_canonical_path_prefix (\<lambda>_. None) (Some (example_ctx ''/d'')) False ''/d/f'' 10 = Match ''f''"
    by (simp add: cmp_canonical_path_prefix_def try_both_def try_prefix_def example_ctx_def
        dyad_ctx_default_def hash_path_prefix_def hash_str_def pad128_def extract_user_path_def
        PATH_DELIM_def PATH_MAX_def strncmp_eq_def)
  from cmp_canonical_path_prefix_sound [OF this] show ?thesis by simp
qed

end
