(* ===== verification/Ctx.thy ===== *)
theory Ctx
  imports Cache_Policy Flux_Dtl Path_Utils
begin

text \<open>
  The life of the context, \<^verbatim>\<open>src/dyad/core/dyad_ctx.c\<close>: initialisation from arguments or from the
  environment, the managed paths, the choice of transport and of eviction policy, clearing and
  finalising. A result of \<open>None\<close> means the code dereferences the \<^verbatim>\<open>NULL\<close> context. The profiler and
  the log files are left out.
\<close>

section \<open>Clearing and finalising\<close>

definition dyad_clear :: "'e flux_ops \<Rightarrow> ('e, 'x, dyad_rc) dio" where
  "dyad_clear F = do {
     c \<leftarrow> get_cell;
     (if c = None then State_Monad.return ()
      else do {
        _ \<leftarrow> dyad_dtl_finalize;
        _ \<leftarrow> dyad_cache_policy_finalize;
        c \<leftarrow> the_ctx;
        (if ctx_h c \<noteq> None
         then do { flux_do (fx_close F (ctx_h c)); upd_ctx (\<lambda>c. c\<lparr>ctx_h := None\<rparr>) }
         else State_Monad.return ());
        upd_ctx (\<lambda>c. c\<lparr>kvs_namespace := None, prod_managed_path := None, prod_real_path := None,
                       cons_managed_path := None, cons_real_path := None, origin_path := None\<rparr>) });
     State_Monad.return RC_OK }"

definition dyad_finalize :: "'e flux_ops \<Rightarrow> ('e, 'x, dyad_rc) dio" where
  "dyad_finalize F = do {
     c \<leftarrow> get_cell;
     (if c = None then State_Monad.return ()
      else do { _ \<leftarrow> dyad_clear F; set_cell None });
     State_Monad.return RC_OK }"

section \<open>Managed paths\<close>

text \<open>The six fields a managed path occupies in the context.\<close>

record managed =
  m_path :: "string option"
  m_len :: uint32
  m_hash :: uint32
  r_path :: "string option"
  r_len :: uint32
  r_hash :: uint32

definition no_managed :: managed where
  "no_managed = \<lparr>m_path = None, m_len = 0, m_hash = 0, r_path = None, r_len = 0, r_hash = 0\<rparr>"

definition prod_fields :: "dyad_ctx \<Rightarrow> managed" where
  "prod_fields c = \<lparr>m_path = prod_managed_path c, m_len = prod_managed_len c, m_hash = prod_managed_hash c,
     r_path = prod_real_path c, r_len = prod_real_len c, r_hash = prod_real_hash c\<rparr>"

definition set_prod_fields :: "managed \<Rightarrow> dyad_ctx \<Rightarrow> dyad_ctx" where
  "set_prod_fields m c =
     c\<lparr>prod_managed_path := m_path m, prod_managed_len := m_len m, prod_managed_hash := m_hash m,
       prod_real_path := r_path m, prod_real_len := r_len m, prod_real_hash := r_hash m\<rparr>"

definition cons_fields :: "dyad_ctx \<Rightarrow> managed" where
  "cons_fields c = \<lparr>m_path = cons_managed_path c, m_len = cons_managed_len c, m_hash = cons_managed_hash c,
     r_path = cons_real_path c, r_len = cons_real_len c, r_hash = cons_real_hash c\<rparr>"

definition set_cons_fields :: "managed \<Rightarrow> dyad_ctx \<Rightarrow> dyad_ctx" where
  "set_cons_fields m c =
     c\<lparr>cons_managed_path := m_path m, cons_managed_len := m_len m, cons_managed_hash := m_hash m,
       cons_real_path := r_path m, cons_real_len := r_len m, cons_real_hash := r_hash m\<rparr>"

text \<open>Freeing the fields of the previous path.\<close>

definition free_managed :: "managed \<Rightarrow> managed" where
  "free_managed m =
     (let m = (if m_path m \<noteq> None then m\<lparr>m_path := None, m_len := 0, m_hash := 0\<rparr> else m) in
      if r_path m \<noteq> None then m\<lparr>r_path := None, r_len := 0, r_hash := 0\<rparr> else m)"

text \<open>The real path, when it says more than the managed path.\<close>

definition load_real :: "string \<Rightarrow> managed \<Rightarrow> ('e, 'x, dyad_rc \<times> managed) dio" where
  "load_real path m = do {
     rp \<leftarrow> sys_realpath path;
     case rp of
       None \<Rightarrow> State_Monad.return (RC_OK, m\<lparr>r_path := None, r_len := 0, r_hash := 0\<rparr>)
     | Some rp \<Rightarrow>
         if rp = [] \<or> strncmp_eq path rp (length path)
         then State_Monad.return (RC_OK, m\<lparr>r_path := None, r_len := 0, r_hash := 0\<rparr>)
         else do {
           ok \<leftarrow> sys_malloc;
           if \<not> ok then State_Monad.return (RC_SYSFAIL, m\<lparr>r_path := None\<rparr>)
           else do {
             let m = m\<lparr>r_path := Some rp, r_len := of_nat (length rp),
                       r_hash := hash_str (Some rp) DYAD_SEED\<rparr>;
             State_Monad.return (if r_hash m = 0 then RC_BADMANAGEDPATH else RC_OK, m) } } }"

definition load_managed :: "string option \<Rightarrow> managed \<Rightarrow> ('e, 'x, dyad_rc \<times> managed) dio" where
  "load_managed path_opt m =
     (let m = free_managed m in
      case path_opt of
        None \<Rightarrow> State_Monad.return (RC_OK, no_managed)
      | Some path \<Rightarrow>
          if path = [] then State_Monad.return (RC_BADMANAGEDPATH, m)
          else do {
            ok \<leftarrow> sys_malloc;
            if \<not> ok then State_Monad.return (RC_SYSFAIL, m\<lparr>m_path := None\<rparr>)
            else do {
              let m = m\<lparr>m_path := Some path, m_len := of_nat (length path),
                        m_hash := hash_str (Some path) DYAD_SEED\<rparr>;
              if m_hash m = 0 then State_Monad.return (RC_BADMANAGEDPATH, m)
              else load_real path m } })"

definition dyad_set_prod_path :: "string option \<Rightarrow> ('e, 'x, dyad_rc) dio" where
  "dyad_set_prod_path path = do {
     c \<leftarrow> get_cell;
     case c of
       None \<Rightarrow> State_Monad.return RC_NOCTX
     | Some c \<Rightarrow> do {
         upd_ctx (\<lambda>c. c\<lparr>reenter := False\<rparr>);
         (rc, m) \<leftarrow> load_managed path (prod_fields c);
         upd_ctx (set_prod_fields m);
         upd_ctx (\<lambda>c'. c'\<lparr>reenter := reenter c\<rparr>);
         State_Monad.return rc } }"

definition dyad_set_cons_path :: "string option \<Rightarrow> ('e, 'x, dyad_rc) dio" where
  "dyad_set_cons_path path = do {
     c \<leftarrow> get_cell;
     case c of
       None \<Rightarrow> State_Monad.return RC_NOCTX
     | Some c \<Rightarrow> do {
         upd_ctx (\<lambda>c. c\<lparr>reenter := False\<rparr>);
         (rc, m) \<leftarrow> load_managed path (cons_fields c);
         upd_ctx (set_cons_fields m);
         upd_ctx (\<lambda>c'. c'\<lparr>reenter := reenter c\<rparr>);
         State_Monad.return rc } }"

section \<open>Transport and policy by name\<close>

definition dtl_mode_of_name :: "string \<Rightarrow> dyad_dtl_mode option" where
  "dtl_mode_of_name n =
     (if strncmp_eq n (dyad_dtl_mode_name DTL_DEFAULT) (length n) then Some DTL_DEFAULT
      else if strncmp_eq n (dyad_dtl_mode_name DTL_UCX) (length n) then Some DTL_UCX
      else if strncmp_eq n (dyad_dtl_mode_name DTL_MARGO) (length n) then Some DTL_MARGO
      else if strncmp_eq n (dyad_dtl_mode_name DTL_FLUX_RPC) (length n) then Some DTL_FLUX_RPC
      else None)"

definition dyad_set_and_init_dtl_mode ::
  "string option \<Rightarrow> dyad_dtl_comm_mode \<Rightarrow> ('e, 'x, dyad_rc) dio" where
  "dyad_set_and_init_dtl_mode dtl_name comm_mode =
     (case dtl_name of
        None \<Rightarrow> State_Monad.return RC_BADDTLMODE
      | Some n \<Rightarrow>
          (case dtl_mode_of_name n of
             None \<Rightarrow> State_Monad.return RC_BADDTLMODE
           | Some mode \<Rightarrow> do {
               rc \<leftarrow> dyad_dtl_finalize;
               if is_error rc then State_Monad.return rc
               else do {
                 c \<leftarrow> the_ctx;
                 dyad_dtl_init mode comm_mode (ctx_debug c) } }))"

definition cache_mode_of_name :: "string \<Rightarrow> dyad_cache_policy_mode option" where
  "cache_mode_of_name n =
     (if strncmp_eq n (dyad_cache_policy_name CACHE_NONE) (length n) then Some CACHE_NONE
      else if strncmp_eq n (dyad_cache_policy_name CACHE_LRU) (length n) then Some CACHE_LRU
      else if strncmp_eq n (dyad_cache_policy_name CACHE_FIFO) (length n) then Some CACHE_FIFO
      else None)"

definition dyad_set_and_init_cache_policy :: "string option \<Rightarrow> uint64 \<Rightarrow> ('e, 'x, dyad_rc) dio" where
  "dyad_set_and_init_cache_policy name capacity =
     (case name of
        None \<Rightarrow> State_Monad.return RC_BADCACHEMODE
      | Some n \<Rightarrow>
          (case cache_mode_of_name n of
             None \<Rightarrow> State_Monad.return RC_BADCACHEMODE
           | Some mode \<Rightarrow> do {
               let mode = (if capacity = 0 then CACHE_NONE else mode);
               upd_ctx (\<lambda>c. c\<lparr>cache_policy_mode := mode\<rparr>);
               rc \<leftarrow> dyad_cache_policy_finalize;
               if is_error rc then State_Monad.return rc else dyad_cache_policy_init mode }))"

section \<open>Initialisation\<close>

record init_args =
  a_debug :: bool
  a_check :: bool
  a_shared_storage :: bool
  a_reinit :: bool
  a_async_publish :: bool
  a_fsync_write :: bool
  a_key_depth :: uint32
  a_key_bins :: uint32
  a_service_mux :: uint32
  a_kvs_namespace :: "string option"
  a_prod_managed_path :: "string option"
  a_cons_managed_path :: "string option"
  a_relative :: bool
  a_dtl_mode :: "string option"
  a_comm_mode :: dyad_dtl_comm_mode
  a_flux_handle :: "flux_handle option"
  a_cache_capacity :: uint64
  a_cache_policy :: "string option"
  a_low_watermark :: rat
  a_grace_period :: uint32
  a_origin_path :: "string option"

text \<open>The label \<^verbatim>\<open>init_region_failed\<close>, reached with the code \<open>rc\<close>.\<close>

definition init_failed :: "'e flux_ops \<Rightarrow> dyad_rc \<Rightarrow> ('e, 'x, dyad_rc) dio" where
  "init_failed F rc = do {
     _ \<leftarrow> dyad_clear F;
     set_cell (Some dyad_ctx_default);
     (if rc = RC_NOCTX then upd_ctx (\<lambda>c. c\<lparr>initialized := False, reenter := False\<rparr>)
      else State_Monad.return ());
     State_Monad.return RC_NOCTX }"

text \<open>The label \<^verbatim>\<open>init_region_finish\<close>.\<close>

definition init_finish :: "dyad_rc \<Rightarrow> ('e, 'x, dyad_rc) dio" where
  "init_finish rc = do { upd_ctx (\<lambda>c. c\<lparr>reenter := True\<rparr>); State_Monad.return rc }"

text \<open>Copies of the namespace and the origin path; \<open>False\<close> when a step fails.\<close>

definition init_names :: "init_args \<Rightarrow> ('e, 'x, bool) dio" where
  "init_names a =
     (case a_kvs_namespace a of
        None \<Rightarrow> State_Monad.return False
      | Some ns \<Rightarrow> do {
          ok \<leftarrow> sys_malloc;
          if \<not> ok then do { upd_ctx (\<lambda>c. c\<lparr>kvs_namespace := None\<rparr>); State_Monad.return False }
          else do {
            upd_ctx (\<lambda>c. c\<lparr>kvs_namespace := Some ns, origin_path := None\<rparr>);
            case a_origin_path a of
              None \<Rightarrow> State_Monad.return True
            | Some p \<Rightarrow>
                if p = [] then State_Monad.return True
                else do {
                  ok \<leftarrow> sys_malloc;
                  if \<not> ok then State_Monad.return False
                  else do { upd_ctx (\<lambda>c. c\<lparr>origin_path := Some p\<rparr>); State_Monad.return True } } } })"

text \<open>Transport, policy and paths; \<open>None\<close> on success, otherwise the code at the failing step.\<close>

definition init_parts :: "init_args \<Rightarrow> ('e, 'x, dyad_rc option) dio" where
  "init_parts a = do {
     rc \<leftarrow> dyad_set_and_init_dtl_mode (a_dtl_mode a) (a_comm_mode a);
     if is_error rc then State_Monad.return (Some rc)
     else do {
       rc \<leftarrow> dyad_set_and_init_cache_policy
              (if a_cache_capacity a = 0 then Some (dyad_cache_policy_name CACHE_NONE)
               else case a_cache_policy a of
                      Some p \<Rightarrow> Some p | None \<Rightarrow> Some (dyad_cache_policy_name CACHE_DEFAULT))
              (a_cache_capacity a);
       if is_error rc then State_Monad.return (Some rc)
       else do {
         rc' \<leftarrow> dyad_set_prod_path (a_prod_managed_path a);
         if rc' \<noteq> RC_OK then State_Monad.return (Some rc)
         else do {
           rc' \<leftarrow> dyad_set_cons_path (a_cons_managed_path a);
           State_Monad.return (if rc' \<noteq> RC_OK then Some rc else None) } } } }"

text \<open>From \<^verbatim>\<open>*ctx = dyad_ctx_default\<close> to the end.\<close>

definition init_body :: "'e flux_ops \<Rightarrow> init_args \<Rightarrow> ('e, 'x, dyad_rc) dio" where
  "init_body F a = do {
     set_cell (Some dyad_ctx_default);
     if a_prod_managed_path a = None \<and> a_cons_managed_path a = None then init_finish RC_OK
     else if PATH_DELIM = [] then init_failed F RC_NOCTX
     else do {
       upd_ctx (\<lambda>c. c\<lparr>delim_len := of_nat (length PATH_DELIM), ctx_debug := a_debug a,
          ctx_check := a_check a, shared_storage := a_shared_storage a,
          async_publish := a_async_publish a, fsync_write := a_fsync_write a,
          key_depth := a_key_depth a, key_bins := a_key_bins a,
          cache_capacity_bytes := a_cache_capacity a,
          cache_low_watermark_frac := a_low_watermark a,
          cache_grace_period_sec := a_grace_period a\<rparr>);
       h \<leftarrow> (case a_flux_handle a of Some h \<Rightarrow> State_Monad.return (Some h)
              | None \<Rightarrow> flux_call (fx_open F));
       upd_ctx (\<lambda>c. c\<lparr>ctx_h := h\<rparr>);
       if h = None then init_finish RC_FLUXFAIL
       else do {
         rank \<leftarrow> flux_call (fx_get_rank F h);
         case rank of
           None \<Rightarrow> init_finish RC_FLUXFAIL
         | Some rank \<Rightarrow> do {
             p \<leftarrow> sys_getpid;
             let mux = (if a_service_mux a < 1 then 1 else a_service_mux a);
             upd_ctx (\<lambda>c. c\<lparr>ctx_rank := rank, service_mux := mux, node_idx := rank div mux, ctx_pid := p\<rparr>);
             named \<leftarrow> init_names a;
             if \<not> named then init_failed F RC_OK
             else do {
               failed \<leftarrow> init_parts a;
               case failed of
                 Some rc \<Rightarrow> init_failed F rc
               | None \<Rightarrow> do {
                   upd_ctx (\<lambda>c. c\<lparr>relative_to_managed_path := a_relative a, use_fs_locks := True,
                                  initialized := True\<rparr>);
                   init_finish RC_OK } } } } } }"

definition dyad_init :: "'e flux_ops \<Rightarrow> init_args \<Rightarrow> ('e, 'x, dyad_rc option) dio" where
  "dyad_init F a = do {
     c \<leftarrow> get_cell;
     if \<not> a_reinit a \<and> c \<noteq> None
     then (if initialized (the c)
           then do { rc \<leftarrow> init_finish RC_OK; State_Monad.return (Some rc) }
           else do { rc \<leftarrow> init_body F a; State_Monad.return (Some rc) })
     else do {
       (if a_reinit a then do { _ \<leftarrow> dyad_finalize F; State_Monad.return () } else State_Monad.return ());
       ok \<leftarrow> sys_malloc;
       if \<not> ok then do { set_cell None; State_Monad.return None }
       else do { rc \<leftarrow> init_body F a; State_Monad.return (Some rc) } } }"
section \<open>Initialisation from the environment\<close>

text \<open>
  Numbers in C strings: white space, a sign, digits; whatever follows is ignored. \<^verbatim>\<open>atoi\<close> of a
  number outside \<^verbatim>\<open>int\<close> is undefined in C and wraps here; \<^verbatim>\<open>strtoull\<close> saturates; \<^verbatim>\<open>atof\<close> reads plain
  decimal notation, exactly.
\<close>

definition is_space :: "char \<Rightarrow> bool" where
  "is_space c \<longleftrightarrow> (let n = (of_char c :: nat) in n = 32 \<or> (9 \<le> n \<and> n \<le> 13))"

definition is_digit :: "char \<Rightarrow> bool" where
  "is_digit c \<longleftrightarrow> (let n = (of_char c :: nat) in 48 \<le> n \<and> n \<le> 57)"

definition digits_val :: "string \<Rightarrow> nat" where
  "digits_val s = foldl (\<lambda>v c. 10 * v + (of_char c - 48)) 0 (takeWhile is_digit s)"

definition signed_number :: "string \<Rightarrow> bool \<times> string" where
  "signed_number s =
     (case dropWhile is_space s of
        [] \<Rightarrow> (False, [])
      | c # cs \<Rightarrow> if c = CHR ''-'' then (True, cs) else if c = CHR ''+'' then (False, cs) else (False, c # cs))"

definition c_atoi :: "string \<Rightarrow> uint32" where
  "c_atoi s = (let (neg, ds) = signed_number s; v = int (digits_val ds) in of_int (if neg then - v else v))"

definition c_strtoull :: "string \<Rightarrow> uint64" where
  "c_strtoull s =
     (let (neg, ds) = signed_number s; v = digits_val ds in
      if v \<ge> 2 ^ 64 then - 1 else if neg then - of_nat v else of_nat v)"

definition c_atof :: "string \<Rightarrow> rat" where
  "c_atof s =
     (let (neg, ds) = signed_number s;
          whole = of_nat (digits_val ds);
          frac = (case dropWhile is_digit ds of
                    [] \<Rightarrow> 0
                  | c # cs \<Rightarrow>
                      if c = CHR ''.''
                      then of_nat (digits_val cs) / 10 ^ length (takeWhile is_digit cs) else 0)
      in if neg then - (whole + frac) else whole + frac)"

definition is_set :: "string \<Rightarrow> ('e, 'x, bool) dio" where
  "is_set v = do { e \<leftarrow> sys_getenv v; State_Monad.return (e \<noteq> None) }"

definition env_uint :: "string \<Rightarrow> uint32 \<Rightarrow> ('e, 'x, uint32) dio" where
  "env_uint v d = do {
     e \<leftarrow> sys_getenv v;
     State_Monad.return (case e of Some s \<Rightarrow> c_atoi s | None \<Rightarrow> d) }"

definition dyad_init_env ::
  "'e flux_ops \<Rightarrow> dyad_dtl_comm_mode \<Rightarrow> flux_handle option \<Rightarrow> ('e, 'x, dyad_rc option) dio" where
  "dyad_init_env F comm_mode h = do {
     debug \<leftarrow> is_set ''DYAD_SYNC_DEBUG'';
     check \<leftarrow> is_set ''DYAD_SYNC_CHECK'';
     shared \<leftarrow> is_set ''DYAD_SHARED_STORAGE'';
     reinit \<leftarrow> is_set ''DYAD_REINIT'';
     async \<leftarrow> is_set ''DYAD_ASYNC_PUBLISH'';
     fsync \<leftarrow> is_set ''DYAD_FSYNC_WRITE'';
     depth \<leftarrow> env_uint ''DYAD_KEY_DEPTH'' 3;
     bins \<leftarrow> env_uint ''DYAD_KEY_BINS'' 1024;
     mux \<leftarrow> env_uint ''DYAD_SERVICE_MUX'' 1;
     ns \<leftarrow> sys_getenv ''DYAD_KVS_NAMESPACE'';
     cons \<leftarrow> sys_getenv ''DYAD_PATH_CONSUMER'';
     prod \<leftarrow> sys_getenv ''DYAD_PATH_PRODUCER'';
     rel \<leftarrow> is_set ''DYAD_PATH_RELATIVE'';
     mode \<leftarrow> sys_getenv ''DYAD_DTL_MODE'';
     capacity \<leftarrow> sys_getenv ''DYAD_CACHE_CAPACITY'';
     policy \<leftarrow> sys_getenv ''DYAD_CACHE_POLICY'';
     low \<leftarrow> sys_getenv ''DYAD_CACHE_LOW_WATERMARK'';
     grace \<leftarrow> env_uint ''DYAD_CACHE_GRACE_PERIOD'' 5;
     org \<leftarrow> sys_getenv ''DYAD_PATH_ORIGIN'';
     dyad_init F
       \<lparr>a_debug = debug, a_check = check, a_shared_storage = shared, a_reinit = reinit,
        a_async_publish = async, a_fsync_write = fsync, a_key_depth = depth, a_key_bins = bins,
        a_service_mux = mux, a_kvs_namespace = ns, a_prod_managed_path = prod,
        a_cons_managed_path = cons, a_relative = rel,
        a_dtl_mode = Some (case mode of Some m \<Rightarrow> m | None \<Rightarrow> dyad_dtl_mode_name DTL_DEFAULT),
        a_comm_mode = comm_mode, a_flux_handle = h,
        a_cache_capacity = (case capacity of Some s \<Rightarrow> c_strtoull s | None \<Rightarrow> 0),
        a_cache_policy = Some (case policy of Some p \<Rightarrow> p | None \<Rightarrow> dyad_cache_policy_name CACHE_DEFAULT),
        a_low_watermark = (case low of Some s \<Rightarrow> c_atof s | None \<Rightarrow> 8 / 10),
        a_grace_period = grace, a_origin_path = org\<rparr> }"

definition dyad_ctx_init ::
  "'e flux_ops \<Rightarrow> dyad_dtl_comm_mode \<Rightarrow> flux_handle option \<Rightarrow> ('e, 'x, unit option) dio" where
  "dyad_ctx_init F comm_mode h = do {
     rc \<leftarrow> dyad_init_env F comm_mode h;
     case rc of
       None \<Rightarrow> State_Monad.return None
     | Some rc \<Rightarrow> do {
         (if is_error rc then upd_ctx (\<lambda>c. c\<lparr>initialized := False, reenter := False\<rparr>)
          else State_Monad.return ());
         State_Monad.return (Some ()) } }"

definition dyad_ctx_fini :: "'e flux_ops \<Rightarrow> ('e, 'x, unit) dio" where
  "dyad_ctx_fini F = do {
     c \<leftarrow> get_cell;
     if c = None then State_Monad.return ()
     else do { _ \<leftarrow> dyad_finalize F; State_Monad.return () } }"

end
