(* ===== verification/Path_Key.thy ===== *)
theory Path_Key
  imports Path_Utils
begin

text \<open>
  The key under which a file is published, \<^verbatim>\<open>gen_path_key\<close> of
  \<^verbatim>\<open>src/dyad/client/dyad_client.c\<close>: bins of a chain of hashes, then the path itself. The result
  is the value the function returns and the contents of the buffer; \<open>None\<close> is the division by
  zero of \<open>width = 0\<close>.
\<close>

definition key_seeds :: "uint32 list" where
  "key_seeds = [104677, 104681, 104683, 104693, 104701, 104707, 104711, 104717, 104723, 104729]"

text \<open>\<^verbatim>\<open>%x\<close>.\<close>

definition hex_digit :: "nat \<Rightarrow> char" where
  "hex_digit n = ''0123456789abcdef'' ! n"

fun hex_of :: "nat \<Rightarrow> string" where
  "hex_of n = (if n < 16 then [hex_digit n] else hex_of (n div 16) @ [hex_digit (n mod 16)])"

declare hex_of.simps [simp del]

text \<open>The hashed string: paths shorter than 128 characters are filled up.\<close>

definition key_string :: "string \<Rightarrow> string" where
  "key_string str = (if length str < 128 then pad128 str else str)"

definition key_bin :: "string \<Rightarrow> uint32 \<Rightarrow> uint32 \<Rightarrow> uint32" where
  "key_bin str_long seed width =
     xor_words (MurmurHash3_x64_128 (bytes_of_string str_long) (length str_long) seed) mod width"

fun path_key_loop ::
  "string \<Rightarrow> nat \<Rightarrow> uint32 \<Rightarrow> nat list \<Rightarrow> uint32 \<Rightarrow> string \<Rightarrow> (bool \<times> string) option" where
  "path_key_loop str_long len width [] seed path_key = Some (True, path_key)"
| "path_key_loop str_long len width (d # ds) seed path_key =
     (let seed = seed + key_seeds ! (d mod 10) in
      if width = 0 then None
      else let path_key = path_key @ hex_of (unat (key_bin str_long seed width)) @ ''.'' in
           if length path_key \<ge> len then Some (False, take (len - 1) path_key)
           else path_key_loop str_long len width ds seed path_key)"

definition gen_path_key :: "string \<Rightarrow> nat \<Rightarrow> uint32 \<Rightarrow> uint32 \<Rightarrow> (int \<times> string) option" where
  "gen_path_key str len depth width =
     (if len = 0 \<or> str = [] then Some (- 1, [])
      else
        case path_key_loop (key_string str) len width [0..<unat depth] 57 [] of
          None \<Rightarrow> None
        | Some (False, path_key) \<Rightarrow> Some (- 1, path_key)
        | Some (True, path_key) \<Rightarrow> Some (0, path_key @ take (len - 1 - length path_key) str))"

section \<open>The shape of a key\<close>

lemma hex_of_chars: "set (hex_of n) \<subseteq> set ''0123456789abcdef''"
proof (induction n rule: hex_of.induct)
  case (1 n)
  have digit: "hex_digit k \<in> set ''0123456789abcdef''" if "k < 16" for k
    unfolding hex_digit_def by (rule nth_mem) (use that in simp)
  have "set (hex_of (n div 16)) \<subseteq> set ''0123456789abcdef''" if "\<not> n < 16"
    by (rule "1.IH" [OF that])
  then show ?case
    using digit [of n] digit [of "n mod 16"] by (subst hex_of.simps) auto
qed

lemma hex_of_no_dot: "CHR ''.'' \<notin> set (hex_of n)"
  using hex_of_chars [of n] by auto

text \<open>The bins of a key, each closed by a dot.\<close>

definition bins_text :: "string list \<Rightarrow> string" where
  "bins_text hs = concat (map (\<lambda>h. h @ ''.'') hs)"

lemma bins_text_simps [simp]: "bins_text [] = []" "bins_text (h # hs) = h @ ''.'' @ bins_text hs"
  by (simp_all add: bins_text_def)

lemma path_key_loop_text:
  assumes "path_key_loop S len width ds seed key = Some (True, key')"
  shows "\<exists>hs. key' = key @ bins_text hs \<and> length hs = length ds \<and> (\<forall>h \<in> set hs. CHR ''.'' \<notin> set h)
     \<and> (ds \<noteq> [] \<longrightarrow> length key' < len)"
  using assms
proof (induction ds arbitrary: seed key)
  case (Cons d ds)
  define seed' where "seed' = seed + key_seeds ! (d mod 10)"
  define h where "h = hex_of (unat (key_bin S seed' width))"
  from Cons.prems have rest: "path_key_loop S len width ds seed' (key @ h @ ''.'') = Some (True, key')"
    and le: "length (key @ h @ ''.'') < len"
    by (auto simp: Let_def seed'_def h_def split: if_splits)
  from Cons.IH [OF rest] obtain hs where
    hs: "key' = (key @ h @ ''.'') @ bins_text hs" "length hs = length ds"
      "\<forall>h \<in> set hs. CHR ''.'' \<notin> set h" "ds \<noteq> [] \<longrightarrow> length key' < len"
    by blast
  have "hs = []" if "ds = []" using hs(2) that by simp
  with hs le have "length key' < len" by (cases "ds = []") auto
  then show ?case
    using hs hex_of_no_dot by (intro exI [of _ "h # hs"]) (auto simp: h_def)
qed simp

lemma append_dot_inj:
  assumes "h @ CHR ''.'' # x = g @ CHR ''.'' # y" "CHR ''.'' \<notin> set h" "CHR ''.'' \<notin> set g"
  shows "h = g \<and> x = y"
  using assms
proof (induction h arbitrary: g)
  case Nil then show ?case by (cases g) auto
next
  case (Cons c h) then show ?case by (cases g) auto
qed

lemma bins_text_inj:
  assumes "bins_text hs @ s = bins_text gs @ t" and "length hs = length gs"
    and "\<forall>h \<in> set hs. CHR ''.'' \<notin> set h" and "\<forall>g \<in> set gs. CHR ''.'' \<notin> set g"
  shows "s = t"
  using assms
proof (induction hs arbitrary: gs)
  case (Cons h hs)
  then obtain g gs' where gs: "gs = g # gs'" by (cases gs) auto
  with Cons.prems have "h @ CHR ''.'' # (bins_text hs @ s) = g @ CHR ''.'' # (bins_text gs' @ t)"
    and "CHR ''.'' \<notin> set h" "CHR ''.'' \<notin> set g" by simp_all
  then have "bins_text hs @ s = bins_text gs' @ t" using append_dot_inj by blast
  with Cons gs show ?case by auto
qed simp

lemma path_key_loop_defined:
  assumes "width \<noteq> 0" and "length key < len"
  shows "\<exists>b key'. path_key_loop S len width ds seed key = Some (b, key') \<and> length key' < len"
  using assms
proof (induction ds arbitrary: seed key)
  case (Cons d ds)
  show ?case
  proof (cases "length (key @ hex_of (unat (key_bin S (seed + key_seeds ! (d mod 10)) width)) @ ''.'') < len")
    case True
    from Cons.IH [OF Cons.prems(1) True] True Cons.prems(1) show ?thesis by (simp add: Let_def)
  next
    case False
    with Cons.prems show ?thesis by (auto simp: Let_def)
  qed
qed auto

section \<open>Properties\<close>

text \<open>
  C16: with at least one bin per level the key is always defined, and it never exceeds its buffer.
\<close>

theorem gen_path_key_bounded:
  assumes "width \<noteq> 0" and "len \<noteq> 0"
  shows "\<exists>r key. gen_path_key str len depth width = Some (r, key) \<and> length key < len \<and> r \<in> {0, - 1}"
proof (cases "str = []")
  case False
  have "length ([] :: string) < len" using assms(2) by simp
  from path_key_loop_defined [OF assms(1) this]
  obtain b key where key: "path_key_loop (key_string str) len width [0..<unat depth] 57 [] = Some (b, key)"
    "length key < len" by blast
  then show ?thesis
    using assms(2) False by (cases b) (auto simp: gen_path_key_def)
qed (use assms in \<open>simp add: gen_path_key_def\<close>)

lemma gen_path_key_bounded_witness:
  "\<exists>r key. gen_path_key ''a'' 16 3 1024 = Some (r, key) \<and> length key < 16 \<and> r \<in> {0, - 1}"
  by (rule gen_path_key_bounded) simp_all

text \<open>
  C15: keys tell paths apart. Two paths that are given the same key under the same parameters are
  equal, unless the key fills its buffer to the last byte: only then may it have been cut off.
\<close>

theorem gen_path_key_inj:
  assumes "gen_path_key s len depth width = Some (0, key)"
    and "gen_path_key t len depth width = Some (0, key)"
    and "length key + 1 < len"
  shows "s = t"
proof -
  have shape: "\<exists>hs. key = bins_text hs @ u \<and> length hs = unat depth \<and> (\<forall>h \<in> set hs. CHR ''.'' \<notin> set h)"
    if "gen_path_key u len depth width = Some (0, key)" for u
  proof -
    from that obtain p where p: "path_key_loop (key_string u) len width [0..<unat depth] 57 [] = Some (True, p)"
      and key: "key = p @ take (len - 1 - length p) u"
      by (auto simp: gen_path_key_def split: if_splits option.splits prod.splits bool.splits)
    from path_key_loop_text [OF p] obtain hs where
      hs: "p = bins_text hs" "length hs = unat depth" "\<forall>h \<in> set hs. CHR ''.'' \<notin> set h" by auto
    have "take (len - 1 - length p) u = u"
      using key assms(3) by (cases "length u \<le> len - 1 - length p") auto
    with key hs show ?thesis by auto
  qed
  from shape [OF assms(1)] shape [OF assms(2)] show ?thesis
    by (metis bins_text_inj)
qed

lemma gen_path_key_inj_witness: "{t. gen_path_key t 64 1 1 = Some (0, ''0.f'')} = {''f''}"
proof -
  have f: "gen_path_key ''f'' 64 1 1 = Some (0, ''0.f'')"
    by (simp add: gen_path_key_def key_bin_def hex_of.simps hex_digit_def)
  have "t = ''f''" if "gen_path_key t 64 1 1 = Some (0, ''0.f'')" for t
    by (rule gen_path_key_inj [OF that f]) simp
  with f show ?thesis by blast
qed

text \<open>A key that does not fit is cut off without notice: both of these return success.\<close>

lemma gen_path_key_truncates:
  "gen_path_key ''abcd'' 4 0 1 = Some (0, ''abc'') \<and> gen_path_key ''abce'' 4 0 1 = Some (0, ''abc'')"
  by (simp add: gen_path_key_def)

end
