(* ===== verification/File_View.thy ===== *)
theory File_View
  imports Posix_Rules
begin

text \<open>
  The file system as the components see it: a map from paths to contents. The rules of this
  theory give, for every system call and every schedule, what the call does to that map. They
  hold in good worlds, where no two names share an inode.
\<close>

section \<open>Contents by path\<close>

definition fdata :: "'x world_scheme \<Rightarrow> string \<Rightarrow> bytes option" where
  "fdata w p =
     (case inode_of_path w p of None \<Rightarrow> None | Some i \<Rightarrow> if i_dir i then None else Some (i_data i))"

definition good :: "'x world_scheme \<Rightarrow> bool" where
  "good w \<longleftrightarrow> wf_world w \<and> (\<forall>p q n. names w p = Some n \<and> names w q = Some n \<longrightarrow> p = q)
     \<and> (\<forall>n. others w n \<noteq> None \<longrightarrow> inodes w n \<noteq> None)"

lemma good_wf: "good w \<Longrightarrow> wf_world w"
  by (simp add: good_def)

lemma wf_names_inode: "wf_world w \<Longrightarrow> names w p = Some n \<Longrightarrow> \<exists>i. inodes w n = Some i"
  unfolding wf_world_def by (metis not_Some_eq)

text \<open>A descriptor open on a path, at least for the given accesses.\<close>

definition fd_at :: "'x world_scheme \<Rightarrow> int \<Rightarrow> string \<Rightarrow> bool \<Rightarrow> bool \<Rightarrow> bool" where
  "fd_at w fd p rd wr \<longleftrightarrow>
     0 \<le> fd \<and> (\<exists>f. fds w (nat fd) = Some f \<and> names w p = Some (o_ino f)
       \<and> (rd \<longrightarrow> o_rd f) \<and> (wr \<longrightarrow> o_wr f))"

lemma fd_at_less: "good w \<Longrightarrow> fd_at w fd p rd wr \<Longrightarrow> nat fd < next_fd w"
  by (auto simp: good_def wf_world_def fd_at_def)

text \<open>What another process may leave in a file it has locked.\<close>

definition left_by_other :: "'x world_scheme \<Rightarrow> string \<Rightarrow> bytes \<Rightarrow> bool" where
  "left_by_other w p d \<longleftrightarrow> (\<exists>n k. names w p = Some n \<and> others w n = Some (k, d))"

lemma left_by_other_same:
  "names w' = names w \<Longrightarrow> others w' = others w \<Longrightarrow> left_by_other w' = left_by_other w"
  unfolding left_by_other_def by simp

lemma left_by_other_simps [simp]:
  "left_by_other (w\<lparr>faults := xs\<rparr>) = left_by_other w"
  "left_by_other (w\<lparr>errno := e\<rparr>) = left_by_other w"
  "left_by_other (w\<lparr>locks := l\<rparr>) = left_by_other w"
  "left_by_other (set_data n d w) = left_by_other w"
  by (rule left_by_other_same; simp add: set_data_def split: option.split)+

lemma left_by_other_inodes [simp]: "left_by_other (w\<lparr>inodes := i\<rparr>) = left_by_other w"
  by (rule left_by_other_same) simp_all

text \<open>The contents become \<open>F\<close>; names and descriptors stay valid.\<close>

definition view :: "'x world_scheme \<Rightarrow> 'x world_scheme \<Rightarrow> (string \<Rightarrow> bytes option) \<Rightarrow> bool" where
  "view w w' F \<longleftrightarrow>
     good w' \<and> fdata w' = F \<and> (\<forall>p d. left_by_other w' p d \<longrightarrow> left_by_other w p d) \<and> (\<forall>p. is_dir w' p = is_dir w p)
   \<and> (\<forall>p n. names w p = Some n \<longrightarrow> names w' p = Some n)
   \<and> (\<forall>fd p rd wr. fd_at w fd p rd wr \<longrightarrow> fd_at w' fd p rd wr)
   \<and> next_fd w \<le> next_fd w' \<and> (faults w = [] \<longrightarrow> faults w' = [])"

lemma viewD:
  assumes "view w w' F"
  shows "good w'" "fdata w' = F" "left_by_other w' p d \<Longrightarrow> left_by_other w p d" "is_dir w' p = is_dir w p"
    "names w p = Some n \<Longrightarrow> names w' p = Some n" "fd_at w fd p rd wr \<Longrightarrow> fd_at w' fd p rd wr"
    "faults w = [] \<Longrightarrow> faults w' = []"
  using assms by (auto simp: view_def)

lemma view_trans: "view w w' F \<Longrightarrow> view w' w'' G \<Longrightarrow> view w w'' G"
  unfolding view_def by (blast intro: map_le_trans order_trans)

lemma view_refl [simp]: "good w \<Longrightarrow> view w w (fdata w)"
  by (simp add: view_def)

lemma fd_at_names: "fd_at w fd p rd wr \<Longrightarrow> \<exists>n. names w p = Some n"
  by (auto simp: fd_at_def)

lemma fd_at_mono: "fd_at w fd p rd wr \<Longrightarrow> (rd' \<longrightarrow> rd) \<Longrightarrow> (wr' \<longrightarrow> wr) \<Longrightarrow> fd_at w fd p rd' wr'"
  by (auto simp: fd_at_def)

lemma fdata_Some:
  "fdata w p = Some d \<longleftrightarrow>
     (\<exists>n i. names w p = Some n \<and> inodes w n = Some i \<and> \<not> i_dir i \<and> i_data i = d)"
  by (auto simp: fdata_def inode_of_path_def split: option.splits)

lemma fdata_is_dir: "is_dir w p \<Longrightarrow> fdata w p = None"
  by (auto simp: fdata_def is_dir_def split: option.splits)

lemma fdata_quiet: "quiet w w' \<Longrightarrow> fdata w' = fdata w"
  by (rule ext) (simp add: fdata_def quiet_same)

lemma view_quiet: "good w \<Longrightarrow> quiet w w' \<Longrightarrow> view w w' (fdata w)"
  by (auto simp: view_def good_def fdata_quiet quiet_same fd_at_def
      left_by_other_same [OF quiet_same(1,7)])

section \<open>What single updates do to the view\<close>

lemma same_files:
  assumes "names w' = names w" "inodes w' = inodes w"
  shows "fdata w' = fdata w" "is_dir w' = is_dir w"
proof -
  have "inode_of_path w' p = inode_of_path w p" for p
    unfolding inode_of_path_def assms ..
  then show "fdata w' = fdata w" "is_dir w' = is_dir w"
    by (simp_all add: fdata_def is_dir_def fun_eq_iff)
qed

lemma good_faults [simp]: "good (w\<lparr>faults := xs\<rparr>) = good w" "fdata (w\<lparr>faults := xs\<rparr>) = fdata w"
  "fd_at (w\<lparr>faults := xs\<rparr>) fd p rd wr = fd_at w fd p rd wr"
  by (auto simp: good_def fdata_def fd_at_def)

lemma is_dir_faults [simp]: "is_dir (w\<lparr>faults := xs\<rparr>) p = is_dir w p"
  by (simp add: is_dir_def)

lemma view_faults: "view (w\<lparr>faults := xs\<rparr>) w' F \<Longrightarrow> faults w = x # ys \<Longrightarrow> view w w' F"
  by (auto simp: view_def)

lemma view_new_fd:
  assumes "good w" "names w p = Some n"
  shows "view w (snd (new_fd n p' flags w)) (fdata w)"
    "fd_at (snd (new_fd n p' flags w)) (fst (new_fd n p' flags w)) p (opens_read flags) (opens_write flags)"
proof -
  have "inodes w n \<noteq> None" using assms by (auto simp: good_def wf_world_def)
  then have wf: "wf_world (snd (new_fd n p' flags w))"
    using assms(1) by (auto simp: good_def intro: wf_world_new_fd)
  have "nat fd \<noteq> next_fd w" if "fd_at w fd q rd wr" for fd q rd wr
    using that wf_world_next_fd [OF good_wf [OF assms(1)]] by (auto simp: fd_at_def)
  then have "fd_at (snd (new_fd n p' flags w)) fd q rd wr" if "fd_at w fd q rd wr" for fd q rd wr
    using that by (fastforce simp: fd_at_def new_fd_def)
  moreover have "names (snd (new_fd n p' flags w)) = names w" "inodes (snd (new_fd n p' flags w)) = inodes w"
    "others (snd (new_fd n p' flags w)) = others w" "next_fd w \<le> next_fd (snd (new_fd n p' flags w))"
    "faults (snd (new_fd n p' flags w)) = faults w"
    by (simp_all add: new_fd_def)
  ultimately show "view w (snd (new_fd n p' flags w)) (fdata w)"
    using assms(1) wf same_files [of "snd (new_fd n p' flags w)" w]
      left_by_other_same [of "snd (new_fd n p' flags w)" w]
    unfolding view_def good_def by simp
  show "fd_at (snd (new_fd n p' flags w)) (fst (new_fd n p' flags w)) p (opens_read flags) (opens_write flags)"
    using assms(2) by (simp add: fd_at_def new_fd_def)
qed

lemma view_new_file:
  assumes "good w" "names w p = None" "\<not> i_dir i"
  shows "view w (new_file p i w) ((fdata w)(p \<mapsto> i_data i))"
proof -
  have fresh: "inodes w (next_ino w) = None"
    using assms(1) by (auto simp: good_def wf_world_next_ino)
  have nn: "names w q \<noteq> Some (next_ino w)" for q
    using fresh wf_names_inode [OF good_wf [OF assms(1)]] by force
  have wf: "wf_world (new_file p i w)"
    using assms(1) by (auto simp: good_def intro: wf_world_new_file)
  have "others w (next_ino w) = None" using fresh assms(1) unfolding good_def by metis
  then have left: "left_by_other (new_file p i w) q d \<longrightarrow> left_by_other w q d" for q d
    by (auto simp: left_by_other_def new_file_def)
  have "fdata (new_file p i w) q = ((fdata w)(p \<mapsto> i_data i)) q" for q
    using nn assms(2,3)
    by (auto simp: fdata_def inode_of_path_def new_file_def split: option.split)
  moreover have "is_dir (new_file p i w) q = is_dir w q" for q
    using nn assms(2,3)
    by (auto simp: is_dir_def inode_of_path_def new_file_def split: option.split)
  ultimately show ?thesis
    using assms(1,2) wf nn left
    unfolding view_def good_def
    by (intro conjI allI ext) (auto simp: new_file_def fd_at_def)
qed

lemma view_set_data:
  assumes "good w" "names w p = Some n" "fdata w p = Some d0"
  shows "view w (set_data n d w) ((fdata w)(p \<mapsto> d))"
proof -
  from assms(2,3) obtain i where i: "inodes w n = Some i" "\<not> i_dir i" "i_data i = d0"
    by (auto simp: fdata_Some)
  have inj: "names w q = Some n \<longleftrightarrow> q = p" for q
    using assms(1,2) unfolding good_def by blast
  have "fdata (set_data n d w) q = ((fdata w)(p \<mapsto> d)) q" for q
  proof (cases "q = p")
    case False
    then have "names w q \<noteq> Some n" using inj by blast
    with False i show ?thesis
      by (auto simp: fdata_def inode_of_path_def set_data_def split: option.split)
  qed (use i assms(2) in \<open>simp add: fdata_def inode_of_path_def set_data_def\<close>)
  moreover have "is_dir (set_data n d w) q = is_dir w q" for q
    using i by (auto simp: is_dir_def inode_of_path_def set_data_def split: option.split)
  moreover have "wf_world (set_data n d w)"
    using assms(1) by (auto simp: good_def intro: wf_world_set_data)
  ultimately show ?thesis
    using assms(1) i
    unfolding view_def good_def
    by (intro conjI allI ext) (auto simp: set_data_def fd_at_def)
qed


lemma view_set_lock:
  assumes "view w w' F"
  shows "view w (w'\<lparr>locks := l\<rparr>) F"
proof -
  have "fdata (w'\<lparr>locks := l\<rparr>) = fdata w'" "is_dir (w'\<lparr>locks := l\<rparr>) = is_dir w'"
    by (rule same_files; simp)+
  then show ?thesis using assms by (auto simp: view_def good_def fd_at_def)
qed

lemma view_set_off:
  assumes "view w w' F"
  shows "view w (set_off fd off w') F"
proof -
  have f: "names (set_off fd off w') = names w'" "inodes (set_off fd off w') = inodes w'"
    "others (set_off fd off w') = others w'" "next_fd (set_off fd off w') = next_fd w'"
    "faults (set_off fd off w') = faults w'"
    by (simp_all add: set_off_def split: option.split)
  have "fd_at (set_off fd off w') q p rd wr = fd_at w' q p rd wr" for q p rd wr
    by (auto simp: fd_at_def set_off_def split: option.split)
  then show ?thesis
    using assms wf_world_set_off [of w' fd off] left_by_other_same [OF f(1,3)]
    unfolding view_def good_def f same_files [OF f(1,2)] by simp
qed

section \<open>Rules for the system calls\<close>

lemma fd_at_inode:
  assumes "good w" "fd_at w fd p rd wr" "fdata w p = Some d"
  shows "\<exists>f i. inode_of_fd w fd = Some (f, i) \<and> names w p = Some (o_ino f) \<and> \<not> i_dir i
    \<and> i_data i = d \<and> (rd \<longrightarrow> o_rd f) \<and> (wr \<longrightarrow> o_wr f)"
proof -
  from assms(2) obtain f where f: "0 \<le> fd" "fds w (nat fd) = Some f" "names w p = Some (o_ino f)"
    "rd \<longrightarrow> o_rd f" "wr \<longrightarrow> o_wr f"
    unfolding fd_at_def by blast
  moreover from assms(3) f(3) obtain i where "inodes w (o_ino f) = Some i" "\<not> i_dir i" "i_data i = d"
    unfolding fdata_Some by (metis option.inject)
  ultimately show ?thesis by (intro exI [of _ f] exI [of _ i]) (simp add: inode_of_fd_Some)
qed

text \<open>A schedule has a next entry, or is empty and the call does its work.\<close>

lemma wp_syscall_cases:
  assumes "faults w = [] \<Longrightarrow> case f Good w of (a, w') \<Rightarrow> Q a w'"
    and "\<And>x xs. faults w = x # xs \<Longrightarrow> case f x (w\<lparr>faults := xs\<rparr>) of (a, w') \<Rightarrow> Q a w'"
  shows "wp (syscall f) Q w"
  using assms by (auto simp: wp_syscall split: list.split)

definition open_ok :: "'x world_scheme \<Rightarrow> string \<Rightarrow> oflag \<Rightarrow> bool" where
  "open_ok w p flags \<longleftrightarrow>
     (if fdata w p = None then has_flag flags O_CREAT \<and> is_dir w (dirname p)
      else \<not> (has_flag flags O_CREAT \<and> has_flag flags O_EXCL) \<and> \<not> has_flag flags O_DIRECTORY)"

definition opened :: "'x world_scheme \<Rightarrow> string \<Rightarrow> oflag \<Rightarrow> string \<Rightarrow> bytes option" where
  "opened w p flags =
     (if fdata w p = None \<or> has_flag flags O_TRUNC \<and> opens_write flags
      then (fdata w)(p \<mapsto> []) else fdata w)"

lemma view_fail: "good w \<Longrightarrow> faults w = x # xs \<Longrightarrow> view w (w\<lparr>faults := xs, errno := e\<rparr>) (fdata w)"
  by (rule view_quiet) (auto intro: quiet_intros)

lemma view_errno: "view w w' F \<Longrightarrow> view w (w'\<lparr>errno := e\<rparr>) F"
proof -
  have "fdata (w'\<lparr>errno := e\<rparr>) = fdata w'" "is_dir (w'\<lparr>errno := e\<rparr>) = is_dir w'"
    by (rule same_files; simp)+
  then show "view w w' F \<Longrightarrow> view w (w'\<lparr>errno := e\<rparr>) F" by (auto simp: view_def good_def fd_at_def)
qed

lemma wp_open_view:
  assumes g: "good w" and nd: "\<not> is_dir w p"
    and fail: "\<And>w'. view w w' (fdata w) \<Longrightarrow> faults w \<noteq> [] \<or> \<not> open_ok w p flags \<Longrightarrow> Q (- 1) w'"
    and ok: "\<And>fd w'. view w w' (opened w p flags) \<Longrightarrow> 0 \<le> fd \<Longrightarrow> next_fd w = nat fd \<Longrightarrow>
       fd_at w' fd p (opens_read flags) (opens_write flags) \<Longrightarrow> open_ok w p flags \<Longrightarrow> Q fd w'"
  shows "wp (sys_open p flags mode) Q w"
proof -
  define body where "body = (\<lambda>w :: 'a world_scheme.
     (case names w p of
        None \<Rightarrow>
          if \<not> has_flag flags O_CREAT then fail ENOENT w
          else if \<not> is_dir w (dirname p) then fail ENOENT w
          else new_fd (next_ino w) p flags
                 (new_file p \<lparr>i_dir = False, i_mode = masked mode w, i_data = [],
                                 i_atime = now w, i_mtime = now w\<rparr> w)
      | Some n \<Rightarrow>
          (case inodes w n of
             None \<Rightarrow> fail ENOENT w
           | Some i \<Rightarrow>
               if has_flag flags O_CREAT \<and> has_flag flags O_EXCL then fail EEXIST w
               else if i_dir i \<and> opens_write flags then fail EISDIR w
               else if \<not> i_dir i \<and> has_flag flags O_DIRECTORY then fail ENOTDIR w
               else if has_flag flags O_TRUNC \<and> opens_write flags
               then new_fd n p flags (w\<lparr>inodes := (inodes w)(n \<mapsto> i\<lparr>i_data := [], i_mtime := now w\<rparr>)\<rparr>)
               else new_fd n p flags w)))"
  have body: "case body w of (r, w') \<Rightarrow>
      (r = - 1 \<and> view w w' (fdata w) \<and> \<not> open_ok w p flags)
    \<or> (view w w' (opened w p flags) \<and> 0 \<le> r \<and> next_fd w = nat r
       \<and> fd_at w' r p (opens_read flags) (opens_write flags) \<and> open_ok w p flags)"
    if g: "good w" and nd: "\<not> is_dir w p" for w :: "'a world_scheme"
  proof (cases "names w p")
    case None
    then have fd: "fdata w p = None" by (simp add: fdata_def inode_of_path_def)
    let ?i = "\<lparr>i_dir = False, i_mode = masked mode w, i_data = [], i_atime = now w, i_mtime = now w\<rparr>"
    let ?w = "new_file p ?i w"
    have v: "view w ?w ((fdata w)(p \<mapsto> []))" using view_new_file [OF g None, of ?i] by simp
    have nm: "names ?w p = Some (next_ino w)" by (simp add: new_file_def)
    note nf = view_new_fd [OF viewD(1) [OF v] nm, of p flags]
    have "view w (snd (new_fd (next_ino w) p flags ?w)) ((fdata w)(p \<mapsto> []))"
      using view_trans [OF v nf(1)] viewD(2) [OF v] by simp
    then show ?thesis
      using None fd nf(2) view_errno [OF view_refl [OF g]]
      by (auto simp: body_def opened_def open_ok_def fail_def new_fd_def new_file_def)
  next
    case (Some n)
    then obtain i where i: "inodes w n = Some i" using wf_names_inode [OF good_wf [OF g]] by blast
    then have fd: "fdata w p = Some (i_data i)" and ndi: "\<not> i_dir i"
      using Some nd by (auto simp: fdata_def inode_of_path_def is_dir_def)
    let ?w = "set_data n [] w"
    have v: "view w ?w ((fdata w)(p \<mapsto> []))" by (rule view_set_data [OF g Some fd])
    have w: "?w = w\<lparr>inodes := (inodes w)(n \<mapsto> i\<lparr>i_data := [], i_mtime := now w\<rparr>)\<rparr>"
      using i by (simp add: set_data_def)
    have nm: "names ?w p = Some n" using Some by (simp add: w)
    note nf = view_new_fd [OF viewD(1) [OF v] nm, of p flags]
    note nf' = view_new_fd [OF g Some, of p flags]
    have v': "view w (snd (new_fd n p flags ?w)) ((fdata w)(p \<mapsto> []))"
      using view_trans [OF v nf(1)] viewD(2) [OF v] by simp
    have e: "view w (w\<lparr>errno := e\<rparr>) (fdata w)" for e using view_errno [OF view_refl [OF g]] .
    have b: "body w = (if has_flag flags O_CREAT \<and> has_flag flags O_EXCL then fail EEXIST w
       else if has_flag flags O_DIRECTORY then fail ENOTDIR w
       else if has_flag flags O_TRUNC \<and> opens_write flags then new_fd n p flags ?w
       else new_fd n p flags w)"
      using Some i ndi by (simp add: body_def w)
    show ?thesis
      unfolding b
      using fd nf(2) nf' v' e
      by (auto simp: opened_def open_ok_def fail_def new_fd_def w split: prod.splits)
  qed
  have Q: "case body w' of (r, w'') \<Rightarrow> Q r w''" if w': "w' = w \<or> (\<exists>x xs. faults w = x # xs \<and> w' = w\<lparr>faults := xs\<rparr>)" for w'
  proof -
    from w' have g': "good w'" and nd': "\<not> is_dir w' p" using g nd by auto
    have v: "view w w'' F" if "view w' w'' F" for w'' F using w' that by (auto intro: view_faults)
    have same: "fdata w' = fdata w" "opened w' p flags = opened w p flags" "open_ok w' p flags = open_ok w p flags"
      "next_fd w' = next_fd w"
      using w' by (auto simp: opened_def open_ok_def)
    show ?thesis
      using body [OF g' nd'] unfolding same
      by (auto intro: fail ok v split: prod.splits)
  qed
  show ?thesis
    unfolding sys_open_def
  proof (rule wp_syscall_cases, goal_cases)
    case 1
    then show ?case using Q [of w] by (simp add: body_def)
  next
    case (2 x xs)
    then have "case body (w\<lparr>faults := xs\<rparr>) of (r, w'') \<Rightarrow> Q r w''" by (intro Q) auto
    with 2 show ?case
      using fail [OF view_fail [OF g 2]]
      by (cases x) (simp_all add: body_def fail_def)
  qed
qed

text \<open>
  A call that behaves like \<open>body\<close> unless the schedule makes it fail: the rule below reduces its
  weakest precondition to the view the body leaves.
\<close>

lemma inode_of_fd_view: "w' = w \<or> (\<exists>xs. w' = w\<lparr>faults := xs\<rparr>) \<Longrightarrow> inode_of_fd w' fd = inode_of_fd w fd"
  by auto

lemma view_start: "good w \<Longrightarrow> faults w = x # xs \<Longrightarrow> view w (w\<lparr>faults := xs\<rparr>) (fdata w)"
  by (rule view_quiet) (auto intro: quiet_intros)

lemma wp_pread_view:
  assumes g: "good w" and a: "fd_at w fd p True wr" and d: "fdata w p = Some d"
    and fail: "\<And>w'. view w w' (fdata w) \<Longrightarrow> faults w \<noteq> [] \<Longrightarrow> Q (- 1, []) w'"
    and ok: "\<And>k w'. view w w' (fdata w) \<Longrightarrow> k \<le> n \<Longrightarrow> k \<le> length (drop off d) \<Longrightarrow>
       k = min n (length (drop off d)) \<or> faults w \<noteq> [] \<Longrightarrow> Q (int k, take k (drop off d)) w'"
  shows "wp (sys_pread fd n off) Q w"
proof -
  from fd_at_inode [OF g a d] obtain f i where f: "inode_of_fd w fd = Some (f, i)" "\<not> i_dir i"
    "i_data i = d" "o_rd f" by auto
  have tk: "take m (drop off d) = take (min m (length (drop off d))) (drop off d)" for m
    by (simp add: min_def)
  show ?thesis
    unfolding sys_pread_def
  proof (rule wp_syscall_cases, goal_cases)
    case 1
    then show ?case
      using f ok [OF view_refl [OF g], of "min n (length d - off)"] tk [of n]
      by (simp add: Let_def limit_def min.commute)
  next
    case (2 x xs)
    have k: "Q (int (min m (length d - off)), take m (drop off d)) (w\<lparr>faults := xs\<rparr>)" if "m \<le> n" for m
      using ok [OF view_start [OF g 2], of "min m (length d - off)"] tk [of m] 2 that by simp
    show ?case
      using f 2 fail [OF view_fail [OF g 2]] k [of n] k [of "min m n" for m]
      by (cases x) (simp_all add: Let_def limit_def min.commute)
  qed
qed

lemma view_write:
  assumes g: "good w" and v: "view w w' (fdata w)" and n: "names w p = Some n" and d: "fdata w p = Some d"
  shows "view w (set_data n d' w') ((fdata w)(p \<mapsto> d'))"
proof -
  from d viewD(2) [OF v] have "fdata w' p = Some d" by simp
  from view_set_data [OF viewD(1) [OF v] viewD(5) [OF v n] this, of d'] show ?thesis
    using view_trans [OF v] viewD(2) [OF v] by simp
qed

lemma wp_pwrite_view:
  assumes g: "good w" and a: "fd_at w fd p rd True" and d: "fdata w p = Some d"
    and fail: "\<And>w'. view w w' (fdata w) \<Longrightarrow> faults w \<noteq> [] \<Longrightarrow> Q (- 1) w'"
    and ok: "\<And>k w'. view w w' ((fdata w)(p \<mapsto> overlay d off (take k buf))) \<Longrightarrow> k \<le> length buf \<Longrightarrow>
       k = length buf \<or> faults w \<noteq> [] \<Longrightarrow> Q (int k) w'"
  shows "wp (sys_pwrite fd buf off) Q w"
proof -
  from fd_at_inode [OF g a d] obtain f i where f: "inode_of_fd w fd = Some (f, i)"
    "names w p = Some (o_ino f)" "\<not> i_dir i" "i_data i = d" "o_wr f" by auto
  have tk: "take m buf = take (min m (length buf)) buf" for m by (simp add: min_def)
  show ?thesis
    unfolding sys_pwrite_def
  proof (rule wp_syscall_cases, goal_cases)
    case 1
    then show ?case
      using f ok [OF view_write [OF g view_refl [OF g] f(2) d], of "length buf"]
      by (simp add: Let_def limit_def)
  next
    case (2 x xs)
    have k: "Q (int (min m (length buf))) (set_data (o_ino f) (overlay d off (take m buf)) (w\<lparr>faults := xs\<rparr>))" for m
      using ok [where k = "min m (length buf)", folded tk, OF view_write [OF g view_start [OF g 2] f(2) d]] 2 by simp
    show ?case
      using f 2 fail [OF view_fail [OF g 2]] k [of "length buf"] k [of "min m (length buf)" for m]
      by (cases x) (simp_all add: Let_def limit_def fail_def min.commute)
  qed
qed

lemma wp_ftruncate_view:
  assumes g: "good w" and a: "fd_at w fd p rd True" and d: "fdata w p = Some d"
    and fail: "\<And>w'. view w w' (fdata w) \<Longrightarrow> faults w \<noteq> [] \<Longrightarrow> Q (- 1) w'"
    and ok: "\<And>w'. view w w' ((fdata w)(p \<mapsto> take n d @ replicate (n - length d) 0)) \<Longrightarrow> Q 0 w'"
  shows "wp (sys_ftruncate fd n) Q w"
proof -
  from fd_at_inode [OF g a d] obtain f i where f: "inode_of_fd w fd = Some (f, i)"
    "names w p = Some (o_ino f)" "\<not> i_dir i" "i_data i = d" "o_wr f" by auto
  show ?thesis
    unfolding sys_ftruncate_def
  proof (rule wp_syscall_cases, goal_cases)
    case 1
    then show ?case
      using f ok [OF view_write [OF g view_refl [OF g] f(2) d]] by simp
  next
    case (2 x xs)
    show ?case
      using f 2 fail [OF view_fail [OF g 2]] ok [OF view_write [OF g view_start [OF g 2] f(2) d]]
      by (cases x) (simp_all add: fail_def)
  qed
qed

lemma wp_fstat_view:
  assumes g: "good w" and a: "fd_at w fd p rd wr" and d: "fdata w p = Some d"
    and ok: "\<And>r w'. view w w' (fdata w) \<Longrightarrow> r = None \<and> faults w \<noteq> [] \<or>
       (\<exists>st. r = Some st \<and> st_size st = int (length d) \<and> \<not> st_isdir st) \<Longrightarrow> Q r w'"
  shows "wp (sys_fstat fd) Q w"
proof -
  from fd_at_inode [OF g a d] obtain f i where f: "inode_of_fd w fd = Some (f, i)" "\<not> i_dir i"
    "i_data i = d" by auto
  show ?thesis
  proof (rule wp_sys_fstat, rule ok)
    fix r w'
    assume q: "quiet w w'" and r: "r = None \<and> faults w \<noteq> [] \<or> r = map_option (stat_of \<circ> snd) (inode_of_fd w fd)"
    show "view w w' (fdata w)" by (rule view_quiet [OF g q])
    show "r = None \<and> faults w \<noteq> [] \<or> (\<exists>st. r = Some st \<and> st_size st = int (length d) \<and> \<not> st_isdir st)"
      using r f by (elim disjE) (simp_all add: stat_of_def)
  qed
qed

lemma wp_stat_view:
  assumes g: "good w"
    and ok: "\<And>r w'. view w w' (fdata w) \<Longrightarrow> r = None \<and> (faults w \<noteq> [] \<or> fdata w p = None) \<or>
       (\<exists>st. r = Some st \<and> (\<forall>d. fdata w p = Some d \<longrightarrow> st_size st = int (length d) \<and> \<not> st_isdir st)
          \<and> (fdata w p = None \<longrightarrow> st_isdir st)) \<Longrightarrow> Q r w'"
  shows "wp (sys_stat p) Q w"
  by (rule wp_sys_stat, rule ok)
    (use g in \<open>auto simp: stat_of_def fdata_def intro: view_quiet split: option.splits\<close>)

lemma wp_malloc_view:
  assumes g: "good w"
    and ok: "\<And>r w'. view w w' (fdata w) \<Longrightarrow> \<not> r \<and> faults w \<noteq> [] \<or> r \<Longrightarrow> Q r w'"
  shows "wp sys_malloc Q w"
  by (rule wp_sys_malloc, rule ok) (use g in \<open>auto intro: view_quiet\<close>)

text \<open>After closing a descriptor the others are still valid.\<close>

definition closed :: "int \<Rightarrow> 'x world_scheme \<Rightarrow> 'x world_scheme \<Rightarrow> bool" where
  "closed fd w w' \<longleftrightarrow>
     good w' \<and> fdata w' = fdata w \<and> (\<forall>p d. left_by_other w' p d \<longrightarrow> left_by_other w p d) \<and> (\<forall>p. is_dir w' p = is_dir w p)
   \<and> (\<forall>p n. names w p = Some n \<longrightarrow> names w' p = Some n)
   \<and> (\<forall>fd' p rd wr. fd' \<noteq> fd \<and> fd_at w fd' p rd wr \<longrightarrow> fd_at w' fd' p rd wr)
   \<and> next_fd w \<le> next_fd w' \<and> (faults w = [] \<longrightarrow> faults w' = [])"

lemma closed_drop_fd:
  assumes "good w" "0 \<le> fd"
  shows "closed fd w (drop_fd fd w)"
proof -
  have f: "names (drop_fd fd w) = names w" "inodes (drop_fd fd w) = inodes w"
    "others (drop_fd fd w) = others w" "next_fd (drop_fd fd w) = next_fd w"
    "faults (drop_fd fd w) = faults w"
    by (simp_all add: drop_fd_def split: option.split)
  have "fd_at (drop_fd fd w) fd' p rd wr" if "fd' \<noteq> fd" "fd_at w fd' p rd wr" for fd' p rd wr
    using that assms(2) by (auto simp: fd_at_def drop_fd_def nat_eq_iff split: option.split)
  with left_by_other_same [OF f(1,3)] show ?thesis
    using assms wf_world_drop_fd [OF good_wf [OF assms(1)], of fd]
    unfolding closed_def good_def f same_files [OF f(1,2)] by simp
qed

lemma wp_close_view:
  assumes g: "good w" and a: "0 \<le> fd" and ok: "\<And>r w'. closed fd w w' \<Longrightarrow> Q r w'"
  shows "wp (sys_close fd) Q w"
proof -
  have e: "closed fd w (w'\<lparr>errno := e\<rparr>)" if "closed fd w w'" for w' e
  proof -
    have "fdata (w'\<lparr>errno := e\<rparr>) = fdata w'" "is_dir (w'\<lparr>errno := e\<rparr>) = is_dir w'"
      by (rule same_files; simp)+
    with that show ?thesis by (auto simp: closed_def good_def fd_at_def)
  qed
  have s: "closed fd w w'" if "closed fd (w\<lparr>faults := xs\<rparr>) w'" "faults w = x # ys" for w' x xs ys
    using that by (auto simp: closed_def)
  have r: "closed fd w w" using g by (simp add: closed_def)
  show ?thesis
    unfolding sys_close_def
  proof (rule wp_syscall_cases, goal_cases)
    case 1
    then show ?case
      using ok [OF closed_drop_fd [OF g a]] ok [OF e [OF r]] by (simp add: fail_def)
  next
    case (2 x xs)
    let ?w = "w\<lparr>faults := xs\<rparr>"
    have g': "good ?w" using g by simp
    have "closed fd ?w ?w" using g' by (simp add: closed_def)
    from ok [OF s [OF closed_drop_fd [OF g' a] 2]] ok [OF e [OF s [OF closed_drop_fd [OF g' a] 2]]]
      ok [OF e [OF s [OF this 2]]]
    show ?case by (auto simp: fail_def split: fault.split)
  qed
qed

section \<open>Locks\<close>

lemma view_after_wait:
  assumes g: "good w" and n: "names w p = Some (o_ino f)" and d: "fdata w p = Some d"
  shows "\<exists>F. view w (after_wait w f k) F \<and> (F = fdata w \<or> (\<exists>d'. left_by_other w p d' \<and> F = (fdata w)(p \<mapsto> d')))"
proof (cases "others w (o_ino f)")
  case None
  then show ?thesis using view_refl [OF g] by (auto simp: after_wait_def)
next
  case (Some x)
  obtain k' d' where x: "x = (k', d')" by (cases x)
  let ?w = "w\<lparr>others := (others w)(o_ino f := None)\<rparr>"
  have s: "fdata ?w = fdata w" "is_dir ?w = is_dir w" by (rule same_files; simp)+
  have v: "view w ?w (fdata w)"
    using g unfolding view_def good_def s by (auto simp: fd_at_def left_by_other_def split: if_splits)
  have "view w (set_data (o_ino f) d' ?w) ((fdata w)(p \<mapsto> d'))"
    by (rule view_write [OF g v n d])
  moreover have "left_by_other w p d'" using Some x n by (auto simp: left_by_other_def)
  ultimately show ?thesis
    using Some x view_refl [OF g] by (auto simp: after_wait_def)
qed

lemma view_locked: "view w w' F \<Longrightarrow> view w (set_lock n k w') F"
  by (simp add: set_lock_def view_set_lock)

lemma wp_setlkw_view:
  assumes g: "good w" and a: "fd_at w fd p rd wr" and d: "fdata w p = Some d"
    and k: "k = F_RDLCK \<Longrightarrow> rd" "k = F_WRLCK \<Longrightarrow> wr"
    and fail: "\<And>w'. view w w' (fdata w) \<Longrightarrow> faults w \<noteq> [] \<Longrightarrow> Q (- 1) w'"
    and ok: "\<And>F w'. view w w' F \<Longrightarrow>
       F = fdata w \<or> (\<exists>d'. left_by_other w p d' \<and> F = (fdata w)(p \<mapsto> d')) \<Longrightarrow> Q 0 w'"
  shows "wp (sys_setlkw fd k) Q w"
proof -
  from fd_at_inode [OF g a d] obtain f i where f: "inode_of_fd w fd = Some (f, i)"
    "names w p = Some (o_ino f)" "rd \<longrightarrow> o_rd f" "wr \<longrightarrow> o_wr f" by auto
  have may: "may_lock k f" using k f(3,4) by (cases k; auto simp: may_lock_def)
  have aw: "Q 0 (set_lock (o_ino f) k (after_wait w' f k))"
    if v: "view w w' (fdata w)" and o: "others w' = others w" and nm: "names w' = names w" for w'
  proof -
    have d': "fdata w' p = Some d" using viewD(2) [OF v] d by simp
    from view_after_wait [OF viewD(1) [OF v] viewD(5) [OF v f(2)] d', of k] obtain F where
      "view w' (after_wait w' f k) F"
      "F = fdata w' \<or> (\<exists>d'. left_by_other w' p d' \<and> F = (fdata w')(p \<mapsto> d'))" by blast
    then show ?thesis
      using ok [OF view_locked [OF view_trans [OF v]]] viewD(2) [OF v] o nm
      by (simp add: left_by_other_def)
  qed
  show ?thesis
    unfolding sys_setlkw_def after_wait_def [symmetric]
  proof (rule wp_syscall_cases, goal_cases)
    case 1
    then show ?case using f may aw [OF view_refl [OF g]] by simp
  next
    case (2 x xs)
    then show ?case
      using f may aw [OF view_start [OF g 2]] fail [OF view_fail [OF g 2]]
      by (cases x; simp add: fail_def)
  qed
qed

lemma wp_unlock_view:
  assumes g: "good w" and a: "fd_at w fd p rd wr" and d: "fdata w p = Some d"
    and ok: "\<And>r w'. view w w' (fdata w) \<Longrightarrow> Q r w'"
  shows "wp (sys_unlock fd) Q w"
proof -
  from fd_at_inode [OF g a d] obtain f i where f: "inode_of_fd w fd = Some (f, i)" by auto
  show ?thesis
    unfolding sys_unlock_def
  proof (rule wp_syscall_cases, goal_cases)
    case 1
    then show ?case using f ok [OF view_set_lock [OF view_refl [OF g]]] by simp
  next
    case (2 x xs)
    then show ?case
      using f ok [OF view_set_lock [OF view_start [OF g 2]]] ok [OF view_fail [OF g 2]]
      by (cases x) (simp_all add: fail_def)
  qed
qed

end
