(* ===== verification/Fs_Utils.thy ===== *)
theory Fs_Utils
  imports File_View
begin

text \<open>
  The file-system part of \<^verbatim>\<open>src/dyad/utils/utils.c\<close> and all of \<^verbatim>\<open>read_all.c\<close>: directories,
  descriptors, advisory locks, and reading and writing whole files. Recursion and loops that
  need not end take fuel and return \<open>None\<close> when it runs out; the lemmas give the fuel that is
  enough.
\<close>

section \<open>Directories\<close>

fun mkpath :: "nat \<Rightarrow> string option \<Rightarrow> nat \<Rightarrow> ('x, int option) io" where
  "mkpath fuel None m = do { set_errno EINVAL; State_Monad.return (Some 1) }"
| "mkpath 0 (Some dir) m = State_Monad.return None"
| "mkpath (Suc fuel) (Some dir) m = do {
     sb \<leftarrow> sys_stat dir;
     if sb \<noteq> None then State_Monad.return (Some 0)
     else do {
       r \<leftarrow> mkpath fuel (Some (dirname dir)) m;
       case r of
         None \<Rightarrow> State_Monad.return None
       | Some _ \<Rightarrow> do { r \<leftarrow> sys_mkdir dir m; State_Monad.return (Some r) } } }"

definition RWX_UGO :: nat where "RWX_UGO = 511"

text \<open>What is reported for something that exists: \<open>1\<close>, \<open>5\<close> for other permission bits, or \<open>err\<close>
  when it is not a directory.\<close>

definition existing_dir :: "c_stat \<Rightarrow> nat \<Rightarrow> int \<Rightarrow> int" where
  "existing_dir sb m err =
     (if \<not> st_isdir sb then err
      else if st_mode sb AND RWX_UGO \<noteq> m AND RWX_UGO then 5
      else 1)"

definition sync_containing_dir :: "string \<Rightarrow> ('x, int) io" where
  "sync_containing_dir path = do {
     let containing_dir = dirname (take PATH_MAX path);
     dir_fd \<leftarrow> sys_open containing_dir O_RDONLY 0;
     if containing_dir = [] then State_Monad.return 0
     else if containing_dir = ''./'' then State_Monad.return 0
     else if dir_fd < 0 then State_Monad.return (- 1)
     else do {
       r \<leftarrow> sys_fsync dir_fd;
       if r < 0 then State_Monad.return (- 1)
       else do {
         r \<leftarrow> sys_close dir_fd;
         State_Monad.return (if r < 0 then - 1 else 0) } } }"

definition mkdir_as_needed :: "nat \<Rightarrow> string option \<Rightarrow> nat \<Rightarrow> ('x, int option) io" where
  "mkdir_as_needed fuel path m =
     (case path of
        None \<Rightarrow> State_Monad.return (Some (- 3))
      | Some p \<Rightarrow>
          if p = [] then State_Monad.return (Some (- 3))
          else do {
            sb \<leftarrow> sys_stat p;
            case sb of
              Some sb \<Rightarrow> State_Monad.return (Some (existing_dir sb m (- 2)))
            | None \<Rightarrow> do {
                old_mask \<leftarrow> sys_umask 0;
                r \<leftarrow> mkpath fuel (Some p) m;
                case r of
                  None \<Rightarrow> State_Monad.return None
                | Some r \<Rightarrow>
                    if r \<noteq> 0 then do {
                      sb \<leftarrow> sys_stat p;
                      State_Monad.return
                        (Some (case sb of Some sb \<Rightarrow> existing_dir sb m (- 4) | None \<Rightarrow> - 1)) }
                    else do {
                      _ \<leftarrow> sys_umask old_mask;
                      _ \<leftarrow> (if DYAD_SYNC_DIR then sync_containing_dir p else State_Monad.return 0);
                      State_Monad.return (Some 0) } } })"

section \<open>Descriptors and attributes\<close>

definition get_path :: "int \<Rightarrow> nat \<Rightarrow> ('x, int \<times> string) io" where
  "get_path fd max_size =
     (if max_size < 1 then State_Monad.return (- 1, [])
      else do {
        r \<leftarrow> sys_readlink_fd fd max_size;
        State_Monad.return (case r of None \<Rightarrow> (- 1, []) | Some path \<Rightarrow> (0, path)) })"

definition is_path_dir :: "string option \<Rightarrow> ('x, bool) io" where
  "is_path_dir path =
     (case path of
        None \<Rightarrow> State_Monad.return False
      | Some p \<Rightarrow>
          if p = [] then State_Monad.return False
          else do {
            sb \<leftarrow> sys_stat p;
            State_Monad.return (case sb of Some sb \<Rightarrow> st_isdir sb | None \<Rightarrow> False) })"

definition is_fd_dir :: "int \<Rightarrow> ('x, bool) io" where
  "is_fd_dir fd =
     (if fd < 0 then State_Monad.return False
      else do {
        sb \<leftarrow> sys_fstat fd;
        State_Monad.return (case sb of Some sb \<Rightarrow> st_isdir sb | None \<Rightarrow> False) })"

text \<open>The retry loop of \<^verbatim>\<open>get_stat\<close>; its result is the number of retries it made.\<close>

fun get_stat_loop :: "string \<Rightarrow> nat \<Rightarrow> int \<Rightarrow> nat \<Rightarrow> ('x, nat) io" where
  "get_stat_loop path 0 ns_sleep num_retry = do {
     _ \<leftarrow> sys_stat path;
     State_Monad.return num_retry }"
| "get_stat_loop path (Suc left) ns_sleep num_retry = do {
     sb \<leftarrow> sys_stat path;
     if sb \<noteq> None then State_Monad.return num_retry
     else do {
       sys_nanosleep ns_sleep;
       get_stat_loop path left ns_sleep (num_retry + 1) } }"

definition get_stat :: "string \<Rightarrow> nat \<Rightarrow> int \<Rightarrow> ('x, bool) io" where
  "get_stat path max_retry ns_sleep = do {
     num_retry \<leftarrow> get_stat_loop path max_retry ns_sleep 0;
     State_Monad.return (num_retry \<noteq> max_retry) }"

definition get_file_size :: "int \<Rightarrow> ('x, int) io" where
  "get_file_size fd = do {
     st \<leftarrow> sys_fstat fd;
     State_Monad.return (case st of None \<Rightarrow> 0 | Some st \<Rightarrow> st_size st) }"

section \<open>Advisory locks\<close>

text \<open>\<open>lock\<close> tells whether the caller passed a \<^verbatim>\<open>struct flock\<close>.\<close>

definition dyad_excl_flock :: "int \<Rightarrow> bool \<Rightarrow> ('x, dyad_rc) io" where
  "dyad_excl_flock fd lock =
     (if \<not> lock then State_Monad.return RC_BADFIO
      else do {
        r \<leftarrow> sys_setlkw fd F_WRLCK;
        State_Monad.return (if r = - 1 then RC_BADFIO else RC_OK) })"

definition dyad_try_excl_flock :: "int \<Rightarrow> bool \<Rightarrow> ('x, dyad_rc) io" where
  "dyad_try_excl_flock fd lock =
     (if \<not> lock then State_Monad.return RC_BADFIO
      else do {
        r \<leftarrow> sys_setlk fd F_WRLCK;
        if r = - 1 then do {
          e \<leftarrow> get_errno;
          State_Monad.return (if e = EAGAIN \<or> e = EACCES then RC_BUSY else RC_BADFIO) }
        else State_Monad.return RC_OK })"

definition dyad_shared_flock :: "int \<Rightarrow> bool \<Rightarrow> ('x, dyad_rc) io" where
  "dyad_shared_flock fd lock =
     (if \<not> lock then State_Monad.return RC_BADFIO
      else do {
        r \<leftarrow> sys_setlkw fd F_RDLCK;
        State_Monad.return (if r = - 1 then RC_BADFIO else RC_OK) })"

definition dyad_release_flock :: "int \<Rightarrow> bool \<Rightarrow> ('x, dyad_rc) io" where
  "dyad_release_flock fd lock =
     (if \<not> lock then State_Monad.return RC_BADFIO
      else do {
        r \<leftarrow> sys_unlock fd;
        State_Monad.return (if r = - 1 then RC_BADFIO else RC_OK) })"

section \<open>Whole files\<close>

fun write_all_loop :: "nat \<Rightarrow> int \<Rightarrow> bytes \<Rightarrow> nat \<Rightarrow> nat \<Rightarrow> ('x, int option) io" where
  "write_all_loop 0 fd buf len count = State_Monad.return None"
| "write_all_loop (Suc fuel) fd buf len count =
     (if count < len then do {
        n \<leftarrow> sys_write fd (take (len - count) (drop count buf));
        if n < 0 then State_Monad.return (Some (- 1))
        else write_all_loop fuel fd buf len (count + nat n) }
      else State_Monad.return (Some (int count)))"

definition write_all :: "nat \<Rightarrow> int \<Rightarrow> bytes option \<Rightarrow> nat \<Rightarrow> ('x, int option) io" where
  "write_all fuel fd buf len =
     (if fd < 0 \<or> buf = None \<and> len \<noteq> 0
      then do { set_errno EINVAL; State_Monad.return (Some (- 1)) }
      else write_all_loop fuel fd (case buf of None \<Rightarrow> [] | Some b \<Rightarrow> b) len 0)"

text \<open>The second component is the buffer \<^verbatim>\<open>*bufp\<close>, \<open>None\<close> when it is not allocated.\<close>

definition read_all :: "int \<Rightarrow> ('x, int \<times> bytes option) io" where
  "read_all fd = do {
     file_size \<leftarrow> get_file_size fd;
     if file_size \<le> 0 then do { set_errno EINVAL; State_Monad.return (0, None) }
     else do {
       ok \<leftarrow> sys_malloc;
       if \<not> ok then do { set_errno EINVAL; State_Monad.return (- 1, None) }
       else do {
         (bytes_read, data) \<leftarrow> sys_read fd (nat file_size);
         if bytes_read < file_size
         then do { set_errno EINVAL; State_Monad.return (bytes_read, Some data) }
         else State_Monad.return (file_size, Some data) } } }"

section \<open>Every operation keeps the world well formed\<close>

lemma wf_mkpath [keep]: "keeps wf_world (mkpath fuel dir m)"
  by (induction fuel dir m rule: mkpath.induct) (auto intro!: keep)

lemma wf_dirs [keep]: "keeps wf_world (sync_containing_dir p)"
  "keeps wf_world (mkdir_as_needed fuel path m)"
  unfolding sync_containing_dir_def mkdir_as_needed_def by (intro keep)+

lemma wf_attrs [keep]: "keeps wf_world (get_path fd n)" "keeps wf_world (is_path_dir path)"
  "keeps wf_world (is_fd_dir fd)" "keeps wf_world (get_file_size fd)"
  unfolding get_path_def is_path_dir_def is_fd_dir_def get_file_size_def by (intro keep)+

lemma wf_get_stat [keep]: "keeps wf_world (get_stat p k ns)"
proof -
  have "keeps wf_world (get_stat_loop p k ns n)" for n
    by (induction p k ns n rule: get_stat_loop.induct) (auto intro!: keep)
  then show ?thesis unfolding get_stat_def by (intro keep)
qed

lemma wf_flocks [keep]: "keeps wf_world (dyad_excl_flock fd l)"
  "keeps wf_world (dyad_try_excl_flock fd l)" "keeps wf_world (dyad_shared_flock fd l)"
  "keeps wf_world (dyad_release_flock fd l)"
  unfolding dyad_excl_flock_def dyad_try_excl_flock_def dyad_shared_flock_def dyad_release_flock_def
  by (intro keep)+

lemma wf_write_all [keep]: "keeps wf_world (write_all fuel fd buf len)"
proof -
  have "keeps wf_world (write_all_loop fuel fd b len n)" for b n
    by (induction fuel fd b len n rule: write_all_loop.induct) (auto intro!: keep)
  then show ?thesis unfolding write_all_def by (intro keep)
qed

lemma wf_read_all [keep]: "keeps wf_world (read_all fd)"
  unfolding read_all_def by (intro keep)

section \<open>Writing a whole buffer\<close>

lemma write_all_loop_complete:
  assumes "writable_at w fd n (off + count) (overlay d off (take count buf))" "no_err w"
    and "count \<le> length buf" and "length buf - count + length (faults w) < fuel"
  shows "wp (write_all_loop fuel fd buf (length buf) count)
     (\<lambda>r w'. r = Some (int (length buf)) \<and> writable_at w' fd n (off + length buf) (overlay d off buf)) w"
  using assms
proof (induction fuel arbitrary: w count)
  case (Suc fuel)
  show ?case
  proof (cases "count < length buf")
    case True
    have "wp (sys_write fd (take (length buf - count) (drop count buf)))
       (\<lambda>r w'. \<exists>k \<le> length buf - count. r = int k
          \<and> writable_at w' fd n (off + (count + k)) (overlay d off (take (count + k) buf))
          \<and> no_err w' \<and> length buf - (count + k) + length (faults w') < fuel) w"
    proof (rule wp_mono [OF wp_sys_write [OF Suc.prems(1,2)]], elim exE conjE)
      fix r w' k
      assume k: "k \<le> length (take (length buf - count) (drop count buf))"
        and r: "r = int k"
        and wr: "writable_at w' fd n (off + count + k)
          (overlay (overlay d off (take count buf)) (off + count) (take k (take (length buf - count) (drop count buf))))"
        and ne: "no_err w'" and le: "length (faults w') \<le> length (faults w)"
        and pr: "k = length (take (length buf - count) (drop count buf)) \<or> length (faults w') < length (faults w)"
      have "overlay (overlay d off (take count buf)) (off + count) (take k (drop count buf))
          = overlay d off (take (count + k) buf)"
        using overlay_splice [of d off "take count buf" "take k (drop count buf)"] True
        by (simp add: take_add)
      with wr k have "writable_at w' fd n (off + (count + k)) (overlay d off (take (count + k) buf))"
        by (simp add: add.assoc)
      moreover have "length buf - (count + k) + length (faults w') < fuel"
        using pr le Suc.prems(4) True k by auto
      ultimately show "\<exists>k \<le> length buf - count. r = int k
          \<and> writable_at w' fd n (off + (count + k)) (overlay d off (take (count + k) buf))
          \<and> no_err w' \<and> length buf - (count + k) + length (faults w') < fuel"
        using k r ne by (intro exI [of _ k]) simp
    qed
    then show ?thesis
      using True by (auto simp: wp_bind intro!: Suc.IH elim!: wp_mono)
  qed (use Suc.prems in simp)
qed simp

text \<open>
  C27: \<^verbatim>\<open>write_all\<close> writes all. On a descriptor open for writing, and as long as no write fails,
  it returns the length, leaves exactly the buffer at the descriptor's offset and advances the
  offset, however often the system transfers less than it was asked for, or nothing; and it
  returns: \<open>length buf\<close> iterations and one for each short transfer are enough.
\<close>

theorem write_all_complete:
  assumes "writable_at w fd n off d" "no_err w" and "length buf + length (faults w) < fuel"
  shows "wp (write_all fuel fd (Some buf) (length buf))
     (\<lambda>r w'. r = Some (int (length buf)) \<and> writable_at w' fd n (off + length buf) (overlay d off buf)) w"
proof -
  from assms(1) have "0 \<le> fd" by (auto simp: writable_at_def inode_of_fd_Some)
  with assms show ?thesis
    by (simp add: write_all_def wps write_all_loop_complete [where count = 0])
qed

lemma write_all_complete_witness:
  "wp (write_all 10 3 (Some [7, 8, 9]) 3)
     (\<lambda>r w'. r = Some 3 \<and> writable_at w' 3 2 3 [7, 8, 9]) ((open_world [1]) \<lparr>faults := [Short 1, Short 0]\<rparr>)"
proof -
  let ?w = "(open_world [1]) \<lparr>faults := [Short 1, Short 0]\<rparr>"
  have "writable_at ?w 3 2 0 [1]" "no_err ?w" "length [7, 8, 9 :: uint8] + length (faults ?w) < 10"
    by (simp_all add: open_world_def root_world_def file_inode_def writable_at_def inode_of_fd_Some
        no_err_def)
  from write_all_complete [OF this] show ?thesis
    by (simp add: overlay_def numeral_3_eq_3)
qed

section \<open>Reading a whole file\<close>

text \<open>A call that leaves everything but \<^verbatim>\<open>errno\<close> and the schedule as it was.\<close>

text \<open>
  What \<^verbatim>\<open>read_all\<close> hands out. On a descriptor at the start of a file the buffer is always a
  beginning of the file, the result never exceeds the file's size, equals the size exactly
  when the whole file was read, is the size when the system does not fail, and any other result
  comes with \<^verbatim>\<open>errno\<close> set to \<^verbatim>\<open>EINVAL\<close>.
\<close>

theorem read_all_prefix:
  assumes "readable_at w fd n 0 d"
  shows "wp (read_all fd) (\<lambda>(r, buf) w'.
      (r \<le> int (length d)
       \<and> (r = int (length d) \<and> d \<noteq> [] \<longrightarrow> buf = Some d)
       \<and> (0 < r \<longrightarrow> buf = Some (take (nat r) d))
       \<and> (faults w = [] \<longrightarrow> r = int (length d))
       \<and> (r < int (length d) \<or> d = [] \<longrightarrow> errno w' = EINVAL))) w"
  unfolding read_all_def get_file_size_def wps
proof (rule wp_sys_fstat, goal_cases)
  case (1 r w1)
  note q1 = quiet_same [OF 1(1)] quiet_readable_at [OF 1(1)]
  have size: "r = None \<and> faults w \<noteq> [] \<or> (\<exists>st. r = Some st \<and> st_size st = int (length d))"
    using 1(2) assms by (auto simp: readable_at_def stat_of_def)
  show ?case
  proof (cases "r = None \<or> d = []")
    case True
    then show ?thesis using size by (auto simp: wps)
  next
    case False
    with size obtain st where r: "r = Some st" "st_size st = int (length d)" by auto
    have "wp sys_malloc (\<lambda>ok w'. readable_at w' fd n 0 d \<and> faults w' = tl (tl (faults w))
        \<and> (\<not> ok \<longrightarrow> faults w \<noteq> [])) w1"
      by (rule wp_sys_malloc) (use assms q1 in \<open>auto simp: quiet_same quiet_readable_at\<close>)
    then show ?thesis
      using r False
      by (auto simp: wps elim!: wp_mono intro!: wp_sys_read [of _ fd n 0 d])
  qed
qed

lemma read_all_prefix_witness:
  "wp (read_all 3) (\<lambda>(r, buf) w'. r = 2 \<and> buf = Some [7, 8]) (open_world [7, 8])"
proof -
  have "readable_at (open_world [7, 8]) 3 2 0 [7, 8]"
    by (simp add: open_world_def root_world_def file_inode_def readable_at_def inode_of_fd_Some)
  from read_all_prefix [OF this] show ?thesis
    by (rule wp_mono) (auto simp: open_world_def root_world_def)
qed

section \<open>Record locks\<close>

definition holds_excl :: "'x world_scheme \<Rightarrow> int \<Rightarrow> bool" where
  "holds_excl w fd \<longleftrightarrow>
     (case inode_of_fd w fd of
        None \<Rightarrow> False | Some (f, i) \<Rightarrow> locks w (o_ino f) = Some F_WRLCK \<and> others w (o_ino f) = None)"

text \<open>
  The blocking exclusive lock. Whatever the system does, \<^verbatim>\<open>dyad_excl_flock\<close> either returns
  \<^verbatim>\<open>DYAD_RC_OK\<close> and then this process holds the write lock of the file while no other process
  holds any, or it returns \<^verbatim>\<open>DYAD_RC_BADFIO\<close> and no lock and no file has changed.
\<close>

theorem excl_flock_exclusive:
  "wp (dyad_excl_flock fd lock) (\<lambda>rc w'.
     (rc = RC_OK \<and> holds_excl w' fd)
     \<or> (rc = RC_BADFIO \<and> locks w' = locks w \<and> others w' = others w \<and> inodes w' = inodes w)) w"
proof (cases lock)
  case True
  have "wp (sys_setlkw fd F_WRLCK) (\<lambda>r w'. r \<noteq> - 1 \<and> holds_excl w' fd
      \<or> r = - 1 \<and> locks w' = locks w \<and> others w' = others w \<and> inodes w' = inodes w) w"
  proof (rule wp_sys_setlkw, goal_cases)
    case (2 f i w')
    from 2(2) inode_of_fd_faults_or [OF 2(1)] have "inode_of_fd w' fd = Some (f, i)" by simp
    from after_wait_inode [OF this, of f F_WRLCK] show ?case
      by (auto simp: holds_excl_def after_wait_excl)
  qed (simp add: quiet_same)
  with True show ?thesis by (auto simp: dyad_excl_flock_def wps elim!: wp_mono)
qed (simp add: dyad_excl_flock_def)

text \<open>
  The non-blocking exclusive lock. \<^verbatim>\<open>dyad_try_excl_flock\<close> never waits: it never changes the
  files or the other processes' locks; it returns \<^verbatim>\<open>DYAD_RC_OK\<close> only when it holds the lock
  alone, and \<^verbatim>\<open>DYAD_RC_BUSY\<close> only for \<^verbatim>\<open>EAGAIN\<close> or \<^verbatim>\<open>EACCES\<close>; otherwise it has taken no lock.
\<close>

theorem try_excl_flock_spec:
  "wp (dyad_try_excl_flock fd lock) (\<lambda>rc w'.
     inodes w' = inodes w \<and> others w' = others w \<and> rc \<in> {RC_OK, RC_BUSY, RC_BADFIO}
     \<and> (if rc = RC_OK then holds_excl w' fd else locks w' = locks w)
     \<and> (rc = RC_BUSY \<longleftrightarrow> lock \<and> rc \<noteq> RC_OK \<and> errno w' \<in> {EAGAIN, EACCES})) w"
proof (cases lock)
  case True
  have "wp (sys_setlk fd F_WRLCK) (\<lambda>r w'. inodes w' = inodes w \<and> others w' = others w
      \<and> (if r = - 1 then locks w' = locks w else holds_excl w' fd)) w"
  proof (rule wp_sys_setlk, goal_cases)
    case (2 f i w')
    have "others w (o_ino f) = None"
      using 2(4) by (cases "others w (o_ino f)") auto
    with 2 show ?case by (auto simp: holds_excl_def)
  qed (auto simp: quiet_same)
  with True show ?thesis by (auto simp: dyad_try_excl_flock_def wps elim!: wp_mono)
qed (simp add: dyad_try_excl_flock_def)

text \<open>When the system does not fail it is busy exactly if another process holds a lock.\<close>

lemma try_excl_flock_busy:
  assumes "faults w = []" "inode_of_fd w fd = Some (f, i)" "o_wr f"
  shows "wp (dyad_try_excl_flock fd True) (\<lambda>rc w'.
     rc = (if others w (o_ino f) = None then RC_OK else RC_BUSY)) w"
  using assms
  by (auto simp: dyad_try_excl_flock_def wps sys_setlk_def wp_syscall may_lock_def fail_def
      split: option.split)

section \<open>Creating directories\<close>

text \<open>Enough fuel: one call per component, and one for every time \<^verbatim>\<open>stat\<close> fails on a root.\<close>

lemma mkpath_terminates:
  assumes "roots_ok w" "path_rank p + length (faults w) < fuel"
  shows "wp (mkpath fuel (Some p) m) (\<lambda>r w'. r \<noteq> None) w"
  using assms
proof (induction fuel arbitrary: w p)
  case (Suc fuel)
  show ?case
    unfolding mkpath.simps wps
  proof (rule wp_sys_stat, goal_cases)
    case (1 r w')
    have roots: "roots_ok w'" using 1(1) Suc.prems(1) by (simp add: roots_ok_def quiet_same)
    show ?case
    proof (cases r)
      case None
      have len: "length (faults w') = length (faults w) - 1"
        using quiet_same(10) [OF 1(1)] by simp
      have "path_rank (dirname p) + length (faults w') < fuel"
      proof (cases "p \<in> {''/'', ''.''}")
        case True
        then have "inode_of_path w p \<noteq> None"
          using Suc.prems(1) by (auto simp: roots_ok_def is_dir_def split: option.splits)
        with None 1(2) have "faults w \<noteq> []" by auto
        then have "0 < length (faults w)" by simp
        moreover have "path_rank (dirname p) = 0"
          by (rule path_rank_roots [OF True])
        ultimately show ?thesis using Suc.prems(2) len by linarith
      next
        case False
        then show ?thesis
          using Suc.prems(2) path_rank_dirname [OF False] len by linarith
      qed
      from Suc.IH [OF roots this]
      have "wp (mkpath fuel (Some (dirname p)) m) (\<lambda>a. wp (case a of None \<Rightarrow> State_Monad.return None
          | Some _ \<Rightarrow> do { r \<leftarrow> sys_mkdir p m; State_Monad.return (Some r) }) (\<lambda>r w'. r \<noteq> None)) w'"
        by (rule wp_mono) (auto simp: wps)
      with None show ?thesis by simp
    qed simp
  qed
qed simp

lemma existing_dir_cases: "existing_dir sb m e \<in> {e, 5, 1}"
  by (simp add: existing_dir_def)

lemma mkpath_creates:
  assumes "faults w = []" "wf_world w" "roots_ok w" "ancestors_ok w p" "path_rank p < fuel"
  shows "wp (mkpath fuel (Some p) m) (\<lambda>r w'. r = Some 0 \<and> wf_world w' \<and> faults w' = []
     \<and> now w' = now w
     \<and> grows (\<lambda>q. path_rank q \<le> path_rank p) w w'
     \<and> (inode_of_path w p = None \<longrightarrow> inode_of_path w' p = Some (new_dir m w))
     \<and> inode_of_path w' p \<noteq> None) w"
  using assms
proof (induction fuel arbitrary: w p)
  case (Suc fuel)
  show ?case
  proof (cases "inode_of_path w p")
    case (Some i)
    then show ?thesis
      using Suc.prems(1,2) by (auto simp: wps intro!: wp_sys_stat_good)
  next
    case None
    let ?w = "w\<lparr>errno := ENOENT\<rparr>"
    have nroot: "p \<notin> {''/'', ''.''}" by (rule roots_ok_exists [OF Suc.prems(3) None])
    have less: "path_rank (dirname p) < path_rank p" by (rule path_rank_dirname [OF nroot])
    have "wp (mkpath fuel (Some (dirname p)) m) (\<lambda>r w'. r = Some 0 \<and> wf_world w' \<and> faults w' = []
       \<and> now w' = now ?w
       \<and> grows (\<lambda>q. path_rank q \<le> path_rank (dirname p)) ?w w'
       \<and> (inode_of_path ?w (dirname p) = None \<longrightarrow> inode_of_path w' (dirname p) = Some (new_dir m ?w))
       \<and> inode_of_path w' (dirname p) \<noteq> None) ?w"
      by (rule Suc.IH) (use Suc.prems less ancestors_ok_dirname(1) [OF Suc.prems(4)] in
          \<open>simp_all add: roots_ok_def ancestors_ok_def\<close>)
    then have "wp (mkpath fuel (Some (dirname p)) m) (\<lambda>r. wp (case r of
        None \<Rightarrow> State_Monad.return None
      | Some _ \<Rightarrow> do { r \<leftarrow> sys_mkdir p m; State_Monad.return (Some r) })
        (\<lambda>r w'. r = Some 0 \<and> wf_world w' \<and> faults w' = [] \<and> now w' = now w
     \<and> grows (\<lambda>q. path_rank q \<le> path_rank p) w w'
     \<and> (inode_of_path w p = None \<longrightarrow> inode_of_path w' p = Some (new_dir m w))
     \<and> inode_of_path w' p \<noteq> None)) ?w"
    proof (rule wp_mono, goal_cases)
      case (1 r w')
      then have gr: "grows (\<lambda>q. path_rank q \<le> path_rank (dirname p)) w w'" and wf: "wf_world w'" by simp_all
      have p: "names w p = None" using None Suc.prems(2) by (simp add: names_None_iff)
      with gr less have p': "names w' p = None" unfolding grows_def by (metis not_le)
      have dir: "is_dir w' (dirname p)"
      proof (cases "inode_of_path w (dirname p)")
        case None
        then show ?thesis using 1 by (simp add: is_dir_def new_dir_def)
      next
        case (Some i)
        then have "is_dir w (dirname p)"
          using ancestors_ok_dirname(2) [OF Suc.prems(4)] by simp
        then show ?thesis by (rule grows_is_dir [OF gr])
      qed
      have mask: "masked m w' = masked m w" using gr by (simp add: masked_def grows_def)
      have "grows (\<lambda>q. path_rank q \<le> path_rank p) w' (new_file p (new_dir m w') w')"
        by (rule grows_new_file [OF wf p']) simp
      then have "grows (\<lambda>q. path_rank q \<le> path_rank p) w (new_file p (new_dir m w') w')"
        by (intro grows_trans [OF grows_mono [OF gr]]) (use less in simp_all)
      moreover have "new_dir m w' = new_dir m w" using 1 mask by (simp add: new_dir_def)
      moreover have "wp (sys_mkdir p m) (\<lambda>r w''. r = 0 \<and> w'' = new_file p (new_dir m w') w') w'"
        by (rule wp_sys_mkdir_good) (use 1 dir p' in \<open>simp_all add: names_None_iff\<close>)
      ultimately have "wp (sys_mkdir p m) (\<lambda>r w''. r = 0 \<and> wf_world w'' \<and> faults w'' = []
          \<and> now w'' = now w \<and> grows (\<lambda>q. path_rank q \<le> path_rank p) w w''
          \<and> inode_of_path w'' p = Some (new_dir m w)) w'"
        using 1 by (elim wp_mono) (simp add: wf_world_new_file)
      then show ?case
        using 1 by (simp add: wps) (erule wp_mono, simp)
    qed
    then show ?thesis
      unfolding mkpath.simps wps
      by (intro wp_sys_stat_good) (use Suc.prems(1) None in simp_all)
  qed
qed simp

text \<open>
  C31: \<^verbatim>\<open>mkdir_as_needed\<close> creates. When the system does not fail, the roots and every existing
  ancestor of the path are directories and the path does not exist, it returns \<open>0\<close>; the path is then
  a directory with exactly the requested permission bits, whatever the process's file mode mask,
  which is restored; nothing that existed has changed, and the recursion ends.
\<close>

theorem mkdir_as_needed_creates:
  assumes "faults w = []" "wf_world w" "roots_ok w" "ancestors_ok w p" "path_rank p < fuel"
    and "p \<noteq> []" "inode_of_path w p = None"
  shows "wp (mkdir_as_needed fuel (Some p) m) (\<lambda>r w'. r = Some 0 \<and> file_mask w' = file_mask w
     \<and> (\<exists>i. inode_of_path w' p = Some i \<and> i_dir i \<and> i_mode i = m)
     \<and> (\<forall>q i. inode_of_path w q = Some i \<longrightarrow> inode_of_path w' q = Some i)) w"
proof -
  let ?w = "w\<lparr>errno := ENOENT, file_mask := 0\<rparr>"
  have same: "inode_of_path ?w q = inode_of_path w q" "is_dir ?w q = is_dir w q" for q
    by (simp_all add: inode_of_path_def is_dir_def split: option.split)
  have "wp (mkpath fuel (Some p) m) (\<lambda>r w'. r = Some 0 \<and> wf_world w' \<and> faults w' = []
     \<and> now w' = now ?w
     \<and> grows (\<lambda>q. path_rank q \<le> path_rank p) ?w w'
     \<and> (inode_of_path ?w p = None \<longrightarrow> inode_of_path w' p = Some (new_dir m ?w))
     \<and> inode_of_path w' p \<noteq> None) ?w"
    by (rule mkpath_creates)
      (use assms same in \<open>simp_all add: roots_ok_def ancestors_ok_def\<close>)
  then have "wp (mkpath fuel (Some p) m) (\<lambda>r w'. r = Some 0
     \<and> (\<exists>i. inode_of_path w' p = Some i \<and> i_dir i \<and> i_mode i = m)
     \<and> (\<forall>q i. inode_of_path w q = Some i \<longrightarrow> inode_of_path w' q = Some i)) ?w"
    by (rule wp_mono) (use assms same in \<open>auto simp: new_dir_def dest: grows_inode_of_path\<close>)
  then show ?thesis
    using assms
    by (auto simp: mkdir_as_needed_def wps sys_umask_def DYAD_SYNC_DIR_def
        intro!: wp_sys_stat_good elim!: wp_mono)
qed

lemma root_world_wf: "wf_world root_world" "roots_ok root_world"
  by (auto simp: wf_world_def roots_ok_def is_dir_def inode_of_path_def root_world_def dir_inode_def)

lemma mkdir_as_needed_creates_witness:
  "wp (mkdir_as_needed 10 (Some ''/a'') 493) (\<lambda>r w'. r = Some 0 \<and> file_mask w' = 18
     \<and> (\<exists>i. inode_of_path w' ''/a'' = Some i \<and> i_dir i \<and> i_mode i = 493)) root_world"
proof -
  have d: "dirname ''/a'' = ''/''" "dirname ''/'' = ''/''" by code_simp+
  have "(dirname ^^ Suc k) ''/a'' = ''/''" for k by (induction k) (simp_all add: d)
  then have anc: "(dirname ^^ k) ''/a'' = ''/''" if "0 < k" for k
    using that by (metis gr0_implies_Suc)
  have "ancestors_ok root_world ''/a''"
    unfolding ancestors_ok_def using anc root_world_wf(2) by (simp add: roots_ok_def)
  moreover have "faults root_world = []" "path_rank ''/a'' < 10" "''/a'' \<noteq> []"
    "inode_of_path root_world ''/a'' = None"
    by (simp_all add: root_world_def path_rank_def inode_of_path_def)
  ultimately have "wp (mkdir_as_needed 10 (Some ''/a'') 493) (\<lambda>r w'. r = Some 0
      \<and> file_mask w' = file_mask root_world
      \<and> (\<exists>i. inode_of_path w' ''/a'' = Some i \<and> i_dir i \<and> i_mode i = 493)
      \<and> (\<forall>q i. inode_of_path root_world q = Some i \<longrightarrow> inode_of_path w' q = Some i)) root_world"
    using root_world_wf by (intro mkdir_as_needed_creates)
  then show ?thesis by (rule wp_mono) (simp add: root_world_def)
qed

lemma keeps_mask: "keeps (\<lambda>w. file_mask w = x) (sys_stat p)"
  "keeps (\<lambda>w. file_mask w = x) (sys_mkdir p m)" "keeps (\<lambda>w. file_mask w = x) (set_errno e)"
  unfolding sys_stat_def sys_mkdir_def fail_def
  by (rule keeps_syscall; auto split: fault.split option.split)+
    (simp add: keeps_def wps)

lemma keeps_mask_mkpath: "keeps (\<lambda>w. file_mask w = x) (mkpath fuel dir m)"
  by (induction fuel dir m rule: mkpath.induct) (auto intro!: keep keeps_mask)

text \<open>
  The file mode mask. \<^verbatim>\<open>mkdir_as_needed\<close> clears the mask to create the directory. It puts the
  old mask back when it succeeds; but when it returns \<open>-1\<close> or \<open>-4\<close>, after \<^verbatim>\<open>mkpath\<close> failed, the
  process is left with the mask cleared, whatever it was before.
\<close>

theorem mkdir_as_needed_mask:
  "wp (mkdir_as_needed fuel path m) (\<lambda>r w'.
     (r \<in> {Some 0, Some (- 2), Some (- 3)} \<longrightarrow> file_mask w' = file_mask w)
   \<and> (r \<in> {Some (- 1), Some (- 4)} \<longrightarrow> file_mask w' = 0)) w"
proof (cases "path = None \<or> path = Some []")
  case False
  then obtain p where p: "path = Some p" "p \<noteq> []" by auto
  have mk: "wp (mkpath fuel (Some p) m) (\<lambda>_ w'. file_mask w' = 0) (w'\<lparr>file_mask := 0\<rparr>)" for w'
    by (rule keepsD [OF keeps_mask_mkpath]) simp
  have st: "wp (sys_stat p) (\<lambda>_ w''. file_mask w'' = x) w'" if "file_mask w' = x" for w' x
    by (rule wp_sys_stat) (use that in \<open>simp add: quiet_same\<close>)
  have e: "existing_dir sb m e \<noteq> r" if "r \<notin> {e, 5, 1}" for sb e r
    using that by (auto simp: existing_dir_def)
  have "wp (sys_stat p) (\<lambda>sb. wp (case sb of
      Some sb \<Rightarrow> State_Monad.return (Some (existing_dir sb m (- 2)))
    | None \<Rightarrow> do {
        old_mask \<leftarrow> sys_umask 0;
        r \<leftarrow> mkpath fuel (Some p) m;
        case r of
          None \<Rightarrow> State_Monad.return None
        | Some r \<Rightarrow>
            if r \<noteq> 0 then do {
              sb \<leftarrow> sys_stat p;
              State_Monad.return
                (Some (case sb of Some sb \<Rightarrow> existing_dir sb m (- 4) | None \<Rightarrow> - 1)) }
            else do {
              _ \<leftarrow> sys_umask old_mask;
              _ \<leftarrow> (if DYAD_SYNC_DIR then sync_containing_dir p else State_Monad.return 0);
              State_Monad.return (Some 0) } })
      (\<lambda>r w'. (r \<in> {Some 0, Some (- 2), Some (- 3)} \<longrightarrow> file_mask w' = file_mask w)
         \<and> (r \<in> {Some (- 1), Some (- 4)} \<longrightarrow> file_mask w' = 0))) w"
  proof (rule wp_mono [OF st [OF refl]], goal_cases)
    case (1 sb w')
    show ?case
    proof (cases sb)
      case None
      then show ?thesis
        by (auto simp: wps sys_umask_def DYAD_SYNC_DIR_def 1 e split: option.split option.split_asm
            intro!: wp_mono [OF mk] wp_mono [OF st])
    qed (use 1 e in auto)
  qed
  then show ?thesis using p by (simp add: mkdir_as_needed_def wps)
qed (auto simp: mkdir_as_needed_def)

lemma mkdir_as_needed_mask_witness:
  "\<exists>w'. run_state (mkdir_as_needed 10 (Some ''/a'') 493)
       (root_world\<lparr>faults := [Good, Good, Good, Err ENOSPC]\<rparr>) = (Some (- 1), w')
     \<and> file_mask root_world = 18 \<and> file_mask w' = 0"
proof -
  let ?w = "root_world\<lparr>faults := [Good, Good, Good, Err ENOSPC]\<rparr>"
  have r: "fst (run_state (mkdir_as_needed 10 (Some ''/a'') 493) ?w) = Some (- 1)"
    by code_simp
  then have "file_mask (snd (run_state (mkdir_as_needed 10 (Some ''/a'') 493) ?w)) = 0"
    using mkdir_as_needed_mask [of 10 "Some ''/a''" 493 ?w] by (simp add: wp_run)
  with r show ?thesis by (metis prod.collapse root_world_def world.select_convs(10))
qed

section \<open>Locks and sizes on the file view\<close>

lemma wp_shared_flock_view:
  assumes "good w" "fd_at w fd p True wr" "fdata w p = Some d"
    and "\<And>w'. view w w' (fdata w) \<Longrightarrow> faults w \<noteq> [] \<Longrightarrow> Q RC_BADFIO w'"
    and "\<And>F w'. view w w' F \<Longrightarrow>
       F = fdata w \<or> (\<exists>d'. left_by_other w p d' \<and> F = (fdata w)(p \<mapsto> d')) \<Longrightarrow> Q RC_OK w'"
  shows "wp (dyad_shared_flock fd True) Q w"
  unfolding dyad_shared_flock_def
  by (simp add: wps, rule wp_setlkw_view [OF assms(1-3)]) (use assms in auto)

lemma wp_excl_flock_view:
  assumes "good w" "fd_at w fd p rd True" "fdata w p = Some d"
    and "\<And>w'. view w w' (fdata w) \<Longrightarrow> faults w \<noteq> [] \<Longrightarrow> Q RC_BADFIO w'"
    and "\<And>F w'. view w w' F \<Longrightarrow>
       F = fdata w \<or> (\<exists>d'. left_by_other w p d' \<and> F = (fdata w)(p \<mapsto> d')) \<Longrightarrow> Q RC_OK w'"
  shows "wp (dyad_excl_flock fd True) Q w"
  unfolding dyad_excl_flock_def
  by (simp add: wps, rule wp_setlkw_view [OF assms(1-3)]) (use assms in auto)

lemma wp_release_flock_view:
  assumes "good w" "fd_at w fd p rd wr" "fdata w p = Some d"
    and "\<And>rc w'. view w w' (fdata w) \<Longrightarrow> Q rc w'"
  shows "wp (dyad_release_flock fd True) Q w"
  unfolding dyad_release_flock_def
  by (simp add: wps, rule wp_unlock_view [OF assms(1-3)]) (use assms in auto)

lemma wp_get_file_size_view:
  assumes "good w" "fd_at w fd p rd wr" "fdata w p = Some d"
    and "\<And>r w'. view w w' (fdata w) \<Longrightarrow> r = 0 \<and> faults w \<noteq> [] \<or> r = int (length d) \<Longrightarrow> Q r w'"
  shows "wp (get_file_size fd) Q w"
  unfolding get_file_size_def
  by (simp add: wps, rule wp_fstat_view [OF assms(1-3)]) (use assms(4) in auto)

end
