(* ===== verification/Cache_Evict.thy ===== *)
theory Cache_Evict
  imports Cache_Policy Fs_Utils "HOL-Library.Multiset"
begin

text \<open>
  Eviction from a managed directory, \<^verbatim>\<open>src/dyad/cache/dyad_cache.c\<close>: the scan for candidates, the
  order in which they go, and \<^verbatim>\<open>dyad_cache_maybe_evict\<close> with its directory lock. \<^verbatim>\<open>qsort\<close> is
  insertion sort here; the proofs use only what the interface \<open>recency_sort\<close> promises of it. The
  product of a \<^verbatim>\<open>double\<close> fraction and the capacity is computed exactly.
\<close>

definition CACHE_LOCK_FILENAME :: string where
  "CACHE_LOCK_FILENAME = ''.dyad_cache.lock''"

record dyad_cache_entry =
  e_path :: string
  e_size :: int
  e_atime :: int
  e_recency :: int

section \<open>The scan\<close>

definition skipped_name :: "string \<Rightarrow> bool" where
  "skipped_name name \<longleftrightarrow> name = ''.'' \<or> name = ''..'' \<or> name = CACHE_LOCK_FILENAME"

text \<open>The path \<^verbatim>\<open>snprintf\<close> builds in a buffer of \<^verbatim>\<open>PATH_MAX + 1\<close> bytes.\<close>

definition cache_path :: "string \<Rightarrow> string \<Rightarrow> string" where
  "cache_path managed_path name = take PATH_MAX (managed_path @ ''/'' @ name)"

text \<open>The recency key of a candidate, when there is a usable policy.\<close>

definition recency_of :: "dyad_ctx \<Rightarrow> c_stat \<Rightarrow> int option" where
  "recency_of ctx st =
     (case cache_policy ctx of
        None \<Rightarrow> None
      | Some p \<Rightarrow>
          (case get_recency_key p of
             None \<Rightarrow> None
           | Some key \<Rightarrow> (case key (Some st) of Inl rc \<Rightarrow> None | Inr k \<Rightarrow> Some k)))"

fun scan_loop ::
  "dyad_ctx \<Rightarrow> string \<Rightarrow> string list \<Rightarrow> dyad_cache_entry list \<Rightarrow> nat \<Rightarrow> uint64 \<Rightarrow>
   ('x, (dyad_cache_entry list \<times> uint64) option) io" where
  "scan_loop ctx managed_path [] entries capacity total_size = State_Monad.return (Some (entries, total_size))"
| "scan_loop ctx managed_path (name # ns) entries capacity total_size =
     (if skipped_name name then scan_loop ctx managed_path ns entries capacity total_size
      else do {
        let path = cache_path managed_path name;
        st \<leftarrow> sys_stat path;
        case st of
          None \<Rightarrow> scan_loop ctx managed_path ns entries capacity total_size
        | Some st \<Rightarrow>
            if \<not> st_isreg st then scan_loop ctx managed_path ns entries capacity total_size
            else (case recency_of ctx st of
                    None \<Rightarrow> scan_loop ctx managed_path ns entries capacity total_size
                  | Some key \<Rightarrow> do {
                      ok \<leftarrow> (if length entries = capacity then sys_malloc else State_Monad.return True);
                      if \<not> ok then State_Monad.return None
                      else scan_loop ctx managed_path ns
                             (entries @ [\<lparr>e_path = path, e_size = st_size st,
                                          e_atime = st_atime st, e_recency = key\<rparr>])
                             (if length entries = capacity
                              then (if capacity = 0 then 16 else capacity * 2) else capacity)
                             (total_size + of_int (st_size st)) }) })"

definition dyad_cache_scan_dir ::
  "dyad_ctx \<Rightarrow> string \<Rightarrow> ('x, dyad_rc \<times> dyad_cache_entry list \<times> uint64) io" where
  "dyad_cache_scan_dir ctx managed_path = do {
     dirp \<leftarrow> sys_readdir managed_path;
     case dirp of
       None \<Rightarrow> State_Monad.return (RC_BADFIO, [], 0)
     | Some ns \<Rightarrow> do {
         r \<leftarrow> scan_loop ctx managed_path ns [] 0 0;
         State_Monad.return
           (case r of None \<Rightarrow> (RC_SYSFAIL, [], 0) | Some (entries, total_size) \<Rightarrow> (RC_OK, entries, total_size)) } }"

section \<open>The order of eviction\<close>

definition dyad_cache_entry_cmp :: "dyad_cache_entry \<Rightarrow> dyad_cache_entry \<Rightarrow> int" where
  "dyad_cache_entry_cmp ea eb =
     (if e_recency ea < e_recency eb then - 1
      else if e_recency ea > e_recency eb then 1
      else 0)"

fun insert_by :: "('a \<Rightarrow> 'a \<Rightarrow> int) \<Rightarrow> 'a \<Rightarrow> 'a list \<Rightarrow> 'a list" where
  "insert_by cmp x [] = [x]"
| "insert_by cmp x (y # ys) = (if cmp x y \<le> 0 then x # y # ys else y # insert_by cmp x ys)"

definition qsort_by :: "('a \<Rightarrow> 'a \<Rightarrow> int) \<Rightarrow> 'a list \<Rightarrow> 'a list" where
  "qsort_by cmp xs = foldr (insert_by cmp) xs []"

section \<open>Eviction\<close>

text \<open>Opening, locking and removing one victim; whether it was removed.\<close>

definition evict_one :: "string \<Rightarrow> ('x, bool) io" where
  "evict_one path = do {
     victim_fd \<leftarrow> sys_open path O_RDWR 0;
     if victim_fd = - 1 then State_Monad.return False
     else do {
       rc \<leftarrow> dyad_try_excl_flock victim_fd True;
       if rc \<noteq> RC_OK then do { _ \<leftarrow> sys_close victim_fd; State_Monad.return False }
       else do {
         r \<leftarrow> sys_unlink path;
         _ \<leftarrow> dyad_release_flock victim_fd True;
         _ \<leftarrow> sys_close victim_fd;
         State_Monad.return (r = 0) } } }"

fun evict_loop ::
  "dyad_ctx \<Rightarrow> uint64 \<Rightarrow> int \<Rightarrow> dyad_cache_entry list \<Rightarrow> uint64 \<Rightarrow> ('x, uint64) io" where
  "evict_loop ctx low_watermark t [] total_size = State_Monad.return total_size"
| "evict_loop ctx low_watermark t (e # es) total_size =
     (if \<not> total_size > low_watermark then State_Monad.return total_size
      else if t - e_atime e < int (unat (cache_grace_period_sec ctx))
      then evict_loop ctx low_watermark t es total_size
      else do {
        gone \<leftarrow> evict_one (e_path e);
        evict_loop ctx low_watermark t es (if gone then total_size - of_int (e_size e) else total_size) })"

definition low_watermark_of :: "dyad_ctx \<Rightarrow> uint64" where
  "low_watermark_of ctx =
     of_int \<lfloor>cache_low_watermark_frac ctx * of_nat (unat (cache_capacity_bytes ctx))\<rfloor>"

text \<open>Under the directory lock: scan again, sort, evict.\<close>

definition evict_locked :: "dyad_ctx \<Rightarrow> string \<Rightarrow> int \<Rightarrow> ('x, unit) io" where
  "evict_locked ctx managed_path lock_fd = do {
     (rc, entries, total_size) \<leftarrow> dyad_cache_scan_dir ctx managed_path;
     (if is_error rc \<or> total_size \<le> cache_capacity_bytes ctx then State_Monad.return ()
      else do {
        let low_watermark = low_watermark_of ctx;
        let entries = qsort_by dyad_cache_entry_cmp entries;
        t \<leftarrow> sys_time;
        _ \<leftarrow> evict_loop ctx low_watermark t entries total_size;
        State_Monad.return () });
     _ \<leftarrow> dyad_release_flock lock_fd True;
     _ \<leftarrow> sys_close lock_fd;
     State_Monad.return () }"

definition eviction_disabled :: "dyad_ctx option \<Rightarrow> string option \<Rightarrow> bool" where
  "eviction_disabled ctx managed_path \<longleftrightarrow>
     (case ctx of
        None \<Rightarrow> True
      | Some c \<Rightarrow> cache_capacity_bytes c = 0 \<or> cache_policy_mode c = CACHE_NONE \<or> managed_path = None)"

definition dyad_cache_maybe_evict :: "dyad_ctx option \<Rightarrow> string option \<Rightarrow> ('x, dyad_rc) io" where
  "dyad_cache_maybe_evict ctx_opt managed_opt =
     (if eviction_disabled ctx_opt managed_opt then State_Monad.return RC_OK
      else do {
        let ctx = the ctx_opt;
        let managed_path = the managed_opt;
        (rc, _, total_size) \<leftarrow> dyad_cache_scan_dir ctx managed_path;
        if is_error rc then State_Monad.return RC_OK
        else if total_size \<le> cache_capacity_bytes ctx then State_Monad.return RC_OK
        else do {
          lock_fd \<leftarrow> sys_open (cache_path managed_path CACHE_LOCK_FILENAME) (O_RDWR OR O_CREAT) 438;
          if lock_fd = - 1 then State_Monad.return RC_OK
          else do {
            rc \<leftarrow> dyad_excl_flock lock_fd True;
            if is_error rc then do { _ \<leftarrow> sys_close lock_fd; State_Monad.return RC_OK }
            else do {
              evict_locked ctx managed_path lock_fd;
              State_Monad.return RC_OK } } } })"

section \<open>Well-formed worlds\<close>

lemma wf_scan [keep]: "keeps wf_world (dyad_cache_scan_dir ctx p)"
proof -
  have "keeps wf_world (scan_loop ctx p ns es k t)" for ns es k t
  proof (induction ns arbitrary: es k t)
    case (Cons n ns)
    show ?case unfolding scan_loop.simps
      by (intro keep Cons)
  qed (simp add: keep)
  then show ?thesis
    unfolding dyad_cache_scan_dir_def by (auto intro!: keep)
qed

lemma wf_evict [keep]: "keeps wf_world (dyad_cache_maybe_evict c m)"
proof -
  have one: "keeps wf_world (evict_one p)" for p unfolding evict_one_def by (intro keep)
  have "keeps wf_world (evict_loop ctx low t es total_size)" for ctx low t es total_size
    by (induction ctx low t es total_size rule: evict_loop.induct) (auto intro!: keep one)
  then show ?thesis
    unfolding dyad_cache_maybe_evict_def evict_locked_def by (auto intro!: keep)
qed

section \<open>Sorting\<close>

text \<open>What the eviction loop relies on: a permutation, smallest recency key first.\<close>

locale recency_sort =
  fixes sorter :: "dyad_cache_entry list \<Rightarrow> dyad_cache_entry list"
  assumes mset_sorter: "mset (sorter es) = mset es"
    and sorted_sorter: "sorted (map e_recency (sorter es))"
begin

lemma set_sorter [simp]: "set (sorter es) = set es"
  by (metis mset_sorter set_mset_mset)

lemma length_sorter [simp]: "length (sorter es) = length es"
  by (metis mset_sorter size_mset)

lemma distinct_sorter [simp]: "distinct (map f (sorter es)) = distinct (map f es)"
  by (metis mset_map mset_sorter mset_eq_imp_distinct_iff)

text \<open>Whatever goes before another entry is at least as old.\<close>

lemma sorter_older:
  assumes "sorter es = xs @ e # ys" and "x \<in> set xs"
  shows "e_recency x \<le> e_recency e"
  using assms sorted_sorter [of es] by (auto simp: sorted_append)

end

lemma mset_insert_by: "mset (insert_by cmp x ys) = add_mset x (mset ys)"
  by (induction ys) auto

lemma sorted_insert_by:
  "sorted (map e_recency ys) \<Longrightarrow> sorted (map e_recency (insert_by dyad_cache_entry_cmp x ys))"
proof (induction ys)
  case (Cons y ys)
  have "set (insert_by dyad_cache_entry_cmp x ys) = insert x (set ys)"
    by (metis mset_insert_by set_mset_add_mset_insert set_mset_mset)
  moreover have "dyad_cache_entry_cmp x y \<le> 0 \<longleftrightarrow> e_recency x \<le> e_recency y"
    by (simp add: dyad_cache_entry_cmp_def)
  ultimately show ?case using Cons by auto
qed simp

interpretation entries: recency_sort "qsort_by dyad_cache_entry_cmp"
proof unfold_locales
  show "mset (qsort_by dyad_cache_entry_cmp es) = mset es" for es
    unfolding qsort_by_def by (induction es) (simp_all add: mset_insert_by)
  show "sorted (map e_recency (qsort_by dyad_cache_entry_cmp es))" for es
    unfolding qsort_by_def by (induction es) (simp_all add: sorted_insert_by)
qed

end
