(* ===== verification/Range_Cache.thy ===== *)
theory Range_Cache
  imports Fs_Utils
begin

text \<open>
  The lazy block cache of \<^verbatim>\<open>src/dyad/utils/range_cache.c\<close>: a bitmap file beside a local copy says
  which blocks of the copy are filled; \<^verbatim>\<open>dyad_range_cache_ensure\<close> fetches what is missing from
  the origin. Results are \<open>option\<close> values: \<open>None\<close> means the code has read or written the bitmap
  outside its buffer. The mutex between the threads of a process has no effect on one call and is
  not part of the model.
\<close>

section \<open>Blocks and bits\<close>

definition BLOCK_SIZE :: size_t where "BLOCK_SIZE = 65536"

definition range_cache_bitmap_path :: "string \<Rightarrow> nat \<Rightarrow> dyad_rc + string" where
  "range_cache_bitmap_path local_path out_capacity =
     (let out = local_path @ ''.dyad_cached'' in
      if length out \<ge> out_capacity then Inl RC_BADBUF else Inr out)"

definition range_cache_num_blocks :: "size_t \<Rightarrow> size_t" where
  "range_cache_num_blocks file_size = (file_size + BLOCK_SIZE - 1) div BLOCK_SIZE"

definition range_cache_bitmap_bytes :: "size_t \<Rightarrow> size_t" where
  "range_cache_bitmap_bytes num_blocks = (num_blocks + 7) div 8"

text \<open>The bit of one block; \<open>None\<close> when its byte is outside the buffer.\<close>

definition block_bit :: "bytes \<Rightarrow> nat \<Rightarrow> bool option" where
  "block_bit bitmap b =
     (if b div 8 < length bitmap then Some (bit (bitmap ! (b div 8)) (b mod 8)) else None)"

fun blocks_set_loop :: "bytes \<Rightarrow> nat list \<Rightarrow> bool option" where
  "blocks_set_loop bitmap [] = Some True"
| "blocks_set_loop bitmap (b # bs) =
     (case block_bit bitmap b of
        None \<Rightarrow> None
      | Some v \<Rightarrow> if \<not> v then Some False else blocks_set_loop bitmap bs)"

definition range_cache_blocks_set :: "bytes \<Rightarrow> nat \<Rightarrow> nat \<Rightarrow> bool option" where
  "range_cache_blocks_set bitmap block_start block_end =
     blocks_set_loop bitmap [block_start..<Suc block_end]"

fun set_blocks_loop :: "bytes \<Rightarrow> nat list \<Rightarrow> bytes option" where
  "set_blocks_loop bitmap [] = Some bitmap"
| "set_blocks_loop bitmap (b # bs) =
     (if b div 8 < length bitmap
      then set_blocks_loop (bitmap[b div 8 := bitmap ! (b div 8) OR push_bit (b mod 8) 1]) bs
      else None)"

definition range_cache_set_blocks :: "bytes \<Rightarrow> nat \<Rightarrow> nat \<Rightarrow> bytes option" where
  "range_cache_set_blocks bitmap block_start block_end =
     set_blocks_loop bitmap [block_start..<Suc block_end]"

section \<open>Fetching a span\<close>

text \<open>\<^verbatim>\<open>close\<close> on a descriptor that may be \<^verbatim>\<open>-1\<close>.\<close>

definition close_if_open :: "int \<Rightarrow> ('x, unit) io" where
  "close_if_open fd =
     (if fd \<noteq> - 1 then do { _ \<leftarrow> sys_close fd; State_Monad.return () } else State_Monad.return ())"

definition range_cache_fetch_span ::
  "string \<Rightarrow> string \<Rightarrow> size_t \<Rightarrow> size_t \<Rightarrow> size_t \<Rightarrow> ('x, dyad_rc) io" where
  "range_cache_fetch_span local_path origin block_start block_end origin_size =
     (let span_off = block_start * BLOCK_SIZE;
          span_end = (block_end + 1) * BLOCK_SIZE;
          span_end = (if span_end > origin_size then origin_size else span_end) in
      if span_end \<le> span_off then State_Monad.return RC_BADFIO
      else do {
        let span_len = unat (span_end - span_off);
        ok \<leftarrow> sys_malloc;
        if \<not> ok then State_Monad.return RC_SYSFAIL
        else do {
          origin_fd \<leftarrow> sys_open origin O_RDONLY 0;
          (n, span_buf) \<leftarrow> (if origin_fd = - 1 then State_Monad.return (- 1, [])
                            else sys_pread origin_fd span_len (unat span_off));
          if origin_fd = - 1 \<or> n \<noteq> int span_len then do {
            close_if_open origin_fd;
            State_Monad.return RC_BADFIO }
          else do {
            local_fd \<leftarrow> sys_open local_path O_WRONLY 0;
            n \<leftarrow> (if local_fd = - 1 then State_Monad.return (- 1)
                  else sys_pwrite local_fd span_buf (unat span_off));
            close_if_open origin_fd;
            close_if_open local_fd;
            State_Monad.return
              (if local_fd = - 1 \<or> n \<noteq> int span_len then RC_BADFIO else RC_OK) } } })"

section \<open>Ensuring a range\<close>

text \<open>The bitmap read into a zeroed buffer.\<close>

definition read_bitmap :: "int \<Rightarrow> nat \<Rightarrow> ('x, bytes) io" where
  "read_bitmap bitmap_fd bitmap_bytes = do {
     (n, d) \<leftarrow> sys_pread bitmap_fd bitmap_bytes 0;
     State_Monad.return (d @ replicate (bitmap_bytes - length d) 0) }"

text \<open>The check under the shared lock: \<open>Some True\<close> when the whole range is cached.\<close>

definition fast_path :: "int \<Rightarrow> nat \<Rightarrow> nat \<Rightarrow> ('x, bool option) io" where
  "fast_path bitmap_fd block_start block_end = do {
     bitmap_bytes \<leftarrow> get_file_size bitmap_fd;
     if bitmap_bytes > int (block_end div 8) then do {
       ok \<leftarrow> sys_malloc;
       if \<not> ok then State_Monad.return (Some False)
       else do {
         (n, bitmap) \<leftarrow> sys_pread bitmap_fd (nat bitmap_bytes) 0;
         State_Monad.return
           (if n = bitmap_bytes then range_cache_blocks_set bitmap block_start block_end
            else Some False) } }
     else State_Monad.return (Some False) }"

text \<open>The first touch under the exclusive lock: give the local file and the bitmap their sizes.\<close>

definition size_files :: "string \<Rightarrow> int \<Rightarrow> size_t \<Rightarrow> size_t \<Rightarrow> ('x, bool) io" where
  "size_files local_path bitmap_fd origin_size bitmap_bytes = do {
     size \<leftarrow> get_file_size bitmap_fd;
     if size < int (unat bitmap_bytes) then do {
       size_fd \<leftarrow> sys_open local_path (O_WRONLY OR O_CREAT) 420;
       if size_fd = - 1 then State_Monad.return False
       else do {
         r \<leftarrow> sys_ftruncate size_fd (unat origin_size);
         r \<leftarrow> (if r \<noteq> 0 then State_Monad.return r else sys_ftruncate bitmap_fd (unat bitmap_bytes));
         _ \<leftarrow> sys_close size_fd;
         State_Monad.return (r = 0) } }
     else State_Monad.return True }"

text \<open>Recording the fetched span under the exclusive lock.\<close>

definition record_span :: "int \<Rightarrow> nat \<Rightarrow> nat \<Rightarrow> nat \<Rightarrow> ('x, dyad_rc option) io" where
  "record_span bitmap_fd bitmap_bytes block_start block_end = do {
     rc \<leftarrow> dyad_excl_flock bitmap_fd True;
     if is_error rc then do { _ \<leftarrow> sys_close bitmap_fd; State_Monad.return (Some rc) }
     else do {
       ok \<leftarrow> sys_malloc;
       if \<not> ok then do {
         _ \<leftarrow> dyad_release_flock bitmap_fd True;
         _ \<leftarrow> sys_close bitmap_fd;
         State_Monad.return (Some RC_SYSFAIL) }
       else do {
         bitmap \<leftarrow> read_bitmap bitmap_fd bitmap_bytes;
         case range_cache_set_blocks bitmap block_start block_end of
           None \<Rightarrow> State_Monad.return None
         | Some bitmap \<Rightarrow> do {
             n \<leftarrow> sys_pwrite bitmap_fd bitmap 0;
             _ \<leftarrow> dyad_release_flock bitmap_fd True;
             _ \<leftarrow> sys_close bitmap_fd;
             State_Monad.return (Some (if n \<noteq> int bitmap_bytes then RC_BADFIO else RC_OK)) } } } }"

definition fail_locked :: "int \<Rightarrow> dyad_rc \<Rightarrow> ('x, dyad_rc option) io" where
  "fail_locked bitmap_fd rc = do {
     _ \<leftarrow> dyad_release_flock bitmap_fd True;
     _ \<leftarrow> sys_close bitmap_fd;
     State_Monad.return (Some rc) }"

definition slow_path ::
  "string \<Rightarrow> string \<Rightarrow> int \<Rightarrow> size_t \<Rightarrow> size_t \<Rightarrow> ('x, dyad_rc option) io" where
  "slow_path local_path origin bitmap_fd block_start block_end = do {
     rc \<leftarrow> dyad_excl_flock bitmap_fd True;
     if is_error rc then do { _ \<leftarrow> sys_close bitmap_fd; State_Monad.return (Some rc) }
     else do {
       origin_st \<leftarrow> sys_stat origin;
       case origin_st of
         None \<Rightarrow> fail_locked bitmap_fd RC_BADFIO
       | Some st \<Rightarrow>
           if st_size st \<le> 0 then fail_locked bitmap_fd RC_BADFIO
           else do {
             let origin_size = (of_int (st_size st) :: size_t);
             let bitmap_bytes = range_cache_bitmap_bytes (range_cache_num_blocks origin_size);
             sized \<leftarrow> size_files local_path bitmap_fd origin_size bitmap_bytes;
             if \<not> sized then fail_locked bitmap_fd RC_BADFIO
             else do {
               ok \<leftarrow> sys_malloc;
               if \<not> ok then fail_locked bitmap_fd RC_SYSFAIL
               else do {
                 bitmap \<leftarrow> read_bitmap bitmap_fd (unat bitmap_bytes);
                 case range_cache_blocks_set bitmap (unat block_start) (unat block_end) of
                   None \<Rightarrow> State_Monad.return None
                 | Some already_cached \<Rightarrow> do {
                     _ \<leftarrow> dyad_release_flock bitmap_fd True;
                     if already_cached
                     then do { _ \<leftarrow> sys_close bitmap_fd; State_Monad.return (Some RC_OK) }
                     else do {
                       rc \<leftarrow> range_cache_fetch_span local_path origin block_start block_end
                              origin_size;
                       if is_error rc
                       then do { _ \<leftarrow> sys_close bitmap_fd; State_Monad.return (Some rc) }
                       else record_span bitmap_fd (unat bitmap_bytes)
                              (unat block_start) (unat block_end) } } } } } } }"

definition dyad_range_cache_ensure ::
  "string \<Rightarrow> string option \<Rightarrow> size_t \<Rightarrow> size_t \<Rightarrow> ('x, dyad_rc option) io" where
  "dyad_range_cache_ensure local_path origin_opt offset len =
     (case origin_opt of
        None \<Rightarrow> State_Monad.return (Some RC_OK)
      | Some origin \<Rightarrow>
          if len = 0 then State_Monad.return (Some RC_OK)
          else
            (case range_cache_bitmap_path local_path (PATH_MAX + 1) of
               Inl rc \<Rightarrow> State_Monad.return (Some rc)
             | Inr bitmap_path \<Rightarrow> do {
                 let block_start = offset div BLOCK_SIZE;
                 let block_end = (offset + len - 1) div BLOCK_SIZE;
                 bitmap_fd \<leftarrow> sys_open bitmap_path (O_RDWR OR O_CREAT) 420;
                 if bitmap_fd = - 1 then State_Monad.return (Some RC_BADFIO)
                 else do {
                   rc \<leftarrow> dyad_shared_flock bitmap_fd True;
                   if is_error rc then do { _ \<leftarrow> sys_close bitmap_fd; State_Monad.return (Some rc) }
                   else do {
                     hit \<leftarrow> fast_path bitmap_fd (unat block_start) (unat block_end);
                     case hit of
                       None \<Rightarrow> State_Monad.return None
                     | Some True \<Rightarrow> fail_locked bitmap_fd RC_OK
                     | Some False \<Rightarrow> do {
                         _ \<leftarrow> dyad_release_flock bitmap_fd True;
                         slow_path local_path origin bitmap_fd block_start block_end } } } }))"

section \<open>Bits\<close>

lemma blocks_set_loop_True:
  "blocks_set_loop bm bs = Some True \<longleftrightarrow> (\<forall>b \<in> set bs. block_bit bm b = Some True)"
  by (induction bs) (auto split: option.split)

lemma blocks_set_True:
  "range_cache_blocks_set bm s e = Some True \<longleftrightarrow> (\<forall>b. s \<le> b \<and> b \<le> e \<longrightarrow> block_bit bm b = Some True)"
  by (auto simp: range_cache_blocks_set_def blocks_set_loop_True)

lemma blocks_set_defined:
  assumes "e div 8 < length bm"
  shows "range_cache_blocks_set bm s e \<noteq> None"
proof -
  have "blocks_set_loop bm bs \<noteq> None" if "\<forall>b \<in> set bs. b div 8 < length bm" for bs
    using that by (induction bs) (auto simp: block_bit_def)
  then show ?thesis
    using assms unfolding range_cache_blocks_set_def
    by (metis atLeastLessThan_iff div_le_mono le_less_trans less_Suc_eq_le set_upt)
qed

lemma block_bit_set:
  assumes "b div 8 < length bm"
  shows "block_bit (bm[b div 8 := bm ! (b div 8) OR push_bit (b mod 8) 1]) c
    = (if c = b then Some True else block_bit bm c)"
proof (cases "c div 8 = b div 8")
  case True
  then have "c mod 8 = b mod 8 \<longleftrightarrow> c = b" by (metis div_mult_mod_eq)
  then show ?thesis
    using True assms by (auto simp: block_bit_def bit_simps)
qed (auto simp: block_bit_def)

lemma set_blocks_loop_bits:
  "set_blocks_loop bm bs = Some bm' \<Longrightarrow>
     length bm' = length bm \<and> (\<forall>c. block_bit bm' c = (if c \<in> set bs then Some True else block_bit bm c))"
  by (induction bs arbitrary: bm) (auto simp: block_bit_set [simplified] split: if_splits)

lemma set_blocks_bits:
  "range_cache_set_blocks bm s e = Some bm' \<Longrightarrow>
     length bm' = length bm
   \<and> (\<forall>c. block_bit bm' c = (if s \<le> c \<and> c \<le> e then Some True else block_bit bm c))"
  unfolding range_cache_set_blocks_def by (drule set_blocks_loop_bits) auto

lemma set_blocks_defined:
  "range_cache_set_blocks bm s e = None \<longleftrightarrow> s \<le> e \<and> length bm \<le> e div 8"
proof -
  have *: "set_blocks_loop bm bs = None \<longleftrightarrow> (\<exists>b \<in> set bs. length bm \<le> b div 8)" for bs
    by (induction bs arbitrary: bm) auto
  have "(\<exists>b. s \<le> b \<and> b \<le> e \<and> length bm \<le> b div 8) \<longleftrightarrow> s \<le> e \<and> length bm \<le> e div 8"
    by (metis div_le_mono le_refl le_trans)
  then show ?thesis
    unfolding range_cache_set_blocks_def * by (auto simp: less_Suc_eq_le)
qed

end
