(* ===== verification/Client.thy ===== *)
theory Client
  imports Ctx Path_Key Cache_Evict Range_Cache
begin

text \<open>
  The client, \<^verbatim>\<open>src/dyad/client/dyad_client.c\<close>: publishing a produced file in the key-value store,
  looking it up, fetching its data from the owner over the Flux transport, storing it, and the
  calls built from these. Where a result is an \<open>option\<close>, \<open>None\<close> means that the C code has no
  defined outcome (a \<^verbatim>\<open>NULL\<close> pointer dereferenced, a buffer overrun, a division by zero, or a loop
  that does not end within \<open>fuel\<close>). Labels reached by \<^verbatim>\<open>goto\<close> are definitions of their own.
\<close>

record dyad_metadata =
  fpath :: string
  owner_rank :: uint32

definition DYAD_CHECK_ENV :: string where "DYAD_CHECK_ENV = ''DYAD_SYNC_HEALTH''"

definition report_check :: "dyad_rc \<Rightarrow> ('e, 'x, unit) dio" where
  "report_check rc = do {
     c \<leftarrow> get_cell;
     if rc = RC_OK \<and> (case c of None \<Rightarrow> False | Some c \<Rightarrow> ctx_check c)
     then sys_setenv DYAD_CHECK_ENV ''ok'' else State_Monad.return () }"

section \<open>Publishing\<close>

definition future_cleanup_cb :: "'e flux_ops \<Rightarrow> flux_future \<Rightarrow> ('e, 'x, unit) dio" where
  "future_cleanup_cb F f = do {
     _ \<leftarrow> flux_call (fx_future_get F f);
     flux_do (fx_future_destroy F (Some f)) }"

definition dyad_kvs_commit :: "'e flux_ops \<Rightarrow> flux_txn \<Rightarrow> ('e, 'x, dyad_rc) dio" where
  "dyad_kvs_commit F txn = do {
     c \<leftarrow> the_ctx;
     f \<leftarrow> flux_call (fx_kvs_commit F (ctx_h c) (kvs_namespace c) txn);
     case f of
       None \<Rightarrow> State_Monad.return RC_BADCOMMIT
     | Some f \<Rightarrow> do {
         (if async_publish c
          then do { _ \<leftarrow> flux_call (fx_future_then F f); State_Monad.return () }
          else do {
            _ \<leftarrow> flux_call (fx_future_wait_for F f);
            flux_do (fx_future_destroy F (Some f)) });
         State_Monad.return RC_OK } }"

definition publish_via_flux :: "'e flux_ops \<Rightarrow> string \<Rightarrow> ('e, 'x, dyad_rc option) dio" where
  "publish_via_flux F upath = do {
     c \<leftarrow> the_ctx;
     case gen_path_key upath PATH_MAX (key_depth c) (key_bins c) of
       None \<Rightarrow> State_Monad.return None
     | Some (_, topic) \<Rightarrow> do {
         txn \<leftarrow> flux_call (fx_txn_create F);
         case txn of
           None \<Rightarrow> State_Monad.return (Some RC_FLUXFAIL)
         | Some txn \<Rightarrow> do {
             r \<leftarrow> flux_call (fx_txn_pack F txn topic (sint (ctx_rank c)));
             rc \<leftarrow> (if flux_failed r then State_Monad.return RC_FLUXFAIL else dyad_kvs_commit F txn);
             flux_do (fx_txn_destroy F txn);
             State_Monad.return (Some rc) } } }"

text \<open>
  The path relative to a managed directory: the name itself when it is relative and such names
  are allowed (for a consumer: when it is not empty), otherwise what the prefix test extracts. A name that does not fit the buffer
  overruns it.
\<close>

definition get_realpaths :: "('e, 'x, string \<Rightarrow> string option) dio" where
  "get_realpaths = State (\<lambda>w. (realpaths w, w))"

definition managed_upath :: "bool \<Rightarrow> string \<Rightarrow> ('e, 'x, path_match) dio" where
  "managed_upath is_prod fname = do {
     c \<leftarrow> the_ctx;
     rp \<leftarrow> get_realpaths;
     State_Monad.return
       (if relative_to_managed_path c \<and> (is_prod \<or> fname \<noteq> [])
           \<and> \<not> strncmp_eq fname PATH_DELIM (unat (delim_len c))
        then if length fname > PATH_MAX then Null_deref else Match fname
        else cmp_canonical_path_prefix rp (Some c) is_prod fname PATH_MAX) }"

definition dyad_commit :: "'e flux_ops \<Rightarrow> string \<Rightarrow> ('e, 'x, dyad_rc option) dio" where
  "dyad_commit F fname = do {
     upath \<leftarrow> managed_upath True fname;
     case upath of
       Null_deref \<Rightarrow> State_Monad.return None
     | No_match \<Rightarrow> do { report_check RC_OK; State_Monad.return (Some RC_OK) }
     | Match upath \<Rightarrow> do {
         upd_ctx (\<lambda>c. c\<lparr>reenter := False\<rparr>);
         rc \<leftarrow> publish_via_flux F upath;
         case rc of
           None \<Rightarrow> State_Monad.return None
         | Some rc \<Rightarrow> do {
             upd_ctx (\<lambda>c. c\<lparr>reenter := True\<rparr>);
             report_check rc;
             State_Monad.return (Some rc) } } }"

definition dyad_produce :: "'e flux_ops \<Rightarrow> string \<Rightarrow> ('e, 'x, dyad_rc option) dio" where
  "dyad_produce F fname = do {
     c \<leftarrow> get_cell;
     case c of
       None \<Rightarrow> State_Monad.return None
     | Some c \<Rightarrow> do {
         upd_ctx (\<lambda>c. c\<lparr>ctx_fname := Some fname\<rparr>);
         if ctx_h c = None then State_Monad.return (Some RC_NOCTX)
         else if prod_managed_path c = None then State_Monad.return (Some RC_BADMANAGEDPATH)
         else do {
           rc \<leftarrow> dyad_commit F fname;
           case rc of
             None \<Rightarrow> State_Monad.return None
           | Some rc \<Rightarrow> do {
               (if \<not> is_error rc
                then do {
                  c \<leftarrow> get_cell;
                  _ \<leftarrow> dyad_cache_maybe_evict c (prod_managed_path (the c));
                  State_Monad.return () }
                else State_Monad.return ());
               State_Monad.return (Some rc) } } } }"

section \<open>Looking up the owner\<close>

text \<open>A metadata pointer is \<open>None\<close> when it is \<^verbatim>\<open>NULL\<close>; \<^verbatim>\<open>mdata\<close> points to one.\<close>

definition dyad_free_metadata :: "dyad_metadata option option \<Rightarrow> dyad_rc \<times> dyad_metadata option option" where
  "dyad_free_metadata mdata =
     (if mdata = None \<or> mdata = Some None then (RC_OK, mdata) else (RC_OK, Some None))"

definition dyad_kvs_read ::
  "'e flux_ops \<Rightarrow> string \<Rightarrow> string \<Rightarrow> bool \<Rightarrow> dyad_metadata option option
     \<Rightarrow> ('e, 'x, dyad_rc \<times> dyad_metadata option option) dio" where
  "dyad_kvs_read F topic upath should_wait mdata =
     (case mdata of
        None \<Rightarrow> State_Monad.return (RC_NOTFOUND, None)
      | Some md \<Rightarrow> do {
          c \<leftarrow> the_ctx;
          f \<leftarrow> flux_call (fx_kvs_lookup F (ctx_h c) (kvs_namespace c) should_wait topic);
          case f of
            None \<Rightarrow> State_Monad.return (RC_NOTFOUND, snd (dyad_free_metadata (Some md)))
          | Some f \<Rightarrow> do {
              ok \<leftarrow> (if md = None then sys_malloc else State_Monad.return True);
              r \<leftarrow> (if \<not> ok then State_Monad.return (RC_SYSFAIL, Some None)
                   else do {
                     ok \<leftarrow> sys_malloc;
                     if \<not> ok then State_Monad.return (RC_SYSFAIL, Some None)
                     else do {
                       rank \<leftarrow> flux_call (fx_lookup_get F f);
                       State_Monad.return
                         (case rank of
                            None \<Rightarrow> (RC_BADMETADATA, Some None)
                          | Some r \<Rightarrow> (RC_OK, Some (Some \<lparr>fpath = upath, owner_rank = of_int r\<rparr>))) } });
              flux_do (fx_future_destroy F (Some f));
              State_Monad.return r } })"

definition dyad_fetch_metadata ::
  "'e flux_ops \<Rightarrow> string \<Rightarrow> string \<Rightarrow> ('e, 'x, (dyad_rc \<times> dyad_metadata option) option) dio" where
  "dyad_fetch_metadata F fname upath = do {
     c \<leftarrow> the_ctx;
     case gen_path_key upath PATH_MAX (key_depth c) (key_bins c) of
       None \<Rightarrow> State_Monad.return None
     | Some (_, topic) \<Rightarrow> do {
         (rc, mdata) \<leftarrow> dyad_kvs_read F topic upath True (Some None);
         case mdata of
           Some (Some md) \<Rightarrow>
             if is_error rc then State_Monad.return (Some (rc, Some md))
             else if service_mux c = 0 then State_Monad.return None
             else if owner_rank md div service_mux c = node_idx c
             then State_Monad.return (Some (RC_OK, None))
             else State_Monad.return (Some (RC_OK, Some md))
         | _ \<Rightarrow> State_Monad.return (if is_error rc then Some (rc, None) else None) } }"

definition dyad_get_metadata ::
  "'e flux_ops \<Rightarrow> string \<Rightarrow> bool \<Rightarrow> dyad_metadata option option
     \<Rightarrow> ('e, 'x, (dyad_rc \<times> dyad_metadata option option) option) dio" where
  "dyad_get_metadata F fname should_wait mdata =
     (let finish = (\<lambda>(rc, md). do {
            upd_ctx (\<lambda>c. c\<lparr>reenter := True\<rparr>);
            State_Monad.return (Some (rc, if is_error rc then snd (dyad_free_metadata md) else md)) })
      in if fname = [] then finish (RC_BADFIO, mdata)
      else do {
        upath \<leftarrow> managed_upath False fname;
        case upath of
          Null_deref \<Rightarrow> State_Monad.return None
        | No_match \<Rightarrow> finish (RC_UNTRACKED, mdata)
        | Match upath \<Rightarrow> do {
            upd_ctx (\<lambda>c. c\<lparr>reenter := False\<rparr>);
            fd \<leftarrow> sys_open fname O_RDONLY 0;
            c \<leftarrow> the_ctx;
            if fd \<noteq> - 1 then do {
              _ \<leftarrow> sys_close fd;
              case mdata of
                None \<Rightarrow> finish (RC_NOTFOUND, None)
              | Some md \<Rightarrow> do {
                  ok \<leftarrow> (if md = None then sys_malloc else State_Monad.return True);
                  if \<not> ok then finish (RC_SYSFAIL, Some None)
                  else do {
                    ok \<leftarrow> sys_malloc;
                    if \<not> ok then finish (RC_SYSFAIL, Some None)
                    else finish (RC_OK, Some (Some \<lparr>fpath = fname, owner_rank = ctx_rank c\<rparr>)) } } }
            else
              case gen_path_key upath PATH_MAX (key_depth c) (key_bins c) of
                None \<Rightarrow> State_Monad.return None
              | Some (_, topic) \<Rightarrow> do {
                  r \<leftarrow> dyad_kvs_read F topic upath should_wait mdata;
                  finish r } } })"

section \<open>Fetching data\<close>

text \<open>The request: pack, send, receive; \<open>(rc, f, file_data, file_len)\<close> at the label \<^verbatim>\<open>get_done\<close>.\<close>

definition request_data ::
  "'e flux_ops \<Rightarrow> string \<Rightarrow> uint32 \<Rightarrow> dyad_rc \<times> json option
     \<Rightarrow> ('e, 'x, dyad_rc \<times> flux_future option \<times> bytes option \<times> nat) dio" where
  "request_data F topic rank payload =
     (let (rc, rpc_payload) = payload in
      if is_error rc then State_Monad.return (rc, None, None, 0)
      else do {
        c \<leftarrow> the_ctx;
        f \<leftarrow> flux_call (fx_rpc_pack F (ctx_h c) topic rank (the rpc_payload));
        case f of
          None \<Rightarrow> State_Monad.return (RC_BADRPC, None, None, 0)
        | Some f \<Rightarrow> do {
            rc \<leftarrow> dyad_dtl_flux_rpc_recv_response f;
            if is_error rc then State_Monad.return (rc, Some f, None, 0)
            else do {
              rc \<leftarrow> dyad_dtl_flux_establish_connection;
              if is_error rc then State_Monad.return (rc, Some f, None, 0)
              else do {
                (rc, file_data, file_len) \<leftarrow> dyad_dtl_flux_recv F (None, 0);
                _ \<leftarrow> dyad_dtl_flux_close_connection;
                State_Monad.return (rc, Some f, file_data, file_len) } } } })"

text \<open>From the label on: wait for the end of the stream unless the call is already over.\<close>

definition end_of_stream ::
  "'e flux_ops \<Rightarrow> dyad_rc \<times> flux_future option \<times> bytes option \<times> nat
     \<Rightarrow> ('e, 'x, dyad_rc \<times> bytes option \<times> nat) dio" where
  "end_of_stream F result =
     (let (rc, f, file_data, file_len) = result in do {
        rc \<leftarrow> (if rc \<noteq> RC_RPC_FINISHED \<and> rc \<noteq> RC_BADRPC then do {
                 r \<leftarrow> flux_call (fx_rpc_get F f);
                 e \<leftarrow> get_errno;
                 State_Monad.return (if \<not> (flux_failed r \<and> e = ENODATA) then RC_BADRPC else rc) }
               else State_Monad.return rc);
        flux_do (fx_future_destroy F f);
        State_Monad.return (rc, file_data, file_len) })"

definition dyad_get_data ::
  "'e flux_ops \<Rightarrow> dyad_metadata \<Rightarrow> ('e, 'x, dyad_rc \<times> bytes option \<times> nat) dio" where
  "dyad_get_data F mdata = do {
     payload \<leftarrow> dyad_dtl_flux_rpc_pack F (fpath mdata) (owner_rank mdata);
     r \<leftarrow> request_data F DYAD_DTL_RPC_NAME (owner_rank mdata) payload;
     end_of_stream F r }"

definition dyad_get_data_range ::
  "'e flux_ops \<Rightarrow> dyad_metadata \<Rightarrow> size_t \<Rightarrow> size_t \<Rightarrow> ('e, 'x, dyad_rc \<times> bytes option \<times> nat) dio" where
  "dyad_get_data_range F mdata offset len = do {
     payload \<leftarrow> dyad_dtl_flux_rpc_pack_range F (fpath mdata) (owner_rank mdata) offset len;
     r \<leftarrow> request_data F DYAD_DTL_RPC_RANGE_NAME (owner_rank mdata) payload;
     end_of_stream F r }"

section \<open>Storing the data\<close>

text \<open>\<^verbatim>\<open>S_IRWXU | S_IRWXG | S_IROTH | S_IXOTH | S_ISGID\<close>.\<close>

definition DIR_MODE :: nat where "DIR_MODE = 1533"

text \<open>The loop for data of a GiB and more. \<open>Some None\<close> is the jump out of it after a write of nothing.\<close>

fun store_loop :: "nat \<Rightarrow> int \<Rightarrow> bytes \<Rightarrow> int \<Rightarrow> ('x, int option option) io" where
  "store_loop 0 fd file_data written_data = State_Monad.return None"
| "store_loop (Suc fuel) fd file_data written_data =
     (if \<not> written_data < int (length file_data) then State_Monad.return (Some (Some written_data))
      else if written_data < 0 then State_Monad.return None
      else do {
        let left = int (length file_data) - written_data;
        let written_size = (if left > int TRANSFER_GRANULARITY then int TRANSFER_GRANULARITY else left);
        n \<leftarrow> sys_write fd (take (nat written_size) (drop (nat written_data) file_data));
        if n = 0 then State_Monad.return (Some None)
        else store_loop fuel fd file_data (written_data + n) })"

definition cons_file_path :: "dyad_ctx \<Rightarrow> string \<Rightarrow> string" where
  "cons_file_path c path =
     (let dir = copy_path (the (cons_managed_path c)) in
      case concat_str True dir path ''/'' PATH_MAX of None \<Rightarrow> dir | Some p \<Rightarrow> p)"

text \<open>Writing the data; the code at the label \<^verbatim>\<open>pull_done\<close>.\<close>

definition store_data :: "nat \<Rightarrow> int \<Rightarrow> bytes \<Rightarrow> ('x, dyad_rc option) io" where
  "store_data fuel fd file_data =
     (if length file_data < TRANSFER_GRANULARITY then do {
        written_len \<leftarrow> sys_write fd file_data;
        State_Monad.return (Some (if written_len \<noteq> int (length file_data) then RC_BADFIO else RC_OK)) }
      else do {
        r \<leftarrow> store_loop fuel fd file_data 0;
        State_Monad.return
          (case r of
             None \<Rightarrow> None
           | Some None \<Rightarrow> Some RC_OK
           | Some (Some written_len) \<Rightarrow>
               Some (if written_len \<noteq> int (length file_data) then RC_BADFIO else RC_OK)) })"

definition dyad_cons_store ::
  "nat \<Rightarrow> dyad_metadata \<Rightarrow> int \<Rightarrow> bytes \<Rightarrow> ('e, 'x, dyad_rc option) dio" where
  "dyad_cons_store fuel mdata fd file_data = do {
     c \<leftarrow> the_ctx;
     let odir = dirname (cons_file_path c (fpath mdata));
     made \<leftarrow> (if \<not> strncmp_eq odir ''.'' 1 then mkdir_as_needed fuel (Some odir) DIR_MODE
              else State_Monad.return (Some 0));
     case made of
       None \<Rightarrow> State_Monad.return None
     | Some r \<Rightarrow> do {
         rc \<leftarrow> (if r < 0 then State_Monad.return (Some RC_BADFIO) else store_data fuel fd file_data);
         case rc of
           None \<Rightarrow> State_Monad.return None
         | Some rc \<Rightarrow> do { report_check rc; State_Monad.return (Some rc) } } }"

section \<open>Consuming\<close>

text \<open>The labels \<^verbatim>\<open>consume_close\<close> and \<^verbatim>\<open>consume_done\<close> of \<^verbatim>\<open>dyad_consume\<close>.\<close>

definition consume_close :: "dyad_rc \<Rightarrow> ('e, 'x, dyad_rc option) dio" where
  "consume_close rc = do {
     c \<leftarrow> get_cell;
     if c = None then State_Monad.return None
     else do { upd_ctx (\<lambda>c. c\<lparr>reenter := True\<rparr>); State_Monad.return (Some rc) } }"

definition give_back :: "bytes option \<Rightarrow> ('e, 'x, unit) dio" where
  "give_back file_data =
     (if file_data \<noteq> None
      then do { _ \<leftarrow> dyad_dtl_flux_return_buffer (Some file_data); State_Monad.return () }
      else State_Monad.return ())"

definition consume_done :: "int \<Rightarrow> dyad_rc \<Rightarrow> bytes option \<Rightarrow> ('e, 'x, dyad_rc option) dio" where
  "consume_done lock_fd rc file_data = do {
     r \<leftarrow> sys_close lock_fd;
     give_back file_data;
     consume_close (if r \<noteq> 0 then RC_BADFIO else rc) }"

text \<open>How a stretch of code is left: by one of the jumps, or by falling through.\<close>

datatype leave = To_done dyad_rc "bytes option" | To_close dyad_rc | Falls "bytes option" | Undefined

text \<open>
  Fetching and storing under the lock, common to \<^verbatim>\<open>dyad_consume\<close> and \<^verbatim>\<open>dyad_consume_w_metadata\<close>;
  after a failed store the latter releases the lock through the descriptor it has closed
  (\<open>through_io\<close>).
\<close>

definition fetch_and_store ::
  "'e flux_ops \<Rightarrow> nat \<Rightarrow> bool \<Rightarrow> string \<Rightarrow> dyad_metadata \<Rightarrow> int \<Rightarrow> ('e, 'x, leave) dio" where
  "fetch_and_store F fuel through_io fname mdata lock_fd = do {
     (rc, file_data, data_len) \<leftarrow> dyad_get_data F mdata;
     if is_error rc then do {
       _ \<leftarrow> dyad_release_flock lock_fd True;
       State_Monad.return (To_done rc file_data) }
     else do {
       io_fd \<leftarrow> sys_open fname O_WRONLY 0;
       if io_fd = - 1 then State_Monad.return (To_close RC_BADFIO)
       else do {
         rc \<leftarrow> dyad_cons_store fuel mdata io_fd (the file_data);
         case rc of
           None \<Rightarrow> State_Monad.return Undefined
         | Some rc \<Rightarrow> do {
             r \<leftarrow> sys_close io_fd;
             if r \<noteq> 0 then do {
               _ \<leftarrow> dyad_release_flock lock_fd True;
               State_Monad.return (To_done RC_BADFIO file_data) }
             else if is_error rc then do {
               _ \<leftarrow> dyad_release_flock (if through_io then io_fd else lock_fd) True;
               State_Monad.return (To_done rc file_data) }
             else State_Monad.return (Falls file_data) } } } }"

text \<open>The two branches of \<^verbatim>\<open>dyad_consume\<close> once the file is open and locked.\<close>

definition consume_shared :: "'e flux_ops \<Rightarrow> string \<Rightarrow> string \<Rightarrow> int \<Rightarrow> int \<Rightarrow> ('e, 'x, leave) dio" where
  "consume_shared F fname upath lock_fd file_size = do {
     _ \<leftarrow> dyad_release_flock lock_fd True;
     c \<leftarrow> the_ctx;
     if \<not> use_fs_locks c \<or> file_size \<le> 0 then do {
       r \<leftarrow> dyad_fetch_metadata F fname upath;
       State_Monad.return
         (case r of
            None \<Rightarrow> Undefined
          | Some (rc, mdata) \<Rightarrow> if is_error rc then To_done rc None else Falls None) }
     else State_Monad.return (Falls None) }"

definition consume_private ::
  "'e flux_ops \<Rightarrow> nat \<Rightarrow> string \<Rightarrow> string \<Rightarrow> int \<Rightarrow> int \<Rightarrow> ('e, 'x, leave) dio" where
  "consume_private F fuel fname upath lock_fd file_size = do {
     c \<leftarrow> the_ctx;
     l \<leftarrow> (if \<not> use_fs_locks c \<or> file_size \<le> 0 then do {
             r \<leftarrow> dyad_fetch_metadata F fname upath;
             case r of
               None \<Rightarrow> State_Monad.return Undefined
             | Some (rc, mdata) \<Rightarrow>
                 if is_error rc then do {
                   _ \<leftarrow> dyad_release_flock lock_fd True;
                   State_Monad.return (To_done rc None) }
                 else (case mdata of
                         None \<Rightarrow> do {
                           _ \<leftarrow> dyad_release_flock lock_fd True;
                           State_Monad.return (To_done RC_OK None) }
                       | Some md \<Rightarrow> fetch_and_store F fuel False fname md lock_fd) }
           else State_Monad.return (Falls None));
     case l of
       Falls file_data \<Rightarrow> do {
         _ \<leftarrow> dyad_release_flock lock_fd True;
         c \<leftarrow> get_cell;
         _ \<leftarrow> dyad_cache_maybe_evict c (cons_managed_path (the c));
         State_Monad.return l }
     | _ \<Rightarrow> State_Monad.return l }"

definition consume_managed :: "'e flux_ops \<Rightarrow> nat \<Rightarrow> string \<Rightarrow> string \<Rightarrow> ('e, 'x, dyad_rc option) dio" where
  "consume_managed F fuel fname upath = do {
     upd_ctx (\<lambda>c. c\<lparr>reenter := False\<rparr>);
     lock_fd \<leftarrow> sys_open fname (O_RDWR OR O_CREAT) 438;
     if lock_fd = - 1 then consume_close RC_BADFIO
     else do {
       rc \<leftarrow> dyad_excl_flock lock_fd True;
       if is_error rc then do {
         _ \<leftarrow> dyad_release_flock lock_fd True;
         consume_done lock_fd rc None }
       else do {
         file_size \<leftarrow> get_file_size lock_fd;
         c \<leftarrow> the_ctx;
         l \<leftarrow> (if shared_storage c then consume_shared F fname upath lock_fd file_size
               else consume_private F fuel fname upath lock_fd file_size);
         case l of
           Undefined \<Rightarrow> State_Monad.return None
         | To_close rc \<Rightarrow> consume_close rc
         | To_done rc file_data \<Rightarrow> consume_done lock_fd rc file_data
         | Falls file_data \<Rightarrow> consume_done lock_fd RC_OK file_data } } }"

definition dyad_consume :: "'e flux_ops \<Rightarrow> nat \<Rightarrow> string \<Rightarrow> ('e, 'x, dyad_rc option) dio" where
  "dyad_consume F fuel fname = do {
     c \<leftarrow> get_cell;
     case c of
       None \<Rightarrow> consume_close RC_NOCTX
     | Some c \<Rightarrow>
         if ctx_h c = None then consume_close RC_NOCTX
         else if cons_managed_path c = None then consume_close RC_BADMANAGEDPATH
         else do {
           upath \<leftarrow> managed_upath False fname;
           case upath of
             Null_deref \<Rightarrow> State_Monad.return None
           | No_match \<Rightarrow> consume_close RC_OK
           | Match upath \<Rightarrow> consume_managed F fuel fname upath } }"

section \<open>Consuming with metadata at hand\<close>

text \<open>Here \<^verbatim>\<open>consume_done\<close> does not close the descriptor, and success closes it before.\<close>

definition w_metadata_done :: "dyad_rc \<Rightarrow> bytes option \<Rightarrow> ('e, 'x, dyad_rc option) dio" where
  "w_metadata_done rc file_data = do { give_back file_data; consume_close rc }"

definition dyad_consume_w_metadata ::
  "'e flux_ops \<Rightarrow> nat \<Rightarrow> string \<Rightarrow> dyad_metadata option \<Rightarrow> ('e, 'x, dyad_rc option) dio" where
  "dyad_consume_w_metadata F fuel fname mdata = do {
     c \<leftarrow> get_cell;
     case c of
       None \<Rightarrow> consume_close RC_NOCTX
     | Some c \<Rightarrow>
         if ctx_h c = None then consume_close RC_NOCTX
         else (case mdata of
             None \<Rightarrow> consume_close RC_OK
           | Some md \<Rightarrow>
               if cons_managed_path c = None then consume_close RC_BADMANAGEDPATH
               else do {
                 upd_ctx (\<lambda>c. c\<lparr>reenter := False\<rparr>);
                 lock_fd \<leftarrow> sys_open fname (O_RDWR OR O_CREAT) 438;
                 if lock_fd = - 1 then consume_close RC_BADFIO
                 else do {
                   rc \<leftarrow> dyad_excl_flock lock_fd True;
                   if is_error rc then do {
                     _ \<leftarrow> dyad_release_flock lock_fd True;
                     consume_close rc }
                   else do {
                     file_size \<leftarrow> get_file_size lock_fd;
                     l \<leftarrow> (if file_size \<le> 0 then fetch_and_store F fuel True fname md lock_fd
                           else State_Monad.return (Falls None));
                     case l of
                       Undefined \<Rightarrow> State_Monad.return None
                     | To_close rc \<Rightarrow> consume_close rc
                     | To_done rc file_data \<Rightarrow> w_metadata_done rc file_data
                     | Falls file_data \<Rightarrow> do {
                         _ \<leftarrow> dyad_release_flock lock_fd True;
                         c \<leftarrow> get_cell;
                         _ \<leftarrow> dyad_cache_maybe_evict c (cons_managed_path (the c));
                         r \<leftarrow> sys_close lock_fd;
                         w_metadata_done (if r \<noteq> 0 then RC_BADFIO else RC_OK) file_data } } } }) }"

section \<open>Consuming a range\<close>

text \<open>The local copy, filled from the origin first when there is one. The data is the third component.\<close>

definition read_local_range ::
  "string \<Rightarrow> size_t \<Rightarrow> size_t \<Rightarrow> ('x, dyad_rc \<times> bytes option) io" where
  "read_local_range fullpath offset len = do {
     fd \<leftarrow> sys_open fullpath O_RDONLY 0;
     if fd = - 1 then State_Monad.return (RC_BADFIO, None)
     else do {
       rc \<leftarrow> dyad_shared_flock fd True;
       if is_error rc then do { _ \<leftarrow> sys_close fd; State_Monad.return (rc, None) }
       else do {
         ok \<leftarrow> sys_malloc;
         if \<not> ok then do {
           _ \<leftarrow> dyad_release_flock fd True;
           _ \<leftarrow> sys_close fd;
           State_Monad.return (RC_SYSFAIL, None) }
         else do {
           (nread, d) \<leftarrow> sys_pread_at fd (unat len) offset;
           _ \<leftarrow> dyad_release_flock fd True;
           _ \<leftarrow> sys_close fd;
           State_Monad.return
             (if nread < 0 \<or> nread \<noteq> int (unat len) then (RC_BADFIO, None) else (RC_OK, Some d)) } } } }"

definition consume_local_range ::
  "dyad_ctx \<Rightarrow> string \<Rightarrow> size_t \<Rightarrow> size_t \<Rightarrow> ('e, 'x, (dyad_rc \<times> bytes option) option) dio" where
  "consume_local_range c upath offset len =
     (let fullpath = cons_file_path c upath in do {
        rc \<leftarrow> (case origin_path c of
                 None \<Rightarrow> State_Monad.return (Some RC_OK)
               | Some org \<Rightarrow>
                   let dir = copy_path org;
                       origin_fullpath = (case concat_str True dir upath ''/'' PATH_MAX of
                                            None \<Rightarrow> dir | Some p \<Rightarrow> p)
                   in dyad_range_cache_ensure fullpath (Some origin_fullpath) offset len);
        case rc of
          None \<Rightarrow> State_Monad.return None
        | Some rc \<Rightarrow>
            if is_error rc then State_Monad.return (Some (rc, None))
            else do { r \<leftarrow> read_local_range fullpath offset len; State_Monad.return (Some r) } })"

definition range_close ::
  "(dyad_rc \<times> bytes option) option \<Rightarrow> ('e, 'x, (dyad_rc \<times> bytes option) option) dio" where
  "range_close result = do {
     c \<leftarrow> get_cell;
     if c = None then State_Monad.return None
     else do { upd_ctx (\<lambda>c. c\<lparr>reenter := True\<rparr>); State_Monad.return result } }"

definition dyad_consume_range ::
  "'e flux_ops \<Rightarrow> string \<Rightarrow> size_t \<Rightarrow> size_t \<Rightarrow> ('e, 'x, (dyad_rc \<times> bytes option) option) dio" where
  "dyad_consume_range F fname offset len = do {
     c \<leftarrow> get_cell;
     case c of
       None \<Rightarrow> range_close (Some (RC_NOCTX, None))
     | Some c \<Rightarrow>
         if ctx_h c = None then range_close (Some (RC_NOCTX, None))
         else if cons_managed_path c = None then range_close (Some (RC_BADMANAGEDPATH, None))
         else if (case dtl_handle c of None \<Rightarrow> True | Some d \<Rightarrow> dtl_mode d = DTL_UCX)
         then range_close (Some (RC_BADDTLMODE, None))
         else do {
           upath \<leftarrow> managed_upath False fname;
           case upath of
             Null_deref \<Rightarrow> State_Monad.return None
           | No_match \<Rightarrow> range_close (Some (RC_BADMANAGEDPATH, None))
           | Match upath \<Rightarrow> do {
               upd_ctx (\<lambda>c. c\<lparr>reenter := False\<rparr>);
               r \<leftarrow> dyad_fetch_metadata F fname upath;
               case r of
                 None \<Rightarrow> State_Monad.return None
               | Some (rc, mdata) \<Rightarrow>
                   if is_error rc then range_close (Some (rc, None))
                   else (case mdata of
                       None \<Rightarrow> do {
                         c \<leftarrow> the_ctx;
                         r \<leftarrow> consume_local_range c upath offset len;
                         (case r of None \<Rightarrow> State_Monad.return None | Some _ \<Rightarrow> range_close r) }
                     | Some md \<Rightarrow> do {
                         (rc, data, data_len) \<leftarrow> dyad_get_data_range F md offset len;
                         range_close (Some (rc, data)) }) } } }"

section \<open>Flushing a directory\<close>

definition dyad_sync_directory :: "string \<Rightarrow> ('e, 'x, int option) dio" where
  "dyad_sync_directory path = do {
     let odir = dirname (take PATH_MAX path);
     c \<leftarrow> get_cell;
     case c of
       None \<Rightarrow> State_Monad.return None
     | Some c \<Rightarrow> do {
         upd_ctx (\<lambda>c. c\<lparr>reenter := False\<rparr>);
         odir_fd \<leftarrow> sys_open odir O_RDONLY 0;
         rc \<leftarrow> (if odir_fd < 0 then State_Monad.return (- 1)
               else do {
                 r \<leftarrow> sys_fsync odir_fd;
                 r' \<leftarrow> sys_close odir_fd;
                 State_Monad.return (if r < 0 \<or> r' < 0 then - 1 else 0) });
         upd_ctx (\<lambda>c'. c'\<lparr>reenter := reenter c\<rparr>);
         State_Monad.return (Some rc) } }"

end
