(* ===== verification/Wrapper.thy ===== *)
theory Wrapper
  imports Client
begin

text \<open>
  The intercepted library calls, \<^verbatim>\<open>src/dyad/wrapper/wrapper.c\<close>. \<open>wrappee\<close> tells whether GOTCHA, which
  is not part of the repository, hands out the address of the real function. A \<^verbatim>\<open>FILE\<close> is a stream
  of the world: a descriptor and the bytes still in its buffer. A result of \<open>None\<close> is
  undefined behaviour, as in the client. The file pointers and descriptors of a thread other than
  the one that loaded the library are not intercepted by the code (its context is \<^verbatim>\<open>NULL\<close> there).
\<close>

section \<open>Streams and descriptor flags\<close>

definition fopen_flags :: "string \<Rightarrow> oflag option" where
  "fopen_flags mode =
     (if mode = ''r'' then Some O_RDONLY
      else if mode = ''w'' then Some (O_WRONLY OR O_CREAT OR O_TRUNC)
      else if mode = ''a'' then Some (O_WRONLY OR O_CREAT OR O_APPEND)
      else if mode = ''r+'' then Some O_RDWR
      else if mode = ''w+'' then Some (O_RDWR OR O_CREAT OR O_TRUNC)
      else if mode = ''a+'' then Some (O_RDWR OR O_CREAT OR O_APPEND)
      else None)"

definition sys_fopen :: "string \<Rightarrow> string \<Rightarrow> ('e, 'x, nat option) dio" where
  "sys_fopen path mode =
     (case fopen_flags mode of
        None \<Rightarrow> do { set_errno EINVAL; State_Monad.return None }
      | Some flags \<Rightarrow> do {
          fd \<leftarrow> sys_open path flags 438;
          if fd < 0 then State_Monad.return None
          else State (\<lambda>w. (Some (next_stream w),
                 w\<lparr>streams := (streams w)(next_stream w \<mapsto> (fd, [])), next_stream := next_stream w + 1\<rparr>)) })"

definition sys_fileno :: "nat \<Rightarrow> ('e, 'x, int) dio" where
  "sys_fileno fp = State (\<lambda>w. (case streams w fp of None \<Rightarrow> - 1 | Some (fd, _) \<Rightarrow> fd, w))"

definition stream_rest :: "nat \<Rightarrow> ('e, 'x, bytes) dio" where
  "stream_rest fp = State (\<lambda>w. (case streams w fp of None \<Rightarrow> [] | Some (_, d) \<Rightarrow> d, w))"

definition set_rest :: "nat \<Rightarrow> bytes \<Rightarrow> ('e, 'x, unit) dio" where
  "set_rest fp d = State (\<lambda>w. ((), w\<lparr>streams := (case streams w fp of None \<Rightarrow> streams w
      | Some (fd, _) \<Rightarrow> (streams w)(fp \<mapsto> (fd, d)))\<rparr>))"

text \<open>Writing out the buffer: \<open>0\<close>, or \<open>-1\<close> when not everything could be written.\<close>

definition sys_fflush :: "nat \<Rightarrow> ('e, 'x, int) dio" where
  "sys_fflush fp = do {
     fd \<leftarrow> sys_fileno fp;
     d \<leftarrow> stream_rest fp;
     if d = [] then State_Monad.return 0
     else do {
       n \<leftarrow> sys_write fd d;
       if n < 0 then State_Monad.return (- 1)
       else do {
         set_rest fp (drop (nat n) d);
         State_Monad.return (if n = int (length d) then 0 else - 1) } } }"

definition sys_fclose :: "nat \<Rightarrow> ('e, 'x, int) dio" where
  "sys_fclose fp = do {
     r \<leftarrow> sys_fflush fp;
     fd \<leftarrow> sys_fileno fp;
     r' \<leftarrow> sys_close fd;
     State (\<lambda>w. ((), w\<lparr>streams := (streams w)(fp := None)\<rparr>));
     State_Monad.return (if r = 0 \<and> r' = 0 then 0 else - 1) }"

text \<open>The access mode \<^verbatim>\<open>fcntl (fd, F_GETFL)\<close> reports.\<close>

definition sys_getfl :: "int \<Rightarrow> ('x, int) io" where
  "sys_getfl fd = syscall (\<lambda>flt w. case flt of Err e \<Rightarrow> fail e w | _ \<Rightarrow>
     (case inode_of_fd w fd of
        None \<Rightarrow> fail EBADF w
      | Some (f, i) \<Rightarrow> (if o_rd f \<and> o_wr f then 2 else if o_wr f then 1 else 0, w)))"

definition is_wronly :: "int \<Rightarrow> ('x, int) io" where
  "is_wronly fd = do {
     rc \<leftarrow> sys_getfl fd;
     State_Monad.return (if rc = - 1 then - 1 else if rc = 1 then 1 else 0) }"

section \<open>Opening\<close>

text \<open>The context is usable and this call does not come from DYAD itself.\<close>

definition sync_applies :: "dyad_ctx option \<Rightarrow> bool" where
  "sync_applies c = (case c of None \<Rightarrow> False | Some c \<Rightarrow> ctx_h c \<noteq> None \<and> reenter c)"

text \<open>Consuming before the real call; \<open>False\<close> stands for an undefined outcome.\<close>

definition consume_first :: "'e flux_ops \<Rightarrow> nat \<Rightarrow> bool \<Rightarrow> string \<Rightarrow> ('e, 'x, bool) dio" where
  "consume_first F fuel reading path =
     (if \<not> reading then State_Monad.return True
      else do {
        dir \<leftarrow> is_path_dir (Some path);
        c \<leftarrow> get_cell;
        if dir \<or> \<not> sync_applies c then State_Monad.return True
        else do {
          rc \<leftarrow> dyad_consume F fuel path;
          State_Monad.return (rc \<noteq> None) } })"

text \<open>The lock a producer takes on a file under its managed path.\<close>

definition producer_lock :: "string \<Rightarrow> int \<Rightarrow> ('e, 'x, bool) dio" where
  "producer_lock path fd = do {
     dir \<leftarrow> is_path_dir (Some path);
     if dir then State_Monad.return True
     else do {
       c \<leftarrow> get_cell;
       rp \<leftarrow> get_realpaths;
       case c of
         None \<Rightarrow> State_Monad.return False
       | Some c \<Rightarrow>
           (case (if relative_to_managed_path c \<and> \<not> strncmp_eq path PATH_DELIM (unat (delim_len c))
                  then Match path else cmp_canonical_path_prefix rp (Some c) True path PATH_MAX) of
              Null_deref \<Rightarrow> State_Monad.return False
            | No_match \<Rightarrow> State_Monad.return True
            | Match _ \<Rightarrow> do {
                rc \<leftarrow> dyad_excl_flock fd True;
                (if is_error rc
                 then do { _ \<leftarrow> dyad_release_flock fd True; State_Monad.return () }
                 else State_Monad.return ());
                State_Monad.return True }) } }"

text \<open>The variadic argument is \<open>mode_arg\<close>; it is read only with \<^verbatim>\<open>O_CREAT\<close>.\<close>

definition dyad_open_wrapper ::
  "'e flux_ops \<Rightarrow> nat \<Rightarrow> bool \<Rightarrow> string \<Rightarrow> oflag \<Rightarrow> nat \<Rightarrow> ('e, 'x, int option) dio" where
  "dyad_open_wrapper F fuel wrappee path oflag mode_arg =
     (let mode = (if oflag AND O_CREAT \<noteq> 0 then mode_arg else 0) in
      if \<not> wrappee then do { set_errno ENOSYS; State_Monad.return (Some (- 1)) }
      else do {
        ok \<leftarrow> consume_first F fuel (mode = unat O_RDONLY) path;
        if \<not> ok then State_Monad.return None
        else do {
          ret \<leftarrow> sys_open path oflag mode;
          if ret > 0 \<and> (mode = unat O_WRONLY \<or> mode = unat O_APPEND)
          then do {
            ok \<leftarrow> producer_lock path ret;
            State_Monad.return (if ok then Some ret else None) }
          else State_Monad.return (Some ret) } })"

definition dyad_open64_wrapper ::
  "'e flux_ops \<Rightarrow> nat \<Rightarrow> bool \<Rightarrow> string \<Rightarrow> oflag \<Rightarrow> nat \<Rightarrow> ('e, 'x, int option) dio" where
  "dyad_open64_wrapper F fuel wrappee path oflag mode_arg =
     (let mode = (if oflag AND O_CREAT \<noteq> 0 then mode_arg else 0) in
      if \<not> wrappee then do { set_errno ENOSYS; State_Monad.return (Some (- 1)) }
      else do {
        ok \<leftarrow> consume_first F fuel (mode = unat O_RDONLY) path;
        if \<not> ok then State_Monad.return None
        else do {
          ret \<leftarrow> sys_open path oflag mode;
          if ret > 0 \<and> (mode = unat O_WRONLY \<or> mode = unat O_APPEND)
          then do {
            ok \<leftarrow> producer_lock path ret;
            State_Monad.return (if ok then Some ret else None) }
          else State_Monad.return (Some ret) } })"

text \<open>A stream is \<open>None\<close> when the result is \<^verbatim>\<open>NULL\<close>.\<close>

definition dyad_fopen_wrapper ::
  "'e flux_ops \<Rightarrow> nat \<Rightarrow> bool \<Rightarrow> string \<Rightarrow> string \<Rightarrow> ('e, 'x, nat option option) dio" where
  "dyad_fopen_wrapper F fuel wrappee path mode =
     (if \<not> wrappee then do { set_errno ENOSYS; State_Monad.return (Some None) }
      else do {
        ok \<leftarrow> consume_first F fuel (mode = ''r'') path;
        if \<not> ok then State_Monad.return None
        else do {
          fh \<leftarrow> sys_fopen path mode;
          case fh of
            None \<Rightarrow> State_Monad.return (Some None)
          | Some fp \<Rightarrow>
              if mode = ''w'' \<or> mode = ''a''
              then do {
                fd \<leftarrow> sys_fileno fp;
                ok \<leftarrow> producer_lock path fd;
                State_Monad.return (if ok then Some (Some fp) else None) }
              else State_Monad.return (Some (Some fp)) } })"

definition dyad_fopen64_wrapper ::
  "'e flux_ops \<Rightarrow> nat \<Rightarrow> bool \<Rightarrow> string \<Rightarrow> string \<Rightarrow> ('e, 'x, nat option option) dio" where
  "dyad_fopen64_wrapper F fuel wrappee path mode =
     (if \<not> wrappee then do { set_errno ENOSYS; State_Monad.return (Some None) }
      else do {
        ok \<leftarrow> consume_first F fuel (mode = ''r'') path;
        if \<not> ok then State_Monad.return None
        else do {
          fh \<leftarrow> sys_fopen path mode;
          case fh of
            None \<Rightarrow> State_Monad.return (Some None)
          | Some fp \<Rightarrow>
              if mode = ''w'' \<or> mode = ''a''
              then do {
                fd \<leftarrow> sys_fileno fp;
                ok \<leftarrow> producer_lock path fd;
                State_Monad.return (if ok then Some (Some fp) else None) }
              else State_Monad.return (Some (Some fp)) } })"

section \<open>Closing\<close>

text \<open>The path of a descriptor that is to be published, \<open>None\<close> when the call is passed through.\<close>

definition to_sync :: "int \<Rightarrow> ('e, 'x, string option) dio" where
  "to_sync fd = do {
     dir \<leftarrow> is_fd_dir fd;
     if dir then State_Monad.return None
     else do {
       (r, path) \<leftarrow> get_path fd (PATH_MAX - 1);
       State_Monad.return (if r < 0 then None else Some path) } }"

definition produce_after :: "'e flux_ops \<Rightarrow> string \<Rightarrow> int \<Rightarrow> ('e, 'x, int option) dio" where
  "produce_after F path rc = do {
     r \<leftarrow> dyad_produce F path;
     State_Monad.return (if r = None then None else Some rc) }"

definition dyad_close_wrapper :: "'e flux_ops \<Rightarrow> bool \<Rightarrow> int \<Rightarrow> ('e, 'x, int option) dio" where
  "dyad_close_wrapper F wrappee fd =
     (if \<not> wrappee then do { set_errno ENOSYS; State_Monad.return (Some (- 1)) }
      else do {
        c \<leftarrow> get_cell;
        path \<leftarrow> (if fd < 0 \<or> \<not> sync_applies c then State_Monad.return None else to_sync fd);
        wronly \<leftarrow> is_wronly fd;
        case path of
          Some path \<Rightarrow>
            if wronly = 1 then do {
              (if fsync_write (the c) then do {
                 _ \<leftarrow> sys_fsync fd;
                 (if DYAD_SYNC_DIR then do { _ \<leftarrow> dyad_sync_directory path; State_Monad.return () }
                  else State_Monad.return ()) }
               else State_Monad.return ());
              _ \<leftarrow> dyad_release_flock fd True;
              rc \<leftarrow> sys_close fd;
              produce_after F path rc }
            else do { rc \<leftarrow> sys_close fd; State_Monad.return (Some rc) }
        | None \<Rightarrow> do { rc \<leftarrow> sys_close fd; State_Monad.return (Some rc) } })"

definition dyad_close64_wrapper :: "'e flux_ops \<Rightarrow> bool \<Rightarrow> int \<Rightarrow> ('e, 'x, int option) dio" where
  "dyad_close64_wrapper F wrappee fd =
     (if \<not> wrappee then do { set_errno ENOSYS; State_Monad.return (Some (- 1)) }
      else do {
        c \<leftarrow> get_cell;
        path \<leftarrow> (if fd < 0 \<or> \<not> sync_applies c then State_Monad.return None else to_sync fd);
        wronly \<leftarrow> is_wronly fd;
        case path of
          Some path \<Rightarrow>
            if wronly = 1 then do {
              (if fsync_write (the c) then do {
                 _ \<leftarrow> sys_fsync fd;
                 (if DYAD_SYNC_DIR then do { _ \<leftarrow> dyad_sync_directory path; State_Monad.return () }
                  else State_Monad.return ()) }
               else State_Monad.return ());
              _ \<leftarrow> dyad_release_flock fd True;
              rc \<leftarrow> sys_close fd;
              produce_after F path rc }
            else do { rc \<leftarrow> sys_close fd; State_Monad.return (Some rc) }
        | None \<Rightarrow> do { rc \<leftarrow> sys_close fd; State_Monad.return (Some rc) } })"

text \<open>\<^verbatim>\<open>fileno\<close> of a \<^verbatim>\<open>NULL\<close> stream has no defined outcome.\<close>

definition fclose_prepare :: "nat \<Rightarrow> int \<Rightarrow> string \<Rightarrow> dyad_ctx \<Rightarrow> ('e, 'x, unit) dio" where
  "fclose_prepare fp fd path c = do {
     (if fsync_write c then do {
        _ \<leftarrow> sys_fflush fp;
        _ \<leftarrow> sys_fsync fd;
        (if DYAD_SYNC_DIR then do { _ \<leftarrow> dyad_sync_directory path; State_Monad.return () }
         else State_Monad.return ()) }
      else State_Monad.return ());
     _ \<leftarrow> dyad_release_flock fd True;
     State_Monad.return () }"

definition dyad_fclose_wrapper :: "'e flux_ops \<Rightarrow> bool \<Rightarrow> nat option \<Rightarrow> ('e, 'x, int option) dio" where
  "dyad_fclose_wrapper F wrappee fp_opt =
     (if \<not> wrappee then do { set_errno ENOSYS; State_Monad.return (Some (- 1)) }
      else
        case fp_opt of
          None \<Rightarrow> State_Monad.return None
        | Some fp \<Rightarrow> do {
            c \<leftarrow> get_cell;
            fd \<leftarrow> sys_fileno fp;
            path \<leftarrow> (if \<not> sync_applies c then State_Monad.return None else to_sync fd);
            wronly \<leftarrow> is_wronly fd;
            case path of
              Some path \<Rightarrow>
                if wronly = 1 then do {
                  fclose_prepare fp fd path (the c);
                  rc \<leftarrow> sys_fclose fp;
                  produce_after F path rc }
                else do { rc \<leftarrow> sys_fclose fp; State_Monad.return (Some rc) }
            | None \<Rightarrow> do { rc \<leftarrow> sys_fclose fp; State_Monad.return (Some rc) } })"

definition dyad_fclose64_wrapper :: "'e flux_ops \<Rightarrow> bool \<Rightarrow> nat option \<Rightarrow> ('e, 'x, int option) dio" where
  "dyad_fclose64_wrapper F wrappee fp_opt =
     (if \<not> wrappee then do { set_errno ENOSYS; State_Monad.return (Some (- 1)) }
      else
        case fp_opt of
          None \<Rightarrow> State_Monad.return None
        | Some fp \<Rightarrow> do {
            c \<leftarrow> get_cell;
            fd \<leftarrow> sys_fileno fp;
            path \<leftarrow> (if \<not> sync_applies c then State_Monad.return None else to_sync fd);
            wronly \<leftarrow> is_wronly fd;
            case path of
              Some path \<Rightarrow>
                if wronly = 1 then do {
                  fclose_prepare fp fd path (the c);
                  rc \<leftarrow> sys_fclose fp;
                  produce_after F path rc }
                else do { rc \<leftarrow> sys_fclose fp; State_Monad.return (Some rc) }
            | None \<Rightarrow> do { rc \<leftarrow> sys_fclose fp; State_Monad.return (Some rc) } })"

section \<open>Loading and unloading the library\<close>

definition dyad_wrapper_init :: "'e flux_ops \<Rightarrow> ('e, 'x, unit option) dio" where
  "dyad_wrapper_init F = do {
     r \<leftarrow> dyad_ctx_init F COMM_RECV None;
     case r of
       None \<Rightarrow> State_Monad.return None
     | Some _ \<Rightarrow> do {
         c \<leftarrow> get_cell;
         if c = None then State_Monad.return None
         else do {
           upd_ctx (\<lambda>c. c\<lparr>use_fs_locks := True\<rparr>);
           State_Monad.return (Some ()) } } }"

definition dyad_wrapper_fini :: "'e flux_ops \<Rightarrow> ('e, 'x, unit) dio" where
  "dyad_wrapper_fini F = dyad_ctx_fini F"

end
