(* ===== verification/Frames.thy ===== *)
theory Frames
  imports Cache_Evict Range_Cache Flux_Dtl
begin

text \<open>
  What the POSIX part of the code leaves alone: every system call, and everything built from
  them, works on the POSIX world only, so the context, the environment, the streams and the state
  of Flux stay as they are. In the other direction, calls to Flux leave the file system alone.
\<close>

section \<open>Operations of the POSIX world\<close>

definition posix_only :: "('x, 'a) io \<Rightarrow> bool" where
  "posix_only m \<longleftrightarrow> (\<forall>w. wp m (\<lambda>_ w'. world.more w' = world.more w) w)"

named_theorems posix "operations of the POSIX world"

lemma posix_onlyD: "posix_only m \<Longrightarrow> wp m (\<lambda>_ w'. world.more w' = world.more w) w"
  by (simp add: posix_only_def)

lemma posix_return [posix]: "posix_only (State_Monad.return x)"
  by (simp add: posix_only_def)

lemma posix_bind [posix]: "posix_only m \<Longrightarrow> (\<And>a. posix_only (f a)) \<Longrightarrow> posix_only (m \<bind> f)"
  unfolding posix_only_def wp_bind by (metis (mono_tags, lifting) wp_mono)

lemma posix_If [posix]: "(b \<Longrightarrow> posix_only m) \<Longrightarrow> (\<not> b \<Longrightarrow> posix_only m') \<Longrightarrow> posix_only (if b then m else m')"
  by simp

lemma posix_Let [posix]: "(\<And>x. posix_only (f x)) \<Longrightarrow> posix_only (let x = e in f x)"
  by simp

lemma posix_case_option [posix]:
  "(x = None \<Longrightarrow> posix_only m) \<Longrightarrow> (\<And>y. x = Some y \<Longrightarrow> posix_only (f y))
   \<Longrightarrow> posix_only (case x of None \<Rightarrow> m | Some y \<Rightarrow> f y)"
  by (cases x) simp_all

lemma posix_case_prod [posix]:
  "(\<And>a b. x = (a, b) \<Longrightarrow> posix_only (f a b)) \<Longrightarrow> posix_only (case x of (a, b) \<Rightarrow> f a b)"
  by (cases x) simp

lemma posix_case_sum [posix]:
  "(\<And>a. x = Inl a \<Longrightarrow> posix_only (f a)) \<Longrightarrow> (\<And>b. x = Inr b \<Longrightarrow> posix_only (g b))
   \<Longrightarrow> posix_only (case x of Inl a \<Rightarrow> f a | Inr b \<Rightarrow> g b)"
  by (cases x) simp_all

lemma posix_case_bool [posix]:
  "(x \<Longrightarrow> posix_only m) \<Longrightarrow> (\<not> x \<Longrightarrow> posix_only m') \<Longrightarrow> posix_only (case x of True \<Rightarrow> m | False \<Rightarrow> m')"
  by (cases x) simp_all

lemma posix_State:
  assumes "\<And>w. world.more (snd (f w)) = world.more w"
  shows "posix_only (State f)"
proof -
  have "world.more w' = world.more w" if "f w = (a, w')" for a w w'
    using assms [of w] that by simp
  then show ?thesis by (simp add: posix_only_def wp_State split: prod.split)
qed

lemma posix_syscall:
  assumes "\<And>flt w. world.more (snd (f flt w)) = world.more w"
  shows "posix_only (syscall f)"
proof -
  have *: "world.more w' = world.more w" if "f flt w = (a, w')" for flt a w w'
    using assms [of flt w] that by simp
  have "world.more w' = world.more w" if "f flt (w\<lparr>faults := xs\<rparr>) = (a, w')" for flt a w w' xs
    using * [OF that] by simp
  with * show ?thesis by (simp add: posix_only_def wp_syscall split: list.split prod.split)
qed

lemma more_parts [simp]: "world.more (set_data n d w) = world.more w"
  "world.more (set_off fd k w) = world.more w" "world.more (drop_fd fd w) = world.more w"
  "world.more (set_lock n l w) = world.more w" "world.more (new_file p i w) = world.more w"
  "world.more (snd (new_fd n p fl w)) = world.more w"
  by (simp_all add: set_data_def set_off_def drop_fd_def set_lock_def new_file_def new_fd_def
      split: option.split)

lemma posix_sys [posix]: "posix_only sys_malloc" "posix_only (sys_open p fl m)"
  "posix_only (sys_close fd)" "posix_only (sys_read fd n)" "posix_only (sys_pread fd n off)"
  "posix_only (sys_write fd d)" "posix_only (sys_pwrite fd d off)" "posix_only (sys_ftruncate fd n)"
  "posix_only (sys_stat p)" "posix_only (sys_fstat fd)" "posix_only (sys_mkdir p m)"
  "posix_only (sys_unlink p)" "posix_only (sys_fsync fd)" "posix_only (sys_setlkw fd k)"
  "posix_only (sys_setlk fd k)" "posix_only (sys_unlock fd)" "posix_only (sys_readlink_fd fd n)"
  "posix_only (sys_readdir p)"
  unfolding sys_malloc_def sys_open_def sys_close_def sys_read_def sys_pread_def sys_write_def
    sys_pwrite_def sys_ftruncate_def sys_stat_def sys_fstat_def sys_mkdir_def sys_unlink_def
    sys_fsync_def sys_setlkw_def sys_setlk_def sys_unlock_def sys_readlink_fd_def sys_readdir_def
    fail_def Let_def
  by (rule posix_syscall, simp split: fault.split option.split prod.split)+

lemma posix_states [posix]: "posix_only (sys_umask m)" "posix_only get_errno"
  "posix_only (set_errno e)" "posix_only (sys_nanosleep t)" "posix_only sys_time"
  unfolding sys_umask_def get_errno_def set_errno_def sys_nanosleep_def sys_time_def
  by (rule posix_State, simp)+

lemma posix_pread_at [posix]: "posix_only (sys_pread_at fd n off)"
  unfolding sys_pread_at_def by (intro posix posix_State) simp

section \<open>Composed operations\<close>

lemma posix_mkpath [posix]: "posix_only (mkpath fuel dir m)"
  by (induction fuel dir m rule: mkpath.induct) (auto intro!: posix)

lemma posix_dirs [posix]: "posix_only (sync_containing_dir p)" "posix_only (mkdir_as_needed fuel path m)"
  unfolding sync_containing_dir_def mkdir_as_needed_def by (intro posix)+

lemma posix_attrs [posix]: "posix_only (get_path fd n)" "posix_only (is_path_dir path)"
  "posix_only (is_fd_dir fd)" "posix_only (get_file_size fd)"
  unfolding get_path_def is_path_dir_def is_fd_dir_def get_file_size_def by (intro posix)+

lemma posix_get_stat [posix]: "posix_only (get_stat p k ns)"
proof -
  have "posix_only (get_stat_loop p k ns n)" for n
    by (induction p k ns n rule: get_stat_loop.induct) (auto intro!: posix)
  then show ?thesis unfolding get_stat_def by (intro posix)
qed

lemma posix_flocks [posix]: "posix_only (dyad_excl_flock fd l)" "posix_only (dyad_try_excl_flock fd l)"
  "posix_only (dyad_shared_flock fd l)" "posix_only (dyad_release_flock fd l)"
  unfolding dyad_excl_flock_def dyad_try_excl_flock_def dyad_shared_flock_def dyad_release_flock_def
  by (intro posix)+

lemma posix_range_cache [posix]: "posix_only (dyad_range_cache_ensure p org off len)"
  unfolding dyad_range_cache_ensure_def slow_path_def fast_path_def size_files_def record_span_def
    read_bitmap_def range_cache_fetch_span_def close_if_open_def fail_locked_def
  by (intro posix)

lemma posix_scan [posix]: "posix_only (dyad_cache_scan_dir ctx p)"
proof -
  have "posix_only (scan_loop ctx p ns es k t)" for ns es k t
  proof (induction ns arbitrary: es k t)
    case (Cons n ns)
    show ?case unfolding scan_loop.simps by (intro posix Cons)
  qed (simp add: posix)
  then show ?thesis unfolding dyad_cache_scan_dir_def by (intro posix)
qed

lemma posix_evict [posix]: "posix_only (dyad_cache_maybe_evict c m)"
proof -
  have one: "posix_only (evict_one p)" for p unfolding evict_one_def by (intro posix)
  have "posix_only (evict_loop ctx low t es total_size)" for ctx low t es total_size
  proof (induction es arbitrary: total_size)
    case (Cons e es)
    show ?case unfolding evict_loop.simps by (intro posix one Cons)
  qed (simp add: posix)
  then show ?thesis
    unfolding dyad_cache_maybe_evict_def evict_locked_def by (intro posix)
qed

section \<open>Using it\<close>

text \<open>What stays as it is in a world of DYAD.\<close>

lemma more_eq_parts:
  fixes w w' :: "('e, 'x) dworld"
  assumes "world.more w' = world.more w"
  shows "cell w' = cell w" "environ w' = environ w" "realpaths w' = realpaths w"
    "self_pid w' = self_pid w" "streams w' = streams w" "flux w' = flux w"
proof -
  show "cell w' = cell w" "environ w' = environ w" "realpaths w' = realpaths w"
    "self_pid w' = self_pid w" "streams w' = streams w" "flux w' = flux w"
    using assms by (cases w; cases w'; simp)+
qed

lemma wp_posix:
  assumes "posix_only m" and "wp m Q w"
  shows "wp m (\<lambda>r w'. Q r w' \<and> world.more w' = world.more w) w"
  using wp_conj [OF assms(2) posix_onlyD [OF assms(1), of w]] .

lemma wp_posix_with:
  assumes "posix_only m" and "wp m (\<lambda>a w'. world.more w' = world.more w \<longrightarrow> Q a w') w"
  shows "wp m Q w"
proof (rule wp_mono [OF wp_posix [OF assms]])
  show "Q a w'" if "(world.more w' = world.more w \<longrightarrow> Q a w') \<and> world.more w' = world.more w" for a w'
    using that by iprover
qed

section \<open>Results\<close>

lemma wp_total: "(\<And>a w'. Q a w') \<Longrightarrow> wp m Q w"
  by (simp add: wp_run)

text \<open>What holds at the end of an operation, and what it may return, whatever the world.\<close>

definition ensures :: "('a \<Rightarrow> 's \<Rightarrow> bool) \<Rightarrow> ('s, 'a) state \<Rightarrow> bool" where
  "ensures Q m \<longleftrightarrow> (\<forall>w. wp m Q w)"

abbreviation returns :: "('a \<Rightarrow> bool) \<Rightarrow> ('s, 'a) state \<Rightarrow> bool" where
  "returns P \<equiv> ensures (\<lambda>r _. P r)"

named_theorems ret "rules for the results of an operation"

lemma ensures_return [ret]: "(\<And>w. Q x w) \<Longrightarrow> ensures Q (State_Monad.return x)"
  by (simp add: ensures_def)

lemma ensures_bind [ret]: "(\<And>a. ensures Q (f a)) \<Longrightarrow> ensures Q (m \<bind> f)"
  by (auto simp: ensures_def wps intro: wp_total)

lemma ensures_bind_both: "returns P m \<Longrightarrow> (\<And>a. P a \<Longrightarrow> ensures Q (f a)) \<Longrightarrow> ensures Q (m \<bind> f)"
  unfolding ensures_def wp_bind by (blast intro: wp_mono)

lemma ensures_If [ret]: "(b \<Longrightarrow> ensures Q m) \<Longrightarrow> (\<not> b \<Longrightarrow> ensures Q m') \<Longrightarrow> ensures Q (if b then m else m')"
  by simp

lemma ensures_Let [ret]: "(\<And>x. ensures Q (f x)) \<Longrightarrow> ensures Q (let x = e in f x)"
  by simp

lemma ensures_case_prod [ret]:
  "(\<And>a b. x = (a, b) \<Longrightarrow> ensures Q (f a b)) \<Longrightarrow> ensures Q (case x of (a, b) \<Rightarrow> f a b)"
  by (cases x) simp

lemma ensures_run: "ensures Q m \<Longrightarrow> run_state m w = (a, w') \<Longrightarrow> Q a w'"
  by (auto simp: ensures_def wp_def dest!: spec [of _ w])

lemma ensures_option [ret]:
  "(x = None \<Longrightarrow> ensures Q m) \<Longrightarrow> (\<And>y. x = Some y \<Longrightarrow> ensures Q (f y))
   \<Longrightarrow> ensures Q (case x of None \<Rightarrow> m | Some y \<Rightarrow> f y)"
  by (cases x) simp_all

end
