(* ===== verification/Samples.thy ===== *)
theory Samples
  imports Flux File_View Path_Utils
begin

text \<open>
  Concrete values for the witnesses: the hash of one managed path, computed round by round, and
  instances of Flux, which are obtained from one in which every call fails by giving some calls a
  meaning.
\<close>

section \<open>The hash of a managed path\<close>

lemma sample_rounds:
  "x64_round (4629771061636915503, 4629771061636907072) (104723, 104723) = (16222944113102644795, 1393625789996827218)"
  "x64_round (4629771061636907072, 4629771061636907072) (16222944113102644795, 1393625789996827218) = (2390102577150135525, 4030882986067890298)"
  "x64_round (4629771061636907072, 4629771061636907072) (2390102577150135525, 4030882986067890298) = (7297453524950159021, 17822784156459919296)"
  "x64_round (4629771061636907072, 4629771061636907072) (7297453524950159021, 17822784156459919296) = (12231499794902835850, 14178195251370655618)"
  "x64_round (4629771061636907072, 4629771061636907072) (12231499794902835850, 14178195251370655618) = (18423350717023020764, 16368574857382715098)"
  "x64_round (4629771061636907072, 4629771061636907072) (18423350717023020764, 16368574857382715098) = (5746709316848689912, 5084605883568262092)"
  "x64_round (4629771061636907072, 4629771061636907072) (5746709316848689912, 5084605883568262092) = (15450949915285272263, 782337229263986632)"
  "x64_round (4629771061636907072, 4629771061636907072) (15450949915285272263, 782337229263986632) = (5114394240994222380, 12345488550084725535)"
  by code_simp+

lemma sample_blocks:
  "map (x64_block (bytes_of_string (pad128 ''/a''))) [0..<8]
     = (4629771061636915503, 4629771061636907072) # replicate 7 (4629771061636907072, 4629771061636907072)"
  by code_simp

lemma x64_body_map: "x64_body data n h = foldl (\<lambda>h k. x64_round k h) h (map (x64_block data) [0..<n])"
  by (simp add: x64_body_def foldl_map)

lemma sample_hash: "hash_str (Some ''/a'') DYAD_SEED = 3938686373"
proof -
  have body: "x64_body (bytes_of_string (pad128 ''/a'')) 8 (104723, 104723)
     = (5114394240994222380, 12345488550084725535)"
    unfolding x64_body_map sample_blocks
    by (simp add: numeral_eq_Suc [of "num.Bit1 (num.Bit1 num.One)"] eval_nat_numeral sample_rounds)
  have final: "x64_final 128 (5114394240994222380, 12345488550084725535)
     = (7048019032221213400, 9726013428732615973)" by code_simp
  have words: "xor_words (7048019032221213400, 9726013428732615973) = 3938686372" by code_simp
  show ?thesis
    by (simp add: hash_str_def MurmurHash3_x64_128_def DYAD_SEED_def x64_tail_def body final words)
qed
section \<open>Instances of Flux\<close>

definition no_flux :: "'e flux_ops" where
  "no_flux =
     \<lparr>fx_open = (\<lambda>s. (Inl ENOSYS, s)), fx_close = (\<lambda>_ s. s), fx_get_rank = (\<lambda>_ s. (Inl ENOSYS, s)),
      fx_json_pack = (\<lambda>_ s. (Inl ENOSYS, s)), fx_rpc_pack = (\<lambda>_ _ _ _ s. (Inl ENOSYS, s)),
      fx_rpc_get = (\<lambda>_ s. (Inl ENOSYS, s)), fx_rpc_get_raw = (\<lambda>_ s. (Inl ENOSYS, s)),
      fx_future_get = (\<lambda>_ s. (Inl ENOSYS, s)), fx_future_then = (\<lambda>_ s. (Inl ENOSYS, s)),
      fx_future_wait_for = (\<lambda>_ s. (Inl ENOSYS, s)), fx_future_reset = (\<lambda>_ s. s),
      fx_future_destroy = (\<lambda>_ s. s), fx_txn_create = (\<lambda>s. (Inl ENOSYS, s)),
      fx_txn_pack = (\<lambda>_ _ _ s. (Inl ENOSYS, s)), fx_txn_destroy = (\<lambda>_ s. s),
      fx_kvs_commit = (\<lambda>_ _ _ s. (Inl ENOSYS, s)), fx_kvs_lookup = (\<lambda>_ _ _ _ s. (Inl ENOSYS, s)),
      fx_lookup_get = (\<lambda>_ s. (Inl ENOSYS, s)), fx_request_unpack = (\<lambda>_ s. (Inl ENOSYS, s)),
      fx_respond_raw = (\<lambda>_ _ _ s. (Inl ENOSYS, s)), fx_respond_error = (\<lambda>_ _ _ s. (Inl ENOSYS, s)),
      fx_msg_incref = (\<lambda>_ s. s), fx_msg_decref = (\<lambda>_ s. s), fx_msg_is_streaming = (\<lambda>_ _. False),
      fx_msg_get_userid = (\<lambda>_ s. (Inl ENOSYS, s))\<rparr>"

text \<open>A Flux that opens the handle 5 of the broker with rank 6.\<close>

definition still_flux :: "nat flux_ops" where
  "still_flux = no_flux\<lparr>fx_open := (\<lambda>s. (Inr 5, s)), fx_get_rank := (\<lambda>_ s. (Inr 6, s))\<rparr>"

section \<open>Worlds\<close>

text \<open>A process with the context \<open>c\<close> whose managed directory \<^verbatim>\<open>/a\<close> holds the file \<^verbatim>\<open>f\<close>, when \<open>d\<close> is given.\<close>

definition file_world :: "bytes option \<Rightarrow> dyad_ctx \<Rightarrow> 'e \<Rightarrow> ('e, unit) dworld" where
  "file_world d c s =
     \<lparr>names = (case d of None \<Rightarrow> [''/'' \<mapsto> 0, ''.'' \<mapsto> 1, ''/a'' \<mapsto> 2]
               | Some _ \<Rightarrow> [''/'' \<mapsto> 0, ''.'' \<mapsto> 1, ''/a'' \<mapsto> 2, ''/a/f'' \<mapsto> 3]),
      inodes = [0 \<mapsto> dir_inode, 1 \<mapsto> dir_inode, 2 \<mapsto> dir_inode, 3 \<mapsto> file_inode (case d of Some d \<Rightarrow> d | None \<Rightarrow> [])],
      next_ino = 4, fds = (\<lambda>_. None), next_fd = 3, locks = (\<lambda>_. None), others = (\<lambda>_. None),
      errno = E_NONE, now = 0, file_mask = 0, dir_order = (\<lambda>_. [''f'']), faults = [], cell = Some c,
      environ = (\<lambda>_. None), realpaths = (\<lambda>_. None), self_pid = 7, streams = (\<lambda>_. None),
      next_stream = 0, flux = s\<rparr>"

lemma file_world_good: "good (file_world d c s)"
  by (auto simp: good_def wf_world_def file_world_def split: option.split if_splits)

text \<open>The context of a producer, and of the module on its node, and of a consumer elsewhere.\<close>

definition sample_dtl :: dyad_dtl where
  "sample_dtl = \<lparr>dtl_mode = DTL_FLUX_RPC,
     flux_dtl_handle = Some \<lparr>fdtl_h = Some 5, fdtl_comm_mode = COMM_SEND, fdtl_debug = False, fdtl_f = None,
       fdtl_msg = None\<rparr>,
     dtl_wired = True, dtl_has_detach = True, send_detached_is_thread_safe = False\<rparr>"

definition sample_ctx :: dyad_ctx where
  "sample_ctx = dyad_ctx_default\<lparr>ctx_h := Some 5, dtl_handle := Some sample_dtl, use_fs_locks := True,
     delim_len := 1, reenter := True, ctx_rank := 6, node_idx := 6, kvs_namespace := Some ''ns'',
     prod_managed_path := Some ''/a'', prod_managed_len := 2, prod_managed_hash := 3938686373,
     cons_managed_path := Some ''/a'', cons_managed_len := 2, cons_managed_hash := 3938686373\<rparr>"

lemma sample_ctx_paths: "ctx_paths_ok b sample_ctx"
  using sample_hash by (simp add: ctx_paths_ok_def path_field_ok_def sample_ctx_def dyad_ctx_default_def)

end
