(* ===== verification/Ctx_Correct.thy ===== *)
theory Ctx_Correct
  imports Ctx Frames Samples
begin

text \<open>
  What initialisation establishes and the other operations of the context keep: the path fields
  always agree with the stored strings, and a successful \<^verbatim>\<open>dyad_init\<close> leaves a context on
  which the client and the module can work.
\<close>

section \<open>Memory\<close>

lemma wp_malloc_more:
  "(\<And>b w'. world.more w' = world.more w \<Longrightarrow> Q b w') \<Longrightarrow> wp sys_malloc Q w"
  using posix_onlyD [OF posix_sys(1), of w] by (auto elim: wp_mono)

text \<open>The part of the world the context's code looks at.\<close>

abbreviation at_ctx :: "('e, 'x) dworld \<Rightarrow> dyad_ctx \<Rightarrow> (string \<Rightarrow> string option) \<Rightarrow> bool" where
  "at_ctx w c rp \<equiv> cell w = Some c \<and> realpaths w = rp"

lemma wp_malloc_at:
  fixes w :: "('e, 'x) dworld"
  assumes "at_ctx w c rp" and "\<And>b w'. at_ctx w' c rp \<Longrightarrow> Q b w'"
  shows "wp sys_malloc Q w"
proof (rule wp_malloc_more)
  fix b and w' :: "('e, 'x) dworld"
  assume "world.more w' = world.more w"
  from more_eq_parts [OF this] assms show "Q b w'" by simp
qed

section \<open>Managed paths\<close>

definition managed_ok :: "managed \<Rightarrow> bool" where
  "managed_ok m \<longleftrightarrow> path_field_ok (m_path m) (m_len m) (m_hash m)
     \<and> path_field_ok (r_path m) (r_len m) (r_hash m)"

lemma ctx_paths_ok_fields:
  "ctx_paths_ok True c = managed_ok (prod_fields c)" "ctx_paths_ok False c = managed_ok (cons_fields c)"
  by (simp_all add: ctx_paths_ok_def managed_ok_def prod_fields_def cons_fields_def)

lemma fields_set [simp]:
  "prod_fields (set_prod_fields m c) = m" "cons_fields (set_cons_fields m c) = m"
  "cons_fields (set_prod_fields m c) = cons_fields c" "prod_fields (set_cons_fields m c) = prod_fields c"
  by (simp_all add: prod_fields_def cons_fields_def set_prod_fields_def set_cons_fields_def)

lemma path_field_ok_None: "path_field_ok None l h \<longleftrightarrow> l = 0 \<and> h = 0"
  by (simp add: path_field_ok_def)

lemma path_field_ok_Some:
  "s \<noteq> [] \<Longrightarrow> length s < 2 ^ 32 \<Longrightarrow> path_field_ok (Some s) (of_nat (length s)) (hash_str (Some s) DYAD_SEED)"
  by (simp add: path_field_ok_def unat_of_nat take_bit_nat_eq_self)

lemma free_managed_ok:
  "managed_ok m \<Longrightarrow> managed_ok (free_managed m) \<and> m_path (free_managed m) = None
     \<and> m_len (free_managed m) = 0 \<and> m_hash (free_managed m) = 0
     \<and> r_path (free_managed m) = None \<and> r_len (free_managed m) = 0 \<and> r_hash (free_managed m) = 0"
  by (auto simp: free_managed_def managed_ok_def path_field_ok_None Let_def)

lemma no_managed_ok [simp]: "managed_ok no_managed"
  by (simp add: no_managed_def managed_ok_def path_field_ok_None)

definition short_paths :: "string option \<Rightarrow> (string \<Rightarrow> string option) \<Rightarrow> bool" where
  "short_paths path rp \<longleftrightarrow>
     (case path of None \<Rightarrow> True
      | Some p \<Rightarrow> length p < 2 ^ 32 \<and> (case rp p of None \<Rightarrow> True | Some r \<Rightarrow> length r < 2 ^ 32))"

lemma wp_load_real:
  assumes "at_ctx w c rp" and "managed_ok m" and "r_path m = None" and "short_paths (Some p) rp"
  shows "wp (load_real p m) (\<lambda>(rc, m') w'. at_ctx w' c rp \<and> managed_ok m' \<and> m_path m' = m_path m) w"
proof (cases "rp p")
  case None
  then show ?thesis
    using assms by (simp add: load_real_def wps managed_ok_def path_field_ok_None)
next
  case (Some r)
  show ?thesis
  proof (cases "r = [] \<or> strncmp_eq p r (length p)")
    case True
    then show ?thesis
      using assms Some by (simp add: load_real_def wps managed_ok_def path_field_ok_None)
  next
    case False
    have "wp sys_malloc (\<lambda>ok. wp
        (if \<not> ok then State_Monad.return (RC_SYSFAIL, m\<lparr>r_path := None\<rparr>)
         else let m = m\<lparr>r_path := Some r, r_len := of_nat (length r), r_hash := hash_str (Some r) DYAD_SEED\<rparr>
              in State_Monad.return (if r_hash m = 0 then RC_BADMANAGEDPATH else RC_OK, m))
        (\<lambda>(rc, m') w'. at_ctx w' c rp \<and> managed_ok m' \<and> m_path m' = m_path m)) w"
      by (rule wp_malloc_at [OF assms(1)])
        (use assms(2-4) Some False in \<open>simp add: managed_ok_def short_paths_def path_field_ok_Some Let_def\<close>)
    with False Some assms(1) show ?thesis
      by (simp add: load_real_def wps)
  qed
qed

lemma wp_load_managed:
  assumes "at_ctx w c rp" and "managed_ok m" and "short_paths path rp"
  shows "wp (load_managed path m)
     (\<lambda>(rc, m') w'. at_ctx w' c rp \<and> managed_ok m' \<and> (rc = RC_OK \<longrightarrow> m_path m' = path)) w"
proof (cases path)
  case None
  then show ?thesis
    using assms by (simp add: load_managed_def wps Let_def) (simp add: no_managed_def)
next
  case (Some p)
  note free = free_managed_ok [OF assms(2)]
  define m0 where "m0 = free_managed m"
  show ?thesis
  proof (cases "p = []")
    case True
    then show ?thesis using Some assms free by (simp add: load_managed_def Let_def)
  next
    case False
    define m1 where "m1 = m0\<lparr>m_path := Some p, m_len := of_nat (length p), m_hash := hash_str (Some p) DYAD_SEED\<rparr>"
    have m1: "managed_ok m1" "r_path m1 = None" "m_path m1 = Some p"
      using free False assms(3) Some
      by (simp_all add: m1_def m0_def managed_ok_def path_field_ok_Some path_field_ok_None short_paths_def)
    have fail: "managed_ok (m0\<lparr>m_path := None\<rparr>)"
      using free by (simp add: m0_def managed_ok_def path_field_ok_None)
    have "wp sys_malloc (\<lambda>ok. wp (if \<not> ok then State_Monad.return (RC_SYSFAIL, m0\<lparr>m_path := None\<rparr>)
         else if m_hash m1 = 0 then State_Monad.return (RC_BADMANAGEDPATH, m1) else load_real p m1)
       (\<lambda>(rc, m') w'. at_ctx w' c rp \<and> managed_ok m' \<and> (rc = RC_OK \<longrightarrow> m_path m' = Some p))) w"
    proof (rule wp_malloc_at [OF assms(1)])
      fix b and w' :: "('e, 'f) dworld"
      assume w': "at_ctx w' c rp"
      have "wp (load_real p m1) (\<lambda>(rc, m') w'. at_ctx w' c rp \<and> managed_ok m' \<and> (rc = RC_OK \<longrightarrow> m_path m' = Some p)) w'"
        by (rule wp_mono [OF wp_load_real [OF w' m1(1,2)]]) (use assms(3) Some m1 in auto)
      with w' fail m1 show "wp (if \<not> b then State_Monad.return (RC_SYSFAIL, m0\<lparr>m_path := None\<rparr>)
         else if m_hash m1 = 0 then State_Monad.return (RC_BADMANAGEDPATH, m1) else load_real p m1)
       (\<lambda>(rc, m') w'. at_ctx w' c rp \<and> managed_ok m' \<and> (rc = RC_OK \<longrightarrow> m_path m' = Some p)) w'"
        by simp
    qed
    with Some False show ?thesis
      unfolding m0_def m1_def by (simp add: load_managed_def wps Let_def cong: if_cong)
  qed
qed


text \<open>
  The producer's and the consumer's side of the context: six fields that are read and written
  together and have nothing to do with the re-entry flag. The code of the two setters is the same
  on either side, so it is verified once.
\<close>

locale managed_side =
  fixes side_fields :: "dyad_ctx \<Rightarrow> managed" and set_side :: "managed \<Rightarrow> dyad_ctx \<Rightarrow> dyad_ctx"
  assumes side_set: "side_fields (set_side m c) = m"
    and side_reenter: "side_fields (c\<lparr>reenter := b\<rparr>) = side_fields c"
    and set_side_reenter: "(set_side m (c\<lparr>reenter := b\<rparr>))\<lparr>reenter := reenter c\<rparr> = set_side m c"
begin

lemma wp_set_path:
  assumes "at_ctx w c rp" and "managed_ok (side_fields c)" and "short_paths path rp"
  shows "wp (do {
       c \<leftarrow> get_cell;
       case c of
         None \<Rightarrow> State_Monad.return RC_NOCTX
       | Some c \<Rightarrow> do {
           upd_ctx (\<lambda>c. c\<lparr>reenter := False\<rparr>);
           (rc, m) \<leftarrow> load_managed path (side_fields c);
           upd_ctx (set_side m);
           upd_ctx (\<lambda>c'. c'\<lparr>reenter := reenter c\<rparr>);
           State_Monad.return rc } })
     (\<lambda>rc w'. \<exists>m. at_ctx w' (set_side m c) rp \<and> managed_ok m \<and> (rc = RC_OK \<longrightarrow> m_path m = path)) w"
proof -
  have "wp (load_managed path (side_fields c))
     (\<lambda>(rc, m') w'. at_ctx w' (c\<lparr>reenter := False\<rparr>) rp \<and> managed_ok m' \<and> (rc = RC_OK \<longrightarrow> m_path m' = path))
     (w\<lparr>cell := Some (c\<lparr>reenter := False\<rparr>)\<rparr>)"
    by (rule wp_load_managed) (use assms in simp_all)
  then show ?thesis
    using assms(1) by (simp add: wps) (erule wp_mono, auto simp: wps set_side_reenter)
qed

end

interpretation prod: managed_side prod_fields set_prod_fields
  by unfold_locales (simp_all add: prod_fields_def set_prod_fields_def)

interpretation cons: managed_side cons_fields set_cons_fields
  by unfold_locales (simp_all add: cons_fields_def set_cons_fields_def)

lemmas wp_set_prod_path = prod.wp_set_path [folded dyad_set_prod_path_def]
lemmas wp_set_cons_path = cons.wp_set_path [folded dyad_set_cons_path_def]

section \<open>What a successful initialisation leaves\<close>

text \<open>The parts of the context, each as the arguments of \<^verbatim>\<open>dyad_init\<close> ask for it.\<close>

definition scalars_ready :: "init_args \<Rightarrow> dyad_ctx \<Rightarrow> bool" where
  "scalars_ready a c \<longleftrightarrow> initialized c \<and> delim_len c = 1 \<and> ctx_debug c = a_debug a
     \<and> shared_storage c = a_shared_storage a \<and> async_publish c = a_async_publish a
     \<and> fsync_write c = a_fsync_write a \<and> key_depth c = a_key_depth a \<and> key_bins c = a_key_bins a
     \<and> cache_capacity_bytes c = a_cache_capacity a"

definition flux_ready :: "init_args \<Rightarrow> dyad_ctx \<Rightarrow> bool" where
  "flux_ready a c \<longleftrightarrow> ctx_h c \<noteq> None \<and> (a_flux_handle a = None \<or> ctx_h c = a_flux_handle a)
     \<and> 0 < service_mux c \<and> node_idx c = ctx_rank c div service_mux c"

definition names_ready :: "init_args \<Rightarrow> dyad_ctx \<Rightarrow> bool" where
  "names_ready a c \<longleftrightarrow> a_kvs_namespace a \<noteq> None \<and> kvs_namespace c = a_kvs_namespace a
     \<and> origin_path c = (if a_origin_path a = Some [] then None else a_origin_path a)"

definition dtl_ready :: "init_args \<Rightarrow> dyad_ctx \<Rightarrow> bool" where
  "dtl_ready a c \<longleftrightarrow> (\<exists>d fd. dtl_handle c = Some d \<and> dtl_mode d = DTL_FLUX_RPC \<and> dtl_wired d
     \<and> flux_dtl_handle d = Some fd \<and> fdtl_h fd = ctx_h c \<and> fdtl_comm_mode fd = a_comm_mode a
     \<and> fdtl_f fd = None \<and> fdtl_msg fd = None)"

definition policy_set :: "init_args \<Rightarrow> dyad_ctx \<Rightarrow> bool" where
  "policy_set a c \<longleftrightarrow> (\<exists>p. cache_policy c = Some p \<and> policy_ready (cache_policy_mode c) p)
     \<and> (a_cache_capacity a = 0 \<longrightarrow> cache_policy_mode c = CACHE_NONE)"

definition paths_ready :: "init_args \<Rightarrow> dyad_ctx \<Rightarrow> bool" where
  "paths_ready a c \<longleftrightarrow> ctx_paths_ok True c \<and> ctx_paths_ok False c
     \<and> prod_managed_path c = a_prod_managed_path a \<and> cons_managed_path c = a_cons_managed_path a"

definition ctx_ready :: "init_args \<Rightarrow> dyad_ctx \<Rightarrow> bool" where
  "ctx_ready a c \<longleftrightarrow> scalars_ready a c \<and> flux_ready a c \<and> names_ready a c \<and> dtl_ready a c
     \<and> policy_set a c \<and> paths_ready a c \<and> reenter c \<and> use_fs_locks c"

lemmas ready_defs = scalars_ready_def flux_ready_def names_ready_def dtl_ready_def policy_set_def
  paths_ready_def ctx_paths_ok_def

section \<open>The steps of initialisation\<close>

lemma wp_flux_call_at:
  assumes "at_ctx w c rp" and "\<And>r w'. at_ctx w' c rp \<Longrightarrow> Q r w'"
  shows "wp (flux_call f) Q w"
  using assms by (simp add: wp_flux_call split: prod.split sum.split)

lemma init_failed_rc: "wp (init_failed F rc) (\<lambda>r w'. r = RC_NOCTX \<and>
     cell w' = Some (if rc = RC_NOCTX then dyad_ctx_default\<lparr>initialized := False, reenter := False\<rparr>
                     else dyad_ctx_default)) w"
  unfolding init_failed_def wp_bind by (rule wp_total) (simp add: wps)

lemma wp_init_names:
  assumes "at_ctx w c rp"
  shows "wp (init_names a) (\<lambda>ok w'. ok \<longrightarrow> (\<exists>o'. at_ctx w' (c\<lparr>kvs_namespace := a_kvs_namespace a,
           origin_path := o'\<rparr>) rp \<and> names_ready a (c\<lparr>kvs_namespace := a_kvs_namespace a, origin_path := o'\<rparr>))) w"
proof (cases "a_kvs_namespace a")
  case None
  then show ?thesis by (simp add: init_names_def wps)
next
  case ns: (Some ns)
  show ?thesis
    unfolding init_names_def ns option.case wps
  proof (rule wp_malloc_at [OF assms], goal_cases)
    case (1 ok w1)
    show ?case
    proof (cases ok)
      case True
      let ?c = "c\<lparr>kvs_namespace := Some ns, origin_path := None\<rparr>"
      have w1: "at_ctx (w1\<lparr>cell := Some ?c\<rparr>) ?c rp" using 1 by simp
      have "wp sys_malloc (\<lambda>ok. wp (if \<not> ok then State_Monad.return False
             else do { upd_ctx (\<lambda>c. c\<lparr>origin_path := Some p\<rparr>); State_Monad.return True })
           (\<lambda>ok w'. ok \<longrightarrow> (\<exists>o'. at_ctx w' (c\<lparr>kvs_namespace := Some ns, origin_path := o'\<rparr>) rp
              \<and> names_ready a (c\<lparr>kvs_namespace := Some ns, origin_path := o'\<rparr>))))
           (w1\<lparr>cell := Some ?c\<rparr>)" if "a_origin_path a = Some p" "p \<noteq> []" for p
        by (rule wp_malloc_at [OF w1])
          (use that in \<open>auto simp: wps names_ready_def ns intro!: exI [of _ "Some p"]\<close>)
      then show ?thesis
        using True 1 by (auto simp: wps names_ready_def ns split: option.split intro!: exI [of _ None])
    qed (simp add: wps)
  qed
qed

text \<open>A code of success comes with the context \<open>f\<close> makes of the present one.\<close>

lemma same_ctx: "cell w = Some c \<Longrightarrow> f c = c \<Longrightarrow> w\<lparr>cell := map_option f (cell w)\<rparr> = w"
  by (cases w) simp

lemma wp_dtl_flux_init:
  assumes "at_ctx w (c\<lparr>dtl_handle := Some d\<rparr>) rp" and "dtl_mode d = DTL_FLUX_RPC"
  shows "wp (dyad_dtl_flux_init m (a_comm_mode a) b) (\<lambda>rc w'. rc = RC_OK \<longrightarrow>
     (\<exists>d. at_ctx w' (c\<lparr>dtl_handle := Some d\<rparr>) rp \<and> dtl_ready a (c\<lparr>dtl_handle := Some d\<rparr>))) w"
  unfolding dyad_dtl_flux_init_def wp_bind
  by (rule wp_malloc_at [OF assms(1)])
    (auto simp: wps dtl_ready_def assms(2) intro!: exI [of _ "_ :: dyad_dtl"])

lemma wp_set_dtl:
  assumes "at_ctx w c rp" and "dtl_handle c = None"
  shows "wp (dyad_set_and_init_dtl_mode name (a_comm_mode a)) (\<lambda>rc w'. rc = RC_OK \<longrightarrow>
     (\<exists>d. at_ctx w' (c\<lparr>dtl_handle := Some d\<rparr>) rp \<and> dtl_ready a (c\<lparr>dtl_handle := Some d\<rparr>))) w"
proof -
  have same: "w\<lparr>cell := Some (c\<lparr>dtl_handle := None\<rparr>)\<rparr> = w"
    using same_ctx [of w c "\<lambda>c. c\<lparr>dtl_handle := None\<rparr>"] assms by simp
  have "wp (dyad_dtl_init m (a_comm_mode a) b) (\<lambda>rc w'. rc = RC_OK \<longrightarrow>
     (\<exists>d. at_ctx w' (c\<lparr>dtl_handle := Some d\<rparr>) rp \<and> dtl_ready a (c\<lparr>dtl_handle := Some d\<rparr>))) w" for m b
    unfolding dyad_dtl_init_def wp_bind
  proof (rule wp_malloc_at [OF assms(1)], goal_cases)
    case (1 ok w1)
    let ?d = "\<lparr>dtl_mode = DTL_FLUX_RPC, flux_dtl_handle = None, dtl_wired = False,
       dtl_has_detach = False, send_detached_is_thread_safe = False\<rparr>"
    have "at_ctx (w1\<lparr>cell := Some (c\<lparr>dtl_handle := Some ?d\<rparr>)\<rparr>) (c\<lparr>dtl_handle := Some ?d\<rparr>) rp"
      using 1 by simp
    from wp_dtl_flux_init [OF this, of DTL_FLUX_RPC a b] 1 show ?case
      by (simp add: wps)
  qed
  then show ?thesis
    using assms unfolding dyad_set_and_init_dtl_mode_def dyad_dtl_finalize_def
    by (simp add: wps same split: option.split)
qed

lemma wp_set_policy:
  assumes "at_ctx w c rp" and "cache_policy c = None" and "a_cache_capacity a = cap"
  shows "wp (dyad_set_and_init_cache_policy name cap) (\<lambda>rc w'. rc = RC_OK \<longrightarrow>
     (\<exists>m p. at_ctx w' (c\<lparr>cache_policy_mode := m, cache_policy := Some p\<rparr>) rp
        \<and> policy_set a (c\<lparr>cache_policy_mode := m, cache_policy := Some p\<rparr>))) w"
proof (cases "Option.bind name cache_mode_of_name")
  case None
  then show ?thesis by (auto simp: dyad_set_and_init_cache_policy_def wps split: option.split)
next
  case (Some n)
  define m where "m = (if cap = 0 then CACHE_NONE else n)"
  let ?w = "w\<lparr>cell := Some (c\<lparr>cache_policy_mode := m\<rparr>)\<rparr>"
  have "wp (dyad_cache_policy_init m) (\<lambda>rc w'. rc = RC_OK \<longrightarrow>
     (\<exists>m p. at_ctx w' (c\<lparr>cache_policy_mode := m, cache_policy := Some p\<rparr>) rp
        \<and> policy_set a (c\<lparr>cache_policy_mode := m, cache_policy := Some p\<rparr>))) ?w"
  proof (rule wp_mono [OF wp_policy_init], intro impI, goal_cases)
    case (1 rc w')
    then obtain p where "policy_ready m p" "realpaths w' = rp"
      "cell w' = Some (c\<lparr>cache_policy_mode := m, cache_policy := Some p\<rparr>)"
      using assms by (auto simp: policy_init_result_def)
    then show ?case
      using assms(3) by (intro exI [of _ m] exI [of _ p]) (simp add: policy_set_def m_def)
  qed
  with Some assms show ?thesis
    unfolding dyad_set_and_init_cache_policy_def dyad_cache_policy_finalize_def m_def
    by (cases name) (simp_all add: wps Let_def)
qed

section \<open>Initialisation as a whole\<close>

lemma paths_kept [simp]:
  "ctx_paths_ok b (c\<lparr>dtl_handle := d\<rparr>) = ctx_paths_ok b c"
  "ctx_paths_ok b (c\<lparr>cache_policy_mode := m, cache_policy := p\<rparr>) = ctx_paths_ok b c"
  "ctx_paths_ok False (set_prod_fields m' c) = ctx_paths_ok False c"
  "ctx_paths_ok True (set_cons_fields m' c) = ctx_paths_ok True c"
  "ctx_paths_ok True (set_prod_fields m' c) = managed_ok m'"
  "ctx_paths_ok False (set_cons_fields m' c) = managed_ok m'"
  by (simp_all add: ctx_paths_ok_fields) (simp_all add: ctx_paths_ok_def)

definition base_ready :: "init_args \<Rightarrow> dyad_ctx \<Rightarrow> bool" where
  "base_ready a c \<longleftrightarrow> scalars_ready a c \<and> flux_ready a c \<and> names_ready a c"

lemma ready_kept [simp]:
  "base_ready a (c\<lparr>dtl_handle := d\<rparr>) = base_ready a c"
  "base_ready a (c\<lparr>cache_policy_mode := m, cache_policy := p\<rparr>) = base_ready a c"
  "base_ready a (set_prod_fields m' c) = base_ready a c"
  "base_ready a (set_cons_fields m' c) = base_ready a c"
  "dtl_ready a (c\<lparr>cache_policy_mode := m, cache_policy := p\<rparr>) = dtl_ready a c"
  "dtl_ready a (set_prod_fields m' c) = dtl_ready a c"
  "dtl_ready a (set_cons_fields m' c) = dtl_ready a c"
  "policy_set a (set_prod_fields m' c) = policy_set a c"
  "policy_set a (set_cons_fields m' c) = policy_set a c"
  by (simp_all add: base_ready_def scalars_ready_def flux_ready_def names_ready_def dtl_ready_def
      policy_set_def set_prod_fields_def set_cons_fields_def)

lemma wp_ok_then:
  assumes "wp m (\<lambda>rc w'. rc = RC_OK \<longrightarrow> R w') w"
    and "\<And>w'. R w' \<Longrightarrow> wp (f RC_OK) Q w'" and "\<And>rc w'. rc \<noteq> RC_OK \<Longrightarrow> wp (f rc) Q w'"
  shows "wp (m \<bind> f) Q w"
  unfolding wp_bind by (rule wp_mono [OF assms(1)]) (metis assms(2,3))

lemma wp_init_parts:
  assumes "at_ctx w c rp" and "base_ready a c" and "ctx_paths_ok True c" "ctx_paths_ok False c"
    and "dtl_handle c = None" "cache_policy c = None"
    and "short_paths (a_prod_managed_path a) rp" "short_paths (a_cons_managed_path a) rp"
  shows "wp (init_parts a) (\<lambda>r w'. r = None \<longrightarrow> (\<exists>c. cell w' = Some c \<and> base_ready a c \<and> dtl_ready a c
     \<and> policy_set a c \<and> paths_ready a c)) w"
  unfolding init_parts_def
proof (rule wp_ok_then [OF wp_set_dtl [OF assms(1,5)]], goal_cases)
  case (1 w1)
  then obtain d where d: "at_ctx w1 (c\<lparr>dtl_handle := Some d\<rparr>) rp" "dtl_ready a (c\<lparr>dtl_handle := Some d\<rparr>)"
    by blast
  have none: "cache_policy (c\<lparr>dtl_handle := Some d\<rparr>) = None" using assms(6) by simp
  show ?case
    unfolding is_error_iff if_False simp_thms
  proof (rule wp_ok_then [OF wp_set_policy [OF d(1) none refl]], goal_cases)
    case (1 w2)
    then obtain m p where c2: "at_ctx w2 (c\<lparr>dtl_handle := Some d, cache_policy_mode := m, cache_policy := Some p\<rparr>) rp"
      "policy_set a (c\<lparr>dtl_handle := Some d, cache_policy_mode := m, cache_policy := Some p\<rparr>)" by blast
    define c2 where "c2 = c\<lparr>dtl_handle := Some d, cache_policy_mode := m, cache_policy := Some p\<rparr>"
    note c2 = c2 [folded c2_def]
    have ready: "base_ready a c2" "dtl_ready a c2" "ctx_paths_ok True c2" "ctx_paths_ok False c2"
      using assms(2-4) d(2) by (simp_all add: c2_def)
    from wp_set_prod_path [OF c2(1) ready(3) [unfolded ctx_paths_ok_fields] assms(7)]
    have prod: "wp (dyad_set_prod_path (a_prod_managed_path a)) (\<lambda>rc w'. rc = RC_OK \<longrightarrow>
       (\<exists>m. at_ctx w' (set_prod_fields m c2) rp \<and> managed_ok m \<and> m_path m = a_prod_managed_path a)) w2"
      by (rule wp_mono) blast
    show ?case
      unfolding if_False simp_thms
    proof (rule wp_ok_then [OF prod], goal_cases)
      case (1 w3)
      then obtain m3 where c3: "at_ctx w3 (set_prod_fields m3 c2) rp" "managed_ok m3"
        "m_path m3 = a_prod_managed_path a" by blast
      from wp_set_cons_path [OF c3(1) _ assms(8)] ready(4) [unfolded ctx_paths_ok_fields]
      have cons: "wp (dyad_set_cons_path (a_cons_managed_path a)) (\<lambda>rc w'. rc = RC_OK \<longrightarrow>
         (\<exists>m. at_ctx w' (set_cons_fields m (set_prod_fields m3 c2)) rp \<and> managed_ok m
            \<and> m_path m = a_cons_managed_path a)) w3"
        by (auto elim!: wp_mono)
      show ?case
        unfolding if_False simp_thms
      proof (rule wp_ok_then [OF cons], goal_cases)
        case (1 w4)
        then show ?case
          using ready c2 c3 by (auto simp: paths_ready_def)
            (simp_all add: set_cons_fields_def set_prod_fields_def)
      qed simp
    qed simp
  qed simp
qed simp

text \<open>A request that is not for the empty context: some managed path is given.\<close>

definition asks_paths :: "init_args \<Rightarrow> bool" where
  "asks_paths a \<longleftrightarrow> a_prod_managed_path a \<noteq> None \<or> a_cons_managed_path a \<noteq> None"

lemma wp_upd_at:
  assumes "at_ctx w c rp" and "\<And>w'. at_ctx w' (f c) rp \<Longrightarrow> Q () w'"
  shows "wp (upd_ctx f) Q w"
  using assms by (simp add: wps)

lemma wp_handle:
  assumes "at_ctx w c rp"
    and "\<And>h w'. at_ctx w' c rp \<Longrightarrow> a_flux_handle a = None \<or> h = a_flux_handle a \<Longrightarrow> Q h w'"
  shows "wp (case a_flux_handle a of Some h \<Rightarrow> State_Monad.return (Some h)
              | None \<Rightarrow> flux_call (fx_open F)) Q w"
  using assms by (cases "a_flux_handle a") (auto intro!: wp_flux_call_at [OF assms(1)])

lemma init_finish_ready:
  "cell w = Some c \<Longrightarrow> (rc = RC_OK \<Longrightarrow> ctx_ready a (c\<lparr>reenter := True\<rparr>)) \<Longrightarrow>
   wp (init_finish rc) (\<lambda>r w'. r = RC_OK \<longrightarrow> (\<exists>c. cell w' = Some c \<and> ctx_ready a c)) w"
  by (simp add: init_finish_def wps)

lemma init_failed_ready:
  "wp (init_failed F rc) (\<lambda>r w'. r = RC_OK \<longrightarrow> (\<exists>c. cell w' = Some c \<and> ctx_ready a c)) w"
  by (rule wp_mono [OF init_failed_rc]) simp

lemma ready_finished:
  assumes "base_ready a c" "dtl_ready a c" "policy_set a c" "paths_ready a c"
  shows "ctx_ready a (c\<lparr>relative_to_managed_path := r, use_fs_locks := True, initialized := True, reenter := True\<rparr>)"
    (is "ctx_ready a ?c")
proof -
  have "scalars_ready a ?c" "flux_ready a ?c" "names_ready a ?c"
    using assms(1) by (simp_all add: base_ready_def scalars_ready_def flux_ready_def names_ready_def)
  moreover have "dtl_ready a ?c" using assms(2) by (simp add: dtl_ready_def)
  moreover have "policy_set a ?c" using assms(3) by (simp add: policy_set_def)
  moreover have "paths_ready a ?c = paths_ready a c" by (simp add: paths_ready_def ctx_paths_ok_def)
  ultimately show ?thesis using assms(4) by (simp add: ctx_ready_def)
qed

text \<open>The context once the plain arguments are copied and Flux has been asked for the rank.\<close>

definition ctx_copied :: "init_args \<Rightarrow> dyad_ctx" where
  "ctx_copied a = dyad_ctx_default\<lparr>delim_len := of_nat (length PATH_DELIM), ctx_debug := a_debug a,
          ctx_check := a_check a, shared_storage := a_shared_storage a,
          async_publish := a_async_publish a, fsync_write := a_fsync_write a,
          key_depth := a_key_depth a, key_bins := a_key_bins a,
          cache_capacity_bytes := a_cache_capacity a,
          cache_low_watermark_frac := a_low_watermark a,
          cache_grace_period_sec := a_grace_period a\<rparr>"

lemma copied_ready:
  assumes "h \<noteq> None" "a_flux_handle a = None \<or> h = a_flux_handle a" "0 < mux"
    and "names_ready a (ctx_copied a\<lparr>kvs_namespace := ns, origin_path := o'\<rparr>)"
    and "c = ctx_copied a\<lparr>ctx_h := h, ctx_rank := rank, service_mux := mux, node_idx := rank div mux,
              ctx_pid := p, kvs_namespace := ns, origin_path := o'\<rparr>"
  shows "base_ready a c" "ctx_paths_ok True c" "ctx_paths_ok False c" "dtl_handle c = None"
    "cache_policy c = None"
  using assms by (simp_all add: base_ready_def scalars_ready_def flux_ready_def names_ready_def
      ctx_copied_def dyad_ctx_default_def PATH_DELIM_def ctx_paths_ok_def path_field_ok_None)

lemma wp_init_body:
  assumes "asks_paths a" and "realpaths w = rp"
    and "short_paths (a_prod_managed_path a) rp" "short_paths (a_cons_managed_path a) rp"
  shows "wp (init_body F a) (\<lambda>r w'. r = RC_OK \<longrightarrow> (\<exists>c. cell w' = Some c \<and> ctx_ready a c)) w"
proof -
  have delim: "PATH_DELIM \<noteq> []" by (simp add: PATH_DELIM_def)
  have asked: "\<not> (a_prod_managed_path a = None \<and> a_cons_managed_path a = None)"
    using assms(1) by (simp add: asks_paths_def)
  have c0: "at_ctx (w\<lparr>cell := Some dyad_ctx_default\<rparr>) dyad_ctx_default rp" using assms(2) by simp
  show ?thesis
    unfolding init_body_def if_not_P [OF asked] if_not_P [OF delim] wp_bind wp_cell(3)
  proof (rule wp_upd_at [OF c0], unfold ctx_copied_def [symmetric],
      rule wp_handle, assumption, rule wp_upd_at, assumption, goal_cases)
    case (1 w1 h w2 w3)
    note given = 1(3)
    show ?case
    proof (cases h)
      case None
      then show ?thesis using 1 by (simp add: init_finish_def wps)
    next
      case (Some h')
      let ?mux = "if a_service_mux a < 1 then 1 else a_service_mux a"
      have mux: "0 < ?mux" by (simp add: word_less_nat_alt)
      have nn: "h \<noteq> None" and nf: "(h = None) = False" using Some by simp_all
      show ?thesis
        unfolding nf if_False wp_bind
      proof (rule wp_flux_call_at [OF 1(4)], goal_cases)
        case (1 rank w4)
        show ?case
        proof (cases rank)
          case None
          then show ?thesis using 1 by (simp add: init_finish_def wps)
        next
          case (Some r)
          show ?thesis
            unfolding Some option.case wp_bind wp_cell(8) Let_def
          proof (rule wp_upd_at [OF 1], rule wp_mono [OF wp_init_names], assumption, goal_cases)
            case (1 w5 ok w6)
            show ?case
            proof (cases ok)
              case True
              let ?c0 = "ctx_copied a\<lparr>ctx_h := h, ctx_rank := r, service_mux := ?mux, node_idx := r div ?mux,
                           ctx_pid := self_pid w4\<rparr>"
              from 1(2) True obtain o' where
                names: "at_ctx w6 (?c0\<lparr>kvs_namespace := a_kvs_namespace a, origin_path := o'\<rparr>) rp"
                "names_ready a (?c0\<lparr>kvs_namespace := a_kvs_namespace a, origin_path := o'\<rparr>)"
                by blast
              define c where "c = ?c0\<lparr>kvs_namespace := a_kvs_namespace a, origin_path := o'\<rparr>"
              have nm: "names_ready a (ctx_copied a\<lparr>kvs_namespace := a_kvs_namespace a, origin_path := o'\<rparr>)"
                using names(2) by (simp add: names_ready_def)
              note ready = copied_ready [OF nn given mux nm c_def]
              note parts = wp_init_parts [OF names(1) [folded c_def] ready assms(3,4)]
              from True show ?thesis
                by (simp add: wps) (rule wp_mono [OF parts], auto simp: wps init_failed_ready
                    init_finish_def ready_finished split: option.split)
            qed (simp add: init_failed_ready)
          qed
        qed
      qed
    qed
  qed
qed

text \<open>Finalising leaves the file names as they are.\<close>

lemma keep_realpaths:
  fixes rp :: "string \<Rightarrow> string option"
  defines "I \<equiv> \<lambda>w :: ('e, 'x) dworld. realpaths w = rp"
  shows "keeps I get_cell" "keeps I the_ctx" "keeps I (upd_ctx f)" "keeps I (flux_do g)"
    "keeps I (set_cell cl)" "keeps I (upd_dtl h)" "keeps I (upd_flux_dtl k)" "keeps I (upd_policy l)"
  by (simp_all add: keeps_def wps I_def)

lemma finalize_realpaths: "realpaths w = rp \<Longrightarrow> wp (dyad_finalize F) (\<lambda>_ w'. realpaths w' = rp) w"
proof (rule keepsD [where I = "\<lambda>w. realpaths w = rp"])
  show "keeps (\<lambda>w. realpaths w = rp) (dyad_finalize F)"
    unfolding dyad_finalize_def dyad_clear_def dyad_dtl_finalize_def dyad_dtl_flux_finalize_def
      dyad_cache_policy_finalize_def dyad_cache_lru_finalize_def dyad_cache_fifo_finalize_def
    by (intro keep keep_realpaths) (auto split: dyad_cache_policy_mode.split intro!: keep keep_realpaths)
qed

lemma wp_dyad_init_fresh:
  assumes "a_reinit a \<or> cell w = None \<or> \<not> initialized (the (cell w))" and "realpaths w = rp"
    and "\<And>w'. realpaths w' = rp \<Longrightarrow> wp (init_body F a) (\<lambda>r. Q (Some r)) w'"
    and "\<And>w'. Q None (w'\<lparr>cell := None\<rparr>)"
  shows "wp (dyad_init F a) Q w"
proof -
  have fresh: "wp (do { ok \<leftarrow> sys_malloc;
      if \<not> ok then do { set_cell None; State_Monad.return None }
      else do { rc \<leftarrow> init_body F a; State_Monad.return (Some rc) } }) Q w1"
    if "realpaths w1 = rp" for w1
    unfolding wp_bind
  proof (rule wp_malloc_cases, goal_cases)
    case (1 ok w2)
    then show ?case
      using assms(3) [of w2] assms(4) [of w2] that by (simp add: wps)
  qed
  show ?thesis
  proof (cases "a_reinit a")
    case True
    have "wp (dyad_finalize F) (\<lambda>_. wp (do { ok \<leftarrow> sys_malloc;
      if \<not> ok then do { set_cell None; State_Monad.return None }
      else do { rc \<leftarrow> init_body F a; State_Monad.return (Some rc) } }) Q) w"
      by (rule wp_mono [OF finalize_realpaths [OF assms(2)] fresh])
    then show ?thesis using True unfolding dyad_init_def by (simp add: wps)
  next
    case False
    with assms(1,2,3) fresh [of w] show ?thesis
      unfolding dyad_init_def by (auto simp: wps)
  qed
qed

section \<open>Properties of the context\<close>

text \<open>
  C17: setting the producer's managed path keeps the context consistent: whatever the outcome, the
  lengths and hashes kept beside the two paths are those of the stored strings, the consumer's
  fields and the re-entry flag are what they were, and after success the path asked for is the
  managed path.
\<close>

theorem set_prod_path_ok:
  assumes "at_ctx w c rp" and "ctx_paths_ok True c" and "short_paths path rp"
  shows "wp (dyad_set_prod_path path) (\<lambda>rc w'. \<exists>c'. cell w' = Some c' \<and> ctx_paths_ok True c'
     \<and> cons_fields c' = cons_fields c \<and> reenter c' = reenter c
     \<and> (rc = RC_OK \<longrightarrow> prod_managed_path c' = path)) w"
  by (rule wp_mono [OF wp_set_prod_path [OF assms(1) assms(2) [unfolded ctx_paths_ok_fields] assms(3)]])
    (auto simp: set_prod_fields_def ctx_paths_ok_def managed_ok_def cons_fields_def)

definition ctx_world :: "dyad_ctx option \<Rightarrow> (nat, unit) dworld" where
  "ctx_world c =
     \<lparr>names = (\<lambda>_. None), inodes = (\<lambda>_. None), next_ino = 0, fds = (\<lambda>_. None), next_fd = 3,
      locks = (\<lambda>_. None), others = (\<lambda>_. None), errno = E_NONE, now = 0, file_mask = 0,
      dir_order = (\<lambda>_. []), faults = [], cell = c, environ = (\<lambda>_. None),
      realpaths = (\<lambda>_. None), self_pid = 7, streams = (\<lambda>_. None), next_stream = 0, flux = 0\<rparr>"

theorem set_prod_path_ok_witness:
  "wp (dyad_set_prod_path (Some ''/a'')) (\<lambda>rc w'. \<exists>c'. cell w' = Some c' \<and> ctx_paths_ok True c'
     \<and> cons_fields c' = cons_fields dyad_ctx_default \<and> reenter c' = reenter dyad_ctx_default
     \<and> (rc = RC_OK \<longrightarrow> prod_managed_path c' = Some ''/a'')) (ctx_world (Some dyad_ctx_default))"
  by (rule set_prod_path_ok [where rp = "\<lambda>_. None"])
    (simp_all add: ctx_world_def ctx_paths_ok_def path_field_ok_None dyad_ctx_default_def short_paths_def)

text \<open>
  C18: a \<^verbatim>\<open>dyad_init\<close> that was asked for a managed path and reports success leaves a context on which
  the client and the module can work: a Flux handle, a service multiplexity of at least one and the
  node it gives, the namespace, the Flux transport wired to the same handle and mode, the eviction
  policy with its key, and consistent path fields holding the paths asked for.
\<close>

theorem dyad_init_ready:
  assumes "asks_paths a" and "a_reinit a \<or> cell w = None \<or> \<not> initialized (the (cell w))"
    and "short_paths (a_prod_managed_path a) (realpaths w)" "short_paths (a_cons_managed_path a) (realpaths w)"
  shows "wp (dyad_init F a) (\<lambda>r w'. r = Some RC_OK \<longrightarrow> (\<exists>c. cell w' = Some c \<and> ctx_ready a c)) w"
  by (rule wp_dyad_init_fresh [OF assms(2) refl])
    (simp_all add: wp_init_body [OF assms(1) _ assms(3,4)])

definition sample_args :: init_args where
  "sample_args =
     \<lparr>a_debug = False, a_check = False, a_shared_storage = False, a_reinit = False,
      a_async_publish = False, a_fsync_write = False, a_key_depth = 3, a_key_bins = 1024,
      a_service_mux = 2, a_kvs_namespace = Some ''ns'', a_prod_managed_path = Some ''/a'',
      a_cons_managed_path = None, a_relative = False, a_dtl_mode = Some ''FLUX'',
      a_comm_mode = COMM_SEND, a_flux_handle = None, a_cache_capacity = 0, a_cache_policy = None,
      a_low_watermark = 8 / 10, a_grace_period = 5, a_origin_path = None\<rparr>"

theorem dyad_init_ready_witness:
  "fst (run_state (dyad_init still_flux sample_args) (ctx_world None)) = Some RC_OK
   \<and> (\<exists>c. cell (snd (run_state (dyad_init still_flux sample_args) (ctx_world None))) = Some c
          \<and> ctx_ready sample_args c)"
proof -
  have "wp (dyad_init still_flux sample_args) (\<lambda>r _. r = Some RC_OK) (ctx_world None)"
    by (simp add: dyad_init_def init_body_def init_names_def init_parts_def init_finish_def
        sample_args_def ctx_world_def still_flux_def no_flux_def wps wp_syscall sys_malloc_def wp_flux_call
        dyad_set_and_init_dtl_mode_def dyad_dtl_finalize_def dyad_dtl_init_def dyad_dtl_flux_init_def
        dyad_set_and_init_cache_policy_def dyad_cache_policy_finalize_def dyad_cache_policy_init_def
        dtl_mode_of_name_def cache_mode_of_name_def strncmp_eq_def dyad_set_prod_path_def
        dyad_set_cons_path_def load_managed_def load_real_def free_managed_def prod_fields_def
        cons_fields_def set_prod_fields_def set_cons_fields_def no_managed_def sample_hash
        dyad_ctx_default_def PATH_DELIM_def Let_def)
  then have ok: "fst (run_state (dyad_init still_flux sample_args) (ctx_world None)) = Some RC_OK"
    by (simp add: wp_run)
  have "wp (dyad_init still_flux sample_args)
     (\<lambda>r w'. r = Some RC_OK \<longrightarrow> (\<exists>c. cell w' = Some c \<and> ctx_ready sample_args c)) (ctx_world None)"
    by (rule dyad_init_ready) (simp_all add: asks_paths_def sample_args_def ctx_world_def short_paths_def)
  with ok show ?thesis by (simp add: wp_run)
qed


section \<open>Failure\<close>

lemma returns_dtl_init: "returns (\<lambda>rc. rc \<noteq> RC_NOCTX) (dyad_dtl_init m cm b)"
  unfolding dyad_dtl_init_def dyad_dtl_flux_init_def by (intro ret) simp_all

lemma returns_dtl_mode: "returns (\<lambda>rc. rc \<noteq> RC_NOCTX) (dyad_set_and_init_dtl_mode name cm)"
proof -
  have fin: "returns (\<lambda>rc. rc = RC_OK) dyad_dtl_finalize"
    unfolding dyad_dtl_finalize_def by (intro ret) simp_all
  show ?thesis
    unfolding dyad_set_and_init_dtl_mode_def
    by (intro ret ensures_bind_both [OF fin] returns_dtl_init) simp_all
qed

lemma returns_policy: "returns (\<lambda>rc. rc \<noteq> RC_NOCTX) (dyad_set_and_init_cache_policy name cap)"
proof -
  have fin: "returns (\<lambda>rc. rc = RC_OK) dyad_cache_policy_finalize"
    unfolding dyad_cache_policy_finalize_def by (intro ret) simp_all
  have init: "returns (\<lambda>rc. rc \<noteq> RC_NOCTX) (dyad_cache_policy_init m)" for m
    unfolding ensures_def by (auto intro!: wp_mono [OF wp_policy_init] simp: policy_init_result_def)
  show ?thesis
    unfolding dyad_set_and_init_cache_policy_def
  proof (rule ensures_option, simp add: ret, rule ensures_option, simp add: ret, goal_cases)
    case 1
    show ?case
      by (intro ensures_Let ensures_bind ensures_bind_both [OF fin] ensures_If ensures_return init) simp
  qed
qed

lemma init_parts_code: "returns (\<lambda>r. r \<noteq> Some RC_NOCTX) (init_parts a)"
  unfolding init_parts_def
proof (rule ensures_bind_both [OF returns_dtl_mode], rule ensures_If, simp add: ret, goal_cases)
  case 1
  show ?case
    by (rule ensures_bind_both [OF returns_policy], rule ensures_If) (intro ret, simp_all)+
qed

abbreviation fails_default :: "('e, 'x, dyad_rc) dio \<Rightarrow> bool" where
  "fails_default \<equiv> ensures (\<lambda>r w'. r = RC_NOCTX \<longrightarrow> cell w' = Some dyad_ctx_default)"

lemma init_failed_default: "rc \<noteq> RC_NOCTX \<Longrightarrow> fails_default (init_failed F rc)"
  unfolding ensures_def by (auto intro: wp_mono [OF init_failed_rc])

lemma init_finish_default: "rc \<noteq> RC_NOCTX \<Longrightarrow> fails_default (init_finish rc)"
  by (simp add: ensures_def init_finish_def wps)

lemma init_body_fails_default: "fails_default (init_body F a)"
proof -
  have delim: "PATH_DELIM \<noteq> []" by (simp add: PATH_DELIM_def)
  have parts: "fails_default (do { failed \<leftarrow> init_parts a;
       case failed of
         Some rc \<Rightarrow> init_failed F rc
       | None \<Rightarrow> do {
           upd_ctx (\<lambda>c. c\<lparr>relative_to_managed_path := a_relative a, use_fs_locks := True,
                          initialized := True\<rparr>);
           init_finish RC_OK } })"
    by (rule ensures_bind_both [OF init_parts_code])
      (auto intro!: ensures_option ensures_bind init_failed_default init_finish_default)
  show ?thesis
    unfolding init_body_def if_not_P [OF delim]
    by (intro parts ret init_failed_default init_finish_default) simp_all
qed

text \<open>
  C19: a failed \<^verbatim>\<open>dyad_init\<close> goes unnoticed the second time: the default context it leaves counts as
  initialised, so the next call reports success although there is no handle.
\<close>

theorem dyad_init_retry:
  assumes "asks_paths a" and "\<not> a_reinit a" and "cell w = None"
  shows "wp (do { r \<leftarrow> dyad_init F a; r' \<leftarrow> dyad_init F a; State_Monad.return (r, r') })
     (\<lambda>(r, r') w'. r = Some RC_NOCTX \<longrightarrow>
        r' = Some RC_OK \<and> (\<exists>c. cell w' = Some c \<and> ctx_h c = None \<and> dtl_handle c = None)) w"
proof -
  have again: "wp (do { r' \<leftarrow> dyad_init F a; State_Monad.return (Some RC_NOCTX, r') })
     (\<lambda>(r, r') w'. r = Some RC_NOCTX \<longrightarrow>
        r' = Some RC_OK \<and> (\<exists>c. cell w' = Some c \<and> ctx_h c = None \<and> dtl_handle c = None)) w'"
    if "cell w' = Some dyad_ctx_default" for w'
    using that assms(2) unfolding dyad_init_def by (simp add: wps init_finish_def dyad_ctx_default_def)
  show ?thesis
    unfolding wp_bind [of "dyad_init F a"]
  proof (rule wp_dyad_init_fresh [OF _ refl], goal_cases)
    case (2 w')
    show ?case
      by (rule wp_mono [OF init_body_fails_default [unfolded ensures_def, rule_format]])
        (use again in \<open>auto simp: wps wp_run\<close>)
  qed (use assms in \<open>simp_all add: wp_run wps\<close>)
qed

theorem dyad_init_retry_witness:
  "wp (do { r \<leftarrow> dyad_init still_flux (sample_args\<lparr>a_dtl_mode := None\<rparr>);
             r' \<leftarrow> dyad_init still_flux (sample_args\<lparr>a_dtl_mode := None\<rparr>);
             State_Monad.return (r, r') })
     (\<lambda>(r, r') w'. r = Some RC_NOCTX \<longrightarrow>
        r' = Some RC_OK \<and> (\<exists>c. cell w' = Some c \<and> ctx_h c = None \<and> dtl_handle c = None)) (ctx_world None)"
  by (rule dyad_init_retry) (simp_all add: asks_paths_def sample_args_def ctx_world_def)

end
