(* ===== verification/Getopt.thy ===== *)
theory Getopt
  imports Dyad_Base
begin

text \<open>
  \<^verbatim>\<open>getopt_long\<close> of the C library as the module and the command line tool use it: long options with
  unambiguous abbreviations and \<^verbatim>\<open>=\<close>, clusters of short options, arguments in the same word or the
  next, \<^verbatim>\<open>--\<close>, and operands moved behind the options. The result lists the values of the calls
  with \<^verbatim>\<open>optarg\<close>, and the operands; \<open>?\<close> is the value for an error.
\<close>

record opt_spec =
  o_name :: string
  o_arg :: bool
  o_letter :: char

type_synonym opt_call = "char \<times> string option"

definition opt_error :: opt_call where "opt_error = (CHR ''?'', None)"

definition find_long :: "opt_spec list \<Rightarrow> string \<Rightarrow> opt_spec option" where
  "find_long S n =
     (case filter (\<lambda>s. o_name s = n) S of
        s # _ \<Rightarrow> Some s
      | [] \<Rightarrow> (case filter (\<lambda>s. take (length n) (o_name s) = n) S of [s] \<Rightarrow> Some s | _ \<Rightarrow> None))"

definition find_short :: "opt_spec list \<Rightarrow> char \<Rightarrow> opt_spec option" where
  "find_short S c = (case filter (\<lambda>s. o_letter s = c) S of s # _ \<Rightarrow> Some s | [] \<Rightarrow> None)"

text \<open>The text of a long option before and after the first \<^verbatim>\<open>=\<close>.\<close>

definition split_eq :: "string \<Rightarrow> string \<times> string option" where
  "split_eq s =
     (let n = takeWhile (\<lambda>c. c \<noteq> CHR ''='') s in
      (n, case drop (length n) s of [] \<Rightarrow> None | _ # v \<Rightarrow> Some v))"

text \<open>Each of these also tells whether the next word was used as an argument.\<close>

fun short_cluster :: "opt_spec list \<Rightarrow> string \<Rightarrow> string option \<Rightarrow> opt_call list \<times> bool" where
  "short_cluster S [] next_word = ([], False)"
| "short_cluster S (c # cs) next_word =
     (case find_short S c of
        None \<Rightarrow> (let (os, used) = short_cluster S cs next_word in (opt_error # os, used))
      | Some s \<Rightarrow>
          if \<not> o_arg s then (let (os, used) = short_cluster S cs next_word in ((c, None) # os, used))
          else if cs \<noteq> [] then ([(c, Some cs)], False)
          else (case next_word of None \<Rightarrow> ([opt_error], False) | Some v \<Rightarrow> ([(c, Some v)], True)))"

definition long_option :: "opt_spec list \<Rightarrow> string \<Rightarrow> string option \<Rightarrow> opt_call list \<times> bool" where
  "long_option S w next_word =
     (let (n, val) = split_eq w in
      case find_long S n of
        None \<Rightarrow> ([opt_error], False)
      | Some s \<Rightarrow>
          if \<not> o_arg s then ([if val = None then (o_letter s, None) else opt_error], False)
          else (case (val, next_word) of
                  (Some v, _) \<Rightarrow> ([(o_letter s, Some v)], False)
                | (None, None) \<Rightarrow> ([opt_error], False)
                | (None, Some v) \<Rightarrow> ([(o_letter s, Some v)], True)))"

definition next_of :: "string list \<Rightarrow> string option" where
  "next_of ws = (case ws of [] \<Rightarrow> None | w # _ \<Rightarrow> Some w)"

function getopt_scan :: "opt_spec list \<Rightarrow> string list \<Rightarrow> opt_call list \<times> string list" where
  "getopt_scan S [] = ([], [])"
| "getopt_scan S (w # ws) =
     (if w = ''--'' then ([], ws)
      else if take 1 w = ''-'' \<and> length w > 1 then
        let (os, used) = (if take 2 w = ''--'' then long_option S (drop 2 w) (next_of ws)
                          else short_cluster S (drop 1 w) (next_of ws));
            (os', ns) = getopt_scan S (if used then tl ws else ws)
        in (os @ os', ns)
      else let (os, ns) = getopt_scan S ws in (os, w # ns))"
  by pat_completeness auto

termination by (relation "measure (\<lambda>(S, ws). length ws)") auto

text \<open>A word that is neither an option nor the end of the options stays an operand.\<close>

definition is_operand :: "string \<Rightarrow> bool" where
  "is_operand w \<longleftrightarrow> \<not> (take 1 w = ''-'' \<and> length w > 1)"

lemma getopt_scan_operand:
  "is_operand w \<Longrightarrow> getopt_scan S (w # ws) = (let (os, ns) = getopt_scan S ws in (os, w # ns))"
  by (auto simp: is_operand_def)

text \<open>Every operand is one of the words, in order, and no argument is lost or invented.\<close>

lemma short_cluster_letters:
  "(c, v) \<in> set (fst (short_cluster S cs w)) \<Longrightarrow> c = CHR ''?'' \<or> (\<exists>s \<in> set S. o_letter s = c \<and> (v \<noteq> None) = o_arg s)"
  by (induction S cs w rule: short_cluster.induct)
    (auto simp: find_short_def opt_error_def filter_eq_Cons_iff
      split: option.splits prod.splits if_splits list.splits)

lemma filter_head_mem: "filter P xs = x # ys \<Longrightarrow> x \<in> set xs"
  by (metis filter_is_subset list.set_intros(1) subsetD)

lemma long_option_letters:
  "(c, v) \<in> set (fst (long_option S n w)) \<Longrightarrow> c = CHR ''?'' \<or> (\<exists>s \<in> set S. o_letter s = c \<and> (v \<noteq> None) = o_arg s)"
proof -
  have mem: "s \<in> set S" if "find_long S m = Some s" for m s
    using that unfolding find_long_def by (auto split: list.splits dest: filter_head_mem)
  show "(c, v) \<in> set (fst (long_option S n w)) \<Longrightarrow> ?thesis"
    by (auto simp: long_option_def opt_error_def dest: mem
        split: prod.splits option.splits if_splits)
qed

text \<open>The calls return \<open>?\<close> or the letter of an option, with an argument exactly when it takes one.\<close>

lemma getopt_letters:
  "(c, v) \<in> set (fst (getopt_scan S ws)) \<Longrightarrow> c = CHR ''?'' \<or> (\<exists>s \<in> set S. o_letter s = c \<and> (v \<noteq> None) = o_arg s)"
proof (induction S ws arbitrary: c v rule: getopt_scan.induct)
  case (2 S w ws)
  show ?case
    using "2.prems" "2.IH" short_cluster_letters long_option_letters
    by (auto simp: Let_def split: prod.splits if_splits) (metis fst_conv)+
qed simp

end
