(* ===== verification/Module_Args.thy ===== *)
theory Module_Args
  imports Getopt
begin

text \<open>
  Command lines: the options of the Flux module (\<^verbatim>\<open>opt_parse\<close> of
  \<^verbatim>\<open>src/dyad/service/flux_module/dyad.c\<close>) and the tool that starts and stops it on all brokers
  (\<^verbatim>\<open>src/dyad/service/dyad_exe.c\<close>). Starting a process is an argument; what the programs print and
  the redirection of the logs are left out.
\<close>

section \<open>The options of the module\<close>

record opt_parse_out =
  opt_prod_managed_path :: "string option"
  opt_dtl_mode :: "string option"
  opt_origin_path :: "string option"
  opt_debug :: bool
  opt_showed_help :: bool

definition opt_none :: opt_parse_out where
  "opt_none = \<lparr>opt_prod_managed_path = None, opt_dtl_mode = None, opt_origin_path = None,
     opt_debug = False, opt_showed_help = False\<rparr>"

definition module_options :: "opt_spec list" where
  "module_options =
     [\<lparr>o_name = ''help'', o_arg = False, o_letter = CHR ''h''\<rparr>,
      \<lparr>o_name = ''debug'', o_arg = False, o_letter = CHR ''d''\<rparr>,
      \<lparr>o_name = ''mode'', o_arg = True, o_letter = CHR ''m''\<rparr>,
      \<lparr>o_name = ''info_log'', o_arg = True, o_letter = CHR ''i''\<rparr>,
      \<lparr>o_name = ''error_log'', o_arg = True, o_letter = CHR ''e''\<rparr>,
      \<lparr>o_name = ''origin_path'', o_arg = True, o_letter = CHR ''o''\<rparr>]"

text \<open>The body of the loop; \<open>None\<close> is the \<^verbatim>\<open>default\<close> case, which returns an error.\<close>

definition opt_switch :: "opt_call \<Rightarrow> opt_parse_out \<Rightarrow> opt_parse_out option" where
  "opt_switch call opt =
     (let (c, optarg) = call in
      if c = CHR ''h'' then Some (opt\<lparr>opt_showed_help := True\<rparr>)
      else if c = CHR ''d'' then Some (opt\<lparr>opt_debug := True\<rparr>)
      else if c = CHR ''m'' then Some (opt\<lparr>opt_dtl_mode := optarg\<rparr>)
      else if c = CHR ''i'' then Some opt
      else if c = CHR ''e'' then Some opt
      else if c = CHR ''o'' then Some (opt\<lparr>opt_origin_path := optarg\<rparr>)
      else if c = CHR ''?'' then Some opt
      else None)"

fun opt_loop :: "opt_call list \<Rightarrow> opt_parse_out \<Rightarrow> dyad_rc \<times> opt_parse_out" where
  "opt_loop [] opt = (RC_OK, opt)"
| "opt_loop (call # calls) opt =
     (case opt_switch call opt of None \<Rightarrow> (RC_SYSFAIL, opt) | Some opt \<Rightarrow> opt_loop calls opt)"

text \<open>The path is the last operand. The argument list is the one the broker passes, without a program name.\<close>

definition opt_parse :: "opt_parse_out \<Rightarrow> string list \<Rightarrow> dyad_rc \<times> opt_parse_out" where
  "opt_parse opt argv =
     (let (calls, operands) = getopt_scan module_options argv;
          (rc, opt) = opt_loop calls opt
      in if is_error rc then (rc, opt)
         else (RC_OK, opt\<lparr>opt_prod_managed_path := (if operands = [] then None else Some (last operands))\<rparr>))"

section \<open>The command line tool\<close>

record dyad_cli_args =
  cli_prod_managed_path :: "string option"
  cli_dtl_mode :: "string option"
  cli_origin_path :: "string option"
  cli_debug :: bool

definition cli_none :: dyad_cli_args where
  "cli_none = \<lparr>cli_prod_managed_path = None, cli_dtl_mode = None, cli_origin_path = None, cli_debug = False\<rparr>"

datatype action = INVALID_ACTION | ACT_START | ACT_STOP

definition cli_options :: "opt_spec list" where
  "cli_options =
     [\<lparr>o_name = ''help'', o_arg = False, o_letter = CHR ''h''\<rparr>,
      \<lparr>o_name = ''debug'', o_arg = False, o_letter = CHR ''d''\<rparr>,
      \<lparr>o_name = ''mode'', o_arg = True, o_letter = CHR ''m''\<rparr>,
      \<lparr>o_name = ''producer_managed_path'', o_arg = True, o_letter = CHR ''p''\<rparr>,
      \<lparr>o_name = ''info_log'', o_arg = True, o_letter = CHR ''i''\<rparr>,
      \<lparr>o_name = ''error_log'', o_arg = True, o_letter = CHR ''e''\<rparr>,
      \<lparr>o_name = ''origin_path'', o_arg = True, o_letter = CHR ''o''\<rparr>]"

definition EXIT_SUCCESS :: int where "EXIT_SUCCESS = 0"

definition EXIT_FAILURE :: int where "EXIT_FAILURE = 1"

text \<open>\<open>Inl\<close> is a call of \<^verbatim>\<open>usage\<close>, which ends the program with the status.\<close>

definition cli_switch :: "opt_call \<Rightarrow> dyad_cli_args \<Rightarrow> int + dyad_cli_args" where
  "cli_switch call args =
     (let (c, optarg) = call in
      if c = CHR ''h'' then Inl EXIT_SUCCESS
      else if c = CHR ''d'' then Inr (args\<lparr>cli_debug := True\<rparr>)
      else if c = CHR ''p'' then Inr (args\<lparr>cli_prod_managed_path := optarg\<rparr>)
      else if c = CHR ''m'' then Inr (args\<lparr>cli_dtl_mode := optarg\<rparr>)
      else if c = CHR ''i'' then Inr args
      else if c = CHR ''e'' then Inr args
      else if c = CHR ''o'' then Inr (args\<lparr>cli_origin_path := optarg\<rparr>)
      else if c = CHR ''?'' then Inr args
      else Inl EXIT_FAILURE)"

fun cli_loop :: "opt_call list \<Rightarrow> dyad_cli_args \<Rightarrow> int + dyad_cli_args" where
  "cli_loop [] args = Inr args"
| "cli_loop (call # calls) args =
     (case cli_switch call args of Inl st \<Rightarrow> Inl st | Inr args \<Rightarrow> cli_loop calls args)"

text \<open>Scanning starts behind the command, at \<^verbatim>\<open>argv[2]\<close>.\<close>

definition parse_cmd_arguments :: "string list \<Rightarrow> int + dyad_cli_args" where
  "parse_cmd_arguments argv = cli_loop (fst (getopt_scan cli_options (drop 2 argv))) cli_none"

text \<open>What \<^verbatim>\<open>fork\<close>, \<^verbatim>\<open>execvp\<close> and \<^verbatim>\<open>waitpid\<close> report: \<open>None\<close> is a failure of the call.\<close>

definition fork_exec_wait :: "(string list \<Rightarrow> int option) \<Rightarrow> string list \<Rightarrow> int" where
  "fork_exec_wait exec argv = (case exec argv of None \<Rightarrow> EXIT_FAILURE | Some status \<Rightarrow> status)"

definition load_command :: "string \<Rightarrow> string list" where
  "load_command dyad_module_path =
     [''flux'', ''exec'', ''-r'', ''all'', ''flux'', ''module'', ''load'', dyad_module_path]"

text \<open>The vector handed to the module, and the whole vector without its final \<^verbatim>\<open>NULL\<close>.\<close>

definition module_argv :: "dyad_cli_args \<Rightarrow> string list" where
  "module_argv args =
     (case cli_dtl_mode args of None \<Rightarrow> [] | Some m \<Rightarrow> [''--mode'', m])
     @ (case cli_origin_path args of None \<Rightarrow> [] | Some p \<Rightarrow> [''--origin_path'', p])
     @ (case cli_prod_managed_path args of None \<Rightarrow> [] | Some p \<Rightarrow> [p])"

definition dyad_start_service ::
  "(string list \<Rightarrow> int option) \<Rightarrow> string \<Rightarrow> dyad_cli_args \<Rightarrow> int" where
  "dyad_start_service exec libdir args =
     fork_exec_wait exec (load_command (libdir @ ''/dyad.so'') @ module_argv args)"

definition dyad_stop_service :: "(string list \<Rightarrow> int option) \<Rightarrow> int" where
  "dyad_stop_service exec =
     fork_exec_wait exec [''flux'', ''exec'', ''-r'', ''all'', ''flux'', ''module'', ''remove'', ''dyad'']"

definition action_of :: "string \<Rightarrow> action" where
  "action_of cmd = (if cmd = ''start'' then ACT_START else if cmd = ''stop'' then ACT_STOP else INVALID_ACTION)"

definition dyad_main :: "(string list \<Rightarrow> int option) \<Rightarrow> string \<Rightarrow> string list \<Rightarrow> int" where
  "dyad_main exec libdir argv =
     (if length argv < 2 then EXIT_FAILURE
      else
        let act = action_of (argv ! 1) in
        if act = INVALID_ACTION then EXIT_FAILURE
        else
          case parse_cmd_arguments argv of
            Inl status \<Rightarrow> status
          | Inr args \<Rightarrow>
              if act = ACT_START
              then (if cli_prod_managed_path args = None then EXIT_FAILURE
                    else dyad_start_service exec libdir args)
              else dyad_stop_service exec)"

section \<open>Parsing never fails\<close>

lemma opt_switch_defined:
  assumes "c = CHR ''?'' \<or> (\<exists>s \<in> set module_options. o_letter s = c \<and> (v \<noteq> None) = o_arg s)"
  shows "opt_switch (c, v) opt \<noteq> None"
  using assms by (auto simp: opt_switch_def module_options_def)

text \<open>
  Whatever the module is loaded with, \<^verbatim>\<open>opt_parse\<close> succeeds: an unknown option is the value
  \<open>?\<close> of \<^verbatim>\<open>getopt_long\<close>, which the loop passes over, so that the error return that
  the documentation promises for it is never reached.
\<close>

theorem opt_parse_total: "fst (opt_parse opt argv) = RC_OK"
proof -
  have loop: "fst (opt_loop calls opt) = RC_OK"
    if "\<And>c v. (c, v) \<in> set calls \<Longrightarrow>
          c = CHR ''?'' \<or> (\<exists>s \<in> set module_options. o_letter s = c \<and> (v \<noteq> None) = o_arg s)"
    for calls opt
    using that
  proof (induction calls arbitrary: opt)
    case (Cons call calls)
    obtain c v where call: "call = (c, v)" by fastforce
    with Cons.prems have "opt_switch call opt \<noteq> None"
      using opt_switch_defined [of c v opt] by simp
    then obtain opt' where "opt_switch call opt = Some opt'" by blast
    with Cons show ?case by simp
  qed simp
  obtain calls operands where scan: "getopt_scan module_options argv = (calls, operands)"
    by fastforce
  have "fst (opt_loop calls opt) = RC_OK"
    by (rule loop) (use getopt_letters [of _ _ module_options argv] scan in simp)
  then show ?thesis
    by (cases "opt_loop calls opt") (simp add: opt_parse_def scan)
qed

section \<open>The tool and the module agree\<close>

lemma module_options_long:
  "find_long module_options ''mode'' = Some \<lparr>o_name = ''mode'', o_arg = True, o_letter = CHR ''m''\<rparr>"
  "find_long module_options ''origin_path'' =
     Some \<lparr>o_name = ''origin_path'', o_arg = True, o_letter = CHR ''o''\<rparr>"
  by (simp_all add: find_long_def module_options_def)

lemma scan_long_words:
  "getopt_scan module_options (''--mode'' # v # ws) =
     (let (os, ns) = getopt_scan module_options ws in ((CHR ''m'', Some v) # os, ns))"
  "getopt_scan module_options (''--origin_path'' # v # ws) =
     (let (os, ns) = getopt_scan module_options ws in ((CHR ''o'', Some v) # os, ns))"
  by (simp_all add: long_option_def split_eq_def module_options_long next_of_def)

lemma module_reads_args:
  assumes "cli_prod_managed_path args = Some path" and "is_operand path"
  shows "opt_parse opt_none (module_argv args) =
      (RC_OK, \<lparr>opt_prod_managed_path = Some path, opt_dtl_mode = cli_dtl_mode args,
               opt_origin_path = cli_origin_path args, opt_debug = False, opt_showed_help = False\<rparr>)"
  using assms
  by (cases "cli_dtl_mode args"; cases "cli_origin_path args")
    (simp_all add: module_argv_def opt_parse_def scan_long_words getopt_scan_operand
      opt_switch_def opt_none_def del: getopt_scan.simps(2))

lemma module_argv_fits: "length (load_command lib @ module_argv args) + 1 \<le> 16"
  by (simp add: load_command_def module_argv_def split: option.split)

text \<open>
  C28: which options reach the module. When \<^verbatim>\<open>dyad start\<close> has parsed its command line, it runs one command: \<^verbatim>\<open>flux
  module load\<close> with words from which the module reads the mode, the origin path and the managed path exactly as they were
  given to the tool, and nothing else. The other options are lost: \<^verbatim>\<open>--debug\<close> is not handed on, so the
  module never runs with debugging on, and \<^verbatim>\<open>--info_log\<close> and \<^verbatim>\<open>--error_log\<close> are accepted by the tool and ignored. The words fit the 16 slots of the
  array with its final \<^verbatim>\<open>NULL\<close>.
\<close>

theorem start_args_roundtrip:
  assumes "2 \<le> length argv" and "argv ! 1 = ''start''" and "parse_cmd_arguments argv = Inr args"
    and "cli_prod_managed_path args = Some path" and "is_operand path"
  shows "\<exists>words. dyad_main exec libdir argv = fork_exec_wait exec (load_command (libdir @ ''/dyad.so'') @ words)
    \<and> opt_parse opt_none words =
      (RC_OK, \<lparr>opt_prod_managed_path = Some path, opt_dtl_mode = cli_dtl_mode args,
               opt_origin_path = cli_origin_path args, opt_debug = False, opt_showed_help = False\<rparr>)
    \<and> length (load_command (libdir @ ''/dyad.so'') @ words) + 1 \<le> 16"
  using assms module_reads_args [OF assms(4,5)] module_argv_fits [of "libdir @ ''/dyad.so''" args]
  by (intro exI [of _ "module_argv args"]) (simp add: dyad_main_def action_of_def dyad_start_service_def)

definition start_line :: "string list" where
  "start_line = [''dyad'', ''start'', ''--debug'', ''--info_log'', ''/l'', ''-m'', ''UCX'', ''-p'', ''/d'']"

theorem start_args_roundtrip_witness:
  "\<exists>words. dyad_main (\<lambda>_. Some 0) ''/lib'' start_line = fork_exec_wait (\<lambda>_. Some 0) (load_command (''/lib'' @ ''/dyad.so'') @ words)
    \<and> opt_parse opt_none words =
      (RC_OK, \<lparr>opt_prod_managed_path = Some ''/d'', opt_dtl_mode = Some ''UCX'',
               opt_origin_path = None, opt_debug = False, opt_showed_help = False\<rparr>)
    \<and> length (load_command (''/lib'' @ ''/dyad.so'') @ words) + 1 \<le> 16"
proof -
  have "parse_cmd_arguments start_line
      = Inr (cli_none\<lparr>cli_prod_managed_path := Some ''/d'', cli_dtl_mode := Some ''UCX'', cli_debug := True\<rparr>)"
    by code_simp
  from start_args_roundtrip [OF _ _ this, of "''/d''" "\<lambda>_. Some 0" "''/lib''"] show ?thesis
    by (simp add: start_line_def cli_none_def is_operand_def)
qed

end
