(* ===== verification/Service.thy ===== *)
theory Service
  imports Client Module_Args
begin

text \<open>
  The broker module, \<^verbatim>\<open>src/dyad/service/flux_module/dyad.c\<close>: the handlers that serve a file and a
  range of a file, the work items and what a worker thread and the completion callback do with
  them, starting and stopping the pool, and loading the module. The module's context structure is
  passed explicitly; its \<^verbatim>\<open>ctx\<close> is the context of the world. A handler's result \<open>None\<close> is undefined
  behaviour, as in the client. The order in which threads take these steps is the subject
  of the theory \<open>Fetch_Pool\<close>.
\<close>

section \<open>The context of the module\<close>

record work_item =
  wi_fullpath :: string
  wi_origin_fullpath :: string
  wi_has_origin :: bool
  wi_offset :: size_t
  wi_length :: size_t
  wi_inbuf :: "bytes option"
  wi_req_state :: "dyad_dtl_flux_req_state option"
  wi_msg :: flux_msg
  wi_thread_safe :: bool
  wi_rc :: dyad_rc
  wi_errno :: c_errno
  wi_range_len :: int

record mod_ctx =
  mc_has_ctx :: bool
  num_fetch_workers :: nat
  fetch_workers :: bool
  work_queue :: "work_item list"
  workers_shutdown :: bool
  pipe_open :: bool
  wakeups :: nat
  completion_watcher :: bool
  completion_queue :: "work_item list"

definition new_mod_ctx :: mod_ctx where
  "new_mod_ctx = \<lparr>mc_has_ctx = False, num_fetch_workers = 0, fetch_workers = False, work_queue = [],
     workers_shutdown = False, pipe_open = False, wakeups = 0, completion_watcher = False,
     completion_queue = []\<rparr>"

text \<open>The structure attached to the handle, made on first use; \<open>None\<close> when that fails.\<close>

definition get_mod_ctx :: "mod_ctx option \<Rightarrow> ('e, 'x, mod_ctx option) dio" where
  "get_mod_ctx aux =
     (case aux of
        Some m \<Rightarrow> State_Monad.return (Some m)
      | None \<Rightarrow> do {
          ok \<leftarrow> sys_malloc;
          if \<not> ok then State_Monad.return None
          else do {
            set \<leftarrow> sys_malloc;
            State_Monad.return (if set then Some new_mod_ctx else None) } })"

definition freectx :: "'e flux_ops \<Rightarrow> mod_ctx \<Rightarrow> ('e, 'x, unit) dio" where
  "freectx F m = (if mc_has_ctx m then dyad_ctx_fini F else State_Monad.return ())"

section \<open>Answering\<close>

text \<open>The end of a handler that failed: answer with \<^verbatim>\<open>errno\<close>, then restore it.\<close>

definition respond_failure :: "'e flux_ops \<Rightarrow> flux_handle \<Rightarrow> flux_msg \<Rightarrow> c_errno \<Rightarrow> ('e, 'x, unit) dio" where
  "respond_failure F h msg saved_errno = do {
     e \<leftarrow> get_errno;
     _ \<leftarrow> flux_call (fx_respond_error F (Some h) msg e);
     set_errno saved_errno }"

definition unlock_and_fail ::
  "'e flux_ops \<Rightarrow> flux_handle \<Rightarrow> flux_msg \<Rightarrow> c_errno \<Rightarrow> int \<Rightarrow> ('e, 'x, unit) dio" where
  "unlock_and_fail F h msg saved_errno fd = do {
     _ \<leftarrow> dyad_release_flock fd True;
     _ \<leftarrow> sys_close fd;
     respond_failure F h msg saved_errno }"

text \<open>Sending the buffer and closing the stream with \<^verbatim>\<open>ENODATA\<close>.\<close>

definition send_and_end ::
  "'e flux_ops \<Rightarrow> flux_handle \<Rightarrow> flux_msg \<Rightarrow> c_errno \<Rightarrow> bytes \<Rightarrow> ('e, 'x, unit) dio" where
  "send_and_end F h msg saved_errno inbuf = do {
     rc \<leftarrow> dyad_dtl_flux_establish_connection;
     if is_error rc then do { set_errno ECONNREFUSED; respond_failure F h msg saved_errno }
     else do {
       rc \<leftarrow> dyad_dtl_flux_send F inbuf;
       if is_error rc then do { set_errno ECOMM; respond_failure F h msg saved_errno }
       else do {
         _ \<leftarrow> dyad_dtl_flux_close_connection;
         _ \<leftarrow> dyad_dtl_flux_return_buffer (Some (Some inbuf));
         _ \<leftarrow> flux_call (fx_respond_error F (Some h) msg ENODATA);
         set_errno saved_errno } } }"

definition prod_file_path :: "string \<Rightarrow> string \<Rightarrow> string" where
  "prod_file_path managed upath =
     (let dir = copy_path managed in
      case concat_str True dir upath ''/'' PATH_MAX of None \<Rightarrow> dir | Some p \<Rightarrow> p)"

section \<open>Serving a whole file\<close>

text \<open>
  Reading a GiB and more in pieces: \<open>Some None\<close> is the jump to \<^verbatim>\<open>fetch_error\<close>; one unit of fuel per
  byte is enough.
\<close>

fun read_loop :: "nat \<Rightarrow> int \<Rightarrow> nat \<Rightarrow> bytes \<Rightarrow> ('x, bytes option option) io" where
  "read_loop fuel fd file_size read_data =
     (if \<not> length read_data < file_size then State_Monad.return (Some (Some read_data))
      else case fuel of
        0 \<Rightarrow> State_Monad.return None
      | Suc fuel \<Rightarrow> do {
          let left = file_size - length read_data;
          let read_size = (if left > TRANSFER_GRANULARITY then TRANSFER_GRANULARITY else left);
          (inlen, d) \<leftarrow> sys_read fd read_size;
          if inlen \<le> 0 then State_Monad.return (Some None)
          else read_loop fuel fd file_size (read_data @ d) })"

declare read_loop.simps [simp del]

text \<open>Into a buffer that could not be obtained, \<^verbatim>\<open>read\<close> fails with \<^verbatim>\<open>EFAULT\<close>.\<close>

definition read_file :: "bool \<Rightarrow> int \<Rightarrow> nat \<Rightarrow> ('x, bytes option option) io" where
  "read_file buffer fd file_size =
     (if \<not> buffer then do { set_errno EFAULT; State_Monad.return (Some None) }
      else if file_size < TRANSFER_GRANULARITY then do {
        (inlen, d) \<leftarrow> sys_read fd file_size;
        State_Monad.return (Some (if inlen \<noteq> int file_size then None else Some d)) }
      else do {
        r \<leftarrow> read_loop file_size fd file_size [];
        State_Monad.return
          (case r of Some (Some d) \<Rightarrow> Some (if length d \<noteq> file_size then None else Some d) | _ \<Rightarrow> r) })"

text \<open>Once the file is open and locked.\<close>

definition serve_locked ::
  "'e flux_ops \<Rightarrow> flux_handle \<Rightarrow> flux_msg \<Rightarrow> c_errno \<Rightarrow> int \<Rightarrow> ('e, 'x, unit option) dio" where
  "serve_locked F h msg saved_errno fd = do {
     file_size \<leftarrow> get_file_size fd;
     (rc, inbuf) \<leftarrow> dyad_dtl_flux_get_buffer (nat file_size) (Some None);
     if file_size > 0 then do {
       r \<leftarrow> read_file (rc = RC_OK) fd (nat file_size);
       case r of
         None \<Rightarrow> State_Monad.return None
       | Some None \<Rightarrow> do { unlock_and_fail F h msg saved_errno fd; State_Monad.return (Some ()) }
       | Some (Some d) \<Rightarrow> do {
           _ \<leftarrow> dyad_release_flock fd True;
           _ \<leftarrow> sys_close fd;
           send_and_end F h msg saved_errno d;
           State_Monad.return (Some ()) } }
     else do { unlock_and_fail F h msg saved_errno fd; State_Monad.return (Some ()) } }"

definition serve_file ::
  "'e flux_ops \<Rightarrow> flux_handle \<Rightarrow> flux_msg \<Rightarrow> c_errno \<Rightarrow> string \<Rightarrow> ('e, 'x, unit option) dio" where
  "serve_file F h msg saved_errno fullpath = do {
     (if DYAD_SPIN_WAIT then do { _ \<leftarrow> get_stat fullpath 1000 1000; State_Monad.return () }
      else State_Monad.return ());
     fd \<leftarrow> sys_open fullpath O_RDONLY 0;
     if fd < 0 then do { respond_failure F h msg saved_errno; State_Monad.return (Some ()) }
     else do {
       rc \<leftarrow> dyad_shared_flock fd True;
       if is_error rc then do { unlock_and_fail F h msg saved_errno fd; State_Monad.return (Some ()) }
       else serve_locked F h msg saved_errno fd } }"

definition dyad_fetch_request_cb :: "'e flux_ops \<Rightarrow> flux_handle \<Rightarrow> flux_msg \<Rightarrow> ('e, 'x, unit option) dio" where
  "dyad_fetch_request_cb F h msg = do {
     saved_errno \<leftarrow> get_errno;
     streaming \<leftarrow> State (\<lambda>w. (fx_msg_is_streaming F msg (flux w), w));
     if \<not> streaming then do {
       set_errno EPROTO;
       respond_failure F h msg saved_errno;
       State_Monad.return (Some ()) }
     else do {
       userid \<leftarrow> flux_call (fx_msg_get_userid F msg);
       if flux_failed userid then do { respond_failure F h msg saved_errno; State_Monad.return (Some ()) }
       else do {
         (rc, upath) \<leftarrow> dyad_dtl_flux_rpc_unpack F msg;
         if is_error rc then do {
           set_errno EPROTO;
           respond_failure F h msg saved_errno;
           State_Monad.return (Some ()) }
         else do {
           rc \<leftarrow> dyad_dtl_flux_rpc_respond msg;
           c \<leftarrow> the_ctx;
           if is_error rc then do { respond_failure F h msg saved_errno; State_Monad.return (Some ()) }
           else
             case prod_managed_path c of
               None \<Rightarrow> State_Monad.return None
             | Some managed \<Rightarrow> serve_file F h msg saved_errno (prod_file_path managed (the upath)) } } } }"

section \<open>Serving a range\<close>

text \<open>The length to serve, computed in \<^verbatim>\<open>ssize_t\<close>.\<close>

definition clamp_range :: "int \<Rightarrow> size_t \<Rightarrow> size_t \<Rightarrow> int" where
  "clamp_range file_size offset len =
     (if sint offset \<ge> file_size then 0
      else if sint (offset + len) > file_size then file_size - sint offset
      else sint len)"

fun pread_loop :: "nat \<Rightarrow> int \<Rightarrow> nat \<Rightarrow> size_t \<Rightarrow> bytes \<Rightarrow> ('x, bytes option option) io" where
  "pread_loop fuel fd range_len offset read_data =
     (if \<not> length read_data < range_len then State_Monad.return (Some (Some read_data))
      else case fuel of
        0 \<Rightarrow> State_Monad.return None
      | Suc fuel \<Rightarrow> do {
          let left = range_len - length read_data;
          let read_size = (if left > TRANSFER_GRANULARITY then TRANSFER_GRANULARITY else left);
          (inlen, d) \<leftarrow> sys_pread_at fd read_size (offset + of_nat (length read_data));
          if inlen \<le> 0 then State_Monad.return (Some None)
          else pread_loop fuel fd range_len offset (read_data @ d) })"

declare pread_loop.simps [simp del]

definition origin_file_path :: "dyad_ctx \<Rightarrow> string \<Rightarrow> string" where
  "origin_file_path c upath =
     (let dir = copy_path (the (origin_path c)) in
      case concat_str True dir upath ''/'' PATH_MAX of None \<Rightarrow> dir | Some p \<Rightarrow> p)"

text \<open>The synchronous path, for a module without workers.\<close>

definition read_range :: "int \<Rightarrow> nat \<Rightarrow> size_t \<Rightarrow> ('x, bytes option option) io" where
  "read_range fd range_len offset =
     (if range_len < TRANSFER_GRANULARITY then do {
        (inlen, d) \<leftarrow> sys_pread_at fd range_len offset;
        State_Monad.return (Some (if inlen \<noteq> int range_len then None else Some d)) }
      else do {
        r \<leftarrow> pread_loop range_len fd range_len offset [];
        State_Monad.return
          (case r of Some (Some d) \<Rightarrow> Some (if length d \<noteq> range_len then None else Some d) | _ \<Rightarrow> r) })"

definition serve_range_sync ::
  "'e flux_ops \<Rightarrow> flux_handle \<Rightarrow> flux_msg \<Rightarrow> c_errno \<Rightarrow> string \<Rightarrow> string \<Rightarrow> size_t \<Rightarrow> size_t
     \<Rightarrow> ('e, 'x, unit option) dio" where
  "serve_range_sync F h msg saved_errno fullpath upath offset len = do {
     c \<leftarrow> the_ctx;
     rc \<leftarrow> (if origin_path c \<noteq> None
           then dyad_range_cache_ensure fullpath (Some (origin_file_path c upath)) offset len
           else State_Monad.return (Some RC_OK));
     case rc of
       None \<Rightarrow> State_Monad.return None
     | Some rc \<Rightarrow>
         if is_error rc then do {
           set_errno EIO;
           respond_failure F h msg saved_errno;
           State_Monad.return (Some ()) }
         else do {
           fd \<leftarrow> sys_open fullpath O_RDONLY 0;
           if fd < 0 then do { respond_failure F h msg saved_errno; State_Monad.return (Some ()) }
           else do {
             rc \<leftarrow> dyad_shared_flock fd True;
             if is_error rc then do { unlock_and_fail F h msg saved_errno fd; State_Monad.return (Some ()) }
             else do {
               file_size \<leftarrow> get_file_size fd;
               let range_len = clamp_range file_size offset len;
               (rc, inbuf) \<leftarrow> dyad_dtl_flux_get_buffer (unat (of_int range_len :: size_t)) (Some None);
               if is_error rc then do { unlock_and_fail F h msg saved_errno fd; State_Monad.return (Some ()) }
               else do {
                 r \<leftarrow> (if range_len > 0 then read_range fd (nat range_len) offset
                      else State_Monad.return (Some (Some (the (the inbuf)))));
                 case r of
                   None \<Rightarrow> State_Monad.return None
                 | Some None \<Rightarrow> do { unlock_and_fail F h msg saved_errno fd; State_Monad.return (Some ()) }
                 | Some (Some d) \<Rightarrow> do {
                     _ \<leftarrow> dyad_release_flock fd True;
                     _ \<leftarrow> sys_close fd;
                     send_and_end F h msg saved_errno d;
                     State_Monad.return (Some ()) } } } } } }"

text \<open>Handing a request to the workers: the item, or \<open>None\<close> after the failure has been answered.\<close>

definition make_item ::
  "'e flux_ops \<Rightarrow> flux_handle \<Rightarrow> flux_msg \<Rightarrow> c_errno \<Rightarrow> string \<Rightarrow> string \<Rightarrow> size_t \<Rightarrow> size_t
     \<Rightarrow> ('e, 'x, work_item option) dio" where
  "make_item F h msg saved_errno fullpath upath offset len = do {
     c \<leftarrow> the_ctx;
     ok \<leftarrow> sys_malloc;
     if \<not> ok then do {
       set_errno ENOMEM;
       respond_failure F h msg saved_errno;
       State_Monad.return None }
     else do {
       flux_do (fx_msg_incref F (Some msg));
       (rc, req) \<leftarrow> dyad_dtl_flux_detach_request F;
       if is_error rc then do {
         flux_do (fx_msg_decref F (Some msg));
         set_errno EPROTO;
         respond_failure F h msg saved_errno;
         State_Monad.return None }
       else do {
         (rc, inbuf) \<leftarrow> dyad_dtl_flux_get_buffer (unat len) (Some None);
         if is_error rc then do {
           _ \<leftarrow> dyad_dtl_flux_abort_detached F (the req);
           flux_do (fx_msg_decref F (Some msg));
           set_errno ENOMEM;
           respond_failure F h msg saved_errno;
           State_Monad.return None }
         else State_Monad.return (Some
           \<lparr>wi_fullpath = fullpath,
            wi_origin_fullpath = (if origin_path c \<noteq> None then origin_file_path c upath else []),
            wi_has_origin = (origin_path c \<noteq> None), wi_offset = offset, wi_length = len,
            wi_inbuf = the inbuf, wi_req_state = req, wi_msg = msg,
            wi_thread_safe = send_detached_is_thread_safe (the (dtl_handle c)),
            wi_rc = RC_OK, wi_errno = E_NONE, wi_range_len = 0\<rparr>) } } }"

definition enqueue_item ::
  "'e flux_ops \<Rightarrow> flux_handle \<Rightarrow> flux_msg \<Rightarrow> c_errno \<Rightarrow> string \<Rightarrow> string \<Rightarrow> size_t \<Rightarrow> size_t
     \<Rightarrow> mod_ctx \<Rightarrow> ('e, 'x, mod_ctx option) dio" where
  "enqueue_item F h msg saved_errno fullpath upath offset len m = do {
     item \<leftarrow> make_item F h msg saved_errno fullpath upath offset len;
     State_Monad.return
       (Some (case item of None \<Rightarrow> m
              | Some item \<Rightarrow> m\<lparr>work_queue := work_queue m @ [item]\<rparr>)) }"

definition dyad_fetch_range_request_cb ::
  "'e flux_ops \<Rightarrow> flux_handle \<Rightarrow> flux_msg \<Rightarrow> mod_ctx \<Rightarrow> ('e, 'x, mod_ctx option) dio" where
  "dyad_fetch_range_request_cb F h msg m = do {
     saved_errno \<leftarrow> get_errno;
     streaming \<leftarrow> State (\<lambda>w. (fx_msg_is_streaming F msg (flux w), w));
     if \<not> streaming then do {
       set_errno EPROTO;
       respond_failure F h msg saved_errno;
       State_Monad.return (Some m) }
     else do {
       userid \<leftarrow> flux_call (fx_msg_get_userid F msg);
       if flux_failed userid then do { respond_failure F h msg saved_errno; State_Monad.return (Some m) }
       else do {
         (rc, req) \<leftarrow> dyad_dtl_flux_rpc_unpack_range F msg;
         if is_error rc then do {
           set_errno EPROTO;
           respond_failure F h msg saved_errno;
           State_Monad.return (Some m) }
         else do {
           rc \<leftarrow> dyad_dtl_flux_rpc_respond msg;
           c \<leftarrow> the_ctx;
           if is_error rc then do { respond_failure F h msg saved_errno; State_Monad.return (Some m) }
           else
             case (prod_managed_path c, the req) of
               (None, _) \<Rightarrow> State_Monad.return None
             | (Some managed, (upath, offset, len)) \<Rightarrow>
                 let fullpath = prod_file_path managed upath in
                 if dtl_has_detach (the (dtl_handle c)) \<and> num_fetch_workers m > 0
                 then enqueue_item F h msg saved_errno fullpath upath offset len m
                 else do {
                   r \<leftarrow> serve_range_sync F h msg saved_errno fullpath upath offset len;
                   State_Monad.return (if r = None then None else Some m) } } } } }"

section \<open>What a worker does\<close>

text \<open>The item a worker takes, when there is one.\<close>

definition take_item :: "mod_ctx \<Rightarrow> (work_item \<times> mod_ctx) option" where
  "take_item m =
     (case work_queue m of [] \<Rightarrow> None | item # rest \<Rightarrow> Some (item, m\<lparr>work_queue := rest\<rparr>))"

text \<open>The file part: the outcome is written into the item.\<close>

definition item_failed :: "c_errno \<Rightarrow> work_item \<Rightarrow> work_item" where
  "item_failed e item = item\<lparr>wi_rc := RC_BADFIO, wi_errno := e\<rparr>"

definition read_locked :: "work_item \<Rightarrow> int \<Rightarrow> ('x, work_item option) io" where
  "read_locked item fd = do {
     file_size \<leftarrow> get_file_size fd;
     let range_len = clamp_range file_size (wi_offset item) (wi_length item);
     r \<leftarrow> (if range_len > 0
          then pread_loop (nat range_len) fd (nat range_len) (wi_offset item) []
          else State_Monad.return (Some (Some [])));
     case r of
       None \<Rightarrow> State_Monad.return None
     | Some None \<Rightarrow> do {
         e \<leftarrow> get_errno;
         _ \<leftarrow> dyad_release_flock fd True;
         _ \<leftarrow> sys_close fd;
         State_Monad.return (Some (item_failed (if e = E_NONE then EIO else e) item)) }
     | Some (Some d) \<Rightarrow> do {
         _ \<leftarrow> dyad_release_flock fd True;
         _ \<leftarrow> sys_close fd;
         State_Monad.return (Some
           (item\<lparr>wi_rc := RC_OK, wi_range_len := range_len,
                 wi_inbuf := map_option (\<lambda>b. d @ drop (length d) b) (wi_inbuf item)\<rparr>)) } }"

definition read_item :: "work_item \<Rightarrow> ('x, work_item option) io" where
  "read_item item = do {
     fd \<leftarrow> sys_open (wi_fullpath item) O_RDONLY 0;
     if fd < 0 then do { e \<leftarrow> get_errno; State_Monad.return (Some (item_failed e item)) }
     else do {
       rc \<leftarrow> dyad_shared_flock fd True;
       if is_error rc then do {
         e \<leftarrow> get_errno;
         _ \<leftarrow> sys_close fd;
         State_Monad.return (Some (item_failed e item)) }
       else read_locked item fd } }"

definition dyad_fetch_worker_process :: "work_item \<Rightarrow> ('x, work_item option) io" where
  "dyad_fetch_worker_process item = do {
     rc \<leftarrow> (if wi_has_origin item
           then dyad_range_cache_ensure (wi_fullpath item) (Some (wi_origin_fullpath item))
                  (wi_offset item) (wi_length item)
           else State_Monad.return (Some RC_OK));
     case rc of
       None \<Rightarrow> State_Monad.return None
     | Some rc \<Rightarrow>
         if is_error rc then State_Monad.return (Some (item_failed EIO item))
         else read_item item }"

text \<open>
  The bytes a transport is given: the first \<open>range_len\<close> of the buffer. A negative \<open>range_len\<close>, which only a request for \<open>2 ^ 63\<close>
  bytes and more can have, stands in C for a length beyond the buffer; here it stops at its end. (No allocator has memory
  for such a request, so that no item is made for it.)
\<close>

definition item_data :: "work_item \<Rightarrow> bytes" where
  "item_data item = take (unat (of_int (wi_range_len item) :: size_t)) (the (wi_inbuf item))"

text \<open>The pipe of the completion queue holds 64 KiB; a wakeup that does not fit is lost.\<close>

definition PIPE_CAPACITY :: nat where "PIPE_CAPACITY = 65536"

text \<open>A thread-safe transport sends from the worker.\<close>

definition finish_send :: "'e flux_ops \<Rightarrow> work_item \<Rightarrow> ('e, 'x, work_item) dio" where
  "finish_send F item =
     (if \<not> wi_thread_safe item then State_Monad.return item
      else do {
        item \<leftarrow> (if \<not> is_error (wi_rc item) then do {
                   rc \<leftarrow> dyad_dtl_flux_send_detached F (the (wi_req_state item)) (item_data item);
                   State_Monad.return
                     (if is_error rc then item\<lparr>wi_rc := rc, wi_errno := ECOMM\<rparr> else item) }
                 else do {
                   _ \<leftarrow> dyad_dtl_flux_abort_detached F (the (wi_req_state item));
                   State_Monad.return item });
        State_Monad.return (item\<lparr>wi_req_state := None\<rparr>) })"

definition finish_append :: "work_item \<Rightarrow> mod_ctx \<Rightarrow> mod_ctx" where
  "finish_append item m = m\<lparr>completion_queue := completion_queue m @ [item]\<rparr>"

definition finish_wake :: "mod_ctx \<Rightarrow> mod_ctx" where
  "finish_wake m = m\<lparr>wakeups := (if wakeups m < PIPE_CAPACITY then wakeups m + 1 else wakeups m)\<rparr>"

definition dyad_fetch_worker_finish ::
  "'e flux_ops \<Rightarrow> work_item \<Rightarrow> mod_ctx \<Rightarrow> ('e, 'x, mod_ctx) dio" where
  "dyad_fetch_worker_finish F item m = do {
     item \<leftarrow> finish_send F item;
     State_Monad.return (finish_wake (finish_append item m)) }"

section \<open>What the completion callback does\<close>

definition dyad_fetch_work_item_destroy :: "'e flux_ops \<Rightarrow> work_item \<Rightarrow> ('e, 'x, unit) dio" where
  "dyad_fetch_work_item_destroy F item = do {
     (if wi_inbuf item \<noteq> None
      then do { _ \<leftarrow> dyad_dtl_flux_return_buffer (Some (wi_inbuf item)); State_Monad.return () }
      else State_Monad.return ());
     flux_do (fx_msg_decref F (Some (wi_msg item))) }"

definition complete_item :: "'e flux_ops \<Rightarrow> work_item \<Rightarrow> ('e, 'x, unit) dio" where
  "complete_item F item = do {
     c \<leftarrow> the_ctx;
     (if \<not> is_error (wi_rc item) then do {
        (case wi_req_state item of
           Some req \<Rightarrow> do {
             _ \<leftarrow> dyad_dtl_flux_send_detached F req (item_data item);
             State_Monad.return () }
         | None \<Rightarrow> State_Monad.return ());
        _ \<leftarrow> flux_call (fx_respond_error F (ctx_h c) (wi_msg item) ENODATA);
        State_Monad.return () }
      else do {
        (case wi_req_state item of
           Some req \<Rightarrow> do { _ \<leftarrow> dyad_dtl_flux_abort_detached F req; State_Monad.return () }
         | None \<Rightarrow> State_Monad.return ());
        _ \<leftarrow> flux_call (fx_respond_error F (ctx_h c) (wi_msg item) (wi_errno item));
        State_Monad.return () });
     dyad_fetch_work_item_destroy F item }"

fun complete_all :: "'e flux_ops \<Rightarrow> work_item list \<Rightarrow> ('e, 'x, unit) dio" where
  "complete_all F [] = State_Monad.return ()"
| "complete_all F (item # items) = do { complete_item F item; complete_all F items }"

definition drain_pipe :: "mod_ctx \<Rightarrow> mod_ctx" where
  "drain_pipe m = m\<lparr>wakeups := 0\<rparr>"

definition grab_completions :: "mod_ctx \<Rightarrow> work_item list \<times> mod_ctx" where
  "grab_completions m = (completion_queue m, m\<lparr>completion_queue := []\<rparr>)"

definition dyad_fetch_completion_watcher_cb :: "'e flux_ops \<Rightarrow> mod_ctx \<Rightarrow> ('e, 'x, mod_ctx) dio" where
  "dyad_fetch_completion_watcher_cb F m =
     (let (items, m) = grab_completions (drain_pipe m) in do {
        complete_all F items;
        State_Monad.return m })"

section \<open>Starting and stopping the pool\<close>

text \<open>A call that succeeds or fails for reasons of the system, as \<^verbatim>\<open>pipe\<close> and \<^verbatim>\<open>pthread_create\<close> do.\<close>

definition sys_ok :: "('x, bool) io" where
  "sys_ok = syscall (\<lambda>flt w. case flt of Err e \<Rightarrow> (False, w\<lparr>errno := e\<rparr>) | _ \<Rightarrow> (True, w))"

fun create_workers :: "nat \<Rightarrow> ('x, nat) io" where
  "create_workers 0 = State_Monad.return 0"
| "create_workers (Suc n) = do {
     ok \<leftarrow> sys_ok;
     if \<not> ok then State_Monad.return 0
     else do { k \<leftarrow> create_workers n; State_Monad.return (k + 1) } }"

definition worker_count :: "string option \<Rightarrow> nat" where
  "worker_count env_workers =
     (case env_workers of
        None \<Rightarrow> 8
      | Some s \<Rightarrow> let parsed = sint (c_atoi s) in if parsed > 0 then nat parsed else 8)"

definition dyad_fetch_pool_start :: "mod_ctx \<Rightarrow> ('e, 'x, dyad_rc \<times> mod_ctx) dio" where
  "dyad_fetch_pool_start m = do {
     env_workers \<leftarrow> sys_getenv ''DYAD_FETCH_WORKER_THREADS'';
     let num_workers = worker_count env_workers;
     ok \<leftarrow> sys_ok;
     if \<not> ok then State_Monad.return (RC_SYSFAIL, m)
     else do {
       let m = m\<lparr>pipe_open := True\<rparr>;
       ok \<leftarrow> sys_ok;
       if \<not> ok then State_Monad.return (RC_SYSFAIL, m\<lparr>completion_watcher := False\<rparr>)
       else do {
         let m = m\<lparr>completion_watcher := True\<rparr>;
         ok \<leftarrow> sys_malloc;
         if \<not> ok then State_Monad.return (RC_SYSFAIL, m\<lparr>fetch_workers := False\<rparr>)
         else do {
           i \<leftarrow> create_workers num_workers;
           let m = m\<lparr>fetch_workers := True, num_fetch_workers := i\<rparr>;
           State_Monad.return (if i = 0 then RC_SYSFAIL else RC_OK, m) } } } }"

text \<open>Before and after the workers have been joined.\<close>

definition pool_stop_signal :: "mod_ctx \<Rightarrow> mod_ctx" where
  "pool_stop_signal m = (if \<not> fetch_workers m then m else m\<lparr>workers_shutdown := True\<rparr>)"

definition pool_stop_end :: "mod_ctx \<Rightarrow> mod_ctx" where
  "pool_stop_end m = (if \<not> fetch_workers m then m else m\<lparr>completion_watcher := False\<rparr>)"

section \<open>Loading the module\<close>

definition dyad_module_ctx_init ::
  "'e flux_ops \<Rightarrow> nat \<Rightarrow> opt_parse_out \<Rightarrow> flux_handle \<Rightarrow> mod_ctx option
     \<Rightarrow> ('e, 'x, (dyad_rc \<times> mod_ctx option) option) dio" where
  "dyad_module_ctx_init F fuel opt h aux = do {
     m \<leftarrow> get_mod_ctx aux;
     case m of
       None \<Rightarrow> State_Monad.return (Some (RC_NOCTX, None))
     | Some m \<Rightarrow> do {
         made \<leftarrow> (case opt_prod_managed_path opt of
                   None \<Rightarrow> State_Monad.return (Some 0)
                 | Some p \<Rightarrow> do {
                     sys_setenv ''DYAD_PATH_PRODUCER'' p;
                     mkdir_as_needed fuel (Some p) DIR_MODE });
         (case opt_dtl_mode opt of None \<Rightarrow> State_Monad.return ()
          | Some d \<Rightarrow> sys_setenv ''DYAD_DTL_MODE'' d);
         (case opt_origin_path opt of None \<Rightarrow> State_Monad.return ()
          | Some p \<Rightarrow> sys_setenv ''DYAD_PATH_ORIGIN'' p);
         ns \<leftarrow> sys_getenv ''DYAD_KVS_NAMESPACE'';
         (if ns \<noteq> None then State_Monad.return ()
          else sys_setenv ''DYAD_KVS_NAMESPACE'' ''dyad_module_dummy_env'');
         r \<leftarrow> dyad_ctx_init F COMM_SEND (Some h);
         if made = None \<or> r = None then State_Monad.return None
         else do {
           c \<leftarrow> get_cell;
           let m = m\<lparr>mc_has_ctx := (c \<noteq> None)\<rparr>;
           if c = None then State_Monad.return (Some (RC_NOCTX, Some m))
           else do {
             upd_ctx (\<lambda>c. c\<lparr>ctx_h := Some h, ctx_debug := opt_debug opt\<rparr>);
             State_Monad.return
               (Some (if dtl_handle (the c) = None then RC_NOCTX else RC_OK, Some m)) } } } }"

text \<open>
  \<^verbatim>\<open>mod_main\<close>: registering the handlers and running the reactor are calls of Flux, the arguments
  \<open>addvec\<close> and \<open>run\<close>; the reactor leaves the module's structure as the handlers made it.
\<close>

definition mod_main ::
  "'e flux_ops \<Rightarrow> nat \<Rightarrow> ('e, 'x, bool) dio \<Rightarrow> (mod_ctx \<Rightarrow> ('e, 'x, bool \<times> mod_ctx) dio)
     \<Rightarrow> flux_handle option \<Rightarrow> string list \<Rightarrow> ('e, 'x, int option) dio" where
  "mod_main F fuel addvec run h argv =
     (case h of
        None \<Rightarrow> State_Monad.return (Some EXIT_SUCCESS)
      | Some h \<Rightarrow> do {
          aux \<leftarrow> get_mod_ctx None;
          let (rc, opt) = opt_parse opt_none argv;
          if is_error rc then State_Monad.return (Some EXIT_FAILURE)
          else if opt_showed_help opt then State_Monad.return (Some EXIT_SUCCESS)
          else do {
            r \<leftarrow> dyad_module_ctx_init F fuel opt h aux;
            case r of
              None \<Rightarrow> State_Monad.return None
            | Some (rc, m) \<Rightarrow>
                if is_error rc then State_Monad.return (Some EXIT_FAILURE)
                else if aux = None then State_Monad.return None
                else do {
                  ok \<leftarrow> addvec;
                  if \<not> ok then State_Monad.return (Some EXIT_FAILURE)
                  else do {
                    (_, m) \<leftarrow> dyad_fetch_pool_start (the m);
                    (ok, m) \<leftarrow> run m;
                    let m = pool_stop_end (pool_stop_signal m);
                    State_Monad.return (Some (if ok then EXIT_SUCCESS else EXIT_FAILURE)) } } } })"

end
