(* ===== verification/Service_Files.thy ===== *)
theory Service_Files
  imports Service Frames Samples
begin

text \<open>
  What the handler of the module sends: for every schedule of failures and short transfers, the data
  it answers a request with is the whole content of the requested file, read under the shared lock.
\<close>

section \<open>Reading at the offset of a descriptor\<close>

definition fd_off :: "'x world_scheme \<Rightarrow> int \<Rightarrow> nat \<Rightarrow> bool" where
  "fd_off w fd off \<longleftrightarrow> (\<exists>f. fds w (nat fd) = Some f \<and> o_off f = off)"

lemma wp_read_view:
  assumes g: "good w" and a: "fd_at w fd p True wr" and d: "fdata w p = Some d" and o: "fd_off w fd off"
    and fail: "\<And>w'. view w w' (fdata w) \<Longrightarrow> faults w \<noteq> [] \<Longrightarrow> Q (- 1, []) w'"
    and ok: "\<And>k w'. view w w' (fdata w) \<Longrightarrow> fd_off w' fd (off + k) \<Longrightarrow> k \<le> n \<Longrightarrow> k \<le> length (drop off d) \<Longrightarrow>
       k = min n (length (drop off d)) \<or> faults w \<noteq> [] \<Longrightarrow> Q (int k, take k (drop off d)) w'"
  shows "wp (sys_read fd n) Q w"
proof -
  from fd_at_inode [OF g a d] obtain f i where f: "inode_of_fd w fd = Some (f, i)" "\<not> i_dir i"
    "i_data i = d" "o_rd f" by auto
  with o have off: "o_off f = off" by (auto simp: fd_off_def inode_of_fd_Some)
  have fo: "fd_off (set_off fd j w') fd j" if "fds w' = fds w" for j :: nat and w' :: "'a world_scheme"
    using o that by (auto simp: fd_off_def set_off_def)
  have tk: "take m (drop off d) = take (min m (length (drop off d))) (drop off d)" for m
    by (simp add: min_def)
  show ?thesis
    unfolding sys_read_def
  proof (rule wp_syscall_cases, goal_cases)
    case 1
    let ?k = "min n (length d - off)"
    have "Q (int ?k, take ?k (drop off d)) (set_off fd (off + ?k) w)"
      by (rule ok [OF view_set_off [OF view_refl [OF g]] fo]) simp_all
    then show ?case
      using f off tk [of n] by (simp add: limit_def min.commute)
  next
    case (2 x xs)
    have "Q (int (min m (length d - off)), take (min m (length d - off)) (drop off d))
        (set_off fd (off + min m (length d - off)) (w\<lparr>faults := xs\<rparr>))" if "m \<le> n" for m
      by (rule ok [OF view_set_off [OF view_start [OF g 2]] fo]) (use that 2 in auto)
    then have k: "Q (int (min m (length d - off)), take m (drop off d))
        (set_off fd (off + min m (length d - off)) (w\<lparr>faults := xs\<rparr>))" if "m \<le> n" for m
      using that tk [of m] by simp
    show ?case
      using f off 2 fail [OF view_fail [OF g 2]] k [of n] k [of "min m n" for m]
      by (cases x) (simp_all add: limit_def min.commute)
  qed
qed

text \<open>A freshly opened descriptor stands at the beginning, and only reading moves it.\<close>

lemma wp_open_off: "wp (sys_open p fl m) (\<lambda>fd w'. fd \<noteq> - 1 \<longrightarrow> fd_off w' fd 0) w"
  unfolding sys_open_def fail_def
  by (rule wp_syscall_cases)
    (auto simp: new_fd_def fd_off_def split: fault.split option.split)

lemma keep_off [keep]:
  "keeps (\<lambda>w. fd_off w fd off) sys_malloc" "keeps (\<lambda>w. fd_off w fd off) (sys_fstat fd')"
  "keeps (\<lambda>w. fd_off w fd off) (sys_setlkw fd' k)" "keeps (\<lambda>w. fd_off w fd off) (sys_unlock fd')"
  unfolding sys_malloc_def sys_fstat_def sys_setlkw_def sys_unlock_def fail_def
  by (rule keeps_syscall,
      auto simp: fd_off_def set_lock_def set_data_def split: fault.split option.split prod.split)+

lemma keep_off_ops [keep]:
  "keeps (\<lambda>w. fd_off w fd off) (dyad_shared_flock fd' l)" "keeps (\<lambda>w. fd_off w fd off) (get_file_size fd')"
  unfolding dyad_shared_flock_def get_file_size_def by (intro keep)+

text \<open>Combining a rule with an invariant.\<close>

lemma wp_with:
  assumes "keeps I m" and "I w" and "wp m (\<lambda>a w'. I w' \<longrightarrow> Q a w') w"
  shows "wp m Q w"
  by (rule wp_mono [OF wp_conj [OF assms(3) keepsD [OF assms(1,2)]]]) blast

section \<open>Reading the whole file\<close>

lemma wp_read_loop:
  assumes "good w" "fd_at w fd p True wr" "fdata w p = Some d" "fd_off w fd (length acc)"
    and "acc = take (length acc) d" and "length d \<le> length acc + fuel"
  shows "wp (read_loop fuel fd (length d) acc)
     (\<lambda>r w'. view w w' (fdata w) \<and> (r = Some None \<and> faults w \<noteq> [] \<or> r = Some (Some d))) w"
  using assms
proof (induction fuel arbitrary: acc w)
  case 0
  then have "acc = d" by simp
  with 0 show ?case by (simp add: read_loop.simps)
next
  case (Suc fuel)
  show ?case
  proof (cases "length acc < length d")
    case False
    with Suc.prems(5) have "acc = d" by simp
    with Suc.prems show ?thesis by (simp add: read_loop.simps)
  next
    case True
    define n where "n = (if length d - length acc > TRANSFER_GRANULARITY then TRANSFER_GRANULARITY
                         else length d - length acc)"
    have n: "0 < n" using True by (simp add: n_def TRANSFER_GRANULARITY_def)
    have "wp (sys_read fd n) (\<lambda>(inlen, b) w'. wp (if inlen \<le> 0 then State_Monad.return (Some None)
            else read_loop fuel fd (length d) (acc @ b))
          (\<lambda>r w'. view w w' (fdata w) \<and> (r = Some None \<and> faults w \<noteq> [] \<or> r = Some (Some d))) w') w"
    proof (rule wp_read_view [OF Suc.prems(1-4)], goal_cases)
      case (1 w1)
      then show ?case by simp
    next
      case (2 k w1)
      note v = viewD [OF 2(1)]
      show ?case
      proof (cases "k = 0")
        case True
        then show ?thesis using 2 n \<open>length acc < length d\<close> by auto
      next
        case False
        let ?acc = "acc @ take k (drop (length acc) d)"
        have acc: "?acc = take (length acc + k) d" using Suc.prems(5) by (metis take_add)
        have len: "length ?acc = length acc + k" using 2(4) by simp
        have "wp (read_loop fuel fd (length d) ?acc)
           (\<lambda>r w'. view w1 w' (fdata w1) \<and> (r = Some None \<and> faults w1 \<noteq> [] \<or> r = Some (Some d))) w1"
        proof (rule Suc.IH [OF v(1) v(6) [OF Suc.prems(2)]])
          show "fdata w1 p = Some d" using v(2) Suc.prems(3) by simp
          show "fd_off w1 fd (length ?acc)" using 2(2) len by simp
          show "?acc = take (length ?acc) d" using acc len by simp
          show "length d \<le> length ?acc + fuel" using len False Suc.prems(6) by simp
        qed
        then show ?thesis
          using False v(2,7) 2(1) by (auto elim!: wp_mono intro: view_trans)
      qed
    qed
    with True show ?thesis
      unfolding read_loop.simps [of "Suc fuel"] Let_def n_def [symmetric]
      by (simp add: wp_bind case_prod_unfold)
  qed
qed

lemma wp_read_file:
  assumes "good w" "fd_at w fd p True wr" "fdata w p = Some d" "fd_off w fd 0"
  shows "wp (read_file buffer fd (length d))
     (\<lambda>r w'. view w w' (fdata w) \<and> (r = Some None \<and> (\<not> buffer \<or> faults w \<noteq> []) \<or> r = Some (Some d))) w"
proof -
  have loop: "wp (read_loop (length d) fd (length d) [])
     (\<lambda>r w'. view w w' (fdata w) \<and> (r = Some None \<and> faults w \<noteq> [] \<or> r = Some (Some d))) w"
    by (rule wp_read_loop [OF assms(1-3)]) (use assms(4) in simp_all)
  show ?thesis
  proof (cases buffer)
    case True
    have "wp (sys_read fd (length d)) (\<lambda>(inlen, b) w'. view w w' (fdata w)
       \<and> (inlen \<noteq> int (length d) \<and> faults w \<noteq> [] \<or> inlen = int (length d) \<and> b = d)) w"
      by (rule wp_read_view [OF assms]) auto
    then have "wp (sys_read fd (length d)) (\<lambda>(inlen, b) w'. view w w' (fdata w)
       \<and> ((if inlen \<noteq> int (length d) then None else Some b) = None \<and> faults w \<noteq> []
          \<or> (if inlen \<noteq> int (length d) then None else Some b) = Some d)) w"
      by (rule wp_mono) auto
    moreover have "wp (read_loop (length d) fd (length d) []) (\<lambda>r w'. view w w' (fdata w)
       \<and> ((case r of Some (Some b) \<Rightarrow> Some (if length b \<noteq> length d then None else Some b) | _ \<Rightarrow> r) = Some None
            \<and> faults w \<noteq> []
          \<or> (case r of Some (Some b) \<Rightarrow> Some (if length b \<noteq> length d then None else Some b) | _ \<Rightarrow> r) = Some (Some d))) w"
      by (rule wp_mono [OF loop], elim conjE disjE) simp_all
    ultimately show ?thesis
      using True unfolding read_file_def by (simp add: wps case_prod_unfold)
  qed (use view_errno [OF view_refl [OF assms(1)]] in \<open>simp add: wps read_file_def\<close>)
qed

section \<open>What Flux is relied on for\<close>

lemma dyad_parts [simp]:
  fixes w :: "('e, 'x) dworld"
  shows "good (w\<lparr>flux := s\<rparr>) = good w" "good (w\<lparr>cell := c\<rparr>) = good w" "good (w\<lparr>errno := e\<rparr>) = good w"
    "fdata (w\<lparr>flux := s\<rparr>) = fdata w" "fdata (w\<lparr>cell := c\<rparr>) = fdata w" "fdata (w\<lparr>errno := e\<rparr>) = fdata w"
    "is_dir (w\<lparr>flux := s\<rparr>) = is_dir w" "is_dir (w\<lparr>cell := c\<rparr>) = is_dir w"
    "is_dir (w\<lparr>errno := e\<rparr>) = is_dir w"
    "left_by_other (w\<lparr>flux := s\<rparr>) = left_by_other w" "left_by_other (w\<lparr>cell := c\<rparr>) = left_by_other w"
    "fd_at (w\<lparr>flux := s\<rparr>) = fd_at w" "fd_at (w\<lparr>cell := c\<rparr>) = fd_at w"
  by (simp_all add: good_def fun_eq_iff fd_at_def left_by_other_def fdata_def is_dir_def inode_of_path_def
      cong: option.case_cong)

text \<open>
  The answers Flux has accepted for delivery, as a part of its state: a response or an error is
  appended when the call succeeds and not otherwise, and the calls that look at a request send
  nothing.
\<close>

type_synonym reply = "flux_msg \<times> (bytes + c_errno)"

definition reply_laws :: "'e flux_ops \<Rightarrow> ('e \<Rightarrow> reply list) \<Rightarrow> bool" where
  "reply_laws F sent \<longleftrightarrow>
     (\<forall>h m d s r s'. fx_respond_raw F h (Some m) d s = (r, s') \<longrightarrow>
        sent s' = sent s @ (if r = Inr () then [(m, Inl d)] else []))
   \<and> (\<forall>h m e s r s'. fx_respond_error F h m e s = (r, s') \<longrightarrow>
        sent s' = sent s @ (if r = Inr () then [(m, Inr e)] else []))
   \<and> (\<forall>m s. sent (snd (fx_request_unpack F m s)) = sent s)
   \<and> (\<forall>m s. sent (snd (fx_msg_get_userid F m s)) = sent s)
   \<and> (\<forall>m s. sent (fx_msg_incref F m s) = sent s) \<and> (\<forall>m s. sent (fx_msg_decref F m s) = sent s)"

text \<open>Flux answers every call of the handler, and the request is a well-formed streaming request.\<close>

definition replies_work :: "'e flux_ops \<Rightarrow> flux_msg \<Rightarrow> string \<Rightarrow> bool" where
  "replies_work F msg upath \<longleftrightarrow>
     (\<forall>h m d s. fst (fx_respond_raw F h (Some m) d s) = Inr ())
   \<and> (\<forall>h m e s. fst (fx_respond_error F h m e s) = Inr ())
   \<and> (\<forall>s. fx_msg_is_streaming F msg s) \<and> (\<forall>s. \<exists>u. fst (fx_msg_get_userid F msg s) = Inr u)
   \<and> (\<forall>s. \<exists>obj. fst (fx_request_unpack F msg s) = Inr obj \<and> member_str ''upath'' obj = Some upath)"

text \<open>A request can only be read in one way.\<close>

definition request_for :: "'e flux_ops \<Rightarrow> flux_msg \<Rightarrow> string \<Rightarrow> bool" where
  "request_for F msg upath \<longleftrightarrow>
     (\<forall>s obj u. fst (fx_request_unpack F msg s) = Inr obj \<longrightarrow> member_str ''upath'' obj = Some u \<longrightarrow> u = upath)"

section \<open>What a request is answered\<close>

text \<open>Nothing, one error, or the whole content and after it the end of the stream.\<close>

definition answered :: "('e \<Rightarrow> reply list) \<Rightarrow> flux_msg \<Rightarrow> bytes option \<Rightarrow> 'e \<Rightarrow> 'e \<Rightarrow> bool" where
  "answered sent msg content s s' \<longleftrightarrow>
     sent s' = sent s \<or> (\<exists>e. sent s' = sent s @ [(msg, Inr e)])
   \<or> (\<exists>d. content = Some d \<and> d \<noteq> [] \<and>
        (sent s' = sent s @ [(msg, Inl d)] \<or> sent s' = sent s @ [(msg, Inl d), (msg, Inr ENODATA)]))"

definition answered_fully :: "('e \<Rightarrow> reply list) \<Rightarrow> flux_msg \<Rightarrow> bytes option \<Rightarrow> 'e \<Rightarrow> 'e \<Rightarrow> bool" where
  "answered_fully sent msg content s s' \<longleftrightarrow>
     (\<exists>d. content = Some d \<and> sent s' = sent s @ [(msg, Inl d), (msg, Inr ENODATA)])"

definition ready_to_send :: "('e, 'x) dworld \<Rightarrow> flux_msg \<Rightarrow> bool" where
  "ready_to_send w msg \<longleftrightarrow> (\<exists>c dt fd. cell w = Some c \<and> dtl_handle c = Some dt
     \<and> flux_dtl_handle dt = Some fd \<and> fdtl_msg fd = Some msg)"

lemma reply_lawsD:
  assumes "reply_laws F sent"
  shows "fx_respond_raw F h (Some m) d s = (r, s') \<Longrightarrow> sent s' = sent s @ (if r = Inr () then [(m, Inl d)] else [])"
    "fx_respond_error F h m e s = (r', s'') \<Longrightarrow> sent s'' = sent s @ (if r' = Inr () then [(m, Inr e)] else [])"
    "fx_request_unpack F m s = (q, t) \<Longrightarrow> sent t = sent s" "fx_msg_get_userid F m s = (u, t) \<Longrightarrow> sent t = sent s"
  using assms unfolding reply_laws_def by (blast, blast, metis snd_conv, metis snd_conv)

lemma wp_respond_failure:
  fixes w :: "('e, 'x) dworld"
  assumes "reply_laws F sent"
    and "\<And>w' :: ('e, 'x) dworld. fdata w' = fdata w \<Longrightarrow> answered sent msg None (flux w) (flux w') \<Longrightarrow> Q () w'"
  shows "wp (respond_failure F h msg se) Q w"
proof -
  obtain r s where r: "fx_respond_error F (Some h) msg (errno w) (flux w) = (r, s)" by fastforce
  with reply_lawsD(2) [OF assms(1) r] show ?thesis
    by (auto simp: respond_failure_def wps wp_flux_call answered_def split: sum.splits intro!: assms(2))
qed

lemma answered_mono: "answered sent msg None s s' \<Longrightarrow> answered sent msg c s s'"
  by (auto simp: answered_def)

lemma wp_unlock_and_fail:
  fixes w :: "('e, 'x) dworld"
  assumes "good w" "fd_at w fd p rd wr" "fdata w p = Some d" "reply_laws F sent"
    and "\<And>w' :: ('e, 'x) dworld. fdata w' = fdata w \<Longrightarrow> answered sent msg None (flux w) (flux w') \<Longrightarrow> Q () w'"
  shows "wp (unlock_and_fail F h msg se fd) Q w"
  unfolding unlock_and_fail_def wp_bind
proof (rule wp_posix_with [OF posix_flocks(4)], rule wp_release_flock_view [OF assms(1-3)], intro impI, goal_cases)
  case (1 rc w1)
  note v = viewD [OF 1(1)] and fl = more_eq_parts(6) [OF 1(2)]
  have fd: "0 \<le> fd" using assms(2) by (simp add: fd_at_def)
  show ?case
  proof (rule wp_posix_with [OF posix_sys(3)], rule wp_close_view [OF v(1) fd], intro impI, goal_cases)
    case (1 r w2)
    then have "fdata w2 = fdata w" "flux w2 = flux w"
      using v(2) fl more_eq_parts(6) [OF 1(2)] by (simp_all add: closed_def)
    then show ?case
      by (intro wp_respond_failure [OF assms(4)] assms(5)) simp_all
  qed
qed

lemma wp_send_and_end:
  fixes w :: "('e, 'x) dworld"
  assumes "reply_laws F sent" "ready_to_send w msg" "fdata w p = Some d" "d \<noteq> []"
  shows "wp (send_and_end F h msg se d) (\<lambda>_ w'. fdata w' = fdata w
     \<and> answered sent msg (fdata w' p) (flux w) (flux w')
     \<and> (replies_work F msg upath \<longrightarrow> answered_fully sent msg (fdata w' p) (flux w) (flux w'))) w"
proof -
  from assms(2) obtain c dt fd where c: "cell w = Some c" "dtl_handle c = Some dt"
    "flux_dtl_handle dt = Some fd" "fdtl_msg fd = Some msg"
    by (auto simp: ready_to_send_def)
  obtain r1 s1 where r1: "fx_respond_raw F (fdtl_h fd) (Some msg) d (flux w) = (r1, s1)" by fastforce
  obtain r2 s2 where r2: "fx_respond_error F (Some h) msg ENODATA s1 = (r2, s2)" by fastforce
  note laws = reply_lawsD(1) [OF assms(1) r1] reply_lawsD(2) [OF assms(1) r2]
  show ?thesis
  proof (cases r1)
    case (Inl e)
    let ?w = "w\<lparr>flux := s1, errno := ECOMM\<rparr>"
    have none: "\<not> replies_work F msg upath"
      using r1 Inl unfolding replies_work_def by (metis fst_conv sum.distinct(1))
    have "wp (respond_failure F h msg se) (\<lambda>_ w'. fdata w' = fdata w
       \<and> answered sent msg (fdata w' p) (flux w) (flux w')) ?w"
      using laws(1) Inl
      by (intro wp_respond_failure [OF assms(1)]) (auto simp: answered_def)
    then show ?thesis
      using none r1 Inl c
      by (simp add: send_and_end_def dyad_dtl_flux_establish_connection_def dyad_dtl_flux_send_def wps
          wp_flux_call flux_failed_def)
  next
    case (Inr u)
    have "replies_work F msg upath \<Longrightarrow> r2 = Inr ()"
      using r2 unfolding replies_work_def by (metis fst_conv)
    with laws Inr assms(3,4) c r1 r2 show ?thesis
      by (cases r2) (auto simp: send_and_end_def dyad_dtl_flux_establish_connection_def dyad_dtl_flux_send_def
          dyad_dtl_flux_close_connection_def dyad_dtl_flux_return_buffer_def wps
          wp_flux_call flux_failed_def answered_def answered_fully_def)
  qed
qed

section \<open>Serving the file\<close>

lemma wp_open_rd:
  assumes "good w" and "\<not> is_dir w p"
    and "\<And>w'. view w w' (fdata w) \<Longrightarrow> world.more w' = world.more w \<Longrightarrow> faults w \<noteq> [] \<or> fdata w p = None \<Longrightarrow> Q (- 1) w'"
    and "\<And>fd d w'. view w w' (fdata w) \<Longrightarrow> world.more w' = world.more w \<Longrightarrow> 0 \<le> fd \<Longrightarrow>
       fd_at w' fd p True False \<Longrightarrow> fd_off w' fd 0 \<Longrightarrow> fdata w p = Some d \<Longrightarrow> Q fd w'"
  shows "wp (sys_open p O_RDONLY m) Q w"
proof -
  have rd: "opens_read O_RDONLY" "\<not> opens_write O_RDONLY" "\<not> has_flag O_RDONLY O_CREAT"
    "\<not> has_flag O_RDONLY O_DIRECTORY"
    by (simp_all add: oflag_defs)
  have "wp (sys_open p O_RDONLY m) (\<lambda>fd w'. view w w' (fdata w)
      \<and> (fd = - 1 \<and> (faults w \<noteq> [] \<or> fdata w p = None)
         \<or> 0 \<le> fd \<and> fd_at w' fd p True False \<and> fdata w p \<noteq> None)) w"
    by (rule wp_open_view [OF assms(1,2)]) (use rd in \<open>auto simp: open_ok_def opened_def split: if_splits\<close>)
  from wp_posix [OF posix_sys(2) wp_conj [OF this wp_open_off]] show ?thesis
    by (rule wp_mono) (use assms(3,4) in force)
qed

definition servable :: "'x world_scheme \<Rightarrow> string \<Rightarrow> bool" where
  "servable w p \<longleftrightarrow> faults w = [] \<and> (\<exists>d. fdata w p = Some d \<and> d \<noteq> []) \<and> (\<forall>d. left_by_other w p d \<longrightarrow> d \<noteq> [])"

definition serves ::
  "'e flux_ops \<Rightarrow> ('e \<Rightarrow> reply list) \<Rightarrow> flux_msg \<Rightarrow> string \<Rightarrow> string \<Rightarrow> ('e, 'x) dworld \<Rightarrow> ('e, 'x) dworld \<Rightarrow> bool" where
  "serves F sent msg upath p w w' \<longleftrightarrow> answered sent msg (fdata w' p) (flux w) (flux w')
     \<and> (replies_work F msg upath \<and> servable w p \<longrightarrow> answered_fully sent msg (fdata w' p) (flux w) (flux w'))"

lemma serves_failed:
  fixes w w1 w' :: "('e, 'x) dworld"
  assumes "answered sent msg None (flux w1) (flux w')" "world.more w1 = world.more w" "\<not> servable w p"
  shows "serves F sent msg upath p w w'"
  using assms more_eq_parts(6) [OF assms(2)] by (simp add: serves_def answered_mono)

lemma wp_give_up:
  fixes w w1 :: "('e, 'x) dworld"
  assumes "reply_laws F sent" "good w1" "fd_at w1 fd p True False" "fdata w1 p = Some d"
    and "world.more w1 = world.more w" "\<not> servable w p"
  shows "wp (do { unlock_and_fail F h msg se fd; State_Monad.return (Some ()) })
     (\<lambda>r w'. r = Some () \<and> serves F sent msg upath p w w') w1"
  unfolding wp_bind
  by (rule wp_unlock_and_fail [OF assms(2-4,1)]) (simp add: serves_failed [OF _ assms(5,6)])

lemma ready_to_send_more: "world.more w1 = world.more w \<Longrightarrow> ready_to_send w1 msg = ready_to_send w msg"
  for w w1 :: "('e, 'x) dworld"
  by (drule more_eq_parts(1)) (simp add: ready_to_send_def)

lemma posix_read_file [posix]: "posix_only (read_file b fd n)"
proof -
  have "posix_only (read_loop fuel fd n acc)" for fuel acc
    by (induction fuel arbitrary: acc)
      (subst read_loop.simps; intro posix; simp add: posix)+
  then show ?thesis unfolding read_file_def by (intro posix)
qed

lemma wp_unlock_send:
  fixes w w4 :: "('e, 'x) dworld"
  assumes "good w4" "fd_at w4 fd p True False" "fdata w4 p = Some d" "world.more w4 = world.more w"
    and "d \<noteq> []" "ready_to_send w msg" "reply_laws F sent"
  shows "wp (do { _ \<leftarrow> dyad_release_flock fd True;
       _ \<leftarrow> sys_close fd; send_and_end F h msg se d; State_Monad.return (Some ()) })
     (\<lambda>r w'. r = Some () \<and> serves F sent msg upath p w w') w4"
  unfolding wp_bind
proof (rule wp_posix_with [OF posix_flocks(4)], rule wp_release_flock_view [OF assms(1-3)], intro impI, goal_cases)
  case (1 rc w5)
  note v = viewD [OF 1(1)] and m5 = 1(2) [unfolded assms(4)]
  have fd: "0 \<le> fd" using assms(2) by (simp add: fd_at_def)
  show ?case
  proof (rule wp_posix_with [OF posix_sys(3)], rule wp_close_view [OF v(1) fd], intro impI, goal_cases)
    case (1 r w6)
    then have m6: "world.more w6 = world.more w" and d6: "fdata w6 p = Some d"
      using v(2) m5 assms(3) by (simp_all add: closed_def)
    have rs: "ready_to_send w6 msg" using assms(6) ready_to_send_more [OF m6] by simp
    show ?case
      by (rule wp_mono [OF wp_send_and_end [OF assms(7) rs d6 assms(5)]])
        (use more_eq_parts(6) [OF m6] in \<open>auto simp: serves_def\<close>)
  qed
qed

lemma wp_serve_locked:
  fixes w w1 :: "('e, 'x) dworld"
  assumes "good w1" "fd_at w1 fd p True False" "fdata w1 p = Some d" "fd_off w1 fd 0"
    and "world.more w1 = world.more w" "servable w p \<longrightarrow> faults w1 = [] \<and> d \<noteq> []"
    and "ready_to_send w msg" "reply_laws F sent"
  shows "wp (serve_locked F h msg se fd) (\<lambda>r w'. r = Some () \<and> serves F sent msg upath p w w') w1"
  unfolding serve_locked_def wp_bind
proof (rule wp_posix_with [OF posix_attrs(4)], rule wp_with [OF keep_off_ops(2) assms(4)],
    rule wp_get_file_size_view [OF assms(1-3)], intro impI, goal_cases)
  case (1 size w2)
  note v2 = viewD [OF 1(1)] and m2 = 1(4) [unfolded assms(5)] and o2 = 1(3) and sz = 1(2)
  have at2: "fd_at w2 fd p True False" and d2: "fdata w2 p = Some d"
    using v2(6) [OF assms(2)] v2(2) assms(3) by simp_all
  have nf2: "servable w p \<Longrightarrow> faults w2 = [] \<and> size = int (length d) \<and> d \<noteq> []"
    using assms(6) v2(7) sz by auto
  show ?case
    unfolding dyad_dtl_flux_get_buffer_def wp_bind [of sys_malloc]
  proof (simp only: not_False_eq_True option.simps simp_thms if_False wp_bind,
      rule wp_posix_with [OF posix_sys(1)], rule wp_with [OF keep_off(1) o2],
      rule wp_malloc_view [OF v2(1)], intro impI, goal_cases)
    case (1 ok w3)
    note v3 = viewD [OF 1(1)] and m3 = 1(4) [unfolded m2] and o3 = 1(3)
    have at3: "fd_at w3 fd p True False" and d3: "fdata w3 p = Some d"
      using v3(6) [OF at2] v3(2) d2 by simp_all
    have nf3: "servable w p \<Longrightarrow> faults w3 = [] \<and> ok"
      using nf2 v3(7) 1(2) by auto
    have up: "wp (do { unlock_and_fail F h msg se fd; State_Monad.return (Some ()) })
       (\<lambda>r w'. r = Some () \<and> serves F sent msg upath p w w') w3" if "\<not> servable w p"
      by (rule wp_give_up [OF assms(8) v3(1) at3 d3 m3 that])
    show ?case
    proof (cases "0 < size")
      case False
      then have "\<not> servable w p" using nf2 by auto
      with up False show ?thesis by (simp add: wps)
    next
      case True
      with sz have size: "nat size = length d" by auto
      have fin: "wp (case r of
             None \<Rightarrow> State_Monad.return None
           | Some None \<Rightarrow> do { unlock_and_fail F h msg se fd; State_Monad.return (Some ()) }
           | Some (Some d) \<Rightarrow> do {
               _ \<leftarrow> dyad_release_flock fd True;
               _ \<leftarrow> sys_close fd;
               send_and_end F h msg se d;
               State_Monad.return (Some ()) })
           (\<lambda>r w'. r = Some () \<and> serves F sent msg upath p w w') w4"
        if v: "view w3 w4 (fdata w3)" and m: "world.more w4 = world.more w3"
          and r: "r = Some None \<and> (\<not> ok \<or> faults w3 \<noteq> []) \<or> r = Some (Some d)" for r w4
      proof -
        note v4 = viewD [OF v]
        have at4: "fd_at w4 fd p True False" and d4: "fdata w4 p = Some d" and m4: "world.more w4 = world.more w"
          using v4(6) [OF at3] v4(2) d3 m m3 by simp_all
        from r show ?thesis
        proof (rule disjE)
          assume "r = Some None \<and> (\<not> ok \<or> faults w3 \<noteq> [])"
          moreover from this have "\<not> servable w p" using nf3 by auto
          ultimately show ?thesis
            using wp_give_up [OF assms(8) v4(1) at4 d4 m4] by simp
        next
          assume "r = Some (Some d)"
          moreover have "wp (do { _ \<leftarrow> dyad_release_flock fd True;
               _ \<leftarrow> sys_close fd; send_and_end F h msg se d; State_Monad.return (Some ()) })
           (\<lambda>r w'. r = Some () \<and> serves F sent msg upath p w w') w4"
            by (rule wp_unlock_send [OF v4(1) at4 d4 m4 _ assms(7,8)]) (use True size in auto)
          ultimately show ?thesis by simp
        qed
      qed
      have "wp (read_file ok fd (length d)) (\<lambda>r w'. (view w3 w' (fdata w3)
          \<and> (r = Some None \<and> (\<not> ok \<or> faults w3 \<noteq> []) \<or> r = Some (Some d)))
          \<and> world.more w' = world.more w3) w3"
        by (rule wp_posix [OF posix_read_file wp_read_file [OF v3(1) at3 d3 o3]])
      then show ?thesis
        using True size by (cases ok) (auto simp: wps elim!: wp_mono intro!: fin)
    qed
  qed
qed

lemma wp_serve_file:
  fixes w :: "('e, 'x) dworld"
  assumes "good w" "\<not> is_dir w p" "ready_to_send w msg" "reply_laws F sent"
  shows "wp (serve_file F h msg se p) (\<lambda>r w'. r = Some () \<and> serves F sent msg upath p w w') w"
  unfolding serve_file_def wp_bind
proof (simp only: DYAD_SPIN_WAIT_def if_False wp_return, rule wp_open_rd [OF assms(1,2)], goal_cases)
  case (1 w1)
  have "\<not> servable w p" using 1(3) by (auto simp: servable_def)
  then show ?case
    by (auto simp: wps intro!: wp_respond_failure [OF assms(4)] serves_failed [OF _ 1(2)])
next
  case (2 fd d w1)
  note v1 = viewD [OF 2(1)] and mw1 = 2(2) and at1 = 2(4) and dw = 2(6)
  have d1: "fdata w1 p = Some d" using v1(2) dw by simp
  have nneg: "\<not> fd < 0" using 2(3) by simp
  show ?case
    unfolding if_not_P [OF nneg] wp_bind
  proof (rule wp_posix_with [OF posix_flocks(3)], rule wp_with [OF keep_off_ops(1) 2(5)],
      rule wp_shared_flock_view [OF v1(1) at1 d1], goal_cases)
    case (1 w2)
    note v2 = viewD [OF 1(1)]
    have ns: "\<not> servable w p" using 1(2) v1(7) by (auto simp: servable_def)
    show ?case
      using wp_give_up [OF assms(4) v2(1) v2(6) [OF at1] _ _ ns] v2(2) d1 mw1 by auto
  next
    case (2 F' w2)
    note v2 = viewD [OF 2(1)]
    obtain d2 where d2: "fdata w2 p = Some d2" "d2 = d \<or> left_by_other w p d2"
      using 2(2) v2(2) d1 v1(2,3) by auto
    have ok: "servable w p \<longrightarrow> faults w2 = [] \<and> d2 \<noteq> []"
      using d2(2) dw v1(7) v2(7) by (auto simp: servable_def)
    show ?case
      using wp_serve_locked [OF v2(1) v2(6) [OF at1] d2(1) _ _ ok assms(3,4)] mw1 by auto
  qed
qed

section \<open>The handler\<close>

definition module_ready :: "('e, 'x) dworld \<Rightarrow> string \<Rightarrow> bool" where
  "module_ready w managed \<longleftrightarrow> (\<exists>c dt fd. cell w = Some c \<and> prod_managed_path c = Some managed
     \<and> dtl_handle c = Some dt \<and> flux_dtl_handle dt = Some fd)"

text \<open>Up to the file nothing but Flux's state, \<^verbatim>\<open>errno\<close> and the transport handle has changed.\<close>

definition same_files_sent :: "('e \<Rightarrow> reply list) \<Rightarrow> ('e, 'x) dworld \<Rightarrow> ('e, 'x) dworld \<Rightarrow> bool" where
  "same_files_sent sent w w' \<longleftrightarrow> fdata w' = fdata w \<and> left_by_other w' = left_by_other w
     \<and> is_dir w' = is_dir w \<and> good w' = good w \<and> faults w' = faults w \<and> sent (flux w') = sent (flux w)"

lemma serves_from:
  assumes "same_files_sent sent w w1" and "serves F sent msg upath p w1 w'"
  shows "serves F sent msg upath p w w'"
  using assms by (simp add: same_files_sent_def serves_def answered_def answered_fully_def servable_def)

lemma serves_respond_failure:
  fixes w w1 :: "('e, 'x) dworld"
  assumes "reply_laws F sent" "same_files_sent sent w w1" "\<not> replies_work F msg upath"
  shows "wp (respond_failure F h msg se) (\<lambda>_. serves F sent msg upath p w) w1"
  by (rule wp_respond_failure [OF assms(1)])
    (use assms(2,3) in \<open>auto simp: serves_def same_files_sent_def answered_def\<close>)

lemma wp_fetch_request:
  fixes w :: "('e, 'x) dworld"
  assumes laws: "reply_laws F sent" and req: "request_for F msg upath" and g: "good w"
    and ready: "module_ready w managed" and nd: "\<not> is_dir w (prod_file_path managed upath)"
  shows "wp (dyad_fetch_request_cb F h msg)
     (\<lambda>r w'. r = Some () \<and> serves F sent msg upath (prod_file_path managed upath) w w') w"
proof -
  let ?post = "\<lambda>r w'. r = Some () \<and> serves F sent msg upath (prod_file_path managed upath) w w'"
  from ready obtain c dt fd where c: "cell w = Some c" "prod_managed_path c = Some managed"
    "dtl_handle c = Some dt" "flux_dtl_handle dt = Some fd"
    by (auto simp: module_ready_def)
  obtain u s1 where u: "fx_msg_get_userid F msg (flux w) = (u, s1)" by fastforce
  obtain q s2 where q: "fx_request_unpack F msg s1 = (q, s2)" by fastforce
  note sent = reply_lawsD(3) [OF laws q] reply_lawsD(4) [OF laws u]
  have fails: "wp (respond_failure F h msg se) (\<lambda>_. serves F sent msg upath (prod_file_path managed upath) w) w1"
    if "same_files_sent sent w w1" "\<not> replies_work F msg upath" for w1 se
    by (rule serves_respond_failure [OF laws that])
  have same [simp]: "same_files_sent sent w (w\<lparr>errno := e\<rparr>)"
    "same_files_sent sent w (w\<lparr>flux := s1, errno := e\<rparr>)" "same_files_sent sent w (w\<lparr>flux := s2, errno := e\<rparr>)"
    "same_files_sent sent w (w\<lparr>flux := s2\<rparr>)" "same_files_sent sent w (w\<lparr>flux := s2, cell := c'\<rparr>)" for e c'
    using sent by (simp_all add: same_files_sent_def)
  show ?thesis
  proof (cases "fx_msg_is_streaming F msg (flux w) \<and> (\<exists>x. u = Inr x) \<and>
      (\<exists>obj. q = Inr obj \<and> member_str ''upath'' obj = Some upath)")
    case True
    let ?fd = "fd\<lparr>fdtl_msg := Some msg\<rparr>"
    let ?w = "w\<lparr>flux := s2, cell := Some (c\<lparr>dtl_handle := Some (dt\<lparr>flux_dtl_handle := Some ?fd\<rparr>)\<rparr>)\<rparr>"
    have "wp (serve_file F h msg se (prod_file_path managed upath))
       (\<lambda>r w'. r = Some () \<and> serves F sent msg upath (prod_file_path managed upath) ?w w') ?w" for se
      by (rule wp_serve_file) (use g nd laws in \<open>simp_all add: ready_to_send_def\<close>)
    then have "wp (serve_file F h msg se (prod_file_path managed upath)) ?post ?w" for se
      by (rule wp_mono) (use serves_from [OF same(5)] in blast)
    then show ?thesis
      using True c u q
      by (auto simp: dyad_fetch_request_cb_def wps wp_flux_call flux_failed_def
          dyad_dtl_flux_rpc_unpack_def dyad_dtl_flux_rpc_respond_def)
  next
    case False
    have nw: "\<not> replies_work F msg upath"
    proof
      assume rw: "replies_work F msg upath"
      from rw have "fx_msg_is_streaming F msg (flux w)" by (simp add: replies_work_def)
      moreover from rw have "\<exists>x. u = Inr x" unfolding replies_work_def by (metis u fst_conv)
      moreover from rw have "\<exists>obj. q = Inr obj \<and> member_str ''upath'' obj = Some upath"
        unfolding replies_work_def by (metis q fst_conv)
      ultimately show False using False by simp
    qed
    have bad: "Option.bind (case q of Inl e \<Rightarrow> None | Inr obj \<Rightarrow> Some obj) (member_str ''upath'') = None"
      if "fx_msg_is_streaming F msg (flux w)" "u = Inr x" for x
    proof (cases q)
      case (Inr obj)
      then have "member_str ''upath'' obj \<noteq> Some upath" using False that by simp
      with req Inr q show ?thesis
        unfolding request_for_def by (metis Option.bind.simps(2) fst_conv not_None_eq sum.case(2))
    qed simp
    show ?thesis
      using False u q bad
      by (cases u; cases q)
        (auto intro!: fails [OF _ nw] simp: dyad_fetch_request_cb_def wps wp_flux_call flux_failed_def
          dyad_dtl_flux_rpc_unpack_def)
  qed
qed

section \<open>Properties of the handler\<close>

text \<open>
  C11: the module never sends anything but the file. Whatever the system calls and Flux do, a fetch
  request is answered with nothing, with one error, or with the whole content of the requested
  file, which is never empty, followed by the end of the stream or, if that cannot be sent, by
  nothing; and the handler returns.
\<close>

theorem fetch_request_safe:
  fixes w :: "('e, 'x) dworld"
  assumes "reply_laws F sent" and "request_for F msg upath" and "good w"
    and "module_ready w managed" and "\<not> is_dir w (prod_file_path managed upath)"
  shows "wp (dyad_fetch_request_cb F h msg) (\<lambda>r w'. r = Some ()
     \<and> answered sent msg (fdata w' (prod_file_path managed upath)) (flux w) (flux w')) w"
  by (rule wp_mono [OF wp_fetch_request [OF assms]]) (simp add: serves_def)

text \<open>
  C12: a request that can be served is served. When no system call fails, Flux answers every call,
  and the file exists and is not empty, also after a writer that still holds its lock is done, the
  consumer gets the whole file and then the end of the stream.
\<close>

theorem fetch_request_served:
  fixes w :: "('e, 'x) dworld"
  assumes "reply_laws F sent" and "replies_work F msg upath" and "good w"
    and "module_ready w managed" and "servable w (prod_file_path managed upath)"
  shows "wp (dyad_fetch_request_cb F h msg) (\<lambda>r w'. r = Some ()
     \<and> answered_fully sent msg (fdata w' (prod_file_path managed upath)) (flux w) (flux w')) w"
proof -
  have "request_for F msg upath"
    using assms(2) unfolding request_for_def replies_work_def by (metis option.inject sum.inject(2))
  moreover have "\<not> is_dir w (prod_file_path managed upath)"
    using assms(5) fdata_is_dir unfolding servable_def by fastforce
  ultimately show ?thesis
    by (rule wp_mono [OF wp_fetch_request [OF assms(1) _ assms(3,4)]])
      (use assms(2,5) in \<open>simp add: serves_def\<close>)
qed

text \<open>A Flux that delivers every answer to a request for the file \<^verbatim>\<open>f\<close>.\<close>

definition reply_flux :: "reply list flux_ops" where
  "reply_flux = no_flux\<lparr>fx_request_unpack := (\<lambda>_ s. (Inr [(''upath'', JStr ''f'')], s)),
     fx_respond_raw := (\<lambda>_ m d s. (Inr (), s @ [(the m, Inl d)])),
     fx_respond_error := (\<lambda>_ m e s. (Inr (), s @ [(m, Inr e)])),
     fx_msg_is_streaming := (\<lambda>_ _. True), fx_msg_get_userid := (\<lambda>_ s. (Inr 0, s))\<rparr>"

lemma reply_flux_ok: "reply_laws reply_flux (\<lambda>s. s)" "replies_work reply_flux msg ''f''"
  "request_for reply_flux msg ''f''"
  by (auto simp: reply_laws_def replies_work_def request_for_def reply_flux_def no_flux_def member_str_def)

lemma sample_module:
  fixes s :: "reply list"
  shows "module_ready (file_world (Some [1, 2]) sample_ctx s) ''/a''"
    "servable (file_world (Some [1, 2]) sample_ctx s) ''/a/f''"
    "\<not> is_dir (file_world (Some [1, 2]) sample_ctx s) ''/a/f''" "prod_file_path ''/a'' ''f'' = ''/a/f''"
proof -
  show "prod_file_path ''/a'' ''f'' = ''/a/f''" by code_simp
qed (simp_all add: module_ready_def servable_def file_world_def sample_ctx_def sample_dtl_def fdata_def
      inode_of_path_def file_inode_def left_by_other_def is_dir_def)

theorem fetch_request_safe_witness:
  "wp (dyad_fetch_request_cb reply_flux 5 9) (\<lambda>r w'. r = Some ()
     \<and> answered (\<lambda>s. s) 9 (fdata w' ''/a/f'') [] (flux w')) (file_world (Some [1, 2]) sample_ctx [])"
  using fetch_request_safe [where w = "file_world (Some [1, 2]) sample_ctx []" and msg = 9 and h = 5,
      OF reply_flux_ok(1,3) file_world_good sample_module(1)]
  by (simp add: sample_module) (simp add: file_world_def)

theorem fetch_request_served_witness:
  "wp (dyad_fetch_request_cb reply_flux 5 9) (\<lambda>r w'. r = Some ()
     \<and> answered_fully (\<lambda>s. s) 9 (fdata w' ''/a/f'') [] (flux w')) (file_world (Some [1, 2]) sample_ctx [])"
  using fetch_request_served [where w = "file_world (Some [1, 2]) sample_ctx []" and msg = 9 and h = 5,
      OF reply_flux_ok(1,2) file_world_good sample_module(1)]
  by (simp add: sample_module) (simp add: file_world_def)

end
