(* ===== verification/Range_Cache_Correct.thy ===== *)
theory Range_Cache_Correct
  imports Range_Cache
begin

text \<open>
  Correctness of the block cache: the invariant that ties the bitmap file to the local copy and
  the origin, its preservation by every step of \<^verbatim>\<open>dyad_range_cache_ensure\<close>, and the result. The
  theorem at the end holds for every schedule of failures and short transfers.
\<close>

section \<open>Good blocks\<close>

text \<open>
  A block of the local copy is good when every byte the origin has in it is there. A bitmap is
  good for a local copy when every set bit stands for a good block.
\<close>

definition block_good :: "bytes \<Rightarrow> bytes option \<Rightarrow> nat \<Rightarrow> bool" where
  "block_good org lo b \<longleftrightarrow>
     (\<exists>l. lo = Some l \<and> (\<forall>i. i div 65536 = b \<and> i < length org \<longrightarrow> i < length l \<and> l ! i = org ! i))"

definition bits_good :: "bytes \<Rightarrow> bytes option \<Rightarrow> bytes \<Rightarrow> bool" where
  "bits_good org lo bm \<longleftrightarrow> (\<forall>b. block_bit bm b = Some True \<longrightarrow> block_good org lo b)"

definition no_worse :: "bytes \<Rightarrow> bytes option \<Rightarrow> bytes option \<Rightarrow> bool" where
  "no_worse org lo lo' \<longleftrightarrow> (\<forall>b. block_good org lo b \<longrightarrow> block_good org lo' b)"

lemma no_worse_refl [simp]: "no_worse org lo lo"
  by (simp add: no_worse_def)

lemma no_worse_trans: "no_worse org a b \<Longrightarrow> no_worse org b c \<Longrightarrow> no_worse org a c"
  by (simp add: no_worse_def)

lemma no_worse_None [simp]: "no_worse org None lo"
  by (simp add: no_worse_def block_good_def)

lemma bits_good_mono: "bits_good org lo bm \<Longrightarrow> no_worse org lo lo' \<Longrightarrow> bits_good org lo' bm"
  by (simp add: bits_good_def no_worse_def)

lemma no_worse_truncate: "no_worse org (Some l) (Some (take (length org) l @ replicate (length org - length l) 0))"
  by (auto simp: no_worse_def block_good_def nth_append)

lemma length_overlay: "length (overlay l off d) = (if d = [] then length l else max (length l) (off + length d))"
  by (auto simp: overlay_def)

lemma nth_overlay:
  assumes "i < length l \<or> off \<le> i \<and> i < off + length d"
  shows "overlay l off d ! i = (if off \<le> i \<and> i < off + length d then d ! (i - off) else l ! i)"
proof (cases "d = []")
  case False
  have len: "length (take off l @ replicate (off - length l) 0) = off" by simp
  have eq: "overlay l off d = (take off l @ replicate (off - length l) 0) @ d @ drop (off + length d) l"
    using False by (simp add: overlay_def)
  consider "i < off" | "off \<le> i" "i < off + length d" | "off + length d \<le> i" by linarith
  then show ?thesis
  proof cases
    case 1
    with assms have "i < length l" by simp
    with 1 show ?thesis unfolding eq nth_append len by simp
  next
    case 2
    then have "\<not> i < off" "i - off < length d" by linarith+
    with 2 show ?thesis unfolding eq nth_append len by simp
  next
    case 3
    with assms have "i < length l" by simp
    moreover from 3 have "\<not> i < off" "\<not> i - off < length d" "i - off - length d = i - (off + length d)"
      by linarith+
    ultimately show ?thesis using 3 unfolding eq nth_append len by simp
  qed
qed (use assms in auto)

lemma no_worse_overlay:
  assumes "off + k \<le> length org"
  shows "no_worse org (Some l) (Some (overlay l off (take k (drop off org))))"
  unfolding no_worse_def block_good_def
proof (intro allI impI, elim exE conjE, simp, intro allI impI)
  fix b i
  assume g: "\<forall>i. i div 65536 = b \<and> i < length org \<longrightarrow> i < length l \<and> l ! i = org ! i"
    and i: "i div 65536 = b \<and> i < length org"
  then have "i < length l" "l ! i = org ! i" by auto
  then show "i < length (overlay l off (take k (drop off org))) \<and> overlay l off (take k (drop off org)) ! i = org ! i"
    using assms by (auto simp: length_overlay nth_overlay)
qed

lemma block_good_overlay:
  assumes "off \<le> b * 65536" "(b + 1) * 65536 \<le> off + k \<or> off + k = length org" "off + k \<le> length org"
  shows "block_good org (Some (overlay l off (take k (drop off org)))) b"
  unfolding block_good_def
proof (intro exI conjI allI impI, rule refl)
  fix i
  assume i: "i div 65536 = b \<and> i < length org"
  then have "b * 65536 \<le> i" "i < (b + 1) * 65536" by auto
  then have "off \<le> i" "i < off + k" using assms i by auto
  with assms(3) show "i < length (overlay l off (take k (drop off org)))"
    "overlay l off (take k (drop off org)) ! i = org ! i"
    by (auto simp: length_overlay nth_overlay)
qed

text \<open>Reading a bitmap short, extending it and overwriting a part of it add no bits.\<close>

lemma block_bit_take_zeros:
  "block_bit (take k bm @ replicate m 0) b = Some True \<Longrightarrow> block_bit bm b = Some True"
  by (auto simp: block_bit_def nth_append split: if_splits)

lemma block_bit_overlay:
  "block_bit (overlay bm 0 bm') b = Some True \<Longrightarrow> block_bit bm b = Some True \<or> block_bit bm' b = Some True"
proof -
  assume a: "block_bit (overlay bm 0 bm') b = Some True"
  then have i: "b div 8 < length (overlay bm 0 bm')" by (auto simp: block_bit_def split: if_splits)
  then have "b div 8 < length bm \<or> b div 8 < length bm'" by (auto simp: length_overlay split: if_splits)
  then show ?thesis
    using a nth_overlay [of "b div 8" bm 0 bm'] by (auto simp: block_bit_def split: if_splits)
qed

lemma block_bit_take: "block_bit (take k bm) b = Some True \<Longrightarrow> block_bit bm b = Some True"
  by (auto simp: block_bit_def split: if_splits)

section \<open>The state of a cached file\<close>

definition bitmap_name :: "string \<Rightarrow> string" where
  "bitmap_name p = p @ ''.dyad_cached''"

text \<open>
  The invariant of a local copy \<open>L\<close> of the origin \<open>P\<close> with contents \<open>org\<close>: the bits
  in the bitmap file, and those a process that holds the bitmap's lock will leave, are good.
\<close>

definition cache_state :: "'x world_scheme \<Rightarrow> string \<Rightarrow> string \<Rightarrow> bytes \<Rightarrow> bool" where
  "cache_state w L P org \<longleftrightarrow>
     good w \<and> L \<noteq> P \<and> bitmap_name L \<noteq> P \<and> fdata w P = Some org
   \<and> \<not> is_dir w L \<and> \<not> is_dir w (bitmap_name L)
   \<and> (\<forall>bm. fdata w (bitmap_name L) = Some bm \<or> left_by_other w (bitmap_name L) bm \<longrightarrow>
        bits_good org (fdata w L) bm)"

lemma bitmap_name_neq [simp]: "bitmap_name L \<noteq> L" "L \<noteq> bitmap_name L"
  by (simp_all add: bitmap_name_def)

lemma cache_state_view:
  assumes "cache_state w L P org" "view w w' F" "F P = Some org" "no_worse org (fdata w L) (F L)"
    and "\<And>bm. F (bitmap_name L) = Some bm \<Longrightarrow> bits_good org (F L) bm"
  shows "cache_state w' L P org"
proof -
  have "bits_good org (F L) bm" if "left_by_other w' (bitmap_name L) bm" for bm
  proof -
    from that assms(1,2) have "bits_good org (fdata w L) bm"
      unfolding cache_state_def view_def by blast
    then show ?thesis using assms(4) by (rule bits_good_mono)
  qed
  then show ?thesis
    using assms unfolding cache_state_def view_def by auto
qed

lemma cache_state_same:
  assumes "cache_state w L P org" "view w w' (fdata w)"
  shows "cache_state w' L P org"
  by (rule cache_state_view [OF assms]) (use assms(1) in \<open>auto simp: cache_state_def\<close>)

lemma cache_state_closed:
  assumes "cache_state w L P org" "closed fd w w'"
  shows "cache_state w' L P org"
  using assms unfolding cache_state_def closed_def by auto

lemma cache_state_left:
  assumes "cache_state w L P org" "view w w' F"
    "F = fdata w \<or> (\<exists>d. left_by_other w (bitmap_name L) d \<and> F = (fdata w)(bitmap_name L \<mapsto> d))"
  shows "cache_state w' L P org"
  by (rule cache_state_view [OF assms(1,2)]) (use assms(1,3) in \<open>auto simp: cache_state_def\<close>)

section \<open>The steps keep the state\<close>

text \<open>The descriptor of the bitmap file stays open for reading and writing.\<close>

definition bitmap_open :: "'x world_scheme \<Rightarrow> string \<Rightarrow> int \<Rightarrow> bool" where
  "bitmap_open w L fd \<longleftrightarrow> fd_at w fd (bitmap_name L) True True \<and> fdata w (bitmap_name L) \<noteq> None"

lemma bitmap_open_view:
  "bitmap_open w L fd \<Longrightarrow> view w w' F \<Longrightarrow> F (bitmap_name L) \<noteq> None \<Longrightarrow> bitmap_open w' L fd"
  by (auto simp: bitmap_open_def dest: viewD)

lemma wp_close_if_open:
  assumes "good w" "fd = - 1 \<Longrightarrow> Q () w" "\<And>w'. 0 \<le> fd \<Longrightarrow> closed fd w w' \<Longrightarrow> Q () w'" "fd = - 1 \<or> 0 \<le> fd"
  shows "wp (close_if_open fd) Q w"
  using assms by (auto simp: close_if_open_def wps intro!: wp_close_view)

lemma unat_span:
  fixes s e :: size_t
  assumes N: "N < 2 ^ 63" and e: "unat e * 65536 < N" and s: "unat s \<le> unat e"
  defines "se \<equiv> (if (e + 1) * BLOCK_SIZE > of_nat N then of_nat N else (e + 1) * BLOCK_SIZE)"
  shows "unat (s * BLOCK_SIZE) = unat s * 65536"
    "unat se = min ((unat e + 1) * 65536) N" "\<not> se \<le> s * BLOCK_SIZE"
    "unat (se - s * BLOCK_SIZE) = min ((unat e + 1) * 65536) N - unat s * 65536"
proof -
  have b: "unat BLOCK_SIZE = 65536" by (simp add: BLOCK_SIZE_def)
  have l: "unat s * 65536 < 2 ^ 64" "(unat e + 1) * 65536 < 2 ^ 64" "unat e + 1 < 2 ^ 64" using N e s by simp_all
  show 1: "unat (s * BLOCK_SIZE) = unat s * 65536"
    using l(1) by (simp add: unat_word_ariths b)
  have "unat (e + 1) = unat e + 1" using l(3) by (simp add: unat_word_ariths)
  then have e1: "unat ((e + 1) * BLOCK_SIZE) = (unat e + 1) * 65536"
    using l(2) by (simp add: unat_word_ariths(2) b)
  have n: "unat (of_nat N :: size_t) = N" using N by (simp add: unat_of_nat take_bit_nat_eq_self)
  show 2: "unat se = min ((unat e + 1) * 65536) N"
    unfolding se_def by (simp add: word_less_nat_alt e1 n min_def)
  show 3: "\<not> se \<le> s * BLOCK_SIZE"
    unfolding word_le_nat_alt 1 2 using e s by auto
  then have "s * BLOCK_SIZE \<le> se" by simp
  then show "unat (se - s * BLOCK_SIZE) = min ((unat e + 1) * 65536) N - unat s * 65536"
    using 1 2 by (simp add: unat_sub)
qed

text \<open>What is kept while the bitmap stays open: the state, the descriptor, and the bitmap.\<close>

definition cache_frame ::
  "nat \<Rightarrow> bytes option \<Rightarrow> 'x world_scheme \<Rightarrow> string \<Rightarrow> string \<Rightarrow> bytes \<Rightarrow> int \<Rightarrow> bool" where
  "cache_frame N bm w L P org fd \<longleftrightarrow>
     cache_state w L P org \<and> bitmap_open w L fd \<and> nat fd < N \<and> N \<le> next_fd w
   \<and> fdata w (bitmap_name L) = bm"

lemma cache_frame_start:
  "cache_state w L P org \<Longrightarrow> bitmap_open w L fd \<Longrightarrow>
     cache_frame (next_fd w) (fdata w (bitmap_name L)) w L P org fd"
  by (auto simp: cache_frame_def cache_state_def bitmap_open_def intro: fd_at_less)

lemma cache_frame_view:
  assumes "cache_frame N bm w L P org fd" "view w w' F" "F P = Some org"
    "no_worse org (fdata w L) (F L)" "F (bitmap_name L) = bm"
  shows "cache_frame N bm w' L P org fd"
proof -
  have c: "cache_state w L P org" "bitmap_open w L fd" "fdata w (bitmap_name L) = bm"
    using assms(1) by (auto simp: cache_frame_def)
  have "bits_good org (F L) b" if "F (bitmap_name L) = Some b" for b
    using c that assms(4,5) by (auto simp: cache_state_def intro: bits_good_mono)
  then have "cache_state w' L P org"
    by (rule cache_state_view [OF c(1) assms(2-4)])
  moreover have "bitmap_open w' L fd"
    by (rule bitmap_open_view [OF c(2) assms(2)]) (use c assms(5) in \<open>auto simp: bitmap_open_def\<close>)
  ultimately show ?thesis
    using assms(1,2,5) by (auto simp: cache_frame_def view_def)
qed

lemma cache_frame_same:
  "cache_frame N bm w L P org fd \<Longrightarrow> view w w' (fdata w) \<Longrightarrow> cache_frame N bm w' L P org fd"
  by (rule cache_frame_view [where F = "fdata w"]) (auto simp: cache_frame_def cache_state_def)

lemma cache_frame_closed:
  assumes "cache_frame N bm w L P org fd" "closed fd' w w'" "N \<le> nat fd'"
  shows "cache_frame N bm w' L P org fd"
proof -
  have "fd \<noteq> fd'" using assms(1,3) by (auto simp: cache_frame_def)
  then show ?thesis
    using assms(1) cache_state_closed [OF _ assms(2)] assms(2)
    by (auto simp: cache_frame_def bitmap_open_def closed_def)
qed

lemma cache_frameD:
  assumes "cache_frame N bm w L P org fd"
  shows "good w" "fdata w P = Some org" "\<not> is_dir w L" "\<not> is_dir w P" "L \<noteq> P" "bitmap_name L \<noteq> P"
    "fd_at w fd (bitmap_name L) True True" "\<exists>b. bm = Some b" "fdata w (bitmap_name L) = bm"
    "N \<le> next_fd w" "cache_state w L P org" "bitmap_open w L fd" "\<not> is_dir w (bitmap_name L)"
  using assms fdata_is_dir [of w P]
  by (auto simp: cache_frame_def cache_state_def bitmap_open_def)

lemma wp_close_frame:
  assumes "cache_frame N bm w L P org bfd" "fd = - 1 \<or> N \<le> nat fd"
    "\<And>w'. cache_frame N bm w' L P org bfd \<Longrightarrow> fdata w' = fdata w \<Longrightarrow>
       (\<forall>fd' p rd wr. fd' \<noteq> fd \<longrightarrow> fd_at w fd' p rd wr \<longrightarrow> fd_at w' fd' p rd wr) \<Longrightarrow> Q () w'"
  shows "wp (close_if_open fd) Q w"
proof (cases "fd = - 1")
  case False
  with assms(1,2) have "0 \<le> fd" "N \<le> nat fd" by (auto simp: cache_frame_def)
  then show ?thesis
    using cache_frameD(1) [OF assms(1)]
    by (intro wp_close_if_open) (auto intro!: assms(3) cache_frame_closed [OF assms(1)] simp: closed_def)
qed (use assms in \<open>simp add: close_if_open_def\<close>)

text \<open>
  Fetching a span of blocks inside the origin: whatever fails, no good block gets worse and the
  bitmap is untouched; when it succeeds all blocks of the span are good.
\<close>

lemma wp_fetch_span:
  fixes s e :: size_t
  assumes c: "cache_frame M bm w L P org bfd"
    and N: "length org < 2 ^ 63" and e: "unat e * 65536 < length org" and s: "unat s \<le> unat e"
    and Q: "\<And>rc w'. cache_frame M bm w' L P org bfd \<Longrightarrow>
       rc = RC_OK \<longrightarrow> (\<forall>b. unat s \<le> b \<and> b \<le> unat e \<longrightarrow> block_good org (fdata w' L) b) \<Longrightarrow> Q rc w'"
  shows "wp (range_cache_fetch_span L P s e (of_nat (length org))) Q w"
proof -
  define off where "off = unat s * 65536"
  define len where "len = min ((unat e + 1) * 65536) (length org) - off"
  note u = unat_span [OF N e s, folded off_def, folded len_def]
  have oend: "off + len = min ((unat e + 1) * 65536) (length org)" "off + len \<le> length org" "off \<le> length org"
    using e s by (auto simp: off_def len_def)
  have good_blocks: "block_good org (Some (overlay l off (take len (drop off org)))) b"
    if "unat s \<le> b" "b \<le> unat e" for l b
    by (rule block_good_overlay) (use that oend in \<open>auto simp: min_def off_def\<close>)
  have bad: "Q rc w'" if "cache_frame M bm w' L P org bfd" "rc \<noteq> RC_OK" for rc w'
    by (rule Q) (use that in auto)
  have wrt: "wp (do {
        n \<leftarrow> sys_pwrite fd' (take len (drop off org)) off;
        close_if_open fd;
        close_if_open fd';
        State_Monad.return (if fd' = - 1 \<or> n \<noteq> int len then RC_BADFIO else RC_OK) }) Q w'"
    if f: "cache_frame M bm w' L P org bfd" and a: "fd_at w' fd' L False True" and m: "M \<le> nat fd" "M \<le> nat fd'"
      and l: "fdata w' L = Some l" for w' fd fd' l
  proof -
    note D = cache_frameD [OF f]
    have close: "wp (do { close_if_open fd; close_if_open fd';
        State_Monad.return (if fd' = - 1 \<or> n \<noteq> int len then RC_BADFIO else RC_OK) }) Q w''"
      if f': "cache_frame M bm w'' L P org bfd"
        and g: "n = int len \<longrightarrow> (\<forall>b. unat s \<le> b \<and> b \<le> unat e \<longrightarrow> block_good org (fdata w'' L) b)" for n w''
      unfolding wps
      by (rule wp_close_frame [OF f'], use m in simp, rule wp_close_frame, assumption, use m in simp)
        (simp add: Q g)
    have len_eq: "length (take len (drop off org)) = len" using oend by simp
    show ?thesis
      unfolding wp_bind
    proof (rule wp_pwrite_view [OF D(1) a l], goal_cases)
      case (1 w'')
      show ?case by (rule close [unfolded wp_bind, OF cache_frame_same [OF f 1(1)]]) simp
    next
      case (2 k w'')
      have k: "take k (take len (drop off org)) = take k (drop off org)" using 2(2) len_eq by simp
      have le: "off + k \<le> length org" using 2(2) len_eq oend by linarith
      have v: "view w' w'' ((fdata w')(L \<mapsto> overlay l off (take k (drop off org))))"
        using 2(1) unfolding k .
      have f'': "cache_frame M bm w'' L P org bfd"
        by (rule cache_frame_view [OF f v]) (use D l no_worse_overlay [OF le] in auto)
      have "fdata w'' L = Some (overlay l off (take k (drop off org)))"
        using viewD(2) [OF v] by simp
      then show ?case
        by (intro close [unfolded wp_bind, OF f'']) (use good_blocks in auto)
    qed
  qed
  have read: "wp (do {
        (n, span_buf) \<leftarrow> sys_pread fd len off;
        if fd = - 1 \<or> n \<noteq> int len then do {
          close_if_open fd;
          State_Monad.return RC_BADFIO }
        else do {
          local_fd \<leftarrow> sys_open L O_WRONLY 0;
          n \<leftarrow> (if local_fd = - 1 then State_Monad.return (- 1)
                else sys_pwrite local_fd span_buf off);
          close_if_open fd;
          close_if_open local_fd;
          State_Monad.return
            (if local_fd = - 1 \<or> n \<noteq> int len then RC_BADFIO else RC_OK) } }) Q w'"
    if f: "cache_frame M bm w' L P org bfd" and a: "fd_at w' fd P True False" and m: "M \<le> nat fd" "fd \<noteq> - 1"
    for w' fd
  proof -
    note D = cache_frameD [OF f]
    have close: "wp (do { close_if_open fd; State_Monad.return RC_BADFIO }) Q w''"
      if "cache_frame M bm w'' L P org bfd" for w''
      unfolding wps by (rule wp_close_frame [OF that]) (use m bad in auto)
    show ?thesis
      unfolding wp_bind
    proof (rule wp_pread_view [OF D(1) a D(2)], goal_cases)
      case (1 w'')
      then show ?case
        using close [OF cache_frame_same [OF f 1(1)]] by (simp add: wp_bind)
    next
      case (2 k w'')
      have f'': "cache_frame M bm w'' L P org bfd" by (rule cache_frame_same [OF f 2(1)])
      note D'' = cache_frameD [OF f'']
      show ?case
      proof (cases "k = len")
        case False
        then show ?thesis using close [OF f''] by (simp add: wp_bind)
      next
        case True
        have "wp (sys_open L O_WRONLY 0) (\<lambda>local_fd. wp (do {
            n \<leftarrow> (if local_fd = - 1 then State_Monad.return (- 1)
                  else sys_pwrite local_fd (take len (drop off org)) off);
            close_if_open fd;
            close_if_open local_fd;
            State_Monad.return
              (if local_fd = - 1 \<or> n \<noteq> int len then RC_BADFIO else RC_OK) }) Q) w''"
        proof (rule wp_open_view [OF D''(1,3)], goal_cases)
          case (1 v)
          have "cache_frame M bm v L P org bfd" by (rule cache_frame_same [OF f'' 1(1)])
          from close [OF this] show ?case by (simp add: wps close_if_open_def)
        next
          case (2 fd' v)
          from 2(5) obtain l where l: "fdata w'' L = Some l"
            by (auto simp: open_ok_def oflag_defs split: if_splits)
          then have o: "opened w'' L O_WRONLY = fdata w''" by (simp add: opened_def oflag_defs)
          have f3: "cache_frame M bm v L P org bfd"
            using cache_frame_same [OF f''] 2(1) unfolding o by simp
          have a3: "fd_at v fd' L False True" using 2(4) by (simp add: oflag_defs)
          have m3: "M \<le> nat fd'" using 2(3) D''(10) by simp
          have l3: "fdata v L = Some l" using viewD(2) [OF 2(1)] l o by simp
          from wrt [OF f3 a3 m(1) m3 l3] 2(2) show ?case by simp
        qed
        with True m(2) show ?thesis by (simp add: wp_bind)
      qed
    qed
  qed
  have opn: "wp (do {
        origin_fd \<leftarrow> sys_open P O_RDONLY 0;
        (n, span_buf) \<leftarrow> (if origin_fd = - 1 then State_Monad.return (- 1, [])
                          else sys_pread origin_fd len off);
        if origin_fd = - 1 \<or> n \<noteq> int len then do {
          close_if_open origin_fd;
          State_Monad.return RC_BADFIO }
        else do {
          local_fd \<leftarrow> sys_open L O_WRONLY 0;
          n \<leftarrow> (if local_fd = - 1 then State_Monad.return (- 1)
                else sys_pwrite local_fd span_buf off);
          close_if_open origin_fd;
          close_if_open local_fd;
          State_Monad.return
            (if local_fd = - 1 \<or> n \<noteq> int len then RC_BADFIO else RC_OK) } }) Q w'"
    if f: "cache_frame M bm w' L P org bfd" for w'
  proof -
    note D = cache_frameD [OF f]
    have o: "opened w' P O_RDONLY = fdata w'" using D(2) by (simp add: opened_def oflag_defs)
    show ?thesis
      unfolding wp_bind [of "sys_open P O_RDONLY 0"]
    proof (rule wp_open_view [OF D(1,4)], goal_cases)
      case (1 v)
      have "cache_frame M bm v L P org bfd" by (rule cache_frame_same [OF f 1(1)])
      then show ?case by (simp add: wps close_if_open_def bad)
    next
      case (2 fd v)
      have f2: "cache_frame M bm v L P org bfd" using cache_frame_same [OF f] 2(1) unfolding o by simp
      have a2: "fd_at v fd P True False" using 2(4) by (simp add: oflag_defs)
      have "M \<le> nat fd" "fd \<noteq> - 1" using 2(2,3) D(10) by simp_all
      from read [OF f2 a2 this] \<open>fd \<noteq> - 1\<close> show ?case by simp
    qed
  qed
  have "wp sys_malloc (\<lambda>ok w'. cache_frame M bm w' L P org bfd) w"
    by (rule wp_malloc_view [OF cache_frameD(1) [OF c]]) (rule cache_frame_same [OF c])
  then show ?thesis
    unfolding range_cache_fetch_span_def Let_def u if_not_P [OF u(3)] wp_bind [of sys_malloc]
    by (rule wp_mono) (simp add: bad opn)
qed

text \<open>What the lock of the bitmap brings: the bits another process left, which are good too.\<close>

lemma cache_frame_left:
  assumes f: "cache_frame N bm w L P org fd" and v: "view w w' F"
    and F: "F = fdata w \<or> (\<exists>d. left_by_other w (bitmap_name L) d \<and> F = (fdata w)(bitmap_name L \<mapsto> d))"
  obtains bm' where "cache_frame N bm' w' L P org fd" "fdata w' L = fdata w L"
proof -
  note D = cache_frameD [OF f]
  have "cache_state w' L P org" by (rule cache_state_left [OF D(11) v F])
  moreover have "bitmap_open w' L fd"
    by (rule bitmap_open_view [OF D(12) v]) (use F D(8,9) in auto)
  moreover have "nat fd < N" "N \<le> next_fd w'"
    using f v by (auto simp: cache_frame_def view_def)
  ultimately have "cache_frame N (fdata w' (bitmap_name L)) w' L P org fd"
    by (simp add: cache_frame_def)
  moreover have "fdata w' L = fdata w L" using F viewD(2) [OF v] by auto
  ultimately show thesis by (rule that)
qed

lemma wp_excl_frame:
  assumes f: "cache_frame N bm w L P org fd"
    and fail: "\<And>w'. cache_frame N bm w' L P org fd \<Longrightarrow> fdata w' = fdata w \<Longrightarrow> Q RC_BADFIO w'"
    and ok: "\<And>bm' w'. cache_frame N bm' w' L P org fd \<Longrightarrow> fdata w' L = fdata w L \<Longrightarrow> Q RC_OK w'"
  shows "wp (dyad_excl_flock fd True) Q w"
proof -
  from cache_frameD(8,9) [OF f] obtain d where d: "fdata w (bitmap_name L) = Some d" by auto
  show ?thesis
  proof (rule wp_excl_flock_view [OF cache_frameD(1,7) [OF f] d], goal_cases)
    case (1 w')
    show ?case by (rule fail [OF cache_frame_same [OF f 1(1)] viewD(2) [OF 1(1)]])
  next
    case (2 F w')
    show ?case by (rule cache_frame_left [OF f 2]) (rule ok)
  qed
qed

lemma wp_shared_frame:
  assumes f: "cache_frame N bm w L P org fd"
    and fail: "\<And>w'. cache_frame N bm w' L P org fd \<Longrightarrow> fdata w' = fdata w \<Longrightarrow> Q RC_BADFIO w'"
    and ok: "\<And>bm' w'. cache_frame N bm' w' L P org fd \<Longrightarrow> fdata w' L = fdata w L \<Longrightarrow> Q RC_OK w'"
  shows "wp (dyad_shared_flock fd True) Q w"
proof -
  from cache_frameD(8,9) [OF f] obtain d where d: "fdata w (bitmap_name L) = Some d" by auto
  show ?thesis
  proof (rule wp_shared_flock_view [OF cache_frameD(1,7) [OF f] d], goal_cases)
    case (1 w')
    show ?case by (rule fail [OF cache_frame_same [OF f 1(1)] viewD(2) [OF 1(1)]])
  next
    case (2 F w')
    show ?case by (rule cache_frame_left [OF f 2]) (rule ok)
  qed
qed

lemma wp_release_frame:
  assumes f: "cache_frame N bm w L P org fd"
    and ok: "\<And>rc w'. cache_frame N bm w' L P org fd \<Longrightarrow> fdata w' = fdata w \<Longrightarrow> Q rc w'"
  shows "wp (dyad_release_flock fd True) Q w"
proof -
  from cache_frameD(8,9) [OF f] obtain d where d: "fdata w (bitmap_name L) = Some d" by auto
  show ?thesis
    by (rule wp_release_flock_view [OF cache_frameD(1,7) [OF f] d], rule ok)
      (auto intro: cache_frame_same [OF f] dest: viewD(2))
qed

lemma wp_close_state:
  assumes f: "cache_frame N bm w L P org fd"
    and ok: "\<And>r w'. cache_state w' L P org \<Longrightarrow> fdata w' = fdata w \<Longrightarrow> Q r w'"
  shows "wp (sys_close fd) Q w"
proof -
  note D = cache_frameD [OF f]
  have "0 \<le> fd" using D(7) by (simp add: fd_at_def)
  show ?thesis
    by (rule wp_close_view [OF D(1) \<open>0 \<le> fd\<close>], rule ok)
      (auto intro: cache_state_closed [OF D(11)] simp: closed_def)
qed

lemma wp_malloc_frame:
  assumes f: "cache_frame N bm w L P org fd"
    and ok: "\<And>r w'. cache_frame N bm w' L P org fd \<Longrightarrow> fdata w' = fdata w \<Longrightarrow> Q r w'"
  shows "wp sys_malloc Q w"
  by (rule wp_malloc_view [OF cache_frameD(1) [OF f]], rule ok)
    (auto intro: cache_frame_same [OF f] dest: viewD(2))

lemma wp_fail_locked:
  assumes f: "cache_frame N bm w L P org fd"
    and ok: "\<And>w'. cache_state w' L P org \<Longrightarrow> fdata w' = fdata w \<Longrightarrow> Q (Some rc) w'"
  shows "wp (fail_locked fd rc) Q w"
  unfolding fail_locked_def wp_bind
  by (rule wp_release_frame [OF f], rule wp_close_state, assumption) (simp add: ok)

text \<open>Reading the bitmap gives no bit that is not in the file.\<close>

lemma wp_read_bitmap:
  assumes f: "cache_frame N (Some bm) w L P org fd"
    and ok: "\<And>b w'. cache_frame N (Some bm) w' L P org fd \<Longrightarrow> fdata w' = fdata w \<Longrightarrow> n \<le> length b \<Longrightarrow>
       (\<forall>i. block_bit b i = Some True \<longrightarrow> block_bit bm i = Some True) \<Longrightarrow>
       (length b = n) \<Longrightarrow> Q b w'"
  shows "wp (read_bitmap fd n) Q w"
proof -
  note D = cache_frameD [OF f]
  show ?thesis
    unfolding read_bitmap_def wp_bind
  proof (rule wp_pread_view [OF D(1,7,9)], goal_cases)
    case (1 w')
    have "block_bit (replicate n 0) i \<noteq> Some True" for i
      by (auto simp: block_bit_def)
    with ok [OF cache_frame_same [OF f 1(1)], of "replicate n 0"] viewD(2) [OF 1(1)] show ?case by simp
  next
    case (2 k w')
    let ?b = "take k bm @ replicate (n - k) 0"
    have k: "drop 0 bm = bm" "length (take k bm) = k" using 2(3) by simp_all
    have "length ?b = n" using 2(2,3) by simp
    moreover have "\<forall>i. block_bit ?b i = Some True \<longrightarrow> block_bit bm i = Some True"
      using block_bit_take_zeros by blast
    ultimately have "Q ?b w'"
      by (intro ok [OF cache_frame_same [OF f 2(1)]]) (simp_all add: viewD(2) [OF 2(1)])
    then show ?case unfolding prod.case wp_return k .
  qed
qed

lemma wp_unlock_close:
  assumes "cache_frame N bm w L P org fd" "\<And>w'. cache_state w' L P org \<Longrightarrow> fdata w' = fdata w \<Longrightarrow> Q x w'"
  shows "wp (do { _ \<leftarrow> dyad_release_flock fd True; _ \<leftarrow> sys_close fd; State_Monad.return x }) Q w"
  unfolding wp_bind
  by (rule wp_release_frame [OF assms(1)], rule wp_close_state, assumption) (simp add: assms(2))

lemma wp_write_bitmap:
  assumes f: "cache_frame N (Some b0) w L P org fd"
    and new: "\<And>k. bits_good org (fdata w L) (overlay b0 0 (take k b'))"
    and Q: "\<And>rc w'. cache_state w' L P org \<Longrightarrow> fdata w' L = fdata w L \<Longrightarrow> Q (Some rc) w'"
  shows "wp (do {
      m \<leftarrow> sys_pwrite fd b' 0;
      _ \<leftarrow> dyad_release_flock fd True;
      _ \<leftarrow> sys_close fd;
      State_Monad.return (Some (if m \<noteq> int n then RC_BADFIO else RC_OK)) }) Q w"
  unfolding wp_bind [of "sys_pwrite fd b' 0"]
proof (rule wp_pwrite_view [OF cache_frameD(1,7,9) [OF f]], goal_cases)
  case (1 u)
  show ?case
    by (rule wp_unlock_close [OF cache_frame_same [OF f 1(1)]]) (simp add: Q viewD(2) [OF 1(1)])
next
  case (2 k u)
  note D = cache_frameD [OF f]
  have "cache_state u L P org"
    by (rule cache_state_view [OF D(11) 2(1)]) (use D new in auto)
  moreover have "bitmap_open u L fd" by (rule bitmap_open_view [OF D(12) 2(1)]) simp
  ultimately have fr: "cache_frame (next_fd u) (fdata u (bitmap_name L)) u L P org fd"
    by (rule cache_frame_start)
  show ?case
    by (rule wp_unlock_close [OF fr], rule Q) (simp_all add: viewD(2) [OF 2(1)])
qed

lemma wp_record_span:
  assumes f: "cache_frame N bm w L P org fd" and e: "e div 8 < n"
    and g: "\<forall>b. s \<le> b \<and> b \<le> e \<longrightarrow> block_good org (fdata w L) b"
    and Q: "\<And>rc w'. cache_state w' L P org \<Longrightarrow> fdata w' L = fdata w L \<Longrightarrow> Q (Some rc) w'"
  shows "wp (record_span fd n s e) Q w"
  unfolding record_span_def wp_bind [of "dyad_excl_flock fd True"]
proof (rule wp_excl_frame [OF f], goal_cases)
  case (1 w')
  have "wp (sys_close fd) (\<lambda>_. Q (Some RC_BADFIO)) w'"
    by (rule wp_close_state [OF 1(1)]) (use Q 1(2) in auto)
  then show ?case by (simp add: wps)
next
  case (2 bm' w')
  from cache_frameD(8) [OF 2(1)] obtain b0 where b0: "bm' = Some b0" by blast
  have set: "wp (case range_cache_set_blocks b s e of
           None \<Rightarrow> State_Monad.return None
         | Some bitmap \<Rightarrow> do {
             m \<leftarrow> sys_pwrite fd bitmap 0;
             _ \<leftarrow> dyad_release_flock fd True;
             _ \<leftarrow> sys_close fd;
             State_Monad.return (Some (if m \<noteq> int n then RC_BADFIO else RC_OK)) }) Q v"
    if v: "cache_frame N (Some b0) v L P org fd" "fdata v L = fdata w L"
      and b: "\<forall>i. block_bit b i = Some True \<longrightarrow> block_bit b0 i = Some True" "length b = n" for b v
  proof -
    from e b(2) obtain b' where b': "range_cache_set_blocks b s e = Some b'"
      using set_blocks_defined [of b s e] by (cases "range_cache_set_blocks b s e") auto
    have gb: "bits_good org (fdata v L) b0"
      using cache_frameD(9,11) [OF v(1)] by (auto simp: cache_state_def)
    have new: "bits_good org (fdata v L) (overlay b0 0 (take k b'))" for k
      unfolding bits_good_def
    proof (intro allI impI)
      fix i
      assume "block_bit (overlay b0 0 (take k b')) i = Some True"
      then have "block_bit b0 i = Some True \<or> block_bit b' i = Some True"
        by (blast dest: block_bit_overlay block_bit_take)
      then have "block_bit b0 i = Some True \<or> s \<le> i \<and> i \<le> e"
        using set_blocks_bits [OF b'] b(1) by (auto split: if_splits)
      then show "block_good org (fdata v L) i"
        using gb g v(2) by (auto simp: bits_good_def)
    qed
    show ?thesis
      unfolding b' option.case by (rule wp_write_bitmap [OF v(1) new]) (use v(2) Q in auto)
  qed
  have "wp sys_malloc (\<lambda>ok. wp (if \<not> ok then do {
         _ \<leftarrow> dyad_release_flock fd True;
         _ \<leftarrow> sys_close fd;
         State_Monad.return (Some RC_SYSFAIL) }
       else do {
         bitmap \<leftarrow> read_bitmap fd n;
         case range_cache_set_blocks bitmap s e of
           None \<Rightarrow> State_Monad.return None
         | Some bitmap \<Rightarrow> do {
             m \<leftarrow> sys_pwrite fd bitmap 0;
             _ \<leftarrow> dyad_release_flock fd True;
             _ \<leftarrow> sys_close fd;
             State_Monad.return (Some (if m \<noteq> int n then RC_BADFIO else RC_OK)) } }) Q) w'"
  proof (rule wp_malloc_frame [OF 2(1)], goal_cases)
    case (1 ok v)
    have "wp (do { _ \<leftarrow> dyad_release_flock fd True; _ \<leftarrow> sys_close fd;
        State_Monad.return (Some RC_SYSFAIL) }) Q v"
      by (rule wp_unlock_close [OF 1(1)]) (use 1(2) 2(2) Q in auto)
    moreover have "wp (do { bitmap \<leftarrow> read_bitmap fd n;
         case range_cache_set_blocks bitmap s e of
           None \<Rightarrow> State_Monad.return None
         | Some bitmap \<Rightarrow> do {
             m \<leftarrow> sys_pwrite fd bitmap 0;
             _ \<leftarrow> dyad_release_flock fd True;
             _ \<leftarrow> sys_close fd;
             State_Monad.return (Some (if m \<noteq> int n then RC_BADFIO else RC_OK)) } }) Q v"
      unfolding wp_bind [of "read_bitmap fd n"]
      by (rule wp_read_bitmap [OF 1(1) [unfolded b0]], rule set) (use 1(2) 2(2) in auto)
    ultimately show ?case by simp
  qed
  then show ?case by (simp add: wp_bind [of sys_malloc])
qed

lemma wp_stat_frame:
  assumes f: "cache_frame N bm w L P org fd" and l: "length org \<noteq> 0"
    and ok: "\<And>r w'. cache_frame N bm w' L P org fd \<Longrightarrow> fdata w' = fdata w \<Longrightarrow>
       r = None \<or> (\<exists>st. r = Some st \<and> st_size st = int (length org)) \<Longrightarrow> Q r w'"
  shows "wp (sys_stat P) Q w"
  by (rule wp_stat_view [OF cache_frameD(1) [OF f]], rule ok)
    (use cache_frameD(2) [OF f] in \<open>auto intro: cache_frame_same [OF f] dest: viewD(2)\<close>)

lemma wp_size_frame:
  assumes f: "cache_frame N bm w L P org fd"
    and ok: "\<And>r w'. cache_frame N bm w' L P org fd \<Longrightarrow> fdata w' = fdata w \<Longrightarrow> Q r w'"
  shows "wp (get_file_size fd) Q w"
proof -
  from cache_frameD(8,9) [OF f] obtain d where d: "fdata w (bitmap_name L) = Some d" by auto
  show ?thesis
    by (rule wp_get_file_size_view [OF cache_frameD(1,7) [OF f] d], rule ok)
      (auto intro: cache_frame_same [OF f] dest: viewD(2))
qed

lemma bits_good_extend:
  "bits_good org lo bm \<Longrightarrow> bits_good org lo (take n bm @ replicate m 0)"
  unfolding bits_good_def using block_bit_take_zeros by blast

text \<open>Growing the bitmap adds no bits, and giving the local file the size of the origin spoils no block.\<close>

lemma wp_size_files:
  assumes f: "cache_frame N bm w L P org fd" and Ls: "unat osz = length org"
    and ok: "\<And>r M bm' w'. cache_frame M bm' w' L P org fd \<Longrightarrow> Q r w'"
  shows "wp (size_files L fd osz n) Q w"
proof -
  have close: "wp (do { _ \<leftarrow> sys_close sfd; State_Monad.return x }) Q w'"
    if g: "cache_frame M b w' L P org fd" and m: "M \<le> nat sfd" "0 \<le> sfd" for M b w' sfd x
    unfolding wp_bind
    by (rule wp_close_view [OF cache_frameD(1) [OF g] m(2)])
      (simp add: ok [OF cache_frame_closed [OF g _ m(1)]])
  have bitmap: "wp (do {
        r \<leftarrow> sys_ftruncate fd (unat n);
        _ \<leftarrow> sys_close sfd;
        State_Monad.return (r = 0) }) Q w'"
    if g: "cache_frame M b w' L P org fd" and m: "M \<le> nat sfd" "0 \<le> sfd" for M b w' sfd
  proof -
    note D = cache_frameD [OF g]
    from D(8,9) obtain d where d: "fdata w' (bitmap_name L) = Some d" by auto
    show ?thesis
      unfolding wp_bind [of "sys_ftruncate fd (unat n)"]
    proof (rule wp_ftruncate_view [OF D(1,7) d], goal_cases)
      case (1 v)
      show ?case by (rule close [OF cache_frame_same [OF g 1(1)] m])
    next
      case (2 v)
      let ?b = "take (unat n) d @ replicate (unat n - length d) 0"
      have "cache_state v L P org"
        by (rule cache_state_view [OF D(11) 2(1)])
          (use D(2,5,6,11) d in \<open>auto simp: cache_state_def bits_good_extend\<close>)
      moreover have "bitmap_open v L fd" by (rule bitmap_open_view [OF D(12) 2(1)]) simp
      moreover have "nat fd < M" "M \<le> next_fd v" using g 2(1) by (auto simp: cache_frame_def view_def)
      ultimately have "cache_frame M (fdata v (bitmap_name L)) v L P org fd"
        by (simp add: cache_frame_def)
      from close [OF this m] show ?case .
    qed
  qed
  have local: "wp (do {
        r \<leftarrow> sys_ftruncate sfd (unat osz);
        r \<leftarrow> (if r \<noteq> 0 then State_Monad.return r else sys_ftruncate fd (unat n));
        _ \<leftarrow> sys_close sfd;
        State_Monad.return (r = 0) }) Q w'"
    if g: "cache_frame M b w' L P org fd" and a: "fd_at w' sfd L False True" and m: "M \<le> nat sfd" "0 \<le> sfd"
      and l: "fdata w' L = Some l" for M b w' sfd l
    unfolding wp_bind [of "sys_ftruncate sfd (unat osz)"]
  proof (rule wp_ftruncate_view [OF cache_frameD(1) [OF g] a l], goal_cases)
    case (1 v)
    show ?case using close [OF cache_frame_same [OF g 1(1)] m] by simp
  next
    case (2 v)
    note D = cache_frameD [OF g]
    have "cache_frame M b v L P org fd"
      by (rule cache_frame_view [OF g 2(1)]) (use D l no_worse_truncate in \<open>auto simp: Ls\<close>)
    from bitmap [OF this m] show ?case by simp
  qed
  have opn: "wp (do {
       size_fd \<leftarrow> sys_open L (O_WRONLY OR O_CREAT) 420;
       if size_fd = - 1 then State_Monad.return False
       else do {
         r \<leftarrow> sys_ftruncate size_fd (unat osz);
         r \<leftarrow> (if r \<noteq> 0 then State_Monad.return r else sys_ftruncate fd (unat n));
         _ \<leftarrow> sys_close size_fd;
         State_Monad.return (r = 0) } }) Q w'"
    if g: "cache_frame N bm w' L P org fd" for w'
    unfolding wp_bind [of "sys_open L (O_WRONLY OR O_CREAT) 420"]
  proof (rule wp_open_view [OF cache_frameD(1,3) [OF g]], goal_cases)
    case (1 v)
    show ?case using ok [OF cache_frame_same [OF g 1(1)]] by simp
  next
    case (2 sfd v)
    note D = cache_frameD [OF g]
    have o: "opened w' L (O_WRONLY OR O_CREAT) = (if fdata w' L = None then (fdata w')(L \<mapsto> []) else fdata w')"
      by (simp add: opened_def oflag_defs)
    have g2: "cache_frame N bm v L P org fd"
      by (rule cache_frame_view [OF g 2(1)]) (use D in \<open>auto simp: o\<close>)
    have l: "fdata v L \<noteq> None" using viewD(2) [OF 2(1)] by (simp add: o)
    have a: "fd_at v sfd L False True" using 2(4) by (simp add: oflag_defs)
    have m: "N \<le> nat sfd" using 2(3) D(10) by simp
    from l local [OF g2 a m 2(2)] 2(2) show ?case by auto
  qed
  show ?thesis
    unfolding size_files_def wp_bind [of "get_file_size fd"]
    by (rule wp_size_frame [OF f]) (auto simp: opn ok)
qed

section \<open>The result\<close>

text \<open>The blocks of a range are good: its bytes are those of the origin.\<close>

definition range_cached :: "bytes \<Rightarrow> bytes option \<Rightarrow> nat \<Rightarrow> nat \<Rightarrow> bool" where
  "range_cached org lo s e \<longleftrightarrow> (\<forall>b. s \<le> b \<and> b \<le> e \<longrightarrow> block_good org lo b)"

lemma range_cached_bytes:
  assumes "range_cached org lo (off div 65536) ((off + n - 1) div 65536)" "0 < n" "off + n \<le> length org"
  shows "\<exists>l. lo = Some l \<and> take n (drop off l) = take n (drop off org)"
proof -
  have good: "block_good org lo (i div 65536)" if "off \<le> i" "i < off + n" for i
    using assms(1) that unfolding range_cached_def by (auto intro!: div_le_mono)
  from good [of off] assms(2) obtain l where l: "lo = Some l" by (auto simp: block_good_def)
  have nth: "i < length l \<and> l ! i = org ! i" if "off \<le> i" "i < off + n" for i
    using good [OF that] that assms(3) l by (auto simp: block_good_def)
  have "off \<le> off + n - 1" "off + n - 1 < off + n" using assms(2) by linarith+
  from nth [OF this] assms(2) have "off + n \<le> length l" by linarith
  then have "take n (drop off l) = take n (drop off org)"
    using assms(3) nth by (intro nth_equalityI) auto
  with l show ?thesis by blast
qed

text \<open>What is left of the slow path once the bitmap was read.\<close>

lemma bits_good_blocks:
  assumes f: "cache_frame N (Some bm) w L P org fd"
    and b: "\<forall>i. block_bit b i = Some True \<longrightarrow> block_bit bm i = Some True"
    and s: "range_cache_blocks_set b s e = Some True"
  shows "range_cached org (fdata w L) s e"
  using cache_frameD(9,11) [OF f] b s
  by (auto simp: range_cached_def cache_state_def bits_good_def blocks_set_True)

lemma wp_slow_path:
  fixes s e :: size_t
  assumes f: "cache_frame N bm w L P org fd"
    and len: "length org < 2 ^ 63" and e: "unat e * 65536 < length org" and s: "unat s \<le> unat e"
    and Q: "\<And>rc w'. cache_state w' L P org \<Longrightarrow>
       rc = RC_OK \<longrightarrow> range_cached org (fdata w' L) (unat s) (unat e) \<Longrightarrow> Q (Some rc) w'"
  shows "wp (slow_path L P fd s e) Q w"
proof -
  let ?osz = "of_nat (length org) :: size_t"
  define n where "n = range_cache_bitmap_bytes (range_cache_num_blocks ?osz)"
  have osz: "unat ?osz = length org" using len by (simp add: unat_of_nat take_bit_nat_eq_self)
  have n: "unat e div 8 < unat n"
  proof -
    have b: "unat BLOCK_SIZE = 65536" by (simp add: BLOCK_SIZE_def)
    have "?osz + BLOCK_SIZE - 1 = of_nat (length org + 65535)" by (simp add: BLOCK_SIZE_def)
    then have "unat (?osz + BLOCK_SIZE - 1) = length org + 65535"
      using len by (simp only: unat_of_nat) (simp add: take_bit_nat_eq_self)
    then have "unat (range_cache_num_blocks ?osz) = (length org + 65535) div 65536"
      by (simp only: range_cache_num_blocks_def unat_div b)
    moreover have "unat (range_cache_num_blocks ?osz + 7) = unat (range_cache_num_blocks ?osz) + 7"
      using len calculation by (simp add: unat_word_ariths)
    ultimately have "unat n = ((length org + 65535) div 65536 + 7) div 8"
      by (simp add: n_def range_cache_bitmap_bytes_def unat_div)
    then show ?thesis using e by simp
  qed
  have failed: "wp (fail_locked fd rc) Q w'"
    if "cache_frame M b w' L P org fd" "rc \<noteq> RC_OK" for M b w' rc
    by (rule wp_fail_locked [OF that(1)], rule Q) (use that(2) in auto)
  have close: "wp (do { _ \<leftarrow> sys_close fd; State_Monad.return (Some rc) }) Q w'"
    if "cache_frame M b w' L P org fd"
      "rc = RC_OK \<longrightarrow> range_cached org (fdata w' L) (unat s) (unat e)" for M b w' rc
    unfolding wp_bind by (rule wp_close_state [OF that(1)]) (simp add: Q that(2))
  have fetch: "wp (do {
      rc \<leftarrow> range_cache_fetch_span L P s e ?osz;
      if is_error rc then do { _ \<leftarrow> sys_close fd; State_Monad.return (Some rc) }
      else record_span fd (unat n) (unat s) (unat e) }) Q w'"
    if g: "cache_frame M b w' L P org fd" for M b w'
    unfolding wp_bind [of "range_cache_fetch_span L P s e ?osz"]
  proof (rule wp_fetch_span [OF g len e s], goal_cases)
    case (1 rc v)
    show ?case
    proof (cases "rc = RC_OK")
      case True
      with 1(2) have gd: "\<forall>b. unat s \<le> b \<and> b \<le> unat e \<longrightarrow> block_good org (fdata v L) b" by blast
      have "wp (record_span fd (unat n) (unat s) (unat e)) Q v"
        by (rule wp_record_span [OF 1(1) n gd], rule Q) (use gd in \<open>auto simp: range_cached_def\<close>)
      with True show ?thesis by simp
    next
      case False
      then show ?thesis using close [OF 1(1)] by simp
    qed
  qed
  have check: "wp (do {
      bitmap \<leftarrow> read_bitmap fd (unat n);
      case range_cache_blocks_set bitmap (unat s) (unat e) of
        None \<Rightarrow> State_Monad.return None
      | Some already_cached \<Rightarrow> do {
          _ \<leftarrow> dyad_release_flock fd True;
          if already_cached
          then do { _ \<leftarrow> sys_close fd; State_Monad.return (Some RC_OK) }
          else do {
            rc \<leftarrow> range_cache_fetch_span L P s e ?osz;
            if is_error rc
            then do { _ \<leftarrow> sys_close fd; State_Monad.return (Some rc) }
            else record_span fd (unat n) (unat s) (unat e) } } }) Q w'"
    if g: "cache_frame M (Some b0) w' L P org fd" for M b0 w'
    unfolding wp_bind [of "read_bitmap fd (unat n)"]
  proof (rule wp_read_bitmap [OF g], goal_cases)
    case (1 b v)
    note v = 1(1) and bits = 1(4)
    have "range_cache_blocks_set b (unat s) (unat e) \<noteq> None"
      by (rule blocks_set_defined) (use n 1(5) in simp)
    then obtain c where c: "range_cache_blocks_set b (unat s) (unat e) = Some c" by blast
    have "wp (dyad_release_flock fd True) (\<lambda>_. wp (if c
          then do { _ \<leftarrow> sys_close fd; State_Monad.return (Some RC_OK) }
          else do {
            rc \<leftarrow> range_cache_fetch_span L P s e ?osz;
            if is_error rc
            then do { _ \<leftarrow> sys_close fd; State_Monad.return (Some rc) }
            else record_span fd (unat n) (unat s) (unat e) }) Q) v"
    proof (rule wp_release_frame [OF 1(1)], goal_cases)
      case (1 r u)
      show ?case
      proof (cases c)
        case True
        then have "range_cached org (fdata v L) (unat s) (unat e)"
          by (intro bits_good_blocks [OF v bits]) (simp add: c)
        then show ?thesis using True close [OF 1(1)] 1(2) by simp
      next
        case False
        then show ?thesis using fetch [OF 1(1)] by simp
      qed
    qed
    then show ?case by (simp add: c wp_bind [of "dyad_release_flock fd True"])
  qed
  have sized: "wp (do {
      sized \<leftarrow> size_files L fd ?osz n;
      if \<not> sized then fail_locked fd RC_BADFIO
      else do {
        ok \<leftarrow> sys_malloc;
        if \<not> ok then fail_locked fd RC_SYSFAIL
        else do {
          bitmap \<leftarrow> read_bitmap fd (unat n);
          case range_cache_blocks_set bitmap (unat s) (unat e) of
            None \<Rightarrow> State_Monad.return None
          | Some already_cached \<Rightarrow> do {
              _ \<leftarrow> dyad_release_flock fd True;
              if already_cached
              then do { _ \<leftarrow> sys_close fd; State_Monad.return (Some RC_OK) }
              else do {
                rc \<leftarrow> range_cache_fetch_span L P s e ?osz;
                if is_error rc
                then do { _ \<leftarrow> sys_close fd; State_Monad.return (Some rc) }
                else record_span fd (unat n) (unat s) (unat e) } } } } }) Q w'"
    if g: "cache_frame M b w' L P org fd" for M b w'
    unfolding wp_bind [of "size_files L fd ?osz n"]
  proof (rule wp_size_files [OF g osz], goal_cases)
    case (1 r K b' v)
    from cache_frameD(8) [OF 1] obtain b0 where b0: "b' = Some b0" by blast
    show ?case
      using failed [OF 1] check 1
      by (auto simp: wp_bind [of sys_malloc] b0 intro!: wp_malloc_frame [OF 1] failed)
  qed
  have stat: "wp (do {
      origin_st \<leftarrow> sys_stat P;
      case origin_st of
         None \<Rightarrow> fail_locked fd RC_BADFIO
       | Some st \<Rightarrow>
           if st_size st \<le> 0 then fail_locked fd RC_BADFIO
           else X st }) Q w'"
    if g: "cache_frame M b w' L P org fd" and X: "\<And>st v. st_size st = int (length org) \<Longrightarrow>
       cache_frame M b v L P org fd \<Longrightarrow> wp (X st) Q v" for M b w' X
    unfolding wp_bind [of "sys_stat P"]
    by (rule wp_stat_frame [OF g]) (use e X in \<open>auto intro!: failed\<close>)
  show ?thesis
    unfolding slow_path_def wp_bind [of "dyad_excl_flock fd True"]
  proof (rule wp_excl_frame [OF f], goal_cases)
    case (1 w')
    show ?case using close [OF 1(1)] by simp
  next
    case (2 bm' w')
    have "wp (do {
       origin_st \<leftarrow> sys_stat P;
       case origin_st of
         None \<Rightarrow> fail_locked fd RC_BADFIO
       | Some st \<Rightarrow>
           if st_size st \<le> 0 then fail_locked fd RC_BADFIO
           else do {
             let origin_size = (of_int (st_size st) :: size_t);
             let bitmap_bytes = range_cache_bitmap_bytes (range_cache_num_blocks origin_size);
             sized \<leftarrow> size_files L fd origin_size bitmap_bytes;
             if \<not> sized then fail_locked fd RC_BADFIO
             else do {
               ok \<leftarrow> sys_malloc;
               if \<not> ok then fail_locked fd RC_SYSFAIL
               else do {
                 bitmap \<leftarrow> read_bitmap fd (unat bitmap_bytes);
                 case range_cache_blocks_set bitmap (unat s) (unat e) of
                   None \<Rightarrow> State_Monad.return None
                 | Some already_cached \<Rightarrow> do {
                     _ \<leftarrow> dyad_release_flock fd True;
                     if already_cached
                     then do { _ \<leftarrow> sys_close fd; State_Monad.return (Some RC_OK) }
                     else do {
                       rc \<leftarrow> range_cache_fetch_span L P s e origin_size;
                       if is_error rc
                       then do { _ \<leftarrow> sys_close fd; State_Monad.return (Some rc) }
                       else record_span fd (unat bitmap_bytes) (unat s) (unat e) } } } } } }) Q w'"
    proof (rule stat [OF 2(1)], goal_cases)
      case (1 st v)
      show ?case using sized [OF 1(2)] unfolding 1(1) of_int_of_nat_eq Let_def n_def .
    qed
    then show ?case by simp
  qed
qed

lemma wp_fast_path:
  assumes f: "cache_frame N bm w L P org fd"
    and Q: "\<And>r w'. cache_frame N bm w' L P org fd \<Longrightarrow> r \<longrightarrow> range_cached org (fdata w' L) s e \<Longrightarrow> Q (Some r) w'"
  shows "wp (fast_path fd s e) Q w"
proof -
  from cache_frameD(8) [OF f] obtain b0 where b0: "bm = Some b0" by blast
  have no: "Q (Some False) w'" if "cache_frame N bm w' L P org fd" for w'
    using Q [OF that, of False] by simp
  have rd: "wp (do {
         (n, bitmap) \<leftarrow> sys_pread fd (length b0) 0;
         State_Monad.return
           (if n = int (length b0) then range_cache_blocks_set bitmap s e else Some False) }) Q w'"
    if g: "cache_frame N bm w' L P org fd" and e: "e div 8 < length b0" for w'
    unfolding wp_bind [of "sys_pread fd (length b0) 0"]
  proof (rule wp_pread_view [OF cache_frameD(1,7) [OF g] cache_frameD(9) [OF g, unfolded b0]], goal_cases)
    case (1 v)
    show ?case using no [OF cache_frame_same [OF g 1(1)]] by simp
  next
    case (2 k v)
    have v: "cache_frame N (Some b0) v L P org fd" using cache_frame_same [OF g 2(1)] b0 by simp
    show ?case
    proof (cases "k = length b0")
      case True
      from blocks_set_defined [OF e] obtain r where r: "range_cache_blocks_set b0 s e = Some r" by blast
      have "range_cached org (fdata v L) s e" if "r"
        by (rule bits_good_blocks [OF v, of b0]) (use r that in auto)
      then have "Q (Some r) v" by (intro Q) (use v b0 in auto)
      then show ?thesis using True r by simp
    next
      case False
      then show ?thesis using no v b0 by simp
    qed
  qed
  have sz: "wp (do {
       ok \<leftarrow> sys_malloc;
       if \<not> ok then State_Monad.return (Some False)
       else do {
         (n, bitmap) \<leftarrow> sys_pread fd (length b0) 0;
         State_Monad.return
           (if n = int (length b0) then range_cache_blocks_set bitmap s e else Some False) } }) Q w'"
    if g: "cache_frame N bm w' L P org fd" and e: "e div 8 < length b0" for w'
    unfolding wp_bind [of sys_malloc]
    by (rule wp_malloc_frame [OF g]) (use no rd e in auto)
  show ?thesis
    unfolding fast_path_def wp_bind [of "get_file_size fd"]
  proof (rule wp_get_file_size_view [OF cache_frameD(1,7) [OF f] cache_frameD(9) [OF f, unfolded b0]], goal_cases)
    case (1 r w')
    have g: "cache_frame N bm w' L P org fd" by (rule cache_frame_same [OF f 1(1)])
    from 1(2) show ?case
    proof
      assume "r = 0 \<and> faults w \<noteq> []"
      then show ?thesis using no [OF g] by simp
    next
      assume r: "r = int (length b0)"
      show ?thesis
      proof (cases "e div 8 < length b0")
        case True
        have "int (e div 8) < int (length b0)" using True by simp
        then show ?thesis unfolding r nat_int using sz [OF g True] by (simp only: if_True)
      next
        case False
        then show ?thesis using no [OF g] by (simp add: r)
      qed
    qed
  qed
qed

lemma wp_range_cache_ensure:
  assumes "cache_state w L P org" "length org < 2 ^ 63"
    and "0 < len" "unat offset + unat len \<le> length org"
  shows "wp (dyad_range_cache_ensure L (Some P) offset len) (\<lambda>r w'.
     r \<noteq> None \<and> cache_state w' L P org
   \<and> (r = Some RC_OK \<longrightarrow> (\<exists>l. fdata w' L = Some l
        \<and> take (unat len) (drop (unat offset) l) = take (unat len) (drop (unat offset) org)))) w"
proof -
  let ?Q = "\<lambda>r w'. r \<noteq> None \<and> cache_state w' L P org
   \<and> (r = Some RC_OK \<longrightarrow> (\<exists>l. fdata w' L = Some l
        \<and> take (unat len) (drop (unat offset) l) = take (unat len) (drop (unat offset) org)))"
  define s where "s = offset div BLOCK_SIZE"
  define e where "e = (offset + len - 1) div BLOCK_SIZE"
  have b: "unat BLOCK_SIZE = 65536" by (simp add: BLOCK_SIZE_def)
  have len0: "0 < unat len" using assms(3) by (simp add: word_less_nat_alt)
  have sum: "unat (offset + len) = unat offset + unat len"
    using assms(2,4) by (simp add: unat_word_ariths)
  then have sum1: "unat (offset + len - 1) = unat offset + unat len - 1"
    using len0 by (subst unat_sub) (simp_all add: word_le_nat_alt)
  have S: "unat s = unat offset div 65536" by (simp add: s_def unat_div b)
  have E: "unat e = (unat offset + unat len - 1) div 65536" by (simp only: e_def unat_div b sum1)
  have se: "unat s \<le> unat e" unfolding S E by (rule div_le_mono) (use len0 in linarith)
  have eN: "unat e * 65536 < length org"
  proof -
    have "unat e * 65536 \<le> unat offset + unat len - 1" unfolding E by simp
    then show ?thesis using assms(4) len0 by linarith
  qed
  have ok: "?Q (Some rc) w'" if "cache_state w' L P org"
    "rc = RC_OK \<longrightarrow> range_cached org (fdata w' L) (unat s) (unat e)" for rc w'
    using that range_cached_bytes [of org "fdata w' L" "unat offset" "unat len"] len0 assms(4)
    unfolding S E by auto
  have slow: "wp (slow_path L P fd s e) ?Q w'" if "cache_frame N bm w' L P org fd" for N bm w' fd
    by (rule wp_slow_path [OF that assms(2) eN se]) (rule ok)
  have locked: "wp (do {
      hit \<leftarrow> fast_path fd (unat s) (unat e);
      case hit of
        None \<Rightarrow> State_Monad.return None
      | Some True \<Rightarrow> fail_locked fd RC_OK
      | Some False \<Rightarrow> do {
          _ \<leftarrow> dyad_release_flock fd True;
          slow_path L P fd s e } }) ?Q w'" if f: "cache_frame N bm w' L P org fd" for N bm w' fd
    unfolding wp_bind [of "fast_path fd (unat s) (unat e)"]
  proof (rule wp_fast_path [OF f], goal_cases)
    case (1 r v)
    show ?case
    proof (cases r)
      case True
      have "wp (fail_locked fd RC_OK) ?Q v"
        by (rule wp_fail_locked [OF 1(1)], rule ok) (use 1(2) True in auto)
      with True show ?thesis by simp
    next
      case False
      have "wp (do { _ \<leftarrow> dyad_release_flock fd True; slow_path L P fd s e }) ?Q v"
        unfolding wp_bind by (rule wp_release_frame [OF 1(1)]) (rule slow)
      with False show ?thesis by simp
    qed
  qed
  have shared: "wp (do {
      rc \<leftarrow> dyad_shared_flock fd True;
      if is_error rc then do { _ \<leftarrow> sys_close fd; State_Monad.return (Some rc) }
      else do {
        hit \<leftarrow> fast_path fd (unat s) (unat e);
        case hit of
          None \<Rightarrow> State_Monad.return None
        | Some True \<Rightarrow> fail_locked fd RC_OK
        | Some False \<Rightarrow> do {
            _ \<leftarrow> dyad_release_flock fd True;
            slow_path L P fd s e } } }) ?Q w'" if f: "cache_frame N bm w' L P org fd" for N bm w' fd
    unfolding wp_bind [of "dyad_shared_flock fd True"]
  proof (rule wp_shared_frame [OF f], goal_cases)
    case (1 v)
    have "wp (sys_close fd) (\<lambda>_. ?Q (Some RC_BADFIO)) v"
      by (rule wp_close_state [OF 1(1)]) simp
    then show ?case by (simp add: wps)
  next
    case (2 bm' v)
    show ?case using locked [OF 2(1)] by simp
  qed
  have opn: "wp (do {
      bitmap_fd \<leftarrow> sys_open (bitmap_name L) (O_RDWR OR O_CREAT) 420;
      if bitmap_fd = - 1 then State_Monad.return (Some RC_BADFIO)
      else do {
        rc \<leftarrow> dyad_shared_flock bitmap_fd True;
        if is_error rc then do { _ \<leftarrow> sys_close bitmap_fd; State_Monad.return (Some rc) }
        else do {
          hit \<leftarrow> fast_path bitmap_fd (unat s) (unat e);
          case hit of
            None \<Rightarrow> State_Monad.return None
          | Some True \<Rightarrow> fail_locked bitmap_fd RC_OK
          | Some False \<Rightarrow> do {
              _ \<leftarrow> dyad_release_flock bitmap_fd True;
              slow_path L P bitmap_fd s e } } } }) ?Q w"
    unfolding wp_bind [of "sys_open (bitmap_name L) (O_RDWR OR O_CREAT) 420"]
  proof (rule wp_open_view, goal_cases)
    case (3 v)
    show ?case using ok [OF cache_state_same [OF assms(1) 3(1)], of RC_BADFIO] by simp
  next
    case (4 fd v)
    let ?B = "bitmap_name L"
    have o: "opened w ?B (O_RDWR OR O_CREAT) = (if fdata w ?B = None then (fdata w)(?B \<mapsto> []) else fdata w)"
      by (simp add: opened_def oflag_defs)
    have empty: "bits_good org lo []" for lo by (simp add: bits_good_def block_bit_def)
    have c: "cache_state v L P org"
      by (rule cache_state_view [OF assms(1) 4(1)])
        (use assms(1) empty in \<open>auto simp: o cache_state_def\<close>)
    have a: "fd_at v fd ?B True True" using 4(4) by (simp add: oflag_defs)
    have "fdata v ?B \<noteq> None" using viewD(2) [OF 4(1)] by (simp add: o)
    with a have "bitmap_open v L fd" by (simp add: bitmap_open_def)
    from shared [OF cache_frame_start [OF c this]] 4(2) show ?case by simp
  qed (use assms(1) in \<open>auto simp: cache_state_def\<close>)
  have nz: "len \<noteq> 0" using assms(3) by auto
  show ?thesis
  proof (cases "PATH_MAX + 1 \<le> length (bitmap_name L)")
    case True
    then show ?thesis
      using nz assms(1)
      by (simp add: dyad_range_cache_ensure_def range_cache_bitmap_path_def bitmap_name_def)
  next
    case False
    then have "range_cache_bitmap_path L (PATH_MAX + 1) = Inr (bitmap_name L)"
      by (simp add: range_cache_bitmap_path_def bitmap_name_def)
    then show ?thesis
      using opn nz unfolding dyad_range_cache_ensure_def Let_def s_def e_def
      by (simp only: option.case sum.case if_False)
  qed
qed

text \<open>
  C5: the block cache is correct. Let the bitmap be good, so that every set bit stands for a block
  the local copy has, and let the request lie inside the origin. Then, whatever fails and whatever good
  bits a process holding the lock adds, \<^verbatim>\<open>dyad_range_cache_ensure\<close> stays inside its buffers,
  leaves the bitmap good and the origin unchanged, and whenever it returns \<^verbatim>\<open>DYAD_RC_OK\<close> the
  bytes of the range are, in the local copy, those of the origin.
\<close>

theorem range_cache_ensure_correct:
  assumes "cache_state w L P org" "length org < 2 ^ 63"
    and "0 < len" "unat offset + unat len \<le> length org"
  shows "wp (dyad_range_cache_ensure L (Some P) offset len) (\<lambda>r w'.
     r \<noteq> None \<and> cache_state w' L P org
   \<and> (r = Some RC_OK \<longrightarrow> (\<exists>l. fdata w' L = Some l
        \<and> take (unat len) (drop (unat offset) l) = take (unat len) (drop (unat offset) org)))) w"
  by (rule wp_range_cache_ensure [OF assms])

definition origin_world :: "bytes \<Rightarrow> world" where
  "origin_world d = root_world\<lparr>names := (names root_world)(''/o'' \<mapsto> 2),
     inodes := (inodes root_world)(2 \<mapsto> file_inode d), next_ino := 3\<rparr>"

lemma origin_world_state: "cache_state (origin_world d) ''/l'' ''/o'' d"
  by (auto simp: cache_state_def good_def wf_world_def origin_world_def root_world_def fdata_def
      inode_of_path_def is_dir_def left_by_other_def bitmap_name_def file_inode_def dir_inode_def
      split: if_splits)

lemma range_cache_ensure_correct_witness:
  "\<exists>w' l. run_state (dyad_range_cache_ensure ''/l'' (Some ''/o'') 1 2) (origin_world [7, 8, 9])
       = (Some RC_OK, w')
     \<and> fdata w' ''/l'' = Some l \<and> take 2 (drop 1 l) = [8, 9]"
proof -
  let ?r = "run_state (dyad_range_cache_ensure ''/l'' (Some ''/o'') 1 2) (origin_world [7, 8, 9])"
  have r: "fst ?r = Some RC_OK" by code_simp
  have "wp (dyad_range_cache_ensure ''/l'' (Some ''/o'') 1 2) (\<lambda>r w'. r \<noteq> None
      \<and> cache_state w' ''/l'' ''/o'' [7, 8, 9]
      \<and> (r = Some RC_OK \<longrightarrow> (\<exists>l. fdata w' ''/l'' = Some l
        \<and> take (unat (2 :: size_t)) (drop (unat (1 :: size_t)) l)
        = take (unat (2 :: size_t)) (drop (unat (1 :: size_t)) [7, 8, 9])))) (origin_world [7, 8, 9])"
    by (rule range_cache_ensure_correct [OF origin_world_state]) simp_all
  then have "\<exists>l. fdata (snd ?r) ''/l'' = Some l \<and> take 2 (drop 1 l) = [8, 9]"
    using r unfolding wp_run by simp
  with r show ?thesis by (metis prod.collapse)
qed

section \<open>Outside the range\<close>

text \<open>
  A request that reaches beyond the last block the bitmap has a byte for is not refused: the
  missing span up to the end of the origin is fetched and then the bits of the blocks after it
  are set outside the buffer. Here the origin has three bytes and the request one block more
  than one byte of the bitmap covers.
\<close>

lemma range_cache_past_end_undefined:
  "fst (run_state (dyad_range_cache_ensure ''/l'' (Some ''/o'') 0 524289) (origin_world [7, 8, 9])) = None"
  by code_simp

text \<open>
  A bitmap that outlives its local copy vouches for bytes that are gone: with the bit set and no
  local file the call reports success and creates nothing.
\<close>

definition stale_world :: world where
  "stale_world = (origin_world [7, 8, 9])\<lparr>
     names := (names (origin_world [7, 8, 9]))(''/l.dyad_cached'' \<mapsto> 3),
     inodes := (inodes (origin_world [7, 8, 9]))(3 \<mapsto> file_inode [1]), next_ino := 4\<rparr>"

lemma range_cache_stale_bitmap:
  "fst (run_state (dyad_range_cache_ensure ''/l'' (Some ''/o'') 0 3) stale_world) = Some RC_OK"
  "fdata (snd (run_state (dyad_range_cache_ensure ''/l'' (Some ''/o'') 0 3) stale_world)) ''/l'' = None"
  by code_simp+

end
