(* ===== verification/Service_Ranges.thy ===== *)
theory Service_Ranges
  imports Service_Files Range_Cache_Correct
begin

text \<open>
  What the workers of the module read: the length to serve never exceeds the buffer, the loop stops
  within its fuel, and an item that succeeds holds exactly the requested part of the file, which, with
  an origin, is that part of the origin.
\<close>

section \<open>The length to serve\<close>

lemma sint_unat: "unat a < 2 ^ 63 \<Longrightarrow> sint a = int (unat a)" for a :: size_t
proof -
  assume "unat a < 2 ^ 63"
  then have "uint a < 2 ^ 63" by (simp only: unat_eq_nat_uint nat_less_iff uint_ge_0) simp
  moreover have "- (2 ^ 63) \<le> uint a" by (rule order_trans [OF _ uint_ge_0]) simp
  ultimately have "signed_take_bit 63 (uint a) = uint a" by (intro signed_take_bit_int_eq_self)
  then show ?thesis by (simp add: sint_uint)
qed

lemma unat_sum: "unat off + unat len < 2 ^ 63 \<Longrightarrow> unat (off + len) = unat off + unat len"
  for off len :: size_t
  by (simp add: unat_word_ariths)

text \<open>Inside the file the length is that of the part.\<close>

lemma clamp_range_slice:
  assumes "unat off + unat len < 2 ^ 63"
  shows "clamp_range (int (length d)) off len = int (length (take (unat len) (drop (unat off) d)))"
proof -
  have s: "sint off = int (unat off)" "sint len = int (unat len)"
    "sint (off + len) = int (unat off + unat len)"
    using assms sint_unat [of off] sint_unat [of len] sint_unat [of "off + len"] unat_sum [OF assms]
    by simp_all
  have "(if int a \<ge> int n then 0 else if int (a + b) > int n then int n - int a else int b) = int (min (n - a) b)"
    for a b n :: nat by auto
  then show ?thesis by (simp only: clamp_range_def s length_take length_drop min.commute)
qed

lemma sint_add_cases:
  fixes a b :: size_t
  assumes "0 \<le> sint b" and "0 \<le> sint (a + b)"
  shows "sint (a + b) = sint a + sint b"
proof -
  have s: "sint (a + b) = (sint a + sint b + 2 ^ 63) mod 2 ^ 64 - 2 ^ 63"
    by (simp add: sint_word_ariths signed_take_bit_eq_take_bit_shift take_bit_eq_mod)
  have "- (2 ^ 63) \<le> sint a" "sint a < 2 ^ 63" "sint b < 2 ^ 63"
    using sint_range_size [of a] sint_range_size [of b] by (simp_all add: word_size)
  then have x: "0 \<le> sint a + sint b + 2 ^ 63" "sint a + sint b + 2 ^ 63 < 2 ^ 64 + 2 ^ 63"
    using assms(1) by simp_all
  show ?thesis
  proof (cases "sint a + sint b + 2 ^ 63 < 2 ^ 64")
    case True
    with x(1) show ?thesis unfolding s by simp
  next
    case False
    then have "(sint a + sint b + 2 ^ 63) mod 2 ^ 64 = sint a + sint b + 2 ^ 63 - 2 ^ 64"
      using x by (subst mod_pos_geq) simp_all
    with assms(2) x(2) show ?thesis unfolding s by simp
  qed
qed

text \<open>
  A corrupt request cannot make the module write outside the buffer. For every offset and every
  length of a buffer, the number of bytes to read is at most that length, also when the sum of
  offset and length overflows.
\<close>

theorem clamp_range_le:
  assumes "0 \<le> sint len" and "0 \<le> file_size"
  shows "clamp_range file_size offset len \<le> sint len"
proof (cases "sint (offset + len) > file_size")
  case True
  with assms sint_add_cases [of len offset] show ?thesis by (simp add: clamp_range_def)
next
  case False
  with assms show ?thesis by (simp add: clamp_range_def)
qed

theorem clamp_range_le_witness: "clamp_range 10 7 (2 ^ 63 - 1) \<le> sint (2 ^ 63 - 1 :: size_t)"
  by (rule clamp_range_le) simp_all

section \<open>Reading at an offset\<close>

lemma wp_pread_loop:
  assumes "good w" "fd_at w fd p True wr" "fdata w p = Some d"
    and "part = take len (drop (unat off) d)" and "unat off + len < 2 ^ 63"
    and "acc = take (length acc) part" and "length part \<le> length acc + fuel"
  shows "wp (pread_loop fuel fd (length part) off acc)
     (\<lambda>r w'. view w w' (fdata w) \<and> (r = Some None \<and> faults w \<noteq> [] \<or> r = Some (Some part))) w"
  using assms
proof (induction fuel arbitrary: acc w)
  case 0
  have "acc = part" using 0(6,7) by (metis add_0_right take_all)
  with 0(1) show ?case by (simp add: pread_loop.simps)
next
  case (Suc fuel)
  show ?case
  proof (cases "length acc < length part")
    case False
    then have "acc = part" using Suc.prems(6) by (metis not_less take_all)
    with Suc.prems(1) show ?thesis by (simp add: pread_loop.simps)
  next
    case True
    define n where "n = (if length part - length acc > TRANSFER_GRANULARITY then TRANSFER_GRANULARITY
                         else length part - length acc)"
    have n: "0 < n" "n \<le> length part - length acc" using True by (simp_all add: n_def TRANSFER_GRANULARITY_def)
    have la: "length acc < len" using True Suc.prems(4) by simp
    have pos: "unat (off + of_nat (length acc)) = unat off + length acc"
      using Suc.prems(5) la by (simp add: unat_word_ariths unat_of_nat)
    have pos63: "\<not> sint (off + of_nat (length acc)) < 0"
      using sint_unat [of "off + of_nat (length acc)"] pos Suc.prems(5) la
      by (simp add: add_nonneg_nonneg not_less)
    have tk: "take k (drop (unat off + length acc) d) = take k (drop (length acc) part)" if "k \<le> n" for k
    proof -
      have "length part \<le> len" using Suc.prems(4) by simp
      then have "k \<le> len - length acc" using that n(2) by linarith
      then show ?thesis using Suc.prems(4) by (simp add: drop_take add.commute)
    qed
    have "wp (sys_pread_at fd n (off + of_nat (length acc))) (\<lambda>(inlen, b) w'.
          wp (if inlen \<le> 0 then State_Monad.return (Some None)
            else pread_loop fuel fd (length part) off (acc @ b))
          (\<lambda>r w'. view w w' (fdata w) \<and> (r = Some None \<and> faults w \<noteq> [] \<or> r = Some (Some part))) w') w"
      unfolding sys_pread_at_def if_not_P [OF pos63] pos
    proof (rule wp_pread_view [OF Suc.prems(1-3)], goal_cases)
      case (1 w1)
      then show ?case by simp
    next
      case (2 k w1)
      note v = viewD [OF 2(1)]
      show ?case
      proof (cases "k = 0")
        case True
        then show ?thesis using 2 n \<open>length acc < length part\<close> Suc.prems(4) by auto
      next
        case False
        let ?acc = "acc @ take k (drop (unat off + length acc) d)"
        have acc: "?acc = take (length acc + k) part" using Suc.prems(6) tk [OF 2(2)] by (metis take_add)
        have len: "length ?acc = length acc + k" using 2(3) by simp
        have "wp (pread_loop fuel fd (length part) off ?acc)
           (\<lambda>r w'. view w1 w' (fdata w1) \<and> (r = Some None \<and> faults w1 \<noteq> [] \<or> r = Some (Some part))) w1"
        proof (rule Suc.IH [OF v(1) v(6) [OF Suc.prems(2)]])
          show "fdata w1 p = Some d" using v(2) Suc.prems(3) by simp
          show "?acc = take (length ?acc) part" using acc len by simp
          show "length part \<le> length ?acc + fuel" using len False Suc.prems(7) by simp
        qed (use Suc.prems in simp_all)
        then show ?thesis
          using False v(2,7) 2(1) by (auto elim!: wp_mono intro: view_trans)
      qed
    qed
    with True show ?thesis
      unfolding pread_loop.simps [of "Suc fuel"] Let_def n_def [symmetric]
      by (simp add: wp_bind case_prod_unfold)
  qed
qed

section \<open>The work item\<close>

text \<open>An item whose buffer has the length of its request, which does not wrap around.\<close>

definition item_ok :: "work_item \<Rightarrow> bool" where
  "item_ok item \<longleftrightarrow> (\<exists>b. wi_inbuf item = Some b \<and> length b = unat (wi_length item))
     \<and> unat (wi_offset item) + unat (wi_length item) < 2 ^ 63"

definition item_part :: "work_item \<Rightarrow> bytes \<Rightarrow> bytes" where
  "item_part item d = take (unat (wi_length item)) (drop (unat (wi_offset item)) d)"

text \<open>
  What the completion callback needs of the item is still there. When the size of the file cannot
  be read it counts as zero, and an empty range is a success.
\<close>

definition same_request :: "work_item \<Rightarrow> work_item \<Rightarrow> bool" where
  "same_request item item' \<longleftrightarrow> wi_msg item' = wi_msg item \<and> wi_req_state item' = wi_req_state item
     \<and> wi_thread_safe item' = wi_thread_safe item"

lemma same_request_failed [simp]: "same_request item (item_failed e item)" "wi_rc (item_failed e item) = RC_BADFIO"
  by (simp_all add: same_request_def item_failed_def)

lemma item_data_part:
  assumes "wi_inbuf item = Some (part @ rest)" "wi_range_len item = int (length part)" "length part < 2 ^ 63"
  shows "item_data item = part"
  using assms by (simp add: item_data_def unat_of_nat take_bit_nat_eq_self)

definition read_result :: "work_item \<Rightarrow> 'x world_scheme \<Rightarrow> work_item option \<Rightarrow> 'x world_scheme \<Rightarrow> bool" where
  "read_result item w r w' \<longleftrightarrow> (\<exists>item'. r = Some item' \<and> same_request item item'
     \<and> (wi_rc item' = RC_OK \<longrightarrow> (\<exists>d. fdata w' (wi_fullpath item) = Some d
          \<and> (fdata w (wi_fullpath item) = Some d \<or> left_by_other w (wi_fullpath item) d)
          \<and> (item_data item' = item_part item d \<or> faults w \<noteq> [] \<and> item_data item' = [])))
     \<and> (faults w = [] \<and> fdata w (wi_fullpath item) \<noteq> None \<longrightarrow> wi_rc item' = RC_OK))"

lemma read_result_failed:
  "\<not> (faults w = [] \<and> fdata w (wi_fullpath item) \<noteq> None) \<Longrightarrow> read_result item w (Some (item_failed e item)) w'"
  by (simp add: read_result_def)

lemma wp_read_locked:
  assumes "good w1" "fd_at w1 fd (wi_fullpath item) True False" "fdata w1 (wi_fullpath item) = Some d"
    and "item_ok item" "faults w = [] \<Longrightarrow> faults w1 = []"
    and "fdata w (wi_fullpath item) = Some d \<or> left_by_other w (wi_fullpath item) d"
  shows "wp (read_locked item fd) (read_result item w) w1"
  unfolding read_locked_def wp_bind
proof (rule wp_get_file_size_view [OF assms(1-3)], goal_cases)
  case (1 size w2)
  note v2 = viewD [OF 1(1)]
  have at2: "fd_at w2 fd (wi_fullpath item) True False" and d2: "fdata w2 (wi_fullpath item) = Some d"
    using v2(6) [OF assms(2)] v2(2) assms(3) by simp_all
  have fd: "0 \<le> fd" using assms(2) by (simp add: fd_at_def)
  obtain b where b: "wi_inbuf item = Some b" "length b = unat (wi_length item)"
    and small: "unat (wi_offset item) + unat (wi_length item) < 2 ^ 63"
    using assms(4) by (auto simp: item_ok_def)
  define part where "part = (if size = int (length d) then item_part item d else [])"
  have part: "part = item_part item d \<or> faults w \<noteq> [] \<and> part = []"
    using 1(2) assms(5) by (auto simp: part_def)
  have len: "length part \<le> unat (wi_length item)" by (simp add: part_def item_part_def)
  have clamp: "clamp_range size (wi_offset item) (wi_length item) = int (length part)"
  proof (cases "size = int (length d)")
    case True
    then show ?thesis by (simp add: part_def item_part_def clamp_range_slice [OF small])
  next
    case False
    have "0 \<le> sint (wi_offset item)" using small sint_unat [of "wi_offset item"] by simp
    with False 1(2) show ?thesis by (simp add: part_def clamp_range_def)
  qed
  have fin: "wp (case r of
       None \<Rightarrow> State_Monad.return None
     | Some None \<Rightarrow> do {
         e \<leftarrow> get_errno;
         _ \<leftarrow> dyad_release_flock fd True;
         _ \<leftarrow> sys_close fd;
         State_Monad.return (Some (item_failed (if e = E_NONE then EIO else e) item)) }
     | Some (Some x) \<Rightarrow> do {
         _ \<leftarrow> dyad_release_flock fd True;
         _ \<leftarrow> sys_close fd;
         State_Monad.return (Some
           (item\<lparr>wi_rc := RC_OK, wi_range_len := int (length part),
                 wi_inbuf := map_option (\<lambda>b. x @ drop (length x) b) (wi_inbuf item)\<rparr>)) })
     (read_result item w) w3"
    if v: "view w2 w3 (fdata w2)" and r: "r = Some None \<and> faults w2 \<noteq> [] \<or> r = Some (Some part)" for r w3
  proof -
    note v3 = viewD [OF v]
    have at3: "fd_at w3 fd (wi_fullpath item) True False" and d3: "fdata w3 (wi_fullpath item) = Some d"
      using v3(6) [OF at2] v3(2) d2 by simp_all
    have leave: "wp (do { _ \<leftarrow> dyad_release_flock fd True; _ \<leftarrow> sys_close fd; State_Monad.return x }) (read_result item w) w3"
      if "\<And>w'. fdata w' (wi_fullpath item) = Some d \<Longrightarrow> read_result item w x w'" for x
      unfolding wp_bind
    proof (rule wp_release_flock_view [OF v3(1) at3 d3], goal_cases)
      case (1 rc w4)
      then show ?case
        using viewD(1,2) [OF 1] fd d3
        by (intro wp_close_view) (auto simp: closed_def intro!: that)
    qed
    from r show ?thesis
    proof (rule disjE)
      assume *: "r = Some None \<and> faults w2 \<noteq> []"
      then have "faults w \<noteq> []" using v2(7) assms(5) by auto
      with * show ?thesis by (simp add: wps read_result_failed) (simp add: wp_run)
    next
      assume *: "r = Some (Some part)"
      let ?item = "item\<lparr>wi_rc := RC_OK, wi_range_len := int (length part),
                 wi_inbuf := Some (part @ drop (length part) b)\<rparr>"
      have "item_data ?item = part" by (rule item_data_part [of _ _ "drop (length part) b"]) (use len small in simp_all)
      then have "read_result item w (Some ?item) w'" if "fdata w' (wi_fullpath item) = Some d" for w'
        using that assms(6) part by (auto simp: read_result_def same_request_def)
      with * leave b(1) show ?thesis by (simp add: wps)
    qed
  qed
  show ?case
  proof (cases "part = []")
    case True
    then show ?thesis using fin [OF view_refl [OF v2(1)], of "Some (Some [])"] clamp by (simp add: wps)
  next
    case False
    then have pt: "part = item_part item d" by (simp add: part_def split: if_splits)
    have "wp (pread_loop (length part) fd (length part) (wi_offset item) [])
       (\<lambda>r w'. view w2 w' (fdata w2) \<and> (r = Some None \<and> faults w2 \<noteq> [] \<or> r = Some (Some part))) w2"
      by (rule wp_pread_loop [OF v2(1) at2 d2, of _ "unat (wi_length item)"])
        (use pt small in \<open>simp_all add: item_part_def\<close>)
    then show ?thesis
      using False clamp by (simp add: wps) (erule wp_mono, erule conjE, erule (1) fin)
  qed
qed

lemma wp_read_item:
  assumes "good w" "\<not> is_dir w (wi_fullpath item)" "item_ok item"
  shows "wp (read_item item) (read_result item w) w"
  unfolding read_item_def wp_bind
proof (rule wp_open_rd [OF assms(1,2)], goal_cases)
  case (1 w1)
  then show ?case by (auto simp: wps intro!: read_result_failed)
next
  case (2 fd d w1)
  note v1 = viewD [OF 2(1)] and at1 = 2(4) and dw = 2(6) and fd = 2(3)
  have d1: "fdata w1 (wi_fullpath item) = Some d" using v1(2) dw by simp
  have nneg: "\<not> fd < 0" using fd by simp
  show ?case
    unfolding if_not_P [OF nneg] wp_bind
  proof (rule wp_shared_flock_view [OF v1(1) at1 d1], goal_cases)
    case (1 w2)
    note v2 = viewD [OF 1(1)]
    have "faults w \<noteq> []" using 1(2) v1(7) by auto
    then show ?case
      by (auto simp: wps intro!: wp_close_view [OF v2(1) fd] read_result_failed)
  next
    case (2 F' w2)
    note v2 = viewD [OF 2(1)]
    note at2 = v2(6) [OF at1]
    obtain d2 where d2: "fdata w2 (wi_fullpath item) = Some d2"
      "d2 = d \<or> left_by_other w (wi_fullpath item) d2"
      using 2(2) v2(2) d1 v1(2,3) by auto
    have nf: "faults w2 = []" if "faults w = []" using that v1(7) v2(7) by simp
    have rest: "wp (read_locked item fd) (read_result item w) w2"
      by (rule wp_read_locked [OF v2(1) at2 d2(1) assms(3) nf]) (use d2(2) dw in auto)
    then show ?case by simp
  qed
qed

section \<open>What reading leaves alone\<close>

lemma wp_pread_loop_view:
  assumes "good w" "fd_at w fd p True wr" "fdata w p = Some d"
  shows "wp (pread_loop fuel fd n off acc) (\<lambda>_ w'. view w w' (fdata w)) w"
  using assms
proof (induction fuel arbitrary: acc w)
  case 0
  then show ?case by (simp add: pread_loop.simps)
next
  case (Suc fuel)
  define k where "k = (if n - length acc > TRANSFER_GRANULARITY then TRANSFER_GRANULARITY else n - length acc)"
  have step: "wp (if inlen \<le> 0 then State_Monad.return (Some None) else pread_loop fuel fd n off (acc @ b))
      (\<lambda>_ w'. view w w' (fdata w)) w1" if "view w w1 (fdata w)" for inlen b w1
  proof -
    note v = viewD [OF that]
    have "wp (pread_loop fuel fd n off (acc @ b)) (\<lambda>_ w'. view w1 w' (fdata w1)) w1"
      by (rule Suc.IH [OF v(1) v(6) [OF Suc.prems(2)]]) (simp add: v(2) Suc.prems(3))
    with that v(2) show ?thesis by (auto elim!: wp_mono intro: view_trans)
  qed
  have "wp (sys_pread_at fd k pos) (\<lambda>(inlen, b) w1.
      wp (if inlen \<le> 0 then State_Monad.return (Some None) else pread_loop fuel fd n off (acc @ b))
        (\<lambda>_ w'. view w w' (fdata w)) w1) w" for pos
  proof (cases "sint pos < 0")
    case True
    have "view w (w\<lparr>errno := e\<rparr>) (fdata w)" for e by (rule view_errno [OF view_refl [OF Suc.prems(1)]])
    then show ?thesis using True by (simp add: sys_pread_at_def wps)
  next
    case False
    show ?thesis
      unfolding sys_pread_at_def if_not_P [OF False]
      by (rule wp_pread_view [OF Suc.prems]; unfold prod.case; rule step)
  qed
  then show ?case
    using Suc.prems(1) unfolding pread_loop.simps [of "Suc fuel"] Let_def k_def [symmetric]
    by (simp add: wp_bind case_prod_unfold)
qed

text \<open>Reading an item keeps a good block cache good when nobody else holds a lock on the local copy.\<close>

lemma wp_read_item_cache:
  assumes c: "cache_state w (wi_fullpath item) P org" and free: "\<And>d. \<not> left_by_other w (wi_fullpath item) d"
  shows "wp (read_item item) (\<lambda>_ w'. cache_state w' (wi_fullpath item) P org) w"
proof -
  let ?L = "wi_fullpath item"
  have g: "good w" "\<not> is_dir w ?L" using c by (simp_all add: cache_state_def)
  have close: "wp (do { _ \<leftarrow> dyad_release_flock fd True; _ \<leftarrow> sys_close fd; State_Monad.return x })
      (\<lambda>_ w'. cache_state w' ?L P org) w1"
    if "cache_state w1 ?L P org" "fd_at w1 fd ?L True False" "fdata w1 ?L = Some d" for fd x d w1
    unfolding wp_bind
  proof (rule wp_release_flock_view [OF _ that(2,3)], use that(1) in \<open>simp add: cache_state_def\<close>, goal_cases)
    case (1 rc w2)
    have "0 \<le> fd" using that(2) by (simp add: fd_at_def)
    with 1 show ?case
      by (intro wp_close_view [OF viewD(1) [OF 1]])
        (auto intro: cache_state_closed [OF cache_state_same [OF that(1) 1]])
  qed
  show ?thesis
    unfolding read_item_def wp_bind
  proof (rule wp_open_rd [OF g], goal_cases)
    case (1 w1)
    then show ?case by (simp add: wps cache_state_same [OF c])
  next
    case (2 fd d w1)
    note v1 = viewD [OF 2(1)] and c1 = cache_state_same [OF c 2(1)] and at1 = 2(4) and fd = 2(3)
    have d1: "fdata w1 ?L = Some d" and nneg: "\<not> fd < 0" using v1(2) 2(6) fd by simp_all
    show ?case
      unfolding if_not_P [OF nneg] wp_bind
    proof (rule wp_shared_flock_view [OF v1(1) at1 d1], goal_cases)
      case (1 w2)
      note c2 = cache_state_same [OF c1]
      show ?case
        using 1 by (auto simp: wps v1(2) intro!: wp_close_view [OF viewD(1) [OF 1(1)] fd] cache_state_closed [OF c2 [OF 1(1)]])
    next
      case (2 F' w2)
      have F: "F' = fdata w1" using 2(2) v1(3) free by auto
      note v2 = viewD [OF 2(1) [unfolded F]] and c2 = cache_state_same [OF c1 2(1) [unfolded F]]
      have at2: "fd_at w2 fd ?L True False" and d2: "fdata w2 ?L = Some d" using v2(6) [OF at1] v2(2) d1 by simp_all
      have "wp (read_locked item fd) (\<lambda>_ w'. cache_state w' ?L P org) w2"
        unfolding read_locked_def wp_bind
      proof (rule wp_get_file_size_view [OF v2(1) at2 d2], goal_cases)
        case (1 size w3)
        note v3 = viewD [OF 1(1)] and c3 = cache_state_same [OF c2 1(1)]
        have at3: "fd_at w3 fd ?L True False" and d3: "fdata w3 ?L = Some d" using v3(6) [OF at2] v3(2) d2 by simp_all
        define n where "n = clamp_range size (wi_offset item) (wi_length item)"
        have loop: "wp (if n > 0 then pread_loop (nat n) fd (nat n) (wi_offset item) [] else State_Monad.return (Some (Some [])))
            (\<lambda>r w'. view w3 w' (fdata w3) \<and> (n > 0 \<or> r = Some (Some []))) w3"
          using wp_pread_loop_view [OF v3(1) at3 d3] v3(1) by (auto elim: wp_mono)
        show ?case
          unfolding Let_def n_def [symmetric] wp_bind [of "if _ then _ else _"]
        proof (rule wp_mono [OF loop], goal_cases)
          case (1 r w4)
          note v4 = viewD [OF conjunct1 [OF 1]] and c4 = cache_state_same [OF c3 conjunct1 [OF 1]]
          have "fd_at w4 fd ?L True False" "fdata w4 ?L = Some d" using v4(6) [OF at3] v4(2) d3 by simp_all
          with close [OF c4] c4 show ?case
            by (cases r; cases "the r") (auto simp: wps)
        qed
      qed
      then show ?case by simp
    qed
  qed
qed

section \<open>No other holder\<close>

text \<open>A path whose file no other process has locked, and every later file of that name neither.\<close>

definition unheld :: "string \<Rightarrow> 'x world_scheme \<Rightarrow> bool" where
  "unheld p w \<longleftrightarrow> (\<forall>n. others w n \<noteq> None \<longrightarrow> n < next_ino w)
     \<and> (\<forall>n. names w p = Some n \<longrightarrow> others w n = None)"

lemma unheldD: "unheld p w \<Longrightarrow> \<not> left_by_other w p d"
  by (auto simp: unheld_def left_by_other_def)

lemma unheldI: "good w \<Longrightarrow> (\<And>d. \<not> left_by_other w p d) \<Longrightarrow> unheld p w"
  unfolding unheld_def good_def wf_world_def left_by_other_def
  by (metis not_None_eq old.prod.exhaust)

lemma unheld_parts [simp]: "unheld p (w\<lparr>faults := xs\<rparr>) = unheld p w" "unheld p (w\<lparr>errno := e\<rparr>) = unheld p w"
  "unheld p (w\<lparr>locks := l\<rparr>) = unheld p w" "unheld p (set_data n d w) = unheld p w"
  "unheld p (set_lock n k w) = unheld p w" "unheld p (drop_fd fd w) = unheld p w"
  "unheld p (w\<lparr>inodes := i\<rparr>) = unheld p w" "unheld p (snd (new_fd n q fl w)) = unheld p w"
  by (simp_all add: unheld_def set_data_def set_lock_def drop_fd_def new_fd_def split: option.split)

lemma unheld_new_file:
  assumes "unheld p w"
  shows "unheld p (new_file q i w)"
proof -
  have "others w (next_ino w) = None"
    using assms less_irrefl unfolding unheld_def by blast
  with assms show ?thesis by (simp add: unheld_def new_file_def less_Suc_eq)
qed

lemma unheld_wait: "unheld p w \<Longrightarrow> unheld p (w\<lparr>others := (others w)(n := None)\<rparr>)"
  by (auto simp: unheld_def)

lemma keeps_unheld:
  "(\<And>flt w. unheld p w \<Longrightarrow> unheld p (snd (f flt w))) \<Longrightarrow> keeps (unheld p) (syscall f)"
  by (rule keeps_syscall) simp_all

lemma keep_unheld [keep]:
  "keeps (unheld p) sys_malloc" "keeps (unheld p) (sys_close fd)"
  "keeps (unheld p) (sys_pread fd n off)" "keeps (unheld p) (sys_pwrite fd b off)"
  "keeps (unheld p) (sys_ftruncate fd n)" "keeps (unheld p) (sys_stat q)" "keeps (unheld p) (sys_fstat fd)"
  "keeps (unheld p) (sys_unlock fd)"
  unfolding sys_malloc_def sys_close_def sys_pread_def sys_pwrite_def sys_ftruncate_def
    sys_stat_def sys_fstat_def sys_unlock_def fail_def Let_def
  by (rule keeps_unheld, simp split: fault.split option.split prod.split)+

lemma keep_unheld_setlkw [keep]: "keeps (unheld p) (sys_setlkw fd k)"
  unfolding sys_setlkw_def fail_def
  by (rule keeps_unheld) (simp add: unheld_wait split: fault.split option.split prod.split)

lemma keep_unheld_open [keep]: "keeps (unheld p) (sys_open q fl m)"
  unfolding sys_open_def fail_def
  by (rule keeps_unheld) (simp add: unheld_new_file split: fault.split option.split)

lemma keep_unheld_ops [keep]:
  "keeps (unheld p) (dyad_shared_flock fd l)" "keeps (unheld p) (dyad_excl_flock fd l)"
  "keeps (unheld p) (dyad_release_flock fd l)" "keeps (unheld p) (get_file_size fd)"
  unfolding get_file_size_def dyad_shared_flock_def dyad_excl_flock_def dyad_release_flock_def by (intro keep)+

lemma keeps_case_sum [keep]:
  "(\<And>a. x = Inl a \<Longrightarrow> keeps I (f a)) \<Longrightarrow> (\<And>b. x = Inr b \<Longrightarrow> keeps I (g b))
   \<Longrightarrow> keeps I (case x of Inl a \<Rightarrow> f a | Inr b \<Rightarrow> g b)"
  by (cases x) simp_all

lemma keeps_case_bool [keep]:
  "(x \<Longrightarrow> keeps I m) \<Longrightarrow> (\<not> x \<Longrightarrow> keeps I m') \<Longrightarrow> keeps I (case x of True \<Rightarrow> m | False \<Rightarrow> m')"
  by (cases x) simp_all

lemma keep_unheld_cache [keep]: "keeps (unheld p) (dyad_range_cache_ensure q org off len)"
  unfolding dyad_range_cache_ensure_def slow_path_def fast_path_def size_files_def record_span_def
    read_bitmap_def range_cache_fetch_span_def close_if_open_def fail_locked_def
  by (intro keep)

text \<open>A system that does not fail goes on not failing.\<close>

abbreviation no_faults :: "'x world_scheme \<Rightarrow> bool" where
  "no_faults w \<equiv> faults w = []"

lemma keeps_no_faults:
  assumes "\<And>w. faults w = [] \<Longrightarrow> faults (snd (f Good w)) = []"
  shows "keeps no_faults (syscall f)"
proof (rule keepsI)
  show "wp (syscall f) (\<lambda>_. no_faults) w" if "faults w = []" for w
    using assms [OF that] that by (simp add: wp_syscall split: prod.split)
      (metis snd_conv)
qed

lemma faults_parts [simp]: "faults (drop_fd fd w) = faults w" "faults (snd (new_fd n q fl w)) = faults w"
  by (simp_all add: drop_fd_def new_fd_def split: option.split)

lemma keep_no_faults [keep]:
  "keeps no_faults sys_malloc" "keeps no_faults (sys_close fd)" "keeps no_faults (sys_open q fl m)"
  "keeps no_faults (sys_pread fd n off)" "keeps no_faults (sys_pwrite fd b off)"
  "keeps no_faults (sys_ftruncate fd n)" "keeps no_faults (sys_stat q)" "keeps no_faults (sys_fstat fd)"
  "keeps no_faults (sys_unlock fd)" "keeps no_faults (sys_setlkw fd k)"
  unfolding sys_malloc_def sys_close_def sys_pread_def sys_pwrite_def sys_ftruncate_def sys_open_def
    sys_stat_def sys_fstat_def sys_unlock_def sys_setlkw_def fail_def Let_def
  by (rule keeps_no_faults, simp split: option.split prod.split)+

lemma keep_no_faults_cache [keep]: "keeps no_faults (dyad_range_cache_ensure q org off len)"
  unfolding dyad_range_cache_ensure_def slow_path_def fast_path_def size_files_def record_span_def
    read_bitmap_def range_cache_fetch_span_def close_if_open_def fail_locked_def
    dyad_shared_flock_def dyad_excl_flock_def dyad_release_flock_def get_file_size_def
  by (intro keep)

section \<open>What a worker leaves in the item\<close>

text \<open>
  C13: a worker reads what was asked for. It stops within its fuel, and an item it marks as successful
  holds exactly the requested part of the file as it is when the shared lock is granted; only when the system
  refuses to tell the size of the file can the part be empty instead. Without failures the item
  succeeds.
\<close>

theorem worker_reads_range:
  assumes "good w" and "\<not> is_dir w (wi_fullpath item)" and "item_ok item" and "\<not> wi_has_origin item"
  shows "wp (dyad_fetch_worker_process item) (read_result item w) w"
  using wp_read_item [OF assms(1-3)] assms(4) by (simp add: dyad_fetch_worker_process_def wps)

definition sample_item :: work_item where
  "sample_item = \<lparr>wi_fullpath = ''/l'', wi_origin_fullpath = ''/o'', wi_has_origin = True, wi_offset = 1,
     wi_length = 2, wi_inbuf = Some [0, 0], wi_req_state = None, wi_msg = 9, wi_thread_safe = False,
     wi_rc = RC_OK, wi_errno = E_NONE, wi_range_len = 0\<rparr>"

theorem worker_reads_range_witness:
  "wp (dyad_fetch_worker_process (sample_item\<lparr>wi_fullpath := ''/o'', wi_has_origin := False\<rparr>))
     (read_result (sample_item\<lparr>wi_fullpath := ''/o'', wi_has_origin := False\<rparr>) (origin_world [7, 8, 9]))
     (origin_world [7, 8, 9])"
proof (rule worker_reads_range)
  show "good (origin_world [7, 8, 9])"
    using origin_world_state [of "[7, 8, 9]"] by (simp add: cache_state_def)
qed (simp_all add: item_ok_def sample_item_def is_dir_def inode_of_path_def origin_world_def root_world_def
    file_inode_def)

text \<open>
  C6: a worker that serves from an origin serves the origin. When the block cache is in a good state,
  nobody else holds a lock on the local copy and the request lies inside the origin, the worker returns, and a
  successful item holds the requested part of the origin, whatever blocks were cached before; only after a failed call, the
  one that tells the size of the local copy, can an item be successful and empty. In every case the cache is left in a good state.
\<close>

theorem worker_serves_origin:
  assumes "cache_state w (wi_fullpath item) (wi_origin_fullpath item) org" and "length org < 2 ^ 63"
    and "\<And>d. \<not> left_by_other w (wi_fullpath item) d"
    and "wi_has_origin item" and "item_ok item" and "0 < wi_length item"
    and "unat (wi_offset item) + unat (wi_length item) \<le> length org"
  shows "wp (dyad_fetch_worker_process item) (\<lambda>r w'. \<exists>item'. r = Some item' \<and> same_request item item'
     \<and> (wi_rc item' = RC_OK \<longrightarrow> item_data item' = item_part item org
          \<or> item_data item' = [] \<and> faults w \<noteq> [])
     \<and> cache_state w' (wi_fullpath item) (wi_origin_fullpath item) org) w"
proof -
  let ?L = "wi_fullpath item" and ?P = "wi_origin_fullpath item"
  let ?Q = "\<lambda>r w'. \<exists>item'. r = Some item' \<and> same_request item item'
     \<and> (wi_rc item' = RC_OK \<longrightarrow> item_data item' = item_part item org \<or> item_data item' = [] \<and> faults w \<noteq> [])
     \<and> cache_state w' ?L ?P org"
  have g: "good w" and held: "unheld ?L w" using assms(1,3) by (auto simp: cache_state_def intro: unheldI)
  have fl: "wp (dyad_range_cache_ensure ?L (Some ?P) (wi_offset item) (wi_length item))
     (\<lambda>_ w'. faults w' \<noteq> [] \<longrightarrow> faults w \<noteq> []) w"
    using keepsD [OF keep_no_faults_cache, of w] by (cases "faults w = []") (auto elim: wp_mono)
  have "wp (dyad_range_cache_ensure ?L (Some ?P) (wi_offset item) (wi_length item))
     (\<lambda>r w'. wp (case r of None \<Rightarrow> State_Monad.return None
        | Some rc \<Rightarrow> if is_error rc then State_Monad.return (Some (item_failed EIO item)) else read_item item) ?Q w') w"
  proof (rule wp_with [OF keep_unheld_cache held], rule wp_mono [OF wp_conj [OF fl wp_range_cache_ensure [OF assms(1,2,6,7)]]],
      intro impI, goal_cases)
    case (1 r w1)
    then obtain rc where r: "r = Some rc" by auto
    show ?case
    proof (cases "is_error rc")
      case True
      then show ?thesis using r 1 by (simp add: wps)
    next
      case False
      then obtain l where l: "fdata w1 ?L = Some l"
        "item_part item l = item_part item org" using 1 r by (auto simp: item_part_def)
      have c1: "cache_state w1 ?L ?P org" and g1: "good w1" "\<not> is_dir w1 ?L" using 1 by (auto simp: cache_state_def)
      have nl: "\<not> left_by_other w1 ?L d" for d using 1 by (auto dest: unheldD)
      have "wp (read_item item) (\<lambda>r w'. read_result item w1 r w' \<and> cache_state w' ?L ?P org) w1"
        by (rule wp_conj [OF wp_read_item [OF g1 assms(5)] wp_read_item_cache [OF c1 nl]])
      then show ?thesis
        using False r l nl 1 by (auto simp: read_result_def elim!: wp_mono)
    qed
  qed
  then show ?thesis using assms(4) by (simp add: dyad_fetch_worker_process_def wps)
qed

theorem worker_serves_origin_witness:
  "wp (dyad_fetch_worker_process sample_item) (\<lambda>r w'. \<exists>item'. r = Some item' \<and> same_request sample_item item'
     \<and> (wi_rc item' = RC_OK \<longrightarrow> item_data item' = item_part sample_item [7, 8, 9]
          \<or> item_data item' = [] \<and> faults (origin_world [7, 8, 9]) \<noteq> [])
     \<and> cache_state w' (wi_fullpath sample_item) (wi_origin_fullpath sample_item) [7, 8, 9]) (origin_world [7, 8, 9])"
  by (rule worker_serves_origin)
    (use origin_world_state [of "[7, 8, 9]"] in
      \<open>simp_all add: item_ok_def sample_item_def left_by_other_def origin_world_def root_world_def\<close>)

end
