(* ===== verification/Stream_Ends.thy ===== *)
theory Stream_Ends
  imports Service_Ranges "HOL-Library.Multiset"
begin

text \<open>
  The end of an answer. A request opens a stream of answers, which an answer with an error number
  ends, \<^verbatim>\<open>ENODATA\<close> in the good case. This theory shows, for the operations of the module, which of them end
  the stream of the request they work on, exactly once, and which end none: it counts the answers that
  Flux has accepted, not anything the module writes down.
\<close>

section \<open>Ended streams\<close>

definition ended :: "('e \<Rightarrow> reply list) \<Rightarrow> 'e \<Rightarrow> flux_msg multiset" where
  "ended sent s = mset (map fst (filter (\<lambda>r. \<not> isl (snd r)) (sent s)))"

text \<open>A call without a message (\<^verbatim>\<open>NULL\<close>) ends no stream.\<close>

definition stream_laws :: "'e flux_ops \<Rightarrow> ('e \<Rightarrow> reply list) \<Rightarrow> bool" where
  "stream_laws F sent \<longleftrightarrow> reply_laws F sent
     \<and> (\<forall>h d s. ended sent (snd (fx_respond_raw F h None d s)) = ended sent s)
     \<and> (\<forall>s. ended sent (fx_msg_incref F None s) = ended sent s)
     \<and> (\<forall>s. ended sent (fx_msg_decref F None s) = ended sent s)"

text \<open>Flux accepts every end of a stream.\<close>

definition ends_taken :: "'e flux_ops \<Rightarrow> bool" where
  "ends_taken F \<longleftrightarrow> (\<forall>h m e s. fst (fx_respond_error F h m e s) = Inr ())"

section \<open>Operations that end no stream\<close>

definition quiet :: "'e flux_ops \<Rightarrow> ('e \<Rightarrow> reply list) \<Rightarrow> ('e, 'x, 'a) dio \<Rightarrow> bool" where
  "quiet F sent m \<longleftrightarrow> (stream_laws F sent \<longrightarrow> (\<forall>w. wp m (\<lambda>_ w'. ended sent (flux w') = ended sent (flux w)) w))"

named_theorems quiet "operations that end no stream"

lemma quiet_return [quiet]: "quiet F sent (State_Monad.return x)"
  by (simp add: quiet_def)

lemma quietD:
  fixes m :: "('e, 'x, 'a) dio"
  assumes q: "quiet F sent m" "stream_laws F sent"
    and Q: "\<And>r w'. ended sent (flux w') = ended sent (flux w) \<Longrightarrow> Q r w'"
  shows "wp m Q w"
proof -
  from q have "wp m (\<lambda>_ w'. ended sent (flux w') = ended sent (flux w)) w" by (simp add: quiet_def)
  then show ?thesis by (rule wp_mono) (rule Q)
qed

lemma quiet_bind [quiet]:
  assumes m: "quiet F sent m" and f: "\<And>a. quiet F sent (f a)"
  shows "quiet F sent (m \<bind> f)"
  unfolding quiet_def wp_bind by (intro impI allI quietD [OF m] quietD [OF f]) simp_all

lemma quiet_If [quiet]: "(b \<Longrightarrow> quiet F sent m) \<Longrightarrow> (\<not> b \<Longrightarrow> quiet F sent m') \<Longrightarrow> quiet F sent (if b then m else m')"
  by simp

lemma quiet_option [quiet]:
  "(x = None \<Longrightarrow> quiet F sent m) \<Longrightarrow> (\<And>y. x = Some y \<Longrightarrow> quiet F sent (f y))
   \<Longrightarrow> quiet F sent (case x of None \<Rightarrow> m | Some y \<Rightarrow> f y)"
  by (cases x) simp_all

lemma quiet_cell [quiet]: "quiet F sent get_cell" "quiet F sent the_ctx" "quiet F sent (upd_ctx g)" "quiet F sent the_flux_dtl"
  "quiet F sent (upd_flux_dtl k)" "quiet F sent (State (\<lambda>w. (fx_msg_is_streaming F msg (flux w), w)))"
  by (simp_all add: quiet_def wps the_flux_dtl_def upd_flux_dtl_def wp_State)

lemma quiet_posix: "posix_only m \<Longrightarrow> quiet F sent m"
  unfolding quiet_def by (auto intro!: wp_mono [OF posix_onlyD] dest: more_eq_parts(6))

lemma quiet_flux_call:
  assumes "\<And>s. stream_laws F sent \<Longrightarrow> ended sent (snd (f s)) = ended sent s"
  shows "quiet F sent (flux_call f)"
proof -
  have "ended sent s' = ended sent s" if "stream_laws F sent" "f s = (x, s')" for s x s'
    using assms [OF that(1), of s] that(2) by simp
  then show ?thesis
    unfolding quiet_def by (auto simp: wp_flux_call split: prod.split sum.split)
qed

lemma quiet_flux [quiet]: "quiet F sent (flux_call (fx_respond_raw F h mo d))" "quiet F sent (flux_call (fx_request_unpack F msg))"
  "quiet F sent (flux_call (fx_msg_get_userid F msg))" "quiet F sent (flux_do (fx_msg_incref F mo))"
  "quiet F sent (flux_do (fx_msg_decref F mo))"
proof -
  have raw: "ended sent (snd (fx_respond_raw F h mo d s)) = ended sent s" if "stream_laws F sent" for s
  proof (cases mo)
    case None
    with that show ?thesis by (simp add: stream_laws_def)
  next
    case (Some m)
    obtain r s' where "fx_respond_raw F h mo d s = (r, s')" by fastforce
    with reply_lawsD(1) [of F sent h m d s r s'] that Some show ?thesis
      by (auto simp: stream_laws_def ended_def)
  qed
  show "quiet F sent (flux_call (fx_respond_raw F h mo d))" by (rule quiet_flux_call [OF raw])
  show "quiet F sent (flux_call (fx_request_unpack F msg))" "quiet F sent (flux_call (fx_msg_get_userid F msg))"
    by (rule quiet_flux_call, simp add: stream_laws_def reply_laws_def ended_def)+
  show "quiet F sent (flux_do (fx_msg_incref F mo))" "quiet F sent (flux_do (fx_msg_decref F mo))"
    by (cases mo; auto simp: quiet_def wps stream_laws_def reply_laws_def ended_def)+
qed

lemma quiet_dtl [quiet]: "quiet F sent (dyad_dtl_flux_get_buffer n b)" "quiet F sent (dyad_dtl_flux_return_buffer b)"
  "quiet F sent dyad_dtl_flux_establish_connection" "quiet F sent (dyad_dtl_flux_rpc_respond msg)"
  "quiet F sent (dyad_dtl_flux_detach_request F)" "quiet F sent (dyad_dtl_flux_abort_detached F req)"
  "quiet F sent (dyad_dtl_flux_send_detached F req d)" "quiet F sent (dyad_dtl_flux_send F d)"
  "quiet F sent dyad_dtl_flux_close_connection" "quiet F sent (dyad_dtl_flux_rpc_unpack_range F msg)"
  unfolding dyad_dtl_flux_get_buffer_def dyad_dtl_flux_return_buffer_def dyad_dtl_flux_establish_connection_def
    dyad_dtl_flux_rpc_respond_def dyad_dtl_flux_detach_request_def dyad_dtl_flux_abort_detached_def
    dyad_dtl_flux_send_detached_def dyad_dtl_flux_send_def dyad_dtl_flux_close_connection_def dyad_dtl_flux_rpc_unpack_range_def
  by (intro quiet quiet_posix [OF posix_sys(1)])+

lemma quiet_finish_send: "quiet F sent (finish_send F item)"
  unfolding finish_send_def by (intro quiet)

lemma quiet_destroy [quiet]: "quiet F sent (dyad_fetch_work_item_destroy F item)"
  unfolding dyad_fetch_work_item_destroy_def by (intro quiet)

section \<open>Operations that end streams\<close>

text \<open>
  \<open>ends_from F sent B Q m\<close>: from a state in which the streams \<open>B\<close> have ended, \<open>m\<close> ends with a result and ended
  streams in \<open>Q\<close>.
\<close>

definition ends_from ::
  "'e flux_ops \<Rightarrow> ('e \<Rightarrow> reply list) \<Rightarrow> flux_msg multiset \<Rightarrow> ('a \<Rightarrow> flux_msg multiset \<Rightarrow> bool) \<Rightarrow> ('e, 'x, 'a) dio \<Rightarrow> bool" where
  "ends_from F sent B Q m \<longleftrightarrow> (stream_laws F sent \<longrightarrow> ends_taken F \<longrightarrow>
     (\<forall>w. ended sent (flux w) = B \<longrightarrow> wp m (\<lambda>r w'. Q r (ended sent (flux w'))) w))"

definition ends :: "'e flux_ops \<Rightarrow> ('e \<Rightarrow> reply list) \<Rightarrow> flux_msg \<Rightarrow> ('e, 'x, 'a) dio \<Rightarrow> bool" where
  "ends F sent msg m \<longleftrightarrow> (\<forall>B. ends_from F sent B (\<lambda>_ B'. B' = add_mset msg B) m)"

lemma ends_from_return: "Q x B \<Longrightarrow> ends_from F sent B Q (State_Monad.return x)"
  by (simp add: ends_from_def)

lemma ends_fromD:
  fixes m :: "('e, 'x, 'a) dio"
  assumes q: "ends_from F sent (ended sent (flux w)) R m" "stream_laws F sent" "ends_taken F"
    and Q: "\<And>r w'. R r (ended sent (flux w')) \<Longrightarrow> Q r w'"
  shows "wp m Q w"
proof -
  from q have "wp m (\<lambda>r w'. R r (ended sent (flux w'))) w" by (simp add: ends_from_def)
  then show ?thesis by (rule wp_mono) (rule Q)
qed

lemma ends_from_bind:
  assumes m: "ends_from F sent B R m" and f: "\<And>a B'. R a B' \<Longrightarrow> ends_from F sent B' Q (f a)"
  shows "ends_from F sent B Q (m \<bind> f)"
  unfolding ends_from_def wp_bind
proof (intro impI allI, goal_cases)
  case (1 w)
  show ?case
    by (rule ends_fromD [OF _ 1(1,2), where R = R]) (use m 1 in \<open>auto intro: ends_fromD [OF f]\<close>)
qed

lemma ends_from_quiet: "quiet F sent m \<Longrightarrow> (\<And>a. ends_from F sent B Q (f a)) \<Longrightarrow> ends_from F sent B Q (m \<bind> f)"
  by (rule ends_from_bind [where R = "\<lambda>_ B'. B' = B"]) (auto simp: ends_from_def intro: quietD)

lemma ends_from_ends:
  "ends F sent msg m \<Longrightarrow> (\<And>a. ends_from F sent (add_mset msg B) Q (f a)) \<Longrightarrow> ends_from F sent B Q (m \<bind> f)"
  by (rule ends_from_bind [where R = "\<lambda>_ B'. B' = add_mset msg B"]) (auto simp: ends_def)

lemma ends_from_If: "(b \<Longrightarrow> ends_from F sent B Q m) \<Longrightarrow> (\<not> b \<Longrightarrow> ends_from F sent B Q m') \<Longrightarrow> ends_from F sent B Q (if b then m else m')"
  by simp

lemma ends_from_option:
  "(x = None \<Longrightarrow> ends_from F sent B Q m) \<Longrightarrow> (\<And>y. x = Some y \<Longrightarrow> ends_from F sent B Q (f y))
   \<Longrightarrow> ends_from F sent B Q (case x of None \<Rightarrow> m | Some y \<Rightarrow> f y)"
  by (cases x) simp_all

lemma ends_from_prod:
  "(\<And>a b. x = (a, b) \<Longrightarrow> ends_from F sent B Q (f a b)) \<Longrightarrow> ends_from F sent B Q (case x of (a, b) \<Rightarrow> f a b)"
  by (cases x) simp

lemma ends_from_last: "quiet F sent m \<Longrightarrow> (\<And>r. Q r B) \<Longrightarrow> ends_from F sent B Q m"
  unfolding ends_from_def by (auto intro: quietD)

lemma ends_from_end: "ends F sent msg m \<Longrightarrow> (\<And>r. Q r (add_mset msg B)) \<Longrightarrow> ends_from F sent B Q m"
  unfolding ends_def by (subst ends_from_def) (auto intro: ends_fromD)

lemmas ends_from_cases = ends_from_If ends_from_option ends_from_prod

lemma ends_respond_error: "ends F sent msg (flux_call (fx_respond_error F h msg e))"
proof -
  have "ended sent s' = add_mset msg (ended sent s) \<and> x = Inr ()"
    if l: "stream_laws F sent" "ends_taken F" and r: "fx_respond_error F h msg e s = (x, s')" for s x s'
  proof -
    from l(2) r have "x = Inr ()" unfolding ends_taken_def by (metis fst_conv)
    with reply_lawsD(2) [of F sent, OF _ r] l(1) show ?thesis by (simp add: stream_laws_def ended_def)
  qed
  then show ?thesis
    unfolding ends_def ends_from_def by (auto simp: wp_flux_call split: prod.split sum.split)
qed

lemma ends_respond_failure: "ends F sent msg (respond_failure F h msg se)"
  unfolding respond_failure_def ends_def
  by (intro allI ends_from_quiet [OF quiet_posix] posix ends_from_ends [OF ends_respond_error]
      ends_from_last [OF quiet_posix] refl)

lemma ends_unlock_and_fail: "ends F sent msg (unlock_and_fail F h msg se fd)"
  unfolding unlock_and_fail_def ends_def
  by (intro allI ends_from_quiet [OF quiet_posix] posix ends_from_end [OF ends_respond_failure] refl)

lemma ends_send_and_end: "ends F sent msg (send_and_end F h msg se d)"
  unfolding send_and_end_def ends_def
  by (intro allI ends_from_cases)
    ((rule ends_from_If ends_from_quiet [OF quiet_dtl(3)] ends_from_quiet [OF quiet_dtl(8)] ends_from_quiet [OF quiet_dtl(9)]
       ends_from_quiet [OF quiet_dtl(2)] ends_from_quiet [OF quiet_posix [OF posix_states(3)]] ends_from_ends [OF ends_respond_error]
       ends_from_end [OF ends_respond_failure] ends_from_last [OF quiet_posix [OF posix_states(3)]] refl)+)

lemma ends_complete_item: "ends F sent (wi_msg item) (complete_item F item)"
proof -
  note q = ends_from_quiet [OF quiet_cell(2)] and e = ends_from_ends [OF ends_respond_error] ends_from_last [OF quiet_destroy]
  have data: "quiet F sent (case wi_req_state item of Some req \<Rightarrow> do { _ \<leftarrow> dyad_dtl_flux_send_detached F req d; State_Monad.return () }
      | None \<Rightarrow> State_Monad.return ())"
    "quiet F sent (case wi_req_state item of Some req \<Rightarrow> do { _ \<leftarrow> dyad_dtl_flux_abort_detached F req; State_Monad.return () }
      | None \<Rightarrow> State_Monad.return ())" for d
    by (intro quiet)+
  show ?thesis
    unfolding complete_item_def ends_def
    by (intro allI q ends_from_bind [where R = "\<lambda>_ B'. B' = add_mset (wi_msg item) B" for B])
      (auto intro!: ends_from_If ends_from_quiet [OF data(1)] ends_from_quiet [OF data(2)] e ends_from_return)
qed

section \<open>A request for a range\<close>

text \<open>It ends in the queue of the workers or with the end of its stream.\<close>

definition handled :: "flux_msg \<Rightarrow> mod_ctx \<Rightarrow> flux_msg multiset \<Rightarrow> mod_ctx option \<Rightarrow> flux_msg multiset \<Rightarrow> bool" where
  "handled msg m B r B' \<longleftrightarrow> (\<forall>m'. r = Some m' \<longrightarrow> m' = m \<and> B' = add_mset msg B
     \<or> (\<exists>item. m' = m\<lparr>work_queue := work_queue m @ [item]\<rparr> \<and> wi_msg item = msg \<and> B' = B))"

lemma posix_pread_loop [posix]: "posix_only (pread_loop fuel fd n off acc)"
proof (induction fuel arbitrary: acc)
  case 0
  then show ?case unfolding pread_loop.simps [of 0] by (auto intro!: posix)
next
  case (Suc fuel)
  then show ?case unfolding pread_loop.simps [of "Suc fuel"] by (auto intro!: posix)
qed

lemma posix_read_range [posix]: "posix_only (read_range fd n off)"
  unfolding read_range_def by (intro posix)

lemma posix_process [posix]: "posix_only (dyad_fetch_worker_process item)"
  unfolding dyad_fetch_worker_process_def read_item_def read_locked_def by (intro posix)

lemma ends_serve_range_sync:
  "ends_from F sent B (\<lambda>r B'. r \<noteq> None \<longrightarrow> B' = add_mset msg B) (serve_range_sync F h msg se p u off len)"
  unfolding serve_range_sync_def Let_def
  by ((rule ends_from_cases
     | rule ends_from_quiet, (rule quiet_cell(2) quiet_dtl(1) | (rule quiet_posix, (intro posix; fail)))
     | rule ends_from_ends, rule ends_respond_failure ends_unlock_and_fail ends_send_and_end
     | rule ends_from_return, simp)+)

lemma ends_make_item:
  "ends_from F sent B (\<lambda>r B'. case r of None \<Rightarrow> B' = add_mset msg B | Some item \<Rightarrow> wi_msg item = msg \<and> B' = B)
     (make_item F h msg se p u off len)"
  unfolding make_item_def
  by ((rule ends_from_cases
     | rule ends_from_quiet, (rule quiet_cell(2) quiet_dtl quiet_flux | (rule quiet_posix, (intro posix; fail)))
     | rule ends_from_ends, rule ends_respond_failure
     | rule ends_from_return, simp)+)

lemma ends_enqueue_item:
  "ends_from F sent B (handled msg m B) (enqueue_item F h msg se p u off len m)"
  unfolding enqueue_item_def
  by (rule ends_from_bind [OF ends_make_item]) (auto simp: handled_def intro!: ends_from_return split: option.splits)

lemma ends_range_request:
  "ends_from F sent B (handled msg m B) (dyad_fetch_range_request_cb F h msg m)"
  unfolding dyad_fetch_range_request_cb_def Let_def
  by ((rule ends_from_cases ends_enqueue_item
     | rule ends_from_quiet, (rule quiet_cell quiet_dtl quiet_flux | (rule quiet_posix, (intro posix; fail)))
     | rule ends_from_ends, rule ends_respond_failure
     | rule ends_from_bind [OF ends_serve_range_sync], rule ends_from_return, simp add: handled_def split: if_splits
     | rule ends_from_return, simp add: handled_def)+)

end
