(* ===== verification/Fetch_Pool.thy ===== *)
theory Fetch_Pool
  imports Stream_Ends
begin

text \<open>
  The threads of the module: the reactor, which handles requests and completions, and the workers.
  A step of the relation is a stretch of code between two points at which threads can interfere:
  taking an item under \<^verbatim>\<open>work_mutex\<close>, reading the file, sending where the transport allows it and
  appending under \<^verbatim>\<open>completion_mutex\<close>, writing the wakeup byte, draining the pipe, taking the
  completion queue, answering an item. Reading the file is one step on a file system that
  other threads only change between steps. Two lists record which items were accepted and which the completion
  callback has worked on; that an answer has really been given is read off the state of Flux (theory
  \<open>Stream_Ends\<close>).
\<close>

section \<open>The threads\<close>

datatype worker = Idle | Working work_item | Finished work_item | Waking | Gone

datatype reactor = Waiting | Draining | Answering "work_item list" | Stopped | Joined

record ('e, 'x) pool =
  pw :: "('e, 'x) dworld"
  pmod :: mod_ctx
  workers :: "worker list"
  reactor_at :: reactor
  accepted :: "work_item list"
  answered_items :: "work_item list"

datatype label = Request flux_msg | Take nat | Process nat | Append nat | Wake nat | Drain | Grab
  | Answer | Return | Shutdown | Leave nat | Stop

inductive pool_step :: "'e flux_ops \<Rightarrow> label \<Rightarrow> ('e, 'x) pool \<Rightarrow> ('e, 'x) pool \<Rightarrow> bool" for F where
  request: "reactor_at p = Waiting \<Longrightarrow>
     run_state (dyad_fetch_range_request_cb F h msg (pmod p)) (pw p) = (Some m, w) \<Longrightarrow>
     pool_step F (Request msg) p (p\<lparr>pw := w, pmod := m,
       accepted := accepted p @ drop (length (work_queue (pmod p))) (work_queue m)\<rparr>)"
| take: "i < length (workers p) \<Longrightarrow> workers p ! i = Idle \<Longrightarrow> take_item (pmod p) = Some (item, m) \<Longrightarrow>
     pool_step F (Take i) p (p\<lparr>pmod := m, workers := (workers p)[i := Working item]\<rparr>)"
| process: "i < length (workers p) \<Longrightarrow> workers p ! i = Working item \<Longrightarrow>
     run_state (dyad_fetch_worker_process item) (pw p) = (Some item', w) \<Longrightarrow>
     pool_step F (Process i) p (p\<lparr>pw := w, workers := (workers p)[i := Finished item']\<rparr>)"
| append: "i < length (workers p) \<Longrightarrow> workers p ! i = Finished item \<Longrightarrow>
     run_state (finish_send F item) (pw p) = (item', w) \<Longrightarrow>
     pool_step F (Append i) p (p\<lparr>pw := w, pmod := finish_append item' (pmod p),
       workers := (workers p)[i := Waking]\<rparr>)"
| wake: "i < length (workers p) \<Longrightarrow> workers p ! i = Waking \<Longrightarrow>
     pool_step F (Wake i) p (p\<lparr>pmod := finish_wake (pmod p), workers := (workers p)[i := Idle]\<rparr>)"
| drain: "reactor_at p = Waiting \<Longrightarrow> 0 < wakeups (pmod p) \<Longrightarrow>
     pool_step F Drain p (p\<lparr>pmod := drain_pipe (pmod p), reactor_at := Draining\<rparr>)"
| grab: "reactor_at p = Draining \<Longrightarrow> grab_completions (pmod p) = (items, m) \<Longrightarrow>
     pool_step F Grab p (p\<lparr>pmod := m, reactor_at := Answering items\<rparr>)"
| answer: "reactor_at p = Answering (item # items) \<Longrightarrow>
     run_state (complete_item F item) (pw p) = ((), w) \<Longrightarrow>
     pool_step F Answer p (p\<lparr>pw := w, reactor_at := Answering items,
       answered_items := answered_items p @ [item]\<rparr>)"
| return: "reactor_at p = Answering [] \<Longrightarrow> pool_step F Return p (p\<lparr>reactor_at := Waiting\<rparr>)"
| shutdown: "reactor_at p = Waiting \<Longrightarrow>
     pool_step F Shutdown p (p\<lparr>pmod := pool_stop_signal (pmod p), reactor_at := Stopped\<rparr>)"
| leave: "i < length (workers p) \<Longrightarrow> workers p ! i = Idle \<Longrightarrow> work_queue (pmod p) = [] \<Longrightarrow>
     workers_shutdown (pmod p) \<Longrightarrow>
     pool_step F (Leave i) p (p\<lparr>workers := (workers p)[i := Gone]\<rparr>)"
| stop: "reactor_at p = Stopped \<Longrightarrow> set (workers p) \<subseteq> {Gone} \<Longrightarrow>
     pool_step F Stop p (p\<lparr>pmod := pool_stop_end (pmod p), reactor_at := Joined\<rparr>)"

inductive_cases pool_stepE: "pool_step F l p p'"

inductive_simps pool_step_simps:
  "pool_step F (Take i) p p'" "pool_step F (Process i) p p'" "pool_step F (Append i) p p'"
  "pool_step F (Wake i) p p'" "pool_step F Drain p p'" "pool_step F Grab p p'"
  "pool_step F Answer p p'" "pool_step F Return p p'" "pool_step F Shutdown p p'" "pool_step F (Leave i) p p'"
  "pool_step F Stop p p'"

text \<open>The pool as \<^verbatim>\<open>dyad_fetch_pool_start\<close> leaves it, with nothing to do.\<close>

definition pool_started :: "('e, 'x) pool \<Rightarrow> bool" where
  "pool_started p \<longleftrightarrow> work_queue (pmod p) = [] \<and> completion_queue (pmod p) = []
     \<and> \<not> workers_shutdown (pmod p) \<and> fetch_workers (pmod p) \<and> 0 < num_fetch_workers (pmod p)
     \<and> workers p = replicate (num_fetch_workers (pmod p)) Idle \<and> reactor_at p = Waiting
     \<and> accepted p = [] \<and> answered_items p = []"

inductive reachable :: "'e flux_ops \<Rightarrow> ('e, 'x) pool \<Rightarrow> bool" for F where
  start: "pool_started p \<Longrightarrow> reachable F p"
| step: "reachable F p \<Longrightarrow> pool_step F l p p' \<Longrightarrow> reachable F p'"

section \<open>Where requests are\<close>

fun item_of :: "worker \<Rightarrow> work_item list" where
  "item_of (Working item) = [item]"
| "item_of (Finished item) = [item]"
| "item_of _ = []"

fun items_of :: "reactor \<Rightarrow> work_item list" where
  "items_of (Answering items) = items"
| "items_of _ = []"

definition in_flight :: "('e, 'x) pool \<Rightarrow> flux_msg multiset" where
  "in_flight p = mset (map wi_msg (work_queue (pmod p) @ concat (map item_of (workers p))
     @ completion_queue (pmod p) @ items_of (reactor_at p)))"

section \<open>What the handler does to the queue\<close>

definition appended :: "flux_msg \<Rightarrow> mod_ctx \<Rightarrow> mod_ctx \<Rightarrow> bool" where
  "appended msg m m' \<longleftrightarrow> m' = m \<or> (\<exists>item. m' = m\<lparr>work_queue := work_queue m @ [item]\<rparr> \<and> wi_msg item = msg
     \<and> 0 < num_fetch_workers m)"

lemma make_item_msg: "returns (\<lambda>r. \<forall>item. r = Some item \<longrightarrow> wi_msg item = msg) (make_item F h msg se p u off len)"
  unfolding make_item_def by (intro ret) auto

lemma enqueue_appends:
  "0 < num_fetch_workers m \<Longrightarrow>
   returns (\<lambda>r. \<forall>m'. r = Some m' \<longrightarrow> appended msg m m') (enqueue_item F h msg se p u off len m)"
  unfolding enqueue_item_def
  by (rule ensures_bind_both [OF make_item_msg]) (auto simp: appended_def intro!: ret split: option.split)

lemma range_request_appends:
  "returns (\<lambda>r. \<forall>m'. r = Some m' \<longrightarrow> appended msg m m') (dyad_fetch_range_request_cb F h msg m)"
  unfolding dyad_fetch_range_request_cb_def Let_def
  by (intro ret enqueue_appends) (auto simp: appended_def)

section \<open>What a step does to the requests in flight\<close>

definition carried :: "worker list \<Rightarrow> flux_msg multiset" where
  "carried ws = mset (map wi_msg (concat (map item_of ws)))"

lemma carried_update:
  "i < length ws \<Longrightarrow> carried (ws[i := x]) + mset (map wi_msg (item_of (ws ! i)))
     = carried ws + mset (map wi_msg (item_of x))"
proof (induction ws arbitrary: i)
  case (Cons y ys)
  then show ?case by (cases i) (auto simp: carried_def ac_simps)
qed simp

lemma in_flight_parts: "in_flight p = mset (map wi_msg (work_queue (pmod p))) + carried (workers p)
     + mset (map wi_msg (completion_queue (pmod p))) + mset (map wi_msg (items_of (reactor_at p)))"
  by (simp add: in_flight_def carried_def ac_simps)

lemma worker_keeps_request:
  "returns (\<lambda>r. \<forall>item'. r = Some item' \<longrightarrow> same_request item item') (dyad_fetch_worker_process item)"
  unfolding dyad_fetch_worker_process_def read_item_def read_locked_def Let_def
  by (intro ret) (auto simp: same_request_def item_failed_def)

lemma finish_send_msg: "returns (\<lambda>item'. wi_msg item' = wi_msg item) (finish_send F item)"
  unfolding finish_send_def
  by (intro ensures_If ensures_return ensures_bind_both [where P = "\<lambda>item'. wi_msg item' = wi_msg item"])
    (auto intro!: ret)

section \<open>The accounts\<close>

definition item_accounts :: "('e, 'x) pool \<Rightarrow> flux_msg multiset \<times> flux_msg multiset" where
  "item_accounts p = (in_flight p, mset (map wi_msg (answered_items p)))"

definition silent :: "label \<Rightarrow> bool" where
  "silent l \<longleftrightarrow> (case l of Request _ \<Rightarrow> False | Answer \<Rightarrow> False | _ \<Rightarrow> True)"

lemma mset_concat_update:
  "i < length ws \<Longrightarrow> mset (map wi_msg (item_of x)) = mset (map wi_msg (item_of (ws ! i)))
   \<Longrightarrow> carried (ws[i := x]) = carried ws"
  using carried_update [of i ws x] by simp

lemma silent_keeps_accounts:
  assumes "pool_step F l p p'" "silent l"
  shows "item_accounts p' = item_accounts p"
  using assms(1)
proof (cases rule: pool_step.cases)
  case (take i item m)
  then have "work_queue (pmod p) = item # work_queue m" "completion_queue m = completion_queue (pmod p)"
    by (auto simp: take_item_def split: list.splits)
  with take show ?thesis using carried_update [of i "workers p" "Working item"]
    by (simp add: item_accounts_def in_flight_parts)
next
  case (process i item item' w)
  then have "wi_msg item' = wi_msg item"
    using ensures_run [OF worker_keeps_request] by (fastforce simp: same_request_def)
  with process show ?thesis by (simp add: item_accounts_def in_flight_parts mset_concat_update)
next
  case (append i item item' w)
  then have "wi_msg item' = wi_msg item" using ensures_run [OF finish_send_msg] by fastforce
  with append show ?thesis using carried_update [of i "workers p" Waking]
    by (simp add: item_accounts_def in_flight_parts finish_append_def)
next
  case (wake i)
  then show ?thesis by (simp add: item_accounts_def in_flight_parts finish_wake_def mset_concat_update)
next
  case drain
  then show ?thesis by (simp add: item_accounts_def in_flight_parts drain_pipe_def)
next
  case (grab items m)
  then show ?thesis by (auto simp: item_accounts_def in_flight_parts grab_completions_def)
next
  case (leave i)
  then show ?thesis by (simp add: item_accounts_def in_flight_parts mset_concat_update)
qed (use assms(2) in \<open>auto simp: silent_def item_accounts_def in_flight_parts pool_stop_signal_def pool_stop_end_def\<close>)

section \<open>The contract of the pool\<close>

text \<open>
  To its clients the pool is a set of pending requests and the set of requests whose stream of answers Flux has been
  told to end: a request becomes pending, or is answered at once, and a pending request is answered, once.
\<close>

datatype event = Accept flux_msg | Direct flux_msg | Reply flux_msg

type_synonym contract = "flux_msg multiset \<times> flux_msg multiset"

inductive contract_step :: "event \<Rightarrow> contract \<Rightarrow> contract \<Rightarrow> bool" where
  accept: "contract_step (Accept msg) (P, R) (add_mset msg P, R)"
| direct: "contract_step (Direct msg) (P, R) (P, add_mset msg R)"
| reply: "contract_step (Reply msg) (add_mset msg P, R) (P, add_mset msg R)"

definition contract_of :: "('e \<Rightarrow> reply list) \<Rightarrow> ('e, 'x) pool \<Rightarrow> contract" where
  "contract_of sent p = (in_flight p, ended sent (flux (pw p)))"

lemma quiet_run: "quiet F sent m \<Longrightarrow> stream_laws F sent \<Longrightarrow> run_state m w = (r, w') \<Longrightarrow> ended sent (flux w') = ended sent (flux w)"
  by (auto simp: quiet_def wp_def dest: spec [of _ w])

lemma ends_run:
  "ends F sent msg m \<Longrightarrow> stream_laws F sent \<Longrightarrow> ends_taken F \<Longrightarrow> run_state m w = (r, w') \<Longrightarrow>
   ended sent (flux w') = add_mset msg (ended sent (flux w))"
  by (auto simp: ends_def ends_from_def wp_def dest: spec [of _ w])

lemma ends_from_run:
  "ends_from F sent (ended sent (flux w)) Q m \<Longrightarrow> stream_laws F sent \<Longrightarrow> ends_taken F \<Longrightarrow> run_state m w = (r, w') \<Longrightarrow>
   Q r (ended sent (flux w'))"
  by (auto simp: ends_from_def wp_def dest: spec [of _ w])

lemma silent_ends_nothing:
  assumes laws: "stream_laws F sent" and step: "pool_step F l p p'" "silent l"
  shows "ended sent (flux (pw p')) = ended sent (flux (pw p))"
  using step(1)
proof (cases rule: pool_step.cases)
  case (process i item item' w)
  then show ?thesis using quiet_run [OF quiet_posix [OF posix_process] laws] by simp
next
  case (append i item item' w)
  then show ?thesis using quiet_run [OF quiet_finish_send laws] by simp
qed (use step(2) in \<open>auto simp: silent_def\<close>)

lemma silent_keeps_contract:
  "stream_laws F sent \<Longrightarrow> pool_step F l p p' \<Longrightarrow> silent l \<Longrightarrow> contract_of sent p' = contract_of sent p"
  using silent_ends_nothing silent_keeps_accounts by (fastforce simp: contract_of_def item_accounts_def)

lemma answer_replies:
  assumes "stream_laws F sent" "ends_taken F" "pool_step F Answer p p'"
  shows "\<exists>msg. contract_step (Reply msg) (contract_of sent p) (contract_of sent p')"
proof -
  from assms(3) obtain item items w where a: "reactor_at p = Answering (item # items)"
      "p' = p\<lparr>pw := w, reactor_at := Answering items, answered_items := answered_items p @ [item]\<rparr>"
      "run_state (complete_item F item) (pw p) = ((), w)"
    by (auto simp: pool_step_simps)
  then have "in_flight p = add_mset (wi_msg item) (in_flight p')"
    by (simp add: in_flight_parts)
  moreover have "ended sent (flux (pw p')) = add_mset (wi_msg item) (ended sent (flux (pw p)))"
    using ends_run [OF ends_complete_item assms(1,2) a(3)] a(2) by simp
  ultimately show ?thesis by (auto simp: contract_of_def intro: contract_step.intros)
qed

lemma request_accepts:
  assumes "stream_laws F sent" "ends_taken F" "pool_step F (Request msg) p p'"
  shows "contract_step (Accept msg) (contract_of sent p) (contract_of sent p') \<or> contract_step (Direct msg) (contract_of sent p) (contract_of sent p')"
  using assms(3)
proof (cases rule: pool_step.cases)
  case (request h m w)
  from ends_from_run [OF ends_range_request assms(1,2) request(3)]
  consider "m = pmod p" "ended sent (flux w) = add_mset msg (ended sent (flux (pw p)))"
    | item where "m = pmod p\<lparr>work_queue := work_queue (pmod p) @ [item]\<rparr>" "wi_msg item = msg"
        "ended sent (flux w) = ended sent (flux (pw p))"
    by (auto simp: handled_def)
  then show ?thesis
  proof cases
    case 1
    with request show ?thesis by (auto simp: contract_of_def in_flight_parts intro: contract_step.intros)
  next
    case (2 item)
    with request have "in_flight p' = add_mset msg (in_flight p)" by (simp add: in_flight_parts)
    with 2 request show ?thesis by (auto simp: contract_of_def intro: contract_step.intros)
  qed
qed

section \<open>Runs\<close>

inductive pool_run :: "'e flux_ops \<Rightarrow> ('e, 'x) pool \<Rightarrow> ('e, 'x) pool \<Rightarrow> bool" for F where
  here: "pool_run F p p"
| onward: "pool_step F l p p' \<Longrightarrow> pool_run F p' p'' \<Longrightarrow> pool_run F p p''"

lemma pool_run_last: "pool_run F p p' \<Longrightarrow> pool_step F l p' p'' \<Longrightarrow> pool_run F p p''"
  by (induction rule: pool_run.induct) (auto intro: pool_run.intros)

lemma pool_run_reachable: "pool_run F p p' \<Longrightarrow> reachable F p \<Longrightarrow> reachable F p'"
  by (induction rule: pool_run.induct) (auto intro: reachable.step)

end
