(* ===== verification/Pool_Correct.thy ===== *)
theory Pool_Correct
  imports Fetch_Pool
begin

text \<open>
  What the threads of the module guarantee together: no request is lost or answered twice, no wakeup is
  lost, workers leave only when told to and only with an empty queue, and a pool that is not
  told to stop answers all its requests in a bounded number of steps. A pool that is told to stop answers none of them
  any more.
\<close>

section \<open>Invariants\<close>

text \<open>Every completed item has something on its way that makes the reactor look at the queue.\<close>

definition wakeup_due :: "('e, 'x) pool \<Rightarrow> bool" where
  "wakeup_due p \<longleftrightarrow> 0 < wakeups (pmod p) \<or> Waking \<in> set (workers p) \<or> reactor_at p = Draining"

definition running :: "('e, 'x) pool \<Rightarrow> bool" where
  "running p \<longleftrightarrow> reactor_at p \<noteq> Stopped \<and> reactor_at p \<noteq> Joined"

definition pool_inv :: "('e, 'x) pool \<Rightarrow> bool" where
  "pool_inv p \<longleftrightarrow> (completion_queue (pmod p) = [] \<or> wakeup_due p)
     \<and> (Gone \<in> set (workers p) \<longrightarrow> workers_shutdown (pmod p) \<and> work_queue (pmod p) = [])
     \<and> workers_shutdown (pmod p) = (\<not> running p)
     \<and> (reactor_at p = Joined \<longrightarrow> set (workers p) \<subseteq> {Gone})
     \<and> fetch_workers (pmod p) \<and> workers p \<noteq> []
     \<and> mset (map wi_msg (accepted p)) = in_flight p + mset (map wi_msg (answered_items p))"

lemma pool_inv_start: "pool_started p \<Longrightarrow> pool_inv p"
  by (auto simp: pool_started_def pool_inv_def running_def in_flight_parts carried_def)

lemma set_update_other:
  "i < length ws \<Longrightarrow> y \<in> set (ws[i := x]) \<Longrightarrow> y \<noteq> x \<Longrightarrow> y \<in> set ws"
  using set_update_subset_insert [of ws i x] by auto

lemma still_in_update:
  "y \<in> set ws \<Longrightarrow> i < length ws \<Longrightarrow> ws ! i \<noteq> y \<Longrightarrow> y \<in> set (ws[i := x])"
  by (auto simp: in_set_conv_nth nth_list_update split: if_splits)

text \<open>No item is lost.\<close>

lemma accounts_step:
  assumes "pool_step F l p p'"
    and "mset (map wi_msg (accepted p)) = in_flight p + mset (map wi_msg (answered_items p))"
  shows "mset (map wi_msg (accepted p')) = in_flight p' + mset (map wi_msg (answered_items p'))"
proof (cases "silent l")
  case True
  have "accepted p' = accepted p"
    using assms(1) True by (cases rule: pool_step.cases) (auto simp: silent_def)
  with silent_keeps_accounts [OF assms(1) True] assms(2) show ?thesis by (simp add: item_accounts_def)
next
  case False
  with assms(1) show ?thesis
  proof (cases rule: pool_step.cases)
    case (request h msg m w)
    then have "appended msg (pmod p) m" using ensures_run [OF range_request_appends] by fastforce
    with request assms(2) show ?thesis by (auto simp: appended_def in_flight_parts)
  next
    case (answer item items w)
    with assms(2) show ?thesis by (simp add: in_flight_parts)
  qed (auto simp: silent_def)
qed

lemma wakeup_step:
  assumes "pool_step F l p p'" and "completion_queue (pmod p) = [] \<or> wakeup_due p"
  shows "completion_queue (pmod p') = [] \<or> wakeup_due p'"
  using assms(1)
proof (cases rule: pool_step.cases)
  case (request h msg m w)
  then have "appended msg (pmod p) m" using ensures_run [OF range_request_appends] by fastforce
  with request assms(2) show ?thesis by (auto simp: appended_def wakeup_due_def)
next
  case (append i item item' w)
  then show ?thesis by (auto simp: wakeup_due_def intro: set_update_memI)
next
  case (wake i)
  then show ?thesis by (auto simp: wakeup_due_def finish_wake_def PIPE_CAPACITY_def)
qed (use assms(2) in \<open>auto simp: wakeup_due_def take_item_def drain_pipe_def grab_completions_def
      pool_stop_signal_def pool_stop_end_def still_in_update split: list.splits\<close>)

lemma threads_step:
  assumes "pool_step F l p p'"
    and "Gone \<in> set (workers p) \<longrightarrow> workers_shutdown (pmod p) \<and> work_queue (pmod p) = []"
    and "workers_shutdown (pmod p) = (\<not> running p)"
    and "reactor_at p = Joined \<longrightarrow> set (workers p) \<subseteq> {Gone}"
    and "fetch_workers (pmod p)" "workers p \<noteq> []"
  shows "(Gone \<in> set (workers p') \<longrightarrow> workers_shutdown (pmod p') \<and> work_queue (pmod p') = [])
     \<and> workers_shutdown (pmod p') = (\<not> running p')
     \<and> (reactor_at p' = Joined \<longrightarrow> set (workers p') \<subseteq> {Gone})
     \<and> fetch_workers (pmod p') \<and> workers p' \<noteq> []"
  using assms(1)
proof (cases rule: pool_step.cases)
  case (request h msg m w)
  then have "appended msg (pmod p) m" using ensures_run [OF range_request_appends] by fastforce
  with request assms(2-) show ?thesis by (auto simp: appended_def running_def)
next
  case (leave i)
  with assms(2-) show ?thesis using nth_mem [of i "workers p"] by (auto simp: running_def)
next
  case stop
  with assms(2-) show ?thesis by (auto simp: running_def pool_stop_end_def)
next
  case shutdown
  with assms(2-) show ?thesis by (auto simp: running_def pool_stop_signal_def)
next
  case (take i item m)
  with assms(2-) show ?thesis
    by (auto simp: running_def take_item_def split: list.splits dest: set_update_other nth_mem [of i "workers p"])
qed (use assms(2-) in \<open>auto simp: running_def finish_append_def finish_wake_def drain_pipe_def grab_completions_def
      dest: set_update_other nth_mem\<close>)

lemma pool_inv_step: "pool_inv p \<Longrightarrow> pool_step F l p p' \<Longrightarrow> pool_inv p'"
  using accounts_step wakeup_step threads_step unfolding pool_inv_def by fast

lemma reachable_inv: "reachable F p \<Longrightarrow> pool_inv p"
  by (induction rule: reachable.induct) (auto intro: pool_inv_start pool_inv_step)

text \<open>While the pool runs, its watcher stays.\<close>

lemma running_step:
  assumes "pool_step F l p p'" "running p'"
  shows "running p \<and> completion_watcher (pmod p') = completion_watcher (pmod p)"
  using assms(1)
proof (cases rule: pool_step.cases)
  case (request h msg m w)
  then have "appended msg (pmod p) m" using ensures_run [OF range_request_appends] by fastforce
  with request show ?thesis by (auto simp: appended_def running_def)
qed (use assms(2) in \<open>auto simp: running_def take_item_def finish_append_def finish_wake_def drain_pipe_def
      grab_completions_def split: list.splits\<close>)

lemma running_run:
  "pool_run F p p' \<Longrightarrow> running p' \<Longrightarrow> running p \<and> completion_watcher (pmod p') = completion_watcher (pmod p)"
  by (induction rule: pool_run.induct) (auto dest: running_step)

lemma pool_start_ready:
  "returns (\<lambda>(rc, m'). rc = RC_OK \<longrightarrow> fetch_workers m' \<and> completion_watcher m'
     \<and> 0 < num_fetch_workers m' \<and> work_queue m' = work_queue m \<and> completion_queue m' = completion_queue m
     \<and> workers_shutdown m' = workers_shutdown m) (dyad_fetch_pool_start m)"
  unfolding dyad_fetch_pool_start_def Let_def by (intro ret) auto

text \<open>Once the pool is told to stop, nothing changes for the requests in flight.\<close>

lemma stopped_step:
  assumes "pool_step F l p p'" "\<not> running p" "stream_laws F sent"
  shows "\<not> running p' \<and> contract_of sent p' = contract_of sent p \<and> accepted p' = accepted p"
proof -
  from assms(1,2) have s: "silent l" "\<not> running p'" "accepted p' = accepted p"
    by (cases rule: pool_step.cases; auto simp: silent_def running_def)+
  with silent_keeps_contract [OF assms(3,1) s(1)] show ?thesis by simp
qed

lemma stopped_run:
  "pool_run F p p' \<Longrightarrow> \<not> running p \<Longrightarrow> stream_laws F sent \<Longrightarrow>
   \<not> running p' \<and> contract_of sent p' = contract_of sent p \<and> accepted p' = accepted p"
  by (induction rule: pool_run.induct) (auto dest: stopped_step)

lemma gone_carry: "set ws \<subseteq> {Gone} \<Longrightarrow> carried ws = {#}"
  by (induction ws) (auto simp: carried_def)

lemma joined_rest:
  assumes inv: "pool_inv p" and "reactor_at p = Joined"
  shows "in_flight p = mset (map wi_msg (completion_queue (pmod p)))"
    and "\<not> pool_step F l p p'"
proof -
  from inv assms(2) have gone: "set (workers p) \<subseteq> {Gone}" "workers p \<noteq> []" by (auto simp: pool_inv_def)
  then have "Gone \<in> set (workers p)" by (cases "workers p") auto
  with inv have "work_queue (pmod p) = []" by (simp add: pool_inv_def)
  with gone_carry [OF gone(1)] assms(2) show "in_flight p = mset (map wi_msg (completion_queue (pmod p)))"
    by (simp add: in_flight_parts)
  have "workers p ! i = Gone" if "i < length (workers p)" for i using gone(1) nth_mem [OF that] by auto
  with assms(2) show "\<not> pool_step F l p p'"
    by (auto elim!: pool_stepE)
qed

lemma joined_watcher: "reachable F p \<Longrightarrow> reactor_at p = Joined \<Longrightarrow> \<not> completion_watcher (pmod p)"
proof (induction rule: reachable.induct)
  case (start p)
  then show ?case by (simp add: pool_started_def)
next
  case (step p l p')
  from step(2,4) reachable_inv [OF step(1)] step(3) show ?case
    by (cases rule: pool_step.cases) (auto simp: pool_stop_end_def pool_inv_def finish_append_def finish_wake_def
        take_item_def split: list.splits)
qed

section \<open>Every accepted request is answered\<close>

text \<open>The steps the module takes by itself, without a new request and without being stopped.\<close>

definition internal :: "label \<Rightarrow> bool" where
  "internal l \<longleftrightarrow> (case l of Request _ \<Rightarrow> False | Shutdown \<Rightarrow> False | Leave _ \<Rightarrow> False | Stop \<Rightarrow> False | _ \<Rightarrow> True)"

text \<open>An upper bound on how many of them are left.\<close>

fun worker_work :: "worker \<Rightarrow> nat" where
  "worker_work (Working _) = 8"
| "worker_work (Finished _) = 7"
| "worker_work Waking = 5"
| "worker_work _ = 0"

fun reactor_work :: "reactor \<Rightarrow> nat" where
  "reactor_work Draining = 3"
| "reactor_work (Answering items) = 2 + length items"
| "reactor_work _ = 0"

definition work_left :: "('e, 'x) pool \<Rightarrow> nat" where
  "work_left p = 9 * length (work_queue (pmod p)) + sum_list (map worker_work (workers p))
     + length (completion_queue (pmod p)) + (if 0 < wakeups (pmod p) then 4 else 0)
     + reactor_work (reactor_at p)"

lemma worker_work_update:
  "i < length ws \<Longrightarrow> sum_list (map worker_work (ws[i := x])) + worker_work (ws ! i)
     = sum_list (map worker_work ws) + worker_work x"
proof (induction ws arbitrary: i)
  case (Cons y ys)
  then show ?case by (cases i) (auto simp: ac_simps)
qed simp

lemma work_decreases:
  assumes "pool_step F l p p'" "internal l"
  shows "work_left p' < work_left p"
  using assms(1)
proof (cases rule: pool_step.cases)
  case (take i item m)
  with worker_work_update [of i "workers p" "Working item"] show ?thesis
    by (auto simp: work_left_def take_item_def split: list.splits)
next
  case (process i item item' w)
  with worker_work_update [of i "workers p" "Finished item'"] show ?thesis by (simp add: work_left_def)
next
  case (append i item item' w)
  with worker_work_update [of i "workers p" Waking] show ?thesis by (simp add: work_left_def finish_append_def)
next
  case (wake i)
  with worker_work_update [of i "workers p" Idle] show ?thesis by (simp add: work_left_def finish_wake_def)
next
  case drain
  then show ?thesis by (simp add: work_left_def drain_pipe_def)
next
  case (grab items m)
  then show ?thesis by (auto simp: work_left_def grab_completions_def)
qed (use assms(2) in \<open>simp_all add: internal_def work_left_def\<close>)

lemma internal_running: "pool_step F l p p' \<Longrightarrow> internal l \<Longrightarrow> running p \<Longrightarrow> running p'"
  by (cases rule: pool_step.cases, assumption) (auto simp: internal_def running_def)

text \<open>Reading an item is undefined where the range cache is asked beyond the end of the origin.\<close>

definition reads_defined :: "('e, 'x) pool \<Rightarrow> bool" where
  "reads_defined p \<longleftrightarrow>
     (\<forall>item. Working item \<in> set (workers p) \<longrightarrow> fst (run_state (dyad_fetch_worker_process item) (pw p)) \<noteq> None)"

lemma worker_progress:
  assumes "i < length (workers p)" "workers p ! i \<noteq> Idle" "workers p ! i \<noteq> Gone" "reads_defined p"
  shows "\<exists>l p'. internal l \<and> pool_step F l p p'"
proof (cases "workers p ! i")
  case (Working item)
  then have "Working item \<in> set (workers p)" using nth_mem [OF assms(1)] by simp
  then obtain item' where "fst (run_state (dyad_fetch_worker_process item) (pw p)) = Some item'"
    using assms(4) by (auto simp: reads_defined_def)
  then obtain w where "run_state (dyad_fetch_worker_process item) (pw p) = (Some item', w)"
    by (metis prod.collapse)
  from pool_step.process [OF assms(1) Working this, of F] show ?thesis
    by (intro exI conjI) (auto simp: internal_def)
next
  case (Finished item)
  obtain item' w where "run_state (finish_send F item) (pw p) = (item', w)" by fastforce
  from pool_step.append [OF assms(1) Finished this] show ?thesis
    by (intro exI conjI) (auto simp: internal_def)
next
  case Waking
  from pool_step.wake [OF assms(1) Waking, of F] show ?thesis
    by (intro exI conjI) (auto simp: internal_def)
qed (use assms in auto)

lemma idle_carries: "set ws \<subseteq> {Idle} \<Longrightarrow> carried ws = {#}"
  by (induction ws) (auto simp: carried_def)

lemma reactor_progress:
  assumes "reactor_at p = Draining \<or> (\<exists>items. reactor_at p = Answering items)"
  shows "\<exists>l p'. internal l \<and> pool_step F l p p'"
proof (cases "reactor_at p")
  case Draining
  obtain items m where "grab_completions (pmod p) = (items, m)" by fastforce
  from pool_step.grab [OF Draining this, of F] show ?thesis
    by (intro exI conjI) (auto simp: internal_def)
next
  case (Answering items)
  show ?thesis
  proof (cases items)
    case Nil
    with Answering pool_step.return [of p F] show ?thesis
      by (intro exI conjI) (auto simp: internal_def)
  next
    case (Cons item rest)
    obtain w where "run_state (complete_item F item) (pw p) = ((), w)" by (metis old.unit.exhaust surj_pair)
    from pool_step.answer [OF _ this] Cons Answering show ?thesis
      by (intro exI conjI) (auto simp: internal_def)
  qed
qed (use assms in auto)

lemma pool_progress:
  assumes inv: "pool_inv p" and "running p" "reads_defined p" "in_flight p \<noteq> {#}"
  shows "\<exists>l p'. internal l \<and> pool_step F l p p'"
proof (cases "reactor_at p = Waiting \<and> set (workers p) \<subseteq> {Idle, Gone}")
  case False
  show ?thesis
  proof (cases "reactor_at p = Waiting")
    case True
    with False obtain x where "x \<in> set (workers p)" "x \<noteq> Idle" "x \<noteq> Gone" by auto
    then show ?thesis using worker_progress [OF _ _ _ assms(3)] by (metis in_set_conv_nth)
  next
    case False
    with assms(2) show ?thesis
      by (intro reactor_progress) (cases "reactor_at p"; auto simp: running_def)
  qed
next
  case True
  with inv assms(2) have idle: "set (workers p) \<subseteq> {Idle}" by (auto simp: pool_inv_def)
  moreover from inv have "0 < length (workers p)" by (auto simp: pool_inv_def)
  ultimately have "workers p ! 0 = Idle" by (metis nth_mem singletonD subsetD)
  show ?thesis
  proof (cases "take_item (pmod p)")
    case (Some r)
    then obtain item m where "take_item (pmod p) = Some (item, m)" by (cases r) auto
    from pool_step.take [OF \<open>0 < length (workers p)\<close> \<open>workers p ! 0 = Idle\<close> this, of F] show ?thesis
      by (intro exI conjI) (auto simp: internal_def)
  next
    case None
    then have "work_queue (pmod p) = []" by (simp add: take_item_def split: list.splits)
    with True assms(4) idle_carries [OF idle] have "completion_queue (pmod p) \<noteq> []"
      by (auto simp: in_flight_parts)
    with inv idle True have "0 < wakeups (pmod p)" by (auto simp: pool_inv_def wakeup_due_def)
    with True pool_step.drain [of p F] show ?thesis
      by (intro exI conjI) (auto simp: internal_def)
  qed
qed

inductive internal_run :: "'e flux_ops \<Rightarrow> nat \<Rightarrow> ('e, 'x) pool \<Rightarrow> ('e, 'x) pool \<Rightarrow> bool" for F where
  none: "internal_run F 0 p p"
| more: "pool_step F l p p' \<Longrightarrow> internal l \<Longrightarrow> internal_run F n p' p'' \<Longrightarrow> internal_run F (Suc n) p p''"

lemma internal_run_bound: "internal_run F n p p' \<Longrightarrow> n + work_left p' \<le> work_left p"
  by (induction rule: internal_run.induct) (auto dest: work_decreases)

lemma internal_run_keeps:
  "internal_run F n p p' \<Longrightarrow> pool_inv p \<and> running p \<Longrightarrow> pool_inv p' \<and> running p'"
  by (induction rule: internal_run.induct) (auto dest: pool_inv_step internal_running)

lemma internal_run_accepted: "internal_run F n p p' \<Longrightarrow> accepted p' = accepted p"
proof (induction rule: internal_run.induct)
  case (more l p p' n p'')
  have "accepted p' = accepted p" using more(1,2) by (cases rule: pool_step.cases) (auto simp: internal_def)
  with more show ?case by simp
qed simp

lemma internal_run_contract:
  "internal_run F n p p' \<Longrightarrow> stream_laws F sent \<Longrightarrow> ends_taken F \<Longrightarrow>
   in_flight p' + ended sent (flux (pw p')) = in_flight p + ended sent (flux (pw p))"
proof (induction rule: internal_run.induct)
  case (more l p p' n p'')
  have "in_flight p' + ended sent (flux (pw p')) = in_flight p + ended sent (flux (pw p))"
  proof (cases "silent l")
    case True
    with silent_keeps_contract [OF more(5,1)] show ?thesis by (simp add: contract_of_def)
  next
    case False
    with more(2) have "l = Answer" by (cases l) (auto simp: silent_def internal_def)
    with answer_replies [OF more(5,6)] more(1) obtain msg where
      "contract_step (Reply msg) (contract_of sent p) (contract_of sent p')" by blast
    then show ?thesis by (auto simp: contract_of_def elim: contract_step.cases)
  qed
  with more show ?case by simp
qed simp

lemma run_until_done:
  assumes "pool_inv p" "running p"
  shows "\<exists>n p'. internal_run F n p p' \<and> (in_flight p' = {#} \<or> \<not> reads_defined p')"
  using assms
proof (induction "work_left p" arbitrary: p rule: less_induct)
  case less
  show ?case
  proof (cases "in_flight p = {#} \<or> \<not> reads_defined p")
    case True
    then show ?thesis using internal_run.none by blast
  next
    case False
    with pool_progress [OF less.prems] obtain l p' where s: "internal l" "pool_step F l p p'" by blast
    with less.prems have "pool_inv p'" "running p'" by (auto dest: pool_inv_step internal_running)
    with less.hyps [OF work_decreases [OF s(2,1)]] obtain n p'' where
      "internal_run F n p' p''" "in_flight p'' = {#} \<or> \<not> reads_defined p''" by blast
    with s show ?thesis using internal_run.more by blast
  qed
qed

section \<open>Reads of plain items are defined\<close>

lemma pread_at_length: "returns (\<lambda>(k, d). k = int (length d) \<or> k = - 1) (sys_pread_at fd n off)"
  unfolding sys_pread_at_def sys_pread_def ensures_def
  by (auto simp: wp_State wp_syscall Let_def split: list.splits fault.splits option.splits)

lemma pread_loop_defined:
  "n \<le> length acc + fuel \<Longrightarrow> returns (\<lambda>r. r \<noteq> None) (pread_loop fuel fd n off acc)"
proof (induction fuel arbitrary: acc)
  case 0
  then show ?case unfolding pread_loop.simps [of 0] by (intro ret) auto
next
  case (Suc fuel)
  note more = Suc.IH
  have enough: "n \<le> length (acc @ d) + fuel" if "d \<noteq> []" for d
    using Suc.prems that by (cases d) auto
  show ?case
    unfolding pread_loop.simps [of "Suc fuel"] Let_def nat.case
  proof (intro ensures_If ensures_return ensures_bind_both [OF pread_at_length] ensures_case_prod, goal_cases)
    case (3 r k d)
    then have "d \<noteq> []" by auto
    from more [OF enough [OF this]] show ?case .
  qed auto
qed

lemma read_locked_defined: "returns (\<lambda>r. r \<noteq> None) (read_locked item fd)"
proof -
  have "returns (\<lambda>r. r \<noteq> None) (if 0 < n then pread_loop (nat n) fd (nat n) (wi_offset item) []
          else State_Monad.return (Some (Some [])))" for n
    by (intro ret pread_loop_defined) auto
  note rest = ensures_bind_both [OF this]
  show ?thesis
    unfolding read_locked_def Let_def
    by (rule ensures_bind, rule rest) (auto intro!: ret split: option.split)
qed

lemma read_item_defined: "returns (\<lambda>r. r \<noteq> None) (read_item item)"
  unfolding read_item_def by (intro ret read_locked_defined) auto

lemma plain_process_defined:
  assumes "\<not> wi_has_origin item"
  shows "returns (\<lambda>r. r \<noteq> None) (dyad_fetch_worker_process item)"
  unfolding dyad_fetch_worker_process_def
  by (rule ensures_bind_both [where P = "\<lambda>r. r = Some RC_OK"])
    (use assms in \<open>auto intro!: ret read_item_defined simp del: not_None_eq\<close>)

section \<open>Items in the hands of workers were accepted\<close>

definition tracked :: "('e, 'x) pool \<Rightarrow> bool" where
  "tracked p \<longleftrightarrow> set (work_queue (pmod p)) \<subseteq> set (accepted p)
     \<and> (\<forall>item. Working item \<in> set (workers p) \<longrightarrow> item \<in> set (accepted p))
     \<and> (\<forall>item. Finished item \<in> set (workers p) \<longrightarrow> (\<exists>a \<in> set (accepted p). same_request a item))"

lemma tracked_start: "pool_started p \<Longrightarrow> tracked p"
  by (auto simp: pool_started_def tracked_def)

lemma tracked_step:
  assumes "tracked p" "pool_step F l p p'"
  shows "tracked p'"
  using assms(2)
proof (cases rule: pool_step.cases)
  case (request h msg m w)
  then have "appended msg (pmod p) m" using ensures_run [OF range_request_appends] by fastforce
  with request assms(1) show ?thesis by (auto simp: appended_def tracked_def)
next
  case (take i item m)
  then have "item \<in> set (accepted p)" using assms(1) by (auto simp: tracked_def take_item_def split: list.splits)
  with take assms(1) show ?thesis
    by (auto simp: tracked_def take_item_def split: list.splits dest: set_update_other)
next
  case (process i item item' w)
  then have "same_request item item'" using ensures_run [OF worker_keeps_request] by fastforce
  moreover from process assms(1) have "item \<in> set (accepted p)"
    using nth_mem [of i "workers p"] by (auto simp: tracked_def)
  ultimately show ?thesis using process assms(1) by (auto simp: tracked_def dest: set_update_other)
qed (use assms(1) in \<open>auto simp: tracked_def finish_append_def finish_wake_def drain_pipe_def
      grab_completions_def pool_stop_signal_def pool_stop_end_def dest: set_update_other\<close>)

lemma reachable_tracked: "reachable F p \<Longrightarrow> tracked p"
  by (induction rule: reachable.induct) (auto intro: tracked_start tracked_step)

lemma internal_run_tracked: "internal_run F n p p' \<Longrightarrow> tracked p \<Longrightarrow> tracked p'"
  by (induction rule: internal_run.induct) (auto intro: tracked_step)

lemma plain_reads_defined:
  assumes "tracked p" "\<forall>item \<in> set (accepted p). \<not> wi_has_origin item"
  shows "reads_defined p"
  unfolding reads_defined_def
proof (intro allI impI)
  fix item assume "Working item \<in> set (workers p)"
  with assms have "\<not> wi_has_origin item" by (auto simp: tracked_def)
  from ensures_run [OF plain_process_defined [OF this]]
  show "fst (run_state (dyad_fetch_worker_process item) (pw p)) \<noteq> None" by (metis prod.collapse)
qed

text \<open>Workers stay on the POSIX side as long as the transport does not let them send.\<close>

definition by_worker :: "label \<Rightarrow> bool" where
  "by_worker l \<longleftrightarrow> (case l of Take _ \<Rightarrow> True | Process _ \<Rightarrow> True | Append _ \<Rightarrow> True | Wake _ \<Rightarrow> True
     | Leave _ \<Rightarrow> True | _ \<Rightarrow> False)"

lemma worker_confined:
  assumes "tracked p" "pool_step F l p p'" "by_worker l"
    and "\<forall>item \<in> set (accepted p). \<not> wi_thread_safe item"
  shows "world.more (pw p') = world.more (pw p)"
  using assms(2)
proof (cases rule: pool_step.cases)
  case (process i item item' w)
  from posix_onlyD [OF posix_process, of item "pw p"] process show ?thesis by (simp add: wp_def)
next
  case (append i item item' w)
  with assms(1) nth_mem [of i "workers p"] obtain a where "a \<in> set (accepted p)" "same_request a item"
    by (auto simp: tracked_def)
  with assms(4) have "\<not> wi_thread_safe item" by (auto simp: same_request_def)
  with append show ?thesis by (simp add: finish_send_def)
qed (use assms(3) in \<open>auto simp: by_worker_def\<close>)

section \<open>A module with one worker and one request\<close>

definition range_flux :: "reply list flux_ops" where
  "range_flux = reply_flux\<lparr>fx_request_unpack := (\<lambda>_ s. (Inr [(''upath'', JStr ''f''), (''offset'', JInt 0), (''length'', JInt 2)], s))\<rparr>"

definition one_worker :: mod_ctx where
  "one_worker = new_mod_ctx\<lparr>num_fetch_workers := 1, fetch_workers := True, pipe_open := True, completion_watcher := True\<rparr>"

definition sample_pool :: "(reply list, unit) pool" where
  "sample_pool = \<lparr>pw = file_world (Some [1, 2]) sample_ctx [], pmod = one_worker, workers = [Idle],
     reactor_at = Waiting, accepted = [], answered_items = []\<rparr>"

definition range_item :: work_item where
  "range_item = \<lparr>wi_fullpath = ''/a/f'', wi_origin_fullpath = [], wi_has_origin = False, wi_offset = 0,
     wi_length = 2, wi_inbuf = Some [0, 0], wi_req_state = Some \<lparr>rs_h = Some 5, rs_msg = Some 9\<rparr>, wi_msg = 9,
     wi_thread_safe = False, wi_rc = RC_OK, wi_errno = E_NONE, wi_range_len = 0\<rparr>"

lemma sample_request:
  "fst (run_state (dyad_fetch_range_request_cb range_flux 5 9 one_worker) (pw sample_pool))
     = Some (one_worker\<lparr>work_queue := [range_item]\<rparr>)"
  by code_simp

definition requested_pool :: "(reply list, unit) pool" where
  "requested_pool = sample_pool\<lparr>pw := snd (run_state (dyad_fetch_range_request_cb range_flux 5 9 one_worker) (pw sample_pool)),
     pmod := one_worker\<lparr>work_queue := [range_item]\<rparr>, accepted := [range_item]\<rparr>"

lemma sample_pool_started: "pool_started sample_pool"
  by (simp add: pool_started_def sample_pool_def one_worker_def new_mod_ctx_def)

lemma sample_started: "reachable range_flux sample_pool"
  by (rule reachable.start [OF sample_pool_started])

lemma sample_request_step: "pool_step range_flux (Request 9) sample_pool requested_pool"
proof -
  have at: "pmod sample_pool = one_worker" "reactor_at sample_pool = Waiting" "accepted sample_pool = []"
    "work_queue one_worker = []"
    by (simp_all add: sample_pool_def one_worker_def new_mod_ctx_def)
  have "run_state (dyad_fetch_range_request_cb range_flux 5 9 (pmod sample_pool)) (pw sample_pool)
      = (Some (one_worker\<lparr>work_queue := [range_item]\<rparr>),
         snd (run_state (dyad_fetch_range_request_cb range_flux 5 9 one_worker) (pw sample_pool)))"
    using sample_request by (metis at(1) prod.collapse)
  from pool_step.request [OF at(2) this] show ?thesis
    by (simp add: requested_pool_def at)
qed

lemma requested_reachable: "reachable range_flux requested_pool"
  by (rule reachable.step [OF sample_started sample_request_step])

lemma requested_parts: "workers requested_pool = [Idle]" "reactor_at requested_pool = Waiting"
  "work_queue (pmod requested_pool) = [range_item]" "accepted requested_pool = [range_item]"
  "\<not> workers_shutdown (pmod requested_pool)" "answered_items requested_pool = []"
  "completion_queue (pmod requested_pool) = []" "fetch_workers (pmod requested_pool)"
  by (simp_all add: requested_pool_def sample_pool_def one_worker_def new_mod_ctx_def)

text \<open>Flux delivers every answer, and the streams that have ended are those of the errors in its list.\<close>

lemma range_flux_laws: "stream_laws range_flux (\<lambda>s. s)" "ends_taken range_flux"
  by (auto simp: stream_laws_def ends_taken_def reply_laws_def ended_def range_flux_def reply_flux_def no_flux_def)

text \<open>The worker takes the item and reads it.\<close>

lemma read_by_worker:
  "\<exists>p item. pool_run range_flux requested_pool p \<and> reactor_at p = Waiting \<and> workers p = [Finished item]
     \<and> wi_msg item = 9 \<and> \<not> wi_thread_safe item \<and> pmod p = one_worker \<and> accepted p = [range_item] \<and> answered_items p = []"
proof -
  let ?F = range_flux and ?p = requested_pool
  define p1 where "p1 = ?p\<lparr>pmod := (pmod ?p)\<lparr>work_queue := []\<rparr>, workers := [Working range_item]\<rparr>"
  have s1: "pool_step ?F (Take 0) ?p p1"
    using pool_step.take [of 0 ?p range_item "(pmod ?p)\<lparr>work_queue := []\<rparr>" ?F]
    by (simp add: requested_parts take_item_def p1_def)
  obtain item w where run: "run_state (dyad_fetch_worker_process range_item) (pw p1) = (Some item, w)"
    using ensures_run [OF plain_process_defined [of range_item], of "pw p1"]
    by (cases "run_state (dyad_fetch_worker_process range_item) (pw p1)") (auto simp: range_item_def)
  then have item: "wi_msg item = 9" "\<not> wi_thread_safe item"
    using ensures_run [OF worker_keeps_request run] by (auto simp: same_request_def range_item_def)
  define p2 where "p2 = p1\<lparr>pw := w, workers := [Finished item]\<rparr>"
  have "pool_step ?F (Process 0) p1 p2"
    using pool_step.process [of 0 p1 range_item item w ?F] run by (simp add: p1_def p2_def)
  with s1 have "pool_run ?F ?p p2" by (blast intro: pool_run.intros)
  moreover have "pmod p2 = one_worker" "reactor_at p2 = Waiting" "accepted p2 = [range_item]" "answered_items p2 = []"
    by (simp_all add: p2_def p1_def requested_pool_def sample_pool_def one_worker_def new_mod_ctx_def)
  ultimately show ?thesis using item by (intro exI [of _ p2] exI [of _ item]) (simp add: p2_def)
qed

text \<open>With the pool running it appends it to the completion queue.\<close>

lemma completed_by_worker:
  "\<exists>p. pool_run range_flux requested_pool p \<and> running p \<and> completion_queue (pmod p) \<noteq> []"
proof -
  obtain p item where p: "pool_run range_flux requested_pool p" "reactor_at p = Waiting" "workers p = [Finished item]"
    "\<not> wi_thread_safe item" using read_by_worker by blast
  then have "run_state (finish_send range_flux item) (pw p) = (item, pw p)" by (simp add: finish_send_def)
  from pool_step.append [OF _ _ this] p(3) have "pool_step range_flux (Append 0) p
      (p\<lparr>pw := pw p, pmod := finish_append item (pmod p), workers := (workers p)[0 := Waking]\<rparr>)" by simp
  from pool_run_last [OF p(1) this] p(2) show ?thesis
    by (intro exI conjI) (auto simp: running_def finish_append_def)
qed

text \<open>With the stop signalled in between it does the same.\<close>

lemma stopped_while_reading:
  "\<exists>p p' :: (reply list, unit) pool. reachable range_flux p \<and> reactor_at p = Stopped \<and> in_flight p = {#9#}
     \<and> answered_items p = [] \<and> map wi_msg (accepted p) = [9]
     \<and> pool_run range_flux p p' \<and> reactor_at p' = Joined \<and> answered_items p' = [] \<and> map wi_msg (accepted p') = [9]
     \<and> map wi_msg (completion_queue (pmod p')) = [9]"
proof -
  let ?F = range_flux
  obtain p2 item where p2: "pool_run ?F requested_pool p2" "reactor_at p2 = Waiting" "workers p2 = [Finished item]"
    and item: "wi_msg item = 9" "\<not> wi_thread_safe item" and m: "pmod p2 = one_worker" "accepted p2 = [range_item]"
      "answered_items p2 = []"
    using read_by_worker by blast
  define p3 where "p3 = p2\<lparr>pmod := pool_stop_signal (pmod p2), reactor_at := Stopped\<rparr>"
  have "pool_step ?F Shutdown p2 p3"
    using pool_step.shutdown [of p2 ?F] p2(2) by (simp add: p3_def)
  then have r: "reachable ?F p3"
    using pool_run_reachable [OF p2(1) requested_reachable] by (blast intro: reachable.step)
  define p4 where "p4 = p3\<lparr>pw := pw p3, pmod := finish_append item (pmod p3), workers := [Waking]\<rparr>"
  have "pool_step ?F (Append 0) p3 p4"
    using pool_step.append [of 0 p3 item ?F item "pw p3"] item p2(3)
    by (simp add: p4_def p3_def finish_send_def)
  moreover define p5 where "p5 = p4\<lparr>pmod := finish_wake (pmod p4), workers := [Idle]\<rparr>"
  have "pool_step ?F (Wake 0) p4 p5"
    using pool_step.wake [of 0 p4 ?F] by (simp add: p5_def p4_def)
  moreover define p6 where "p6 = p5\<lparr>workers := [Gone]\<rparr>"
  have "pool_step ?F (Leave 0) p5 p6"
    using pool_step.leave [of 0 p5 ?F] m
    by (simp add: p6_def p5_def p4_def p3_def finish_wake_def finish_append_def
        pool_stop_signal_def one_worker_def new_mod_ctx_def)
  moreover define p7 where "p7 = p6\<lparr>pmod := pool_stop_end (pmod p6), reactor_at := Joined\<rparr>"
  have "pool_step ?F Stop p6 p7"
    using pool_step.stop [of p6 ?F] by (simp add: p7_def p6_def p5_def p4_def p3_def)
  ultimately have "pool_run ?F p3 p7" by (blast intro: pool_run.intros)
  moreover have "answered_items p7 = []" "map wi_msg (accepted p7) = [9]" "reactor_at p7 = Joined"
    "map wi_msg (completion_queue (pmod p7)) = [9]"
    using item m
    by (simp_all add: p7_def p6_def p5_def p4_def p3_def range_item_def one_worker_def new_mod_ctx_def
        pool_stop_end_def pool_stop_signal_def finish_wake_def finish_append_def)
  moreover have "in_flight p3 = {#9#}" "reactor_at p3 = Stopped" "answered_items p3 = []" "map wi_msg (accepted p3) = [9]"
    using item m p2(3)
    by (simp_all add: p3_def in_flight_def one_worker_def new_mod_ctx_def pool_stop_signal_def range_item_def)
  ultimately show ?thesis using r by (intro exI [of _ p3] exI [of _ p7] conjI)
qed

section \<open>The properties of the pool\<close>

text \<open>
  C9: refinement of the contract. With a Flux that accepts the end of every stream, a request that the handler
  gets either becomes pending, or its stream of answers is ended there and then; working off a completion ends the stream of
  one pending request; and every other step of a thread leaves the pending requests and the ended streams
  as they are. So the pool neither drops a request nor answers one twice.
\<close>

theorem pool_refines_contract:
  assumes "stream_laws F sent" and "ends_taken F" and "pool_step F l p p'"
  shows "case l of
       Request msg \<Rightarrow> contract_step (Accept msg) (contract_of sent p) (contract_of sent p')
         \<or> contract_step (Direct msg) (contract_of sent p) (contract_of sent p')
     | Answer \<Rightarrow> \<exists>msg. contract_step (Reply msg) (contract_of sent p) (contract_of sent p')
     | _ \<Rightarrow> contract_of sent p' = contract_of sent p"
  using assms silent_keeps_contract [OF assms(1,3)] answer_replies [of F sent p p'] request_accepts [of F sent _ p p']
  by (cases l) (auto simp: silent_def)

theorem pool_refines_contract_witness:
  "contract_step (Accept 9) (contract_of (\<lambda>s. s) sample_pool) (contract_of (\<lambda>s. s) requested_pool)
     \<or> contract_step (Direct 9) (contract_of (\<lambda>s. s) sample_pool) (contract_of (\<lambda>s. s) requested_pool)"
  using pool_refines_contract [OF range_flux_laws sample_request_step] by simp

text \<open>
  C8: no request is lost or answered twice. In every reachable state the accepted requests are the
  ones in the queues, in the hands of a thread, and answered, each as often as it was accepted.
\<close>

theorem pool_accounts:
  assumes "reachable F p"
  shows "mset (map wi_msg (accepted p)) = in_flight p + mset (map wi_msg (answered_items p))"
  using reachable_inv [OF assms] by (simp add: pool_inv_def)

theorem pool_accounts_witness:
  "mset (map wi_msg (accepted requested_pool)) = in_flight requested_pool + mset (map wi_msg (answered_items requested_pool))"
  by (rule pool_accounts [OF requested_reachable])

text \<open>
  C10: no wakeup is lost while the pool runs. From a pool that was started with its watcher until it is told to stop,
  the watcher is there, and as long as completed items wait, a byte is in the pipe, or a worker is about to
  write one, or the reactor has drained the pipe and is about to take the queue. (What happens to completed items after the
  stop is the subject of C21.)
\<close>

theorem pool_no_lost_wakeup:
  assumes "pool_started p0" and "completion_watcher (pmod p0)" and "pool_run F p0 p" and "running p"
    and "completion_queue (pmod p) \<noteq> []"
  shows "completion_watcher (pmod p)
     \<and> (0 < wakeups (pmod p) \<or> Waking \<in> set (workers p) \<or> reactor_at p = Draining)"
  using running_run [OF assms(3,4)] reachable_inv [OF pool_run_reachable [OF assms(3) reachable.start [OF assms(1)]]] assms(2,5)
  by (simp add: pool_inv_def wakeup_due_def)

theorem pool_no_lost_wakeup_witness:
  "\<exists>p. pool_run range_flux sample_pool p \<and> completion_queue (pmod p) \<noteq> [] \<and> completion_watcher (pmod p)
     \<and> (0 < wakeups (pmod p) \<or> Waking \<in> set (workers p) \<or> reactor_at p = Draining)"
proof -
  obtain p where p: "pool_run range_flux requested_pool p" "running p" "completion_queue (pmod p) \<noteq> []"
    using completed_by_worker by blast
  have run: "pool_run range_flux sample_pool p" by (rule pool_run.onward [OF sample_request_step p(1)])
  have w: "completion_watcher (pmod sample_pool)" by (simp add: sample_pool_def one_worker_def)
  from pool_no_lost_wakeup [OF sample_pool_started w run p(2,3)] run p(3) show ?thesis by blast
qed

text \<open>
  C7: every accepted request is answered. Unless the pool is told to stop, its threads take at most
  \<open>work_left\<close> steps of their own in any order. Where none is possible, Flux has been told to end the stream of
  every request that was pending, once each, and of no other. (Flux accepts the ends of streams. The exception is an item with an origin that
  a worker reads with an undefined outcome: the range cache leaves the buffer of its bitmap.)
\<close>

theorem pool_answers_all:
  assumes "stream_laws F sent" and "ends_taken F" and "reachable F p" and "running p" and "internal_run F n p p'"
  shows "n \<le> work_left p \<and> ((\<exists>l p''. internal l \<and> pool_step F l p' p'')
     \<or> ended sent (flux (pw p')) = ended sent (flux (pw p)) + in_flight p
     \<or> (\<exists>item. Working item \<in> set (workers p') \<and> wi_has_origin item
          \<and> fst (run_state (dyad_fetch_worker_process item) (pw p')) = None))"
proof -
  have inv: "pool_inv p'" "running p'"
    using internal_run_keeps [OF assms(5)] reachable_inv [OF assms(3)] assms(4) by simp_all
  have "\<exists>item. Working item \<in> set (workers p') \<and> wi_has_origin item
      \<and> fst (run_state (dyad_fetch_worker_process item) (pw p')) = None" if "\<not> reads_defined p'"
  proof -
    from that obtain item where i: "Working item \<in> set (workers p')"
      "fst (run_state (dyad_fetch_worker_process item) (pw p')) = None" by (auto simp: reads_defined_def)
    with ensures_run [OF plain_process_defined, of item "pw p'"] have "wi_has_origin item" by (metis prod.collapse)
    with i show ?thesis by blast
  qed
  moreover have "ended sent (flux (pw p')) = ended sent (flux (pw p)) + in_flight p" if "in_flight p' = {#}"
    using internal_run_contract [OF assms(5,1,2)] that by (simp add: ac_simps)
  ultimately show ?thesis using pool_progress [OF inv] internal_run_bound [OF assms(5)] by fastforce
qed

theorem pool_answers_all_witness:
  "\<exists>p'. internal_run range_flux 1 requested_pool p' \<and> (1::nat) \<le> work_left requested_pool
     \<and> ((\<exists>l p''. internal l \<and> pool_step range_flux l p' p'')
       \<or> ended (\<lambda>s. s) (flux (pw p')) = ended (\<lambda>s. s) (flux (pw requested_pool)) + in_flight requested_pool
       \<or> (\<exists>item. Working item \<in> set (workers p') \<and> wi_has_origin item
            \<and> fst (run_state (dyad_fetch_worker_process item) (pw p')) = None))"
proof -
  have run: "running requested_pool" by (simp add: running_def requested_parts)
  obtain m where "take_item (pmod requested_pool) = Some (range_item, m)"
    by (simp add: take_item_def requested_parts)
  then obtain p' where "pool_step range_flux (Take 0) requested_pool p'"
    using pool_step.take [of 0 requested_pool range_item m range_flux] by (auto simp: requested_parts)
  then have "internal_run range_flux 1 requested_pool p'"
    using internal_run.more [OF _ _ internal_run.none, of range_flux "Take 0"] by (simp add: internal_def)
  with pool_answers_all [OF range_flux_laws requested_reachable run] show ?thesis by blast
qed

text \<open>
  C20: workers leave last. A worker is gone only after the stop was signalled and with no work
  left, and when all have been joined the accepted requests are the answered ones and those in the
  completion queue.
\<close>

theorem workers_leave_last:
  assumes "reachable F p"
  shows "(Gone \<in> set (workers p) \<longrightarrow> workers_shutdown (pmod p) \<and> work_queue (pmod p) = [])
     \<and> (reactor_at p = Joined \<longrightarrow> mset (map wi_msg (accepted p))
          = mset (map wi_msg (answered_items p @ completion_queue (pmod p))))"
  using reachable_inv [OF assms] joined_rest(1) [OF reachable_inv [OF assms]] by (auto simp: pool_inv_def)

theorem workers_leave_last_witness:
  "\<exists>p :: (reply list, unit) pool. reactor_at p = Joined \<and> completion_queue (pmod p) \<noteq> []
     \<and> mset (map wi_msg (accepted p)) = mset (map wi_msg (answered_items p @ completion_queue (pmod p)))"
proof -
  obtain p p' :: "(reply list, unit) pool" where "reachable range_flux p" "pool_run range_flux p p'"
    and p: "reactor_at p' = Joined" "map wi_msg (completion_queue (pmod p')) = [9]"
    using stopped_while_reading by (elim exE conjE) (rule that)
  then have r: "reachable range_flux p'" by (blast intro: pool_run_reachable)
  from p(2) have "completion_queue (pmod p') \<noteq> []" by auto
  with workers_leave_last [OF r] p(1) show ?thesis by blast
qed

text \<open>
  C21: the stop drops answers. Once the pool has been told to stop, no step of it ends the stream of any request,
  whatever its workers still read: the requests that are in flight then stay in flight. When all workers have been joined,
  these requests are the ones in the completion queue, the watcher that would answer them is destroyed, and no step of the
  pool is left.
\<close>

theorem pool_stop_drops_answers:
  assumes "stream_laws F sent" and "reachable F p" and "\<not> running p" and "pool_run F p p'"
  shows "ended sent (flux (pw p')) = ended sent (flux (pw p)) \<and> in_flight p' = in_flight p
     \<and> (reactor_at p' = Joined \<longrightarrow> in_flight p = mset (map wi_msg (completion_queue (pmod p')))
          \<and> \<not> completion_watcher (pmod p') \<and> (\<forall>l p''. \<not> pool_step F l p' p''))"
proof -
  have r: "reachable F p'" by (rule pool_run_reachable [OF assms(4,2)])
  from stopped_run [OF assms(4,3,1)] have "ended sent (flux (pw p')) = ended sent (flux (pw p))" "in_flight p' = in_flight p"
    by (simp_all add: contract_of_def)
  with joined_rest [OF reachable_inv [OF r]] joined_watcher [OF r] show ?thesis by auto
qed

theorem pool_stop_drops_answers_witness:
  "\<exists>p p' :: (reply list, unit) pool. reactor_at p = Stopped \<and> in_flight p = {#9#} \<and> pool_run range_flux p p'
     \<and> reactor_at p' = Joined \<and> ended (\<lambda>s. s) (flux (pw p')) = ended (\<lambda>s. s) (flux (pw p))
     \<and> mset (map wi_msg (completion_queue (pmod p'))) = {#9#} \<and> \<not> completion_watcher (pmod p')
     \<and> (\<forall>l p''. \<not> pool_step range_flux l p' p'')"
proof -
  obtain p p' :: "(reply list, unit) pool" where r: "reachable range_flux p" "reactor_at p = Stopped" "in_flight p = {#9#}"
    and run: "pool_run range_flux p p'" "reactor_at p' = Joined"
    using stopped_while_reading by blast
  from r(2) have "\<not> running p" by (simp add: running_def)
  from pool_stop_drops_answers [OF range_flux_laws(1) r(1) this run(1)] r run show ?thesis
    by (intro exI [of _ p] exI [of _ p']) simp
qed

text \<open>
  Workers stay off Flux. As long as the transport does not let other threads send, a step of
  a worker changes neither the state of Flux nor the context nor anything else beside the file system.
\<close>

theorem worker_steps_confined:
  assumes "reachable F p" and "pool_step F l p p'" and "by_worker l"
    and "\<forall>item \<in> set (accepted p). \<not> wi_thread_safe item"
  shows "flux (pw p') = flux (pw p) \<and> cell (pw p') = cell (pw p) \<and> environ (pw p') = environ (pw p)"
  using more_eq_parts [OF worker_confined [OF reachable_tracked [OF assms(1)] assms(2-4)]] by simp

theorem worker_steps_confined_witness:
  "\<exists>p'. pool_step range_flux (Take 0) requested_pool p' \<and> flux (pw p') = flux (pw requested_pool)
     \<and> cell (pw p') = cell (pw requested_pool) \<and> environ (pw p') = environ (pw requested_pool)"
proof -
  obtain m where "take_item (pmod requested_pool) = Some (range_item, m)"
    by (simp add: take_item_def requested_parts)
  then obtain p' where "pool_step range_flux (Take 0) requested_pool p'"
    using pool_step.take [of 0 requested_pool range_item m range_flux] by (auto simp: requested_parts)
  with worker_steps_confined [OF requested_reachable, of "Take 0" p'] show ?thesis
    by (auto simp: by_worker_def requested_parts range_item_def)
qed

end
