(* ===== verification/Client_Fetch.thy ===== *)
theory Client_Fetch
  imports Client Service_Files
begin

text \<open>
  What the client learns from Flux: the owner that the key-value store gives for a path, and the
  data that the owner answers. The calls leave the files as they are and the context but for the
  transport's bookkeeping.
\<close>

section \<open>What stays as it is\<close>

text \<open>The context without what a call changes on its way.\<close>

definition settings :: "('e, 'x) dworld \<Rightarrow> dyad_ctx option" where
  "settings w = map_option (\<lambda>c. c\<lparr>reenter := True, dtl_handle := None\<rparr>) (cell w)"

definition wired :: "('e, 'x) dworld \<Rightarrow> bool" where
  "wired w \<longleftrightarrow> (\<exists>c dt fd. cell w = Some c \<and> dtl_handle c = Some dt \<and> flux_dtl_handle dt = Some fd)"

definition calm :: "('e, 'x) dworld \<Rightarrow> ('e, 'x) dworld \<Rightarrow> bool" where
  "calm w w' \<longleftrightarrow> view w w' (fdata w) \<and> settings w' = settings w \<and> (wired w \<longrightarrow> wired w')
     \<and> (\<forall>fd off. fd_off w fd off \<longrightarrow> fd_off w' fd off)"

lemma calm_refl: "good w \<Longrightarrow> calm w w"
  by (simp add: calm_def)

lemma calmD:
  assumes "calm w w'"
  shows "good w'" "fdata w' = fdata w" "settings w' = settings w" "wired w \<Longrightarrow> wired w'"
    "fd_at w fd p rd wr \<Longrightarrow> fd_at w' fd p rd wr" "fd_off w fd off \<Longrightarrow> fd_off w' fd off"
    "is_dir w' q = is_dir w q" "faults w = [] \<Longrightarrow> faults w' = []" "left_by_other w' q d \<Longrightarrow> left_by_other w q d"
  using assms viewD [of w w' "fdata w"] unfolding calm_def by auto

lemma calm_trans: "calm w w' \<Longrightarrow> calm w' w'' \<Longrightarrow> calm w w''"
  using view_trans [of w w' "fdata w" w''] viewD(2) [of w w' "fdata w"] unfolding calm_def by auto

lemma off_parts [simp]:
  fixes w :: "('e, 'x) dworld"
  shows "fd_off (w\<lparr>flux := s\<rparr>) = fd_off w" "fd_off (w\<lparr>cell := c\<rparr>) = fd_off w" "fd_off (w\<lparr>errno := e\<rparr>) = fd_off w"
    "fd_off (w\<lparr>environ := env\<rparr>) = fd_off w" "fd_at (w\<lparr>errno := e\<rparr>) = fd_at w"
  by (simp_all add: fd_off_def fd_at_def fun_eq_iff)

lemma view_parts:
  fixes w w' :: "('e, 'x) dworld"
  shows "view w (w'\<lparr>flux := s\<rparr>) G = view w w' G" "view w (w'\<lparr>cell := c\<rparr>) G = view w w' G"
    "view w (w'\<lparr>errno := e\<rparr>) G = view w w' G"
  by (simp_all add: view_def)

lemma settings_parts [simp]:
  fixes w :: "('e, 'x) dworld"
  shows "settings (w\<lparr>flux := s\<rparr>) = settings w" "settings (w\<lparr>errno := e\<rparr>) = settings w"
    "settings (w\<lparr>cell := map_option (\<lambda>c. c\<lparr>reenter := b\<rparr>) (cell w)\<rparr>) = settings w"
    "settings (w\<lparr>cell := map_option (\<lambda>c. c\<lparr>dtl_handle := g (dtl_handle c)\<rparr>) (cell w)\<rparr>) = settings w"
    "wired (w\<lparr>flux := s\<rparr>) = wired w" "wired (w\<lparr>errno := e\<rparr>) = wired w"
    "wired (w\<lparr>cell := map_option (\<lambda>c. c\<lparr>reenter := b\<rparr>) (cell w)\<rparr>) = wired w"
  by (cases "cell w"; auto simp: settings_def wired_def)+

lemma wired_upd [simp]:
  fixes w :: "('e, 'x) dworld"
  shows "wired (w\<lparr>cell := map_option (\<lambda>c. c\<lparr>dtl_handle := map_option
     (\<lambda>d. d\<lparr>flux_dtl_handle := map_option f (flux_dtl_handle d)\<rparr>) (dtl_handle c)\<rparr>) (cell w)\<rparr>) = wired w"
  by (cases "cell w"; auto simp: wired_def)

lemma calm_parts [simp]:
  fixes w w' :: "('e, 'x) dworld"
  shows "calm w (w'\<lparr>flux := s\<rparr>) = calm w w'" "calm w (w'\<lparr>errno := e\<rparr>) = calm w w'"
    "calm w (w'\<lparr>cell := map_option (\<lambda>c. c\<lparr>reenter := b\<rparr>) (cell w')\<rparr>) = calm w w'"
    "calm w (w'\<lparr>cell := map_option (\<lambda>c. c\<lparr>dtl_handle := map_option
     (\<lambda>d. d\<lparr>flux_dtl_handle := map_option f (flux_dtl_handle d)\<rparr>) (dtl_handle c)\<rparr>) (cell w')\<rparr>) = calm w w'"
  by (simp_all add: calm_def view_parts)

lemma wp_malloc_calm:
  fixes w :: "('e, 'x) dworld"
  assumes "calm w0 w" and "\<And>r (w' :: ('e, 'x) dworld). calm w0 w' \<Longrightarrow> flux w' = flux w \<Longrightarrow> cell w' = cell w
     \<Longrightarrow> \<not> r \<and> faults w \<noteq> [] \<or> r \<Longrightarrow> Q r w'"
  shows "wp sys_malloc Q w"
proof (rule wp_sys_malloc, rule assms(2))
  fix r and w' :: "('e, 'x) dworld"
  assume q: "quiet w w'" and r: "\<not> r \<and> faults w \<noteq> [] \<or> r"
  note m = quiet_same(11) [OF q]
  have "calm w w'"
    using view_quiet [OF calmD(1) [OF assms(1)] q] more_eq_parts(1) [OF m] quiet_same(4) [OF q]
    by (simp add: calm_def settings_def wired_def fd_off_def)
  from calm_trans [OF assms(1) this] show "calm w0 w'" .
  show "flux w' = flux w" "cell w' = cell w" using more_eq_parts [OF m] by simp_all
  show "\<not> r \<and> faults w \<noteq> [] \<or> r" by (rule r)
qed

lemma keep_calm [keep]: "keeps (calm w0) (upd_flux_dtl f)" "keeps (calm w0) the_flux_dtl"
  "keeps (calm w0) dyad_dtl_flux_close_connection"
proof -
  show *: "keeps (calm w0) (upd_flux_dtl f)" "keeps (calm w0) the_flux_dtl"
    for f and w0 :: "('a, 'b) dworld" by (simp_all add: keeps_def wps)
  show "keeps (calm w0) dyad_dtl_flux_close_connection"
    unfolding dyad_dtl_flux_close_connection_def by (intro keep *)
qed

section \<open>Laws of Flux for a client\<close>

text \<open>
  A response belongs to the request just sent, and a lookup to its key: \<open>answers rank topic payload d\<close>
  says that \<open>d\<close> is data the service with that rank answers, and \<open>owner ns topic r\<close> that \<open>r\<close> is a value
  committed under the key. Packing keeps what is packed.
\<close>

definition client_laws ::
  "'e flux_ops \<Rightarrow> (uint32 \<Rightarrow> string \<Rightarrow> json \<Rightarrow> bytes \<Rightarrow> bool) \<Rightarrow> (string option \<Rightarrow> string \<Rightarrow> int \<Rightarrow> bool) \<Rightarrow> bool" where
  "client_laws F answers owner \<longleftrightarrow>
     (\<forall>obj s obj' s'. fx_json_pack F obj s = (Inr obj', s') \<longrightarrow> obj' = obj)
   \<and> (\<forall>h topic rank p s f s' d s''. fx_rpc_pack F h topic rank p s = (Inr f, s') \<longrightarrow>
        fx_rpc_get_raw F f s' = (Inr d, s'') \<longrightarrow> answers rank topic p d)
   \<and> (\<forall>h ns wait topic s f s' r s''. fx_kvs_lookup F h ns wait topic s = (Inr f, s') \<longrightarrow>
        fx_lookup_get F f s' = (Inr r, s'') \<longrightarrow> owner ns topic r)"

lemma client_lawsD:
  assumes "client_laws F answers owner"
  shows "fx_json_pack F obj s = (Inr obj', s') \<Longrightarrow> obj' = obj"
    "fx_rpc_pack F h topic rank p s = (Inr f, s') \<Longrightarrow> fx_rpc_get_raw F f s' = (Inr d, s'') \<Longrightarrow> answers rank topic p d"
    "fx_kvs_lookup F h ns wait topic s = (Inr f, s') \<Longrightarrow> fx_lookup_get F f s' = (Inr r, s'') \<Longrightarrow> owner ns topic r"
proof -
  from assms have 1: "\<forall>obj s obj' s'. fx_json_pack F obj s = (Inr obj', s') \<longrightarrow> obj' = obj"
    and 2: "\<forall>h topic rank p s f s' d s''. fx_rpc_pack F h topic rank p s = (Inr f, s') \<longrightarrow>
        fx_rpc_get_raw F f s' = (Inr d, s'') \<longrightarrow> answers rank topic p d"
    and 3: "\<forall>h ns wait topic s f s' r s''. fx_kvs_lookup F h ns wait topic s = (Inr f, s') \<longrightarrow>
        fx_lookup_get F f s' = (Inr r, s'') \<longrightarrow> owner ns topic r"
    unfolding client_laws_def by simp_all
  show "fx_json_pack F obj s = (Inr obj', s') \<Longrightarrow> obj' = obj" using 1 by metis
  show "fx_rpc_pack F h topic rank p s = (Inr f, s') \<Longrightarrow> fx_rpc_get_raw F f s' = (Inr d, s'') \<Longrightarrow> answers rank topic p d"
    using 2 by blast
  show "fx_kvs_lookup F h ns wait topic s = (Inr f, s') \<Longrightarrow> fx_lookup_get F f s' = (Inr r, s'') \<Longrightarrow> owner ns topic r"
    using 3 by blast
qed

section \<open>Fetching data\<close>

lemma wp_end_of_stream:
  fixes w :: "('e, 'x) dworld"
  assumes "calm w0 w"
  shows "wp (end_of_stream F (rc, f, data, n)) (\<lambda>(rc', data', n') w'. calm w0 w' \<and> data' = data \<and> n' = n
     \<and> (rc' = RC_OK \<longrightarrow> rc = RC_OK)) w"
  using assms
  by (auto simp: end_of_stream_def wps wp_flux_call split: prod.split sum.split)

lemma wp_flux_recv:
  fixes w :: "('e, 'x) dworld"
  assumes "calm w0 w" "wired w" "fdtl_f (the (flux_dtl_handle (the (dtl_handle (the (cell w)))))) = Some f"
  shows "wp (dyad_dtl_flux_recv F (None, 0)) (\<lambda>(rc, data, n) w'. calm w0 w' \<and> (rc = RC_OK \<longrightarrow>
     (\<exists>d s'. fx_rpc_get_raw F f (flux w) = (Inr d, s') \<and> data = Some d \<and> n = length d))) w"
proof -
  obtain r s where r: "fx_rpc_get_raw F f (flux w) = (r, s)" by fastforce
  show ?thesis
  proof (cases r)
    case (Inl e)
    with r assms show ?thesis
      by (simp add: dyad_dtl_flux_recv_def wps wp_flux_call)
  next
    case (Inr d)
    with r assms show ?thesis
      unfolding dyad_dtl_flux_recv_def dyad_dtl_flux_get_buffer_def
      by (simp add: wps wp_flux_call) (rule wp_malloc_calm [of w0]; simp add: wps)
  qed
qed

text \<open>The request reaches the owner, and what comes back is its answer.\<close>

lemma wp_request_data:
  fixes w :: "('e, 'x) dworld"
  assumes laws: "client_laws F answers owner" and "calm w0 w" "wired w"
  shows "wp (request_data F topic rank (rc, payload)) (\<lambda>(rc', f, data, n) w'. calm w0 w'
     \<and> (rc' = RC_OK \<longrightarrow> rc = RC_OK \<and> (\<exists>d. data = Some d \<and> n = length d \<and> answers rank topic (the payload) d))) w"
proof (cases "rc = RC_OK")
  case False
  with assms show ?thesis by (simp add: request_data_def wps)
next
  case True
  obtain r s where r: "fx_rpc_pack F (ctx_h (the (cell w))) topic rank (the payload) (flux w) = (r, s)" by fastforce
  show ?thesis
  proof (cases r)
    case (Inl e)
    with r True assms show ?thesis by (simp add: request_data_def wps wp_flux_call)
  next
    case (Inr f)
    let ?w = "w\<lparr>flux := s, cell := map_option (\<lambda>c. c\<lparr>dtl_handle := map_option
        (\<lambda>d. d\<lparr>flux_dtl_handle := map_option (\<lambda>d. d\<lparr>fdtl_f := Some f\<rparr>) (flux_dtl_handle d)\<rparr>) (dtl_handle c)\<rparr>) (cell w)\<rparr>"
    have c: "calm w0 ?w" "wired ?w" using assms(2,3) calm_parts(4) [of w0 _ "w\<lparr>flux := s\<rparr>"] wired_upd [where w = "w\<lparr>flux := s\<rparr>"] by simp_all
    have f: "fdtl_f (the (flux_dtl_handle (the (dtl_handle (the (cell ?w)))))) = Some f"
      using assms(3) by (auto simp: wired_def)
    have "wp (dyad_dtl_flux_recv F (None, 0)) (\<lambda>(rc, data, n) w'. calm w0 w' \<and> (rc = RC_OK \<longrightarrow>
       (\<exists>d s'. fx_rpc_get_raw F f s = (Inr d, s') \<and> data = Some d \<and> n = length d))) ?w"
      using wp_flux_recv [OF c f] by simp
    then have "wp (dyad_dtl_flux_recv F (None, 0)) (\<lambda>(rc, data, n) w'. calm w0 w' \<and> (rc = RC_OK \<longrightarrow>
       (\<exists>d. data = Some d \<and> n = length d \<and> answers rank topic (the payload) d))) ?w"
      by (rule wp_mono) (use client_lawsD(2) [OF laws r [unfolded Inr]] in auto)
    with r Inr True show ?thesis
      by (auto simp: request_data_def dyad_dtl_flux_rpc_recv_response_def dyad_dtl_flux_establish_connection_def
          wps wp_flux_call elim!: wp_mono intro!: keepsD [OF keep_calm(3), THEN wp_mono])
  qed
qed

definition fetch_payload :: "string \<Rightarrow> json" where
  "fetch_payload upath = [(''upath'', JStr upath)]"

definition range_payload :: "string \<Rightarrow> size_t \<Rightarrow> size_t \<Rightarrow> json" where
  "range_payload upath offset len = [(''upath'', JStr upath), (''offset'', JInt (int_of_size offset)),
     (''length'', JInt (int_of_size len))]"

definition got :: "(bytes \<Rightarrow> bool) \<Rightarrow> dyad_rc \<Rightarrow> bytes option \<Rightarrow> nat \<Rightarrow> bool" where
  "got P rc data n \<longleftrightarrow> (rc = RC_OK \<longrightarrow> (\<exists>d. data = Some d \<and> n = length d \<and> P d))"

lemma wp_packed_request:
  fixes w :: "('e, 'x) dworld"
  assumes laws: "client_laws F answers owner" and "calm w0 w" "wired w"
  shows "wp (do { p \<leftarrow> flux_call (fx_json_pack F obj);
       r \<leftarrow> request_data F topic rank (if p = None then RC_BADPACK else RC_OK, p); end_of_stream F r })
     (\<lambda>(rc, data, n) w'. calm w0 w' \<and> got (answers rank topic obj) rc data n) w"
proof -
  have go: "wp (do { r \<leftarrow> request_data F topic rank (rc, p); end_of_stream F r })
     (\<lambda>(rc, data, n) w'. calm w0 w' \<and> got (answers rank topic obj) rc data n) w1"
    if "calm w0 w1" "wired w1" "rc = RC_OK \<Longrightarrow> p = Some obj" for rc p and w1 :: "('e, 'x) dworld"
    unfolding wp_bind
  proof (rule wp_mono [OF wp_request_data [OF laws that(1,2), of topic rank rc p]], clarify)
    fix rc' f data n and w2 :: "('e, 'x) dworld"
    assume "calm w0 w2" and d: "rc' = RC_OK \<longrightarrow> rc = RC_OK \<and> (\<exists>d. data = Some d \<and> n = length d \<and> answers rank topic (the p) d)"
    then show "wp (end_of_stream F (rc', f, data, n))
       (\<lambda>(rc, data, n) w'. calm w0 w' \<and> got (answers rank topic obj) rc data n) w2"
      by (elim wp_mono [OF wp_end_of_stream]) (use that(3) in \<open>auto simp: got_def\<close>)
  qed
  obtain q s where q: "fx_json_pack F obj (flux w) = (q, s)" by fastforce
  show ?thesis
  proof (cases q)
    case (Inl e)
    then show ?thesis
      using go [of "w\<lparr>flux := s, errno := e\<rparr>" RC_BADPACK None] q assms(2,3)
      by (simp add: wp_bind [of "flux_call _"] wp_flux_call)
  next
    case (Inr p)
    with client_lawsD(1) [OF laws] q have "p = obj" by blast
    with Inr show ?thesis
      using go [of "w\<lparr>flux := s\<rparr>" RC_OK "Some obj"] q assms(2,3)
      by (simp add: wp_bind [of "flux_call _"] wp_flux_call)
  qed
qed

lemma wp_get_data:
  fixes w :: "('e, 'x) dworld"
  assumes "client_laws F answers owner" "calm w0 w" "wired w"
  shows "wp (dyad_get_data F md) (\<lambda>(rc, data, n) w'. calm w0 w'
     \<and> got (answers (owner_rank md) DYAD_DTL_RPC_NAME (fetch_payload (fpath md))) rc data n) w"
  using wp_packed_request [OF assms]
  by (simp add: dyad_get_data_def dyad_dtl_flux_rpc_pack_def fetch_payload_def wps)

lemma wp_get_data_range:
  fixes w :: "('e, 'x) dworld"
  assumes "client_laws F answers owner" "calm w0 w" "wired w"
  shows "wp (dyad_get_data_range F md off len) (\<lambda>(rc, data, n) w'. calm w0 w'
     \<and> got (answers (owner_rank md) DYAD_DTL_RPC_RANGE_NAME (range_payload (fpath md) off len)) rc data n) w"
  using wp_packed_request [OF assms]
  by (simp add: dyad_get_data_range_def dyad_dtl_flux_rpc_pack_range_def range_payload_def wps)

section \<open>Looking up the owner\<close>

text \<open>The record made of what was committed under the key of the path.\<close>

definition found :: "(string option \<Rightarrow> string \<Rightarrow> int \<Rightarrow> bool) \<Rightarrow> string option \<Rightarrow> string \<Rightarrow> string \<Rightarrow> dyad_metadata \<Rightarrow> bool" where
  "found owner ns topic upath md \<longleftrightarrow> (\<exists>r. owner ns topic r \<and> md = \<lparr>fpath = upath, owner_rank = of_int r\<rparr>)"

lemma wp_kvs_read:
  fixes w :: "('e, 'x) dworld"
  assumes laws: "client_laws F answers owner" and "calm w0 w" "cell w = Some c"
  shows "wp (dyad_kvs_read F topic upath wait (Some md)) (\<lambda>(rc, r) w'. calm w0 w' \<and> cell w' = cell w
     \<and> (rc = RC_OK \<longrightarrow> (\<exists>m. r = Some (Some m) \<and> found owner (kvs_namespace c) topic upath m))) w"
proof -
  obtain q s where q: "fx_kvs_lookup F (ctx_h c) (kvs_namespace c) wait topic (flux w) = (q, s)" by fastforce
  show ?thesis
  proof (cases q)
    case (Inl e)
    with q assms(2,3) show ?thesis by (simp add: dyad_kvs_read_def wps wp_flux_call dyad_free_metadata_def)
  next
    case (Inr f)
    obtain r s2 where r: "fx_lookup_get F f s = (r, s2)" by fastforce
    note own = client_lawsD(3) [OF laws q [unfolded Inr]]
    let ?read = "do {
        rank \<leftarrow> flux_call (fx_lookup_get F f);
        State_Monad.return
          (case rank of
             None \<Rightarrow> (RC_BADMETADATA, Some None)
           | Some r \<Rightarrow> (RC_OK, Some (Some \<lparr>fpath = upath, owner_rank = of_int r\<rparr>))) } :: ('e, 'x, _) dio"
    let ?post = "\<lambda>(rc, r) w' :: ('e, 'x) dworld. calm w0 w' \<and> cell w' = cell w
     \<and> (rc = RC_OK \<longrightarrow> (\<exists>m. r = Some (Some m) \<and> found owner (kvs_namespace c) topic upath m))"
    have fin: "wp (do { flux_do (fx_future_destroy F (Some f)); State_Monad.return (rc, r) }) ?post w'"
      if "?post (rc, r) w'" for rc r w'
      using that by (simp add: wps)
    have get: "wp (do { x \<leftarrow> ?read; flux_do (fx_future_destroy F (Some f)); State_Monad.return x }) ?post w'"
      if "calm w0 w'" "flux w' = s" "cell w' = cell w" for w'
      using that r own by (cases r) (auto simp: wps wp_flux_call found_def)
    have alloc: "wp (do { ok \<leftarrow> sys_malloc;
         r \<leftarrow> (if \<not> ok then State_Monad.return (RC_SYSFAIL, Some None) else ?read);
         flux_do (fx_future_destroy F (Some f)); State_Monad.return r }) ?post w'"
      if "calm w0 w'" "flux w' = s" "cell w' = cell w" for w'
      unfolding wp_bind [of sys_malloc]
    proof (rule wp_malloc_calm [OF that(1)], goal_cases)
      case (1 ok w2)
      then show ?case using that get [of w2] by (cases ok) (simp_all add: wps)
    qed
    have "wp (do { ok \<leftarrow> (if md = None then sys_malloc else State_Monad.return True);
         r \<leftarrow> (if \<not> ok then State_Monad.return (RC_SYSFAIL, Some None)
              else do { ok \<leftarrow> sys_malloc;
                if \<not> ok then State_Monad.return (RC_SYSFAIL, Some None) else ?read });
         flux_do (fx_future_destroy F (Some f)); State_Monad.return r }) ?post w'"
      if "calm w0 w'" "flux w' = s" "cell w' = cell w" for w'
    proof (cases "md = None")
      case True
      show ?thesis
        unfolding if_P [OF True] wp_bind [of sys_malloc]
      proof (rule wp_malloc_calm [OF that(1)], goal_cases)
        case (1 ok w2)
        then show ?case using that alloc [of w2] by (cases ok) (simp_all add: wps)
      qed
    next
      case False
      show ?thesis unfolding if_not_P [OF False] using alloc [OF that] by (simp add: wps)
    qed
    from this [of "w\<lparr>flux := s\<rparr>"] show ?thesis
      using Inr q assms(2,3) by (simp add: dyad_kvs_read_def wps wp_flux_call)
  qed
qed

text \<open>
  Success without a record means that the data is on this node, with one that it is elsewhere.
\<close>

lemma wp_fetch_metadata:
  fixes w :: "('e, 'x) dworld"
  assumes "client_laws F answers owner" "calm w0 w" "cell w = Some c"
    and "gen_path_key upath PATH_MAX (key_depth c) (key_bins c) = Some (k, topic)" "service_mux c \<noteq> 0"
  shows "wp (dyad_fetch_metadata F fname upath) (\<lambda>r w'. calm w0 w' \<and> cell w' = cell w \<and> (\<exists>rc m. r = Some (rc, m)
     \<and> (rc = RC_OK \<longrightarrow> (\<exists>md. found owner (kvs_namespace c) topic upath md
          \<and> m = (if owner_rank md div service_mux c = node_idx c then None else Some md))))) w"
proof -
  have "wp (dyad_kvs_read F topic upath True (Some None)) (\<lambda>(rc, r) w'. (calm w0 w' \<and> cell w' = cell w
     \<and> (rc = RC_OK \<longrightarrow> (\<exists>m. r = Some (Some m) \<and> found owner (kvs_namespace c) topic upath m)))) w"
    by (rule wp_kvs_read [OF assms(1-3)])
  then show ?thesis
    using assms(3-5)
    by (auto simp: dyad_fetch_metadata_def wps elim!: wp_mono split: option.split)
qed

end
