(* ===== verification/Client_Store.thy ===== *)
theory Client_Store
  imports Client_Fetch
begin

text \<open>
  Storing fetched data: what the writes leave in the local copy, also when they are cut short or fail.
\<close>

section \<open>Files that stay while directories are made\<close>

definition write_at :: "'x world_scheme \<Rightarrow> int \<Rightarrow> nat \<Rightarrow> bool" where
  "write_at w fd off \<longleftrightarrow> (\<exists>f. fds w (nat fd) = Some f \<and> o_off f = off \<and> \<not> o_app f)"

definition steady :: "'x world_scheme \<Rightarrow> 'x world_scheme \<Rightarrow> bool" where
  "steady w w' \<longleftrightarrow> good w' \<and> fdata w' = fdata w \<and> fds w' = fds w \<and> (\<forall>p n. names w p = Some n \<longrightarrow> names w' p = Some n)"

lemma steadyD:
  assumes "steady w w'"
  shows "good w'" "fdata w' = fdata w" "fd_at w fd p rd wr \<Longrightarrow> fd_at w' fd p rd wr"
    "write_at w' fd off = write_at w fd off" "fds w' = fds w"
  using assms by (auto simp: steady_def fd_at_def write_at_def)

lemma steady_refl: "good w \<Longrightarrow> steady w w"
  by (simp add: steady_def)

lemma steady_parts [simp]: "steady w (w'\<lparr>faults := xs\<rparr>) = steady w w'" "steady w (w'\<lparr>errno := e\<rparr>) = steady w w'"
  "steady w (w'\<lparr>file_mask := m\<rparr>) = steady w w'"
proof -
  have "fdata (w'\<lparr>errno := e\<rparr>) = fdata w'" "fdata (w'\<lparr>file_mask := m\<rparr>) = fdata w'" by (rule same_files; simp)+
  then show "steady w (w'\<lparr>faults := xs\<rparr>) = steady w w'" "steady w (w'\<lparr>errno := e\<rparr>) = steady w w'"
    "steady w (w'\<lparr>file_mask := m\<rparr>) = steady w w'"
    by (simp_all add: steady_def good_def wf_world_def)
qed

lemma steady_new_dir:
  assumes "steady w0 w" "names w p = None" "i_dir i"
  shows "steady w0 (new_file p i w)"
proof -
  have g: "good w" using assms(1) by (simp add: steady_def)
  have fresh: "inodes w (next_ino w) = None" using g by (auto simp: good_def wf_world_next_ino)
  have nn: "names w q \<noteq> Some (next_ino w)" for q
    using fresh wf_names_inode [OF good_wf [OF g]] by force
  have "fdata (new_file p i w) q = fdata w q" for q
    using nn assms(2,3) by (auto simp: fdata_def inode_of_path_def new_file_def split: option.split)
  moreover have "wf_world (new_file p i w)" using g by (auto simp: good_def intro: wf_world_new_file)
  ultimately show ?thesis
    using assms(1,2) g nn by (auto simp: steady_def good_def new_file_def fun_eq_iff)
qed

lemma keep_steady [keep]: "keeps (steady w0) (sys_stat p)" "keeps (steady w0) (sys_umask m)"
  "keeps (steady w0) (sys_mkdir p m)" "keeps (steady w0) (set_errno e)"
proof -
  show "keeps (steady w0) (sys_stat p)"
    unfolding sys_stat_def by (rule keeps_syscall) (auto split: fault.split option.split)
  show "keeps (steady w0) (sys_umask m)" "keeps (steady w0) (set_errno e)"
    by (simp_all add: keeps_def sys_umask_def wps)
  show "keeps (steady w0) (sys_mkdir p m)"
    unfolding sys_mkdir_def fail_def
    by (rule keeps_syscall) (auto split: fault.split intro: steady_new_dir)
qed

lemma keep_steady_mkdirs [keep]: "keeps (steady w0) (mkpath fuel dir m)"
  "keeps (steady w0) (mkdir_as_needed fuel path m)"
proof -
  show *: "keeps (steady w0) (mkpath fuel dir m)" for fuel dir and w0 :: "'a world_scheme"
    by (induction fuel dir m rule: mkpath.induct) (auto intro!: keep)
  show "keeps (steady w0) (mkdir_as_needed fuel path m)"
    unfolding mkdir_as_needed_def DYAD_SYNC_DIR_def by (intro keep *) simp_all
qed

section \<open>Writing\<close>

lemma write_at_parts [simp]: "write_at (set_off fd k w) fd off \<longleftrightarrow> (\<exists>f. fds w (nat fd) = Some f \<and> k = off \<and> \<not> o_app f)"
  "write_at (set_data n d w) = write_at w" "write_at (w\<lparr>faults := xs\<rparr>) = write_at w"
  by (auto simp: write_at_def set_off_def set_data_def fun_eq_iff split: option.split)

lemma faults_files [simp]: "faults (set_off fd k w) = faults w" "faults (set_data n d w) = faults w"
  by (simp_all add: set_off_def set_data_def split: option.split)

lemma wp_write_view:
  assumes g: "good w" and a: "fd_at w fd p rd True" and d: "fdata w p = Some d" and o: "write_at w fd off"
    and fail: "\<And>w'. view w w' (fdata w) \<Longrightarrow> write_at w' fd off \<Longrightarrow> faults w' = tl (faults w) \<Longrightarrow>
       \<exists>e xs. faults w = Err e # xs \<Longrightarrow> Q (- 1) w'"
    and ok: "\<And>k w'. view w w' ((fdata w)(p \<mapsto> overlay d off (take k buf))) \<Longrightarrow> write_at w' fd (off + k) \<Longrightarrow>
       k \<le> length buf \<Longrightarrow> faults w' = tl (faults w) \<Longrightarrow> \<forall>e xs. faults w \<noteq> Err e # xs \<Longrightarrow>
       k = length buf \<or> (\<exists>m xs. faults w = Short m # xs) \<Longrightarrow> Q (int k) w'"
  shows "wp (sys_write fd buf) Q w"
proof -
  from fd_at_inode [OF g a d] obtain f i where f: "inode_of_fd w fd = Some (f, i)"
    "names w p = Some (o_ino f)" "\<not> i_dir i" "i_data i = d" "o_wr f" by auto
  with o have off: "o_off f = off" "\<not> o_app f" "fds w (nat fd) = Some f"
    by (auto simp: write_at_def inode_of_fd_Some)
  have tk: "take m buf = take (min m (length buf)) buf" for m by (simp add: min_def)
  have go: "Q (int (min m (length buf)))
      (set_off fd (off + min m (length buf)) (set_data (o_ino f) (overlay d off (take m buf)) w'))"
    if w': "faults w = [] \<and> w' = w \<or> (\<exists>x xs. faults w = x # xs \<and> w' = w\<lparr>faults := xs\<rparr> \<and> (\<forall>e. x \<noteq> Err e))"
      and m: "length buf \<le> m \<or> (\<exists>m xs. faults w = Short m # xs)" for m w'
  proof -
    have v: "view w w' (fdata w)" using w' view_refl [OF g] view_start [OF g] by auto
    have at: "fds w' (nat fd) = Some f" using w' off by auto
    show ?thesis
      by (rule ok [where k = "min m (length buf)", folded tk])
        (use view_set_off [OF view_write [OF g v f(2) d]] at off m w' in
          \<open>auto simp: set_data_def [where w = w'] min_def split: option.split\<close>)
  qed
  show ?thesis
    unfolding sys_write_def
  proof (rule wp_syscall_cases, goal_cases)
    case 1
    then show ?case using f off go [of w "length buf"] by (simp add: Let_def limit_def)
  next
    case (2 x xs)
    have k: "Q (int (min m (length buf))) (set_off fd (off + min m (length buf))
        (set_data (o_ino f) (overlay d off (take m buf)) (w\<lparr>faults := xs\<rparr>)))"
      if "length buf \<le> m \<or> (\<exists>m. x = Short m)" "\<forall>e. x \<noteq> Err e" for m
      using go [of "w\<lparr>faults := xs\<rparr>" m] 2 that by auto
    have "Q (- 1) (w\<lparr>faults := xs, errno := e\<rparr>)" if "x = Err e" for e
      by (rule fail [OF view_fail [OF g 2]]) (use o 2 that in \<open>auto simp: write_at_def\<close>)
    then show ?case
      using f off k [of "length buf"] k [of "min m (length buf)" for m]
      by (cases x) (simp_all add: Let_def limit_def fail_def min.commute)
  qed
qed

text \<open>The contents are \<open>G\<close>; and only the file at \<open>p\<close> may have changed.\<close>

definition fixed :: "(string \<Rightarrow> bytes option) \<Rightarrow> 'x world_scheme \<Rightarrow> bool" where
  "fixed G w \<longleftrightarrow> good w \<and> fdata w = G"

definition touched :: "'x world_scheme \<Rightarrow> string \<Rightarrow> 'x world_scheme \<Rightarrow> bool" where
  "touched w p w' \<longleftrightarrow> (\<exists>d. fixed ((fdata w)(p \<mapsto> d)) w')"

lemma touched_view: "view w w' ((fdata w)(p \<mapsto> d)) \<Longrightarrow> touched w p w'"
  using viewD(1,2) by (fastforce simp: touched_def fixed_def)

lemma touched_same: "good w' \<Longrightarrow> fdata w' = fdata w \<Longrightarrow> fdata w p = Some d \<Longrightarrow> touched w p w'"
  unfolding touched_def fixed_def by (metis fun_upd_triv)

lemma touched_trans: "touched w p w' \<Longrightarrow> touched w' p w'' \<Longrightarrow> touched w p w''"
  unfolding touched_def fixed_def by auto

lemma wp_store_loop_touches:
  assumes "good w" "fd_at w fd p rd True" "fdata w p = Some d" "write_at w fd off"
  shows "wp (store_loop fuel fd data n) (\<lambda>_. touched w p) w"
  using assms
proof (induction fuel arbitrary: w d n off)
  case 0
  then show ?case by (simp add: touched_same)
next
  case (Suc fuel)
  have here: "touched w p w" using Suc.prems by (simp add: touched_same)
  have cont: "wp (if m = 0 then State_Monad.return (Some None) else store_loop fuel fd data (n + m))
      (\<lambda>_. touched w p) w'"
    if v: "view w w' ((fdata w)(p \<mapsto> d'))" and o: "write_at w' fd off'" for w' m d' off'
  proof -
    have t: "touched w p w'" by (rule touched_view [OF v])
    have "wp (store_loop fuel fd data (n + m)) (\<lambda>_. touched w' p) w'"
      by (rule Suc.IH [OF viewD(1) [OF v] viewD(6) [OF v Suc.prems(2)] _ o]) (simp add: viewD(2) [OF v])
    then show ?thesis using t touched_trans [OF t] by (auto elim: wp_mono)
  qed
  have same: "(fdata w)(p \<mapsto> d) = fdata w" using Suc.prems(3) by (metis fun_upd_triv)
  have "wp (sys_write fd buf) (\<lambda>m. wp (if m = 0 then State_Monad.return (Some None)
      else store_loop fuel fd data (n + m)) (\<lambda>_. touched w p)) w" for buf
  proof (rule wp_write_view [OF Suc.prems], goal_cases)
    case (1 w')
    with cont [of w' d off "- 1"] same show ?case by simp
  next
    case (2 k w')
    from cont [OF 2(1,2)] show ?case .
  qed
  then show ?case using here by (simp add: Let_def wp_bind)
qed

text \<open>Of data that goes in one write the file gets a beginning, and all of it when the result is good.\<close>

definition stored :: "'x world_scheme \<Rightarrow> string \<Rightarrow> bytes \<Rightarrow> dyad_rc \<Rightarrow> 'x world_scheme \<Rightarrow> bool" where
  "stored w p data rc w' \<longleftrightarrow> (\<exists>d. fixed ((fdata w)(p \<mapsto> d)) w' \<and> (length data < TRANSFER_GRANULARITY \<longrightarrow>
     (\<exists>k. d = overlay (the (fdata w p)) 0 (take k data) \<and> (rc = RC_OK \<longrightarrow> length data \<le> k))))"

lemma overlay_nothing [simp]: "overlay old 0 [] = old"
  by (simp add: overlay_def)

lemma stored_nothing: "fixed ((fdata w)(p \<mapsto> d)) w' \<Longrightarrow> fdata w p = Some d \<Longrightarrow> rc \<noteq> RC_OK \<Longrightarrow> stored w p data rc w'"
  unfolding stored_def by (intro exI [of _ d] conjI impI exI [of _ 0]) simp_all

lemma stored_large: "\<not> length data < TRANSFER_GRANULARITY \<Longrightarrow> stored w p data rc w' = touched w p w'"
  by (simp add: stored_def touched_def)

lemma wp_store_data:
  assumes "good w" "fd_at w fd p rd True" "fdata w p = Some d" "write_at w fd 0"
  shows "wp (store_data fuel fd data) (\<lambda>r w'. \<forall>rc. r = Some rc \<longrightarrow> stored w p data rc w') w"
proof (cases "length data < TRANSFER_GRANULARITY")
  case True
  have "wp (sys_write fd data) (\<lambda>n w'. stored w p data (if n \<noteq> int (length data) then RC_BADFIO else RC_OK) w') w"
  proof (rule wp_write_view [OF assms], goal_cases)
    case (1 w')
    have "(fdata w)(p \<mapsto> d) = fdata w" using assms(3) by (metis fun_upd_triv)
    with viewD(1,2) [OF 1(1)] have "fixed ((fdata w)(p \<mapsto> d)) w'" by (simp add: fixed_def)
    with assms(3) show ?case
      using stored_nothing [of w p d w' RC_BADFIO data] by (cases data) (simp_all add: stored_nothing)
  next
    case (2 k w')
    with viewD(1,2) [OF 2(1)] have "fixed ((fdata w)(p \<mapsto> overlay d 0 (take k data))) w'" by (simp add: fixed_def)
    then show ?case unfolding stored_def
      by (intro exI [of _ "overlay d 0 (take k data)"] conjI impI exI [of _ k]) (use assms(3) 2(3) in \<open>auto split: if_splits\<close>)
  qed
  with True show ?thesis by (simp add: store_data_def wps)
next
  case False
  then show ?thesis
    by (auto simp: store_data_def wps stored_large intro: wp_mono [OF wp_store_loop_touches [OF assms]])
qed

text \<open>With the directory made first.\<close>

lemma keeps_cell: "posix_only m \<Longrightarrow> keeps (\<lambda>w. cell w = c) m"
  unfolding keeps_def by (rule allI, rule impI, rule wp_mono [OF posix_onlyD]) (auto dest: more_eq_parts(1))

lemma posix_store [posix]: "posix_only (store_data fuel fd data)"
proof -
  have "posix_only (store_loop fuel fd data n)" for fuel n
  proof (induction fuel arbitrary: n)
    case (Suc fuel)
    then show ?case unfolding store_loop.simps by (intro posix)
  qed (simp add: posix)
  then show ?thesis unfolding store_data_def by (auto intro!: posix split: option.split)
qed

lemma wp_report_check: "wp (report_check rc) (\<lambda>_ w'. fdata w' = fdata w \<and> good w' = good w \<and> cell w' = cell w
   \<and> settings w' = settings w) w"
  for w :: "('e, 'x) dworld"
  by (auto simp: report_check_def wps settings_def good_def fdata_def inode_of_path_def fun_eq_iff split: option.split)

lemma wp_cons_store:
  fixes w :: "('e, 'x) dworld"
  assumes "good w" "fd_at w fd p rd True" "fdata w p = Some d" "write_at w fd 0"
  shows "wp (dyad_cons_store fuel md fd data) (\<lambda>r w'. cell w' = cell w \<and> (\<forall>rc. r = Some rc \<longrightarrow> stored w p data rc w')) w"
proof -
  define odir where "odir = dirname (cons_file_path (the (cell w)) (fpath md))"
  let ?make = "if \<not> strncmp_eq odir ''.'' 1 then mkdir_as_needed fuel (Some odir) DIR_MODE else State_Monad.return (Some 0)"
  have fin: "wp (report_check rc) (\<lambda>_ w'. cell w' = cell w \<and> stored w p data rc w') w2"
    if "stored w p data rc w2" "cell w2 = cell w" for rc and w2 :: "('e, 'x) dworld"
    by (rule wp_mono [OF wp_report_check]) (use that in \<open>auto simp: stored_def fixed_def\<close>)
  have store: "wp (if r < 0 then State_Monad.return (Some RC_BADFIO) else store_data fuel fd data)
     (\<lambda>rc w'. cell w' = cell w \<and> (\<forall>rc'. rc = Some rc' \<longrightarrow> stored w p data rc' w')) w1"
    if s: "steady w w1" and c: "cell w1 = cell w" for r and w1 :: "('e, 'x) dworld"
  proof -
    note d = steadyD [OF s]
    have st: "stored w1 p data rc w' = stored w p data rc w'" for rc and w' :: "('e, 'x) dworld"
      by (simp add: stored_def d)
    have "stored w p data RC_BADFIO w1"
      using d(1,2) assms(3) by (intro stored_nothing [of w p "the (fdata w p)"]) (auto simp: fixed_def)
    moreover have "wp (store_data fuel fd data) (\<lambda>rc w'. (\<forall>rc'. rc = Some rc' \<longrightarrow> stored w1 p data rc' w')
        \<and> cell w' = cell w) w1"
      by (rule wp_conj [OF wp_store_data [OF d(1) d(3) [OF assms(2)]] keepsD [OF keeps_cell [OF posix_store] c]])
        (use assms d in auto)
    ultimately show ?thesis using c by (auto simp: st elim: wp_mono)
  qed
  have pm: "posix_only ?make" and km: "keeps (steady w) ?make" by (auto intro!: posix keep)
  have "wp ?make (\<lambda>r w'. steady w w' \<and> cell w' = cell w) w"
    by (rule wp_conj [OF keepsD [OF km steady_refl [OF assms(1)]] keepsD [OF keeps_cell [OF pm] refl]])
  then show ?thesis
    unfolding dyad_cons_store_def wp_bind wp_cell(2) Let_def odir_def [symmetric]
  proof (rule wp_mono, clarify, goal_cases)
    case (1 r w1)
    show ?case
    proof (cases r)
      case (Some k)
      have rest: "wp (case a of None \<Rightarrow> State_Monad.return None
           | Some rc \<Rightarrow> do { report_check rc; State_Monad.return (Some rc) })
         (\<lambda>r w'. cell w' = cell w \<and> (\<forall>rc. r = Some rc \<longrightarrow> stored w p data rc w')) w2"
        if "cell w2 = cell w \<and> (\<forall>rc'. a = Some rc' \<longrightarrow> stored w p data rc' w2)" for a and w2 :: "('e, 'x) dworld"
        using that by (cases a) (auto simp: wps intro: wp_mono [OF fin])
      show ?thesis unfolding Some option.case wp_bind
        by (rule wp_mono [OF store [OF 1(2,3)]], rule rest)
    qed (use 1 in simp)
  qed
qed

section \<open>The defects of the loop for large data\<close>

text \<open>
  A write that fails in the middle takes back one byte of the count, and the rest is written one
  byte too far, which makes up for it in the final count.
\<close>

lemma store_loop_corrupts:
  assumes "good w" "fd_at w fd p rd True" "fdata w p = Some []" "write_at w fd 0"
    and "faults w = [Good, Err e]" and n: "TRANSFER_GRANULARITY < length data" "length data < 2 * TRANSFER_GRANULARITY"
  shows "wp (store_loop (Suc (Suc (Suc (Suc fuel)))) fd data 0) (\<lambda>r w'. r = Some (Some (int (length data)))
     \<and> fdata w' p = Some (take TRANSFER_GRANULARITY data @ drop (TRANSFER_GRANULARITY - 1) data)) w"
proof -
  let ?G = TRANSFER_GRANULARITY
  have g: "1 < ?G" by (simp add: TRANSFER_GRANULARITY_def)
  have pieces: "overlay (overlay [] 0 (take ?G data)) ?G (drop (?G - 1) data) = take ?G data @ drop (?G - 1) data"
    using n g by (auto simp: overlay_def)
  have last: "wp (store_loop (Suc (Suc fuel)) fd data (int ?G - 1)) (\<lambda>r w'. r = Some (Some (int (length data)))
     \<and> fdata w' p = Some (take ?G data @ drop (?G - 1) data)) w2"
    if "good w2" "fd_at w2 fd p rd True" "fdata w2 p = Some (overlay [] 0 (take ?G data))" "write_at w2 fd ?G"
      "faults w2 = []" for w2 :: "'a world_scheme"
  proof -
    have len: "length data - nat (int ?G - 1) = length data - ?G + 1" "nat (int ?G - 1) = ?G - 1" using n g by auto
    have "wp (sys_write fd (drop (?G - 1) data)) (\<lambda>m w'. m = int (length data - ?G + 1)
        \<and> fdata w' p = Some (take ?G data @ drop (?G - 1) data)) w2"
      by (rule wp_write_view [OF that(1-4)]) (use that(5) n g pieces in \<open>auto dest: viewD(2)\<close>)
    then show ?thesis
      using n g by (auto simp: Let_def wps len elim!: wp_mono)
  qed
  have mid: "wp (store_loop (Suc (Suc (Suc fuel))) fd data (int ?G)) (\<lambda>r w'. r = Some (Some (int (length data)))
     \<and> fdata w' p = Some (take ?G data @ drop (?G - 1) data)) w1"
    if "good w1" "fd_at w1 fd p rd True" "fdata w1 p = Some (overlay [] 0 (take ?G data))" "write_at w1 fd ?G"
      "faults w1 = [Err e]" for w1 :: "'a world_scheme"
  proof -
    have err: "wp (sys_write fd buf) (\<lambda>m w'. m = - 1 \<and> good w' \<and> fd_at w' fd p rd True
        \<and> fdata w' p = Some (overlay [] 0 (take ?G data)) \<and> write_at w' fd ?G \<and> faults w' = []) w1" for buf
      by (rule wp_write_view [OF that(1-4)]) (use that in \<open>auto dest: viewD(1,2,6)\<close>)
    show ?thesis
      unfolding store_loop.simps(2) [of "Suc (Suc fuel)"]
      using n g last by (auto simp: Let_def wps simp del: store_loop.simps intro!: wp_mono [OF err])
  qed
  have "wp (sys_write fd (take ?G data)) (\<lambda>m w'. m = int ?G \<and> good w' \<and> fd_at w' fd p rd True
      \<and> fdata w' p = Some (overlay [] 0 (take ?G data)) \<and> write_at w' fd ?G \<and> faults w' = [Err e]) w"
    by (rule wp_write_view [OF assms(1-4)]) (use assms(2,3,5) n in \<open>auto dest: viewD(1,2,6)\<close>)
  then show ?thesis
    unfolding store_loop.simps(2) [of "Suc (Suc (Suc fuel))"]
    using n g mid by (auto simp: Let_def wps simp del: store_loop.simps elim!: wp_mono)
qed

text \<open>
  C22: a large file can be stored wrong and reported as good. When data of more than a GiB is written
  and the second write fails, the error is added to the count as minus one, so the loop goes on one
  byte early in the data but not in the file: the byte before the failure is there twice, the file
  is one byte too long, and the result is success.
\<close>

theorem store_data_corrupts:
  assumes "good w" "fd_at w fd p rd True" "fdata w p = Some []" "write_at w fd 0" "faults w = [Good, Err e]"
    and "TRANSFER_GRANULARITY < length data" "length data < 2 * TRANSFER_GRANULARITY" and "4 \<le> fuel"
  shows "wp (store_data fuel fd data) (\<lambda>r w'. r = Some RC_OK
     \<and> fdata w' p = Some (take TRANSFER_GRANULARITY data @ drop (TRANSFER_GRANULARITY - 1) data)) w"
proof -
  obtain k where k: "fuel = Suc (Suc (Suc (Suc k)))"
  proof (rule that)
    show "fuel = Suc (Suc (Suc (Suc (fuel - 4))))" using assms(8) by simp
  qed
  show ?thesis
    using assms(6)
    by (simp add: store_data_def wp_bind k del: store_loop.simps)
      (rule wp_mono [OF store_loop_corrupts [OF assms(1-7)]], simp)
qed

definition open_world :: "(nat, unit) dworld" where
  "open_world = (file_world (Some []) sample_ctx 0)\<lparr>fds := [3 \<mapsto> \<lparr>o_ino = 3, o_rd = False, o_wr = True,
     o_app = False, o_off = 0, o_path = ''/a/f''\<rparr>], next_fd := 4, faults := [Good, Err EIO]\<rparr>"

lemma open_world_file: "good open_world" "fd_at open_world 3 ''/a/f'' False True" "fdata open_world ''/a/f'' = Some []"
  "write_at open_world 3 0" "faults open_world = [Good, Err EIO]"
  by (auto simp: open_world_def file_world_def good_def wf_world_def fd_at_def fdata_def inode_of_path_def write_at_def
      file_inode_def split: option.split if_splits)

theorem store_data_corrupts_witness:
  "wp (store_data 4 3 (replicate (TRANSFER_GRANULARITY + 1) 7)) (\<lambda>r w'. r = Some RC_OK
     \<and> fdata w' ''/a/f'' = Some (replicate (TRANSFER_GRANULARITY + 2) 7)) open_world"
proof -
  let ?d = "replicate (TRANSFER_GRANULARITY + 1) (7 :: 8 word)"
  have "take TRANSFER_GRANULARITY ?d @ drop (TRANSFER_GRANULARITY - 1) ?d = replicate (TRANSFER_GRANULARITY + 2) 7"
    by (simp add: replicate_add [symmetric] TRANSFER_GRANULARITY_def)
  with store_data_corrupts [OF open_world_file, of ?d 4] show ?thesis
    by (simp add: TRANSFER_GRANULARITY_def)
qed

end
