(* ===== verification/Client_Produce.thy ===== *)
theory Client_Produce
  imports Client_Fetch
begin

text \<open>
  Publishing: \<^verbatim>\<open>dyad_produce\<close> submits the rank of the producer under the key of the path, in the
  namespace where a consumer looks it up, in synchronous mode waits for the answer of the key-value store, and leaves the
  files alone.
\<close>

text \<open>
  \<open>committed s ns topic r\<close>: in the state \<open>s\<close> of Flux the value \<open>r\<close> has been handed to the key-value
  store under the key. A commit takes what was packed last into its transaction, and the calls
  that follow it keep it.
\<close>

definition commit_laws :: "'e flux_ops \<Rightarrow> ('e \<Rightarrow> string option \<Rightarrow> string \<Rightarrow> int \<Rightarrow> bool) \<Rightarrow> bool" where
  "commit_laws F committed \<longleftrightarrow>
     (\<forall>txn topic r s s1 h ns f s2. fx_txn_pack F txn topic r s = (Inr (), s1) \<longrightarrow>
        fx_kvs_commit F h ns txn s1 = (Inr f, s2) \<longrightarrow> committed s2 ns topic r)
   \<and> (\<forall>f s ns topic r. committed s ns topic r \<longrightarrow> committed (snd (fx_future_then F f s)) ns topic r
        \<and> committed (snd (fx_future_wait_for F f s)) ns topic r)
   \<and> (\<forall>f txn s ns topic r. committed s ns topic r \<longrightarrow> committed (fx_future_destroy F f s) ns topic r
        \<and> committed (fx_txn_destroy F txn s) ns topic r)"

lemma commit_lawsD:
  assumes "commit_laws F committed"
  shows "fx_txn_pack F txn topic r s = (Inr (), s1) \<Longrightarrow> fx_kvs_commit F h ns txn s1 = (Inr f, s2) \<Longrightarrow> committed s2 ns topic r"
    "committed s ns topic r \<Longrightarrow> fx_future_then F f s = (x, s1) \<Longrightarrow> committed s1 ns topic r"
    "committed s ns topic r \<Longrightarrow> fx_future_wait_for F f s = (x, s1) \<Longrightarrow> committed s1 ns topic r"
    "committed s ns topic r \<Longrightarrow> committed (fx_future_destroy F fo s) ns topic r"
    "committed s ns topic r \<Longrightarrow> committed (fx_txn_destroy F txn s) ns topic r"
proof -
  show "fx_txn_pack F txn topic r s = (Inr (), s1) \<Longrightarrow> fx_kvs_commit F h ns txn s1 = (Inr f, s2) \<Longrightarrow> committed s2 ns topic r"
    using assms unfolding commit_laws_def by blast
  show "committed s ns topic r \<Longrightarrow> fx_future_then F f s = (x, s1) \<Longrightarrow> committed s1 ns topic r"
    "committed s ns topic r \<Longrightarrow> fx_future_wait_for F f s = (x, s1) \<Longrightarrow> committed s1 ns topic r"
    using assms unfolding commit_laws_def by (metis snd_conv)+
  show "committed s ns topic r \<Longrightarrow> committed (fx_future_destroy F fo s) ns topic r"
    "committed s ns topic r \<Longrightarrow> committed (fx_txn_destroy F txn s) ns topic r"
    using assms unfolding commit_laws_def by blast+
qed

text \<open>The files and the settings stay.\<close>

definition files_kept :: "('e, 'x) dworld \<Rightarrow> ('e, 'x) dworld \<Rightarrow> bool" where
  "files_kept w w' \<longleftrightarrow> good w' = good w \<and> fdata w' = fdata w \<and> settings w' = settings w"

lemma files_kept_parts [simp]:
  fixes w w' :: "('e, 'x) dworld"
  shows "files_kept w (w'\<lparr>flux := s\<rparr>) = files_kept w w'" "files_kept w (w'\<lparr>errno := e\<rparr>) = files_kept w w'"
    "files_kept w (w'\<lparr>cell := map_option (\<lambda>c. c\<lparr>reenter := b\<rparr>) (cell w')\<rparr>) = files_kept w w'"
  by (simp_all add: files_kept_def)

text \<open>
  \<open>submits F c topic P s0\<close>: \<open>P\<close> describes the return code and the state of Flux after the calls that a publication
  makes from \<open>s0\<close>: a transaction with one entry is made, packed and committed, and the future of the commit
  is left to a callback or waited for.
\<close>

definition submits :: "'e flux_ops \<Rightarrow> dyad_ctx \<Rightarrow> string \<Rightarrow> (dyad_rc \<Rightarrow> 'e \<Rightarrow> bool) \<Rightarrow> 'e \<Rightarrow> bool" where
  "submits F c topic P s0 \<longleftrightarrow>
     (\<forall>e s. fx_txn_create F s0 = (Inl e, s) \<longrightarrow> P RC_FLUXFAIL s)
   \<and> (\<forall>txn s. fx_txn_create F s0 = (Inr txn, s) \<longrightarrow>
        (\<forall>e s1. fx_txn_pack F txn topic (sint (ctx_rank c)) s = (Inl e, s1) \<longrightarrow> P RC_FLUXFAIL (fx_txn_destroy F txn s1))
      \<and> (\<forall>s1. fx_txn_pack F txn topic (sint (ctx_rank c)) s = (Inr (), s1) \<longrightarrow>
          (\<forall>e s2. fx_kvs_commit F (ctx_h c) (kvs_namespace c) txn s1 = (Inl e, s2) \<longrightarrow> P RC_BADCOMMIT (fx_txn_destroy F txn s2))
        \<and> (\<forall>f s2. fx_kvs_commit F (ctx_h c) (kvs_namespace c) txn s1 = (Inr f, s2) \<longrightarrow>
             P RC_OK (fx_txn_destroy F txn (if async_publish c then snd (fx_future_then F f s2)
               else fx_future_destroy F (Some f) (snd (fx_future_wait_for F f s2)))))))"

lemma wp_publish:
  fixes w :: "('e, 'x) dworld"
  assumes sub: "submits F c topic P (flux w)" and c: "cell w = Some c" and k: "files_kept v w"
    and key: "gen_path_key upath PATH_MAX (key_depth c) (key_bins c) = Some (n, topic)"
  shows "wp (publish_via_flux F upath) (\<lambda>r w'. files_kept v w' \<and> cell w' = cell w \<and> (\<exists>rc. r = Some rc \<and> P rc (flux w'))) w"
proof -
  obtain q s where q: "fx_txn_create F (flux w) = (q, s)" by fastforce
  show ?thesis
  proof (cases q)
    case (Inl e)
    with q c k key sub show ?thesis by (simp add: publish_via_flux_def wps wp_flux_call submits_def)
  next
    case txn: (Inr txn)
    obtain x s1 where p: "fx_txn_pack F txn topic (sint (ctx_rank c)) s = (x, s1)" by fastforce
    show ?thesis
    proof (cases x)
      case (Inl e)
      with q txn p c k key sub show ?thesis by (simp add: publish_via_flux_def wps wp_flux_call flux_failed_def submits_def)
    next
      case (Inr u)
      obtain y s2 where m: "fx_kvs_commit F (ctx_h c) (kvs_namespace c) txn s1 = (y, s2)" by fastforce
      show ?thesis
      proof (cases y)
        case (Inl e)
        with q txn p Inr m c k key sub show ?thesis
          by (simp add: publish_via_flux_def dyad_kvs_commit_def wps wp_flux_call flux_failed_def submits_def)
      next
        case f: (Inr f)
        obtain x1 s3 where t: "fx_future_then F f s2 = (x1, s3)" by fastforce
        obtain x2 s4 where u: "fx_future_wait_for F f s2 = (x2, s4)" by fastforce
        from q txn p Inr m f t u c k key sub show ?thesis
          by (cases "async_publish c"; cases x1; cases x2)
            (simp_all add: publish_via_flux_def dyad_kvs_commit_def wps wp_flux_call flux_failed_def submits_def)
      qed
    qed
  qed
qed

lemma submits_commit:
  assumes "commit_laws F committed"
  shows "submits F c topic (\<lambda>rc s. rc = RC_OK \<longrightarrow> committed s (kvs_namespace c) topic (sint (ctx_rank c))) s0"
  unfolding submits_def
  by (auto intro!: commit_lawsD(5) [OF assms] commit_lawsD(4) [OF assms]
      intro: commit_lawsD(2) [OF assms commit_lawsD(1) [OF assms] prod.collapse [symmetric]]
        commit_lawsD(3) [OF assms commit_lawsD(1) [OF assms] prod.collapse [symmetric]])

text \<open>The path of a file relative to the managed directory; finding it changes nothing.\<close>

definition managed_path :: "('e, 'x) dworld \<Rightarrow> bool \<Rightarrow> string \<Rightarrow> path_match" where
  "managed_path w is_prod fname = fst (run_state (managed_upath is_prod fname) w)"

lemma wp_managed_upath: "wp (managed_upath b fname) Q w \<longleftrightarrow> Q (managed_path w b fname) w"
  by (simp add: managed_path_def managed_upath_def get_realpaths_def the_ctx_def wps wp_def)

section \<open>The whole call\<close>

lemma disabled_evict: "cache_capacity_bytes c = 0 \<Longrightarrow> dyad_cache_maybe_evict (Some c) m = State_Monad.return RC_OK"
  by (simp add: dyad_cache_maybe_evict_def eviction_disabled_def)

definition produced ::
  "(dyad_rc \<Rightarrow> 'e \<Rightarrow> bool) \<Rightarrow> dyad_ctx \<Rightarrow> ('e, 'x) dworld \<Rightarrow> dyad_rc option \<Rightarrow> ('e, 'x) dworld \<Rightarrow> bool" where
  "produced P c w r w' \<longleftrightarrow> (\<exists>rc. r = Some rc \<and> P rc (flux w'))
     \<and> (cache_capacity_bytes c = 0 \<longrightarrow> fdata w' = fdata w)
     \<and> (\<exists>c'. cell w' = Some c' \<and> reenter c' \<and> ctx_rank c' = ctx_rank c)"

lemma env_parts [simp]: "good (w\<lparr>environ := env\<rparr>) = good w" "fdata (w\<lparr>environ := env\<rparr>) = fdata w"
  for w :: "('e, 'x) dworld"
  by (simp_all add: good_def wf_world_def fdata_def inode_of_path_def fun_eq_iff cong: option.case_cong)

lemma submits_parts [simp]:
  "submits F (c\<lparr>reenter := b\<rparr>) = submits F c" "submits F (c\<lparr>ctx_fname := n\<rparr>) = submits F c"
  by (simp_all add: submits_def fun_eq_iff)

lemma wp_commit:
  fixes w :: "('e, 'x) dworld"
  assumes sub: "submits F c topic P (flux w)" and c: "cell w = Some c"
    and key: "gen_path_key upath PATH_MAX (key_depth c) (key_bins c) = Some (n, topic)"
    and path: "managed_path w True fname = Match upath"
  shows "wp (dyad_commit F fname) (\<lambda>r w'. fdata w' = fdata w \<and> cell w' = Some (c\<lparr>reenter := True\<rparr>)
     \<and> (\<exists>rc. r = Some rc \<and> P rc (flux w'))) w"
proof -
  let ?w = "w\<lparr>cell := Some (c\<lparr>reenter := False\<rparr>)\<rparr>"
  have "wp (publish_via_flux F upath) (\<lambda>r w'. files_kept ?w w' \<and> cell w' = cell ?w
     \<and> (\<exists>rc. r = Some rc \<and> P rc (flux w'))) ?w"
    using wp_publish [of F "c\<lparr>reenter := False\<rparr>" topic P ?w ?w upath n] key sub by (simp add: files_kept_def)
  then show ?thesis
    using c path
    by (auto simp: dyad_commit_def wps wp_managed_upath report_check_def files_kept_def elim!: wp_mono split: if_splits)
qed

lemma wp_produce:
  fixes w :: "('e, 'x) dworld"
  assumes sub: "submits F c topic P (flux w)" and c: "cell w = Some c"
    and key: "gen_path_key upath PATH_MAX (key_depth c) (key_bins c) = Some (n, topic)"
    and ready: "ctx_h c \<noteq> None" "prod_managed_path c \<noteq> None" "managed_path w True fname = Match upath"
  shows "wp (dyad_produce F fname) (produced P c w) w"
proof -
  let ?c = "c\<lparr>ctx_fname := Some fname\<rparr>"
  let ?w = "w\<lparr>cell := Some ?c\<rparr>"
  have "managed_path ?w True fname = managed_path w True fname"
    using c by (simp add: managed_path_def managed_upath_def get_realpaths_def the_ctx_def cmp_canonical_path_prefix_def)
  with ready(3) have path: "managed_path ?w True fname = Match upath" by simp
  have "wp (dyad_commit F fname) (\<lambda>r w'. fdata w' = fdata w \<and> cell w' = Some (?c\<lparr>reenter := True\<rparr>)
     \<and> (\<exists>rc. r = Some rc \<and> P rc (flux w'))) ?w"
    using wp_commit [of F ?c topic P ?w upath n fname] sub key path by simp
  then have "wp (dyad_commit F fname) (\<lambda>rc. wp (case rc of
         None \<Rightarrow> State_Monad.return None
       | Some rc \<Rightarrow> do {
           (if \<not> is_error rc
            then do {
              c \<leftarrow> get_cell;
              _ \<leftarrow> dyad_cache_maybe_evict c (prod_managed_path (the c));
              State_Monad.return () }
            else State_Monad.return ());
           State_Monad.return (Some rc) }) (produced P c w)) ?w"
  proof (rule wp_mono, elim exE conjE, goal_cases)
    case (1 r w1 rc)
    have fin: "produced P c w (Some rc) w2"
      if "world.more w2 = world.more w1" "cache_capacity_bytes c = 0 \<longrightarrow> fdata w2 = fdata w1" for w2
      using 1 that more_eq_parts(1,6) [OF that(1)] by (auto simp: produced_def)
    have ev: "wp (dyad_cache_maybe_evict (cell w1) m) (\<lambda>_. produced P c w (Some rc)) w1" for m
    proof (cases "cache_capacity_bytes c = 0")
      case True
      with 1 obtain c' where "cell w1 = Some c'" "cache_capacity_bytes c' = 0" by auto
      with fin [OF refl] show ?thesis by (simp add: disabled_evict)
    next
      case False
      show ?thesis by (rule wp_mono [OF posix_onlyD [OF posix_evict]]) (use fin False in auto)
    qed
    show ?case using ev fin [of w1] 1(1-4) by (cases "rc = RC_OK") (simp_all add: wps)
  qed
  with ready(1,2) c show ?thesis by (auto simp: dyad_produce_def wps simp del: is_error_iff)
qed

section \<open>The commits of this process\<close>

text \<open>
  What Flux has done with the commits of this process, as an append-only log: a commit was
  submitted, the key-value store has acknowledged it, it has refused it, or the wait for its answer has failed. An entry
  is the namespace, the key and the rank.
\<close>

type_synonym kvs_entry = "string option \<times> string \<times> int"

datatype commit_event = Submitted kvs_entry | Acked kvs_entry | Refused kvs_entry c_errno | Unanswered kvs_entry c_errno

text \<open>
  The log is written by two calls. \<^verbatim>\<open>flux_kvs_commit\<close> of a fresh transaction with one entry submits this
  entry when it returns a future. \<^verbatim>\<open>flux_future_wait_for\<close> on this future succeeds when the future is ready, which
  it is with an acknowledgement or with an error of the key-value store, and otherwise fails. \<open>pending s f e\<close>: the future
  \<open>f\<close> is that of the commit of \<open>e\<close>.
\<close>

definition journal_laws ::
  "'e flux_ops \<Rightarrow> ('e \<Rightarrow> commit_event list) \<Rightarrow> ('e \<Rightarrow> flux_future \<Rightarrow> kvs_entry \<Rightarrow> bool) \<Rightarrow> bool" where
  "journal_laws F journal pending \<longleftrightarrow>
     (\<forall>s. journal (snd (fx_txn_create F s)) = journal s)
   \<and> (\<forall>txn topic r s. journal (snd (fx_txn_pack F txn topic r s)) = journal s)
   \<and> (\<forall>s0 txn s topic r s1 h ns. fx_txn_create F s0 = (Inr txn, s) \<longrightarrow> fx_txn_pack F txn topic r s = (Inr (), s1) \<longrightarrow>
        (\<forall>e s2. fx_kvs_commit F h ns txn s1 = (Inl e, s2) \<longrightarrow> journal s2 = journal s1)
      \<and> (\<forall>f s2. fx_kvs_commit F h ns txn s1 = (Inr f, s2) \<longrightarrow>
           journal s2 = journal s1 @ [Submitted (ns, topic, r)] \<and> pending s2 f (ns, topic, r)))
   \<and> (\<forall>f s e x s1. pending s f e \<longrightarrow> fx_future_wait_for F f s = (x, s1) \<longrightarrow>
        (case x of Inl er \<Rightarrow> journal s1 = journal s @ [Unanswered e er]
         | Inr _ \<Rightarrow> journal s1 = journal s @ [Acked e] \<or> (\<exists>er. journal s1 = journal s @ [Refused e er])))
   \<and> (\<forall>f s. journal (snd (fx_future_then F f s)) = journal s)
   \<and> (\<forall>f s. journal (fx_future_destroy F f s) = journal s)
   \<and> (\<forall>txn s. journal (fx_txn_destroy F txn s) = journal s)"

text \<open>What a publication leaves in the log, by its return code.\<close>

definition answers_of :: "kvs_entry \<Rightarrow> commit_event set" where
  "answers_of e = insert (Acked e) (range (Refused e) \<union> range (Unanswered e))"

definition published :: "('e \<Rightarrow> commit_event list) \<Rightarrow> bool \<Rightarrow> kvs_entry \<Rightarrow> 'e \<Rightarrow> dyad_rc \<Rightarrow> 'e \<Rightarrow> bool" where
  "published journal async e s rc s' \<longleftrightarrow>
     (if rc \<noteq> RC_OK then journal s' = journal s
      else if async then journal s' = journal s @ [Submitted e]
      else \<exists>a\<in>answers_of e. journal s' = journal s @ [Submitted e, a])"

lemma journal_lawsD:
  assumes "journal_laws F journal pending"
  shows "fx_txn_create F s0 = (x, s) \<Longrightarrow> journal s = journal s0"
    "fx_txn_pack F txn topic r s = (y, s1) \<Longrightarrow> journal s1 = journal s"
    "fx_txn_create F s0 = (Inr txn, s) \<Longrightarrow> fx_txn_pack F txn topic r s = (Inr (), s1) \<Longrightarrow>
       fx_kvs_commit F h ns txn s1 = (Inl er, s2) \<Longrightarrow> journal s2 = journal s1"
    "fx_txn_create F s0 = (Inr txn, s) \<Longrightarrow> fx_txn_pack F txn topic r s = (Inr (), s1) \<Longrightarrow>
       fx_kvs_commit F h ns txn s1 = (Inr f, s2) \<Longrightarrow>
       journal s2 = journal s1 @ [Submitted (ns, topic, r)] \<and> pending s2 f (ns, topic, r)"
    "pending s f e \<Longrightarrow> \<exists>a\<in>answers_of e. journal (snd (fx_future_wait_for F f s)) = journal s @ [a]"
    "journal (snd (fx_future_then F f s)) = journal s"
    "journal (fx_future_destroy F fo s) = journal s"
    "journal (fx_txn_destroy F txn s) = journal s"
proof -
  note J = assms [unfolded journal_laws_def]
  note create = J [THEN conjunct1] and J1 = J [THEN conjunct2]
  note pack = J1 [THEN conjunct1] and J2 = J1 [THEN conjunct2]
  note com = J2 [THEN conjunct1, rule_format] and J3 = J2 [THEN conjunct2]
  note rest = J3 [THEN conjunct2]
  show "fx_txn_create F s0 = (x, s) \<Longrightarrow> journal s = journal s0" using create by (metis snd_conv)
  show "fx_txn_pack F txn topic r s = (y, s1) \<Longrightarrow> journal s1 = journal s" using pack by (metis snd_conv)
  show "fx_txn_create F s0 = (Inr txn, s) \<Longrightarrow> fx_txn_pack F txn topic r s = (Inr (), s1) \<Longrightarrow>
       fx_kvs_commit F h ns txn s1 = (Inl er, s2) \<Longrightarrow> journal s2 = journal s1"
    by (rule com [THEN conjunct1, rule_format])
  show "fx_txn_create F s0 = (Inr txn, s) \<Longrightarrow> fx_txn_pack F txn topic r s = (Inr (), s1) \<Longrightarrow>
       fx_kvs_commit F h ns txn s1 = (Inr f, s2) \<Longrightarrow>
       journal s2 = journal s1 @ [Submitted (ns, topic, r)] \<and> pending s2 f (ns, topic, r)"
    by (rule com [THEN conjunct2, rule_format])
  show "journal (snd (fx_future_then F f s)) = journal s" "journal (fx_future_destroy F fo s) = journal s"
    "journal (fx_txn_destroy F txn s) = journal s"
    using rest by blast+
  assume p: "pending s f e"
  obtain z s1 where w: "fx_future_wait_for F f s = (z, s1)" by fastforce
  note verdict = J3 [THEN conjunct1, rule_format, OF p w]
  then show "\<exists>a\<in>answers_of e. journal (snd (fx_future_wait_for F f s)) = journal s @ [a]"
    by (cases z) (auto simp: w answers_of_def)
qed

lemma submits_journal:
  assumes laws: "journal_laws F journal pending"
  shows "submits F c topic (published journal (async_publish c) (kvs_namespace c, topic, sint (ctx_rank c)) s0) s0"
proof -
  note J = journal_lawsD [OF laws]
  let ?e = "(kvs_namespace c, topic, sint (ctx_rank c))"
  let ?after = "\<lambda>f s2. if async_publish c then snd (fx_future_then F f s2)
      else fx_future_destroy F (Some f) (snd (fx_future_wait_for F f s2))"
  have ok: "published journal (async_publish c) ?e s0 RC_OK (fx_txn_destroy F txn (?after f s2))"
    if t: "fx_txn_create F s0 = (Inr txn, s)" and p: "fx_txn_pack F txn topic (sint (ctx_rank c)) s = (Inr (), s1)"
      and m: "fx_kvs_commit F (ctx_h c) (kvs_namespace c) txn s1 = (Inr f, s2)" for txn s s1 f s2
  proof -
    from J(4) [OF t p m] J(1) [OF t] J(2) [OF p] have j: "journal s2 = journal s0 @ [Submitted ?e]" and q: "pending s2 f ?e"
      by auto
    from J(5) [OF q] j show ?thesis by (auto simp: published_def J(6-8))
  qed
  have err: "published journal (async_publish c) ?e s0 rc (fx_txn_destroy F txn s)"
    if "rc \<noteq> RC_OK" "journal s = journal s0" for rc txn s
    using that by (simp add: published_def J(8))
  show ?thesis
    unfolding submits_def
  proof (intro conjI allI impI, goal_cases)
    case (1 e s)
    with J(1) show ?case by (simp add: published_def)
  next
    case (2 txn s e s1)
    with J(1,2) show ?case by (intro err) auto
  next
    case (3 txn s s1 e s2)
    with J(1) [OF 3(1)] J(2) [OF 3(2)] J(3) [OF 3] show ?case by (intro err) auto
  next
    case (4 txn s s1 f s2)
    then show ?case by (rule ok)
  qed
qed

text \<open>
  C4: a produced file is published. For a path under the managed directory, \<^verbatim>\<open>dyad_produce\<close> submits to the
  key-value store exactly the rank of the producer under the key of the path in its namespace, and
  nothing when it reports an error. With synchronous publishing it then waits until the store has answered: what it has submitted
  is acknowledged, or refused, or the wait itself has failed. The call looks at neither result, and
  reports success in the latter two cases as well; with asynchronous publishing it reports success as soon as the commit is
  submitted. In any case the context can be used again, and without eviction all files are as they were.
\<close>

theorem dyad_produce_publishes:
  fixes w :: "('e, 'x) dworld"
  assumes "journal_laws F journal pending" and "cell w = Some c"
    and "gen_path_key upath PATH_MAX (key_depth c) (key_bins c) = Some (n, topic)"
    and "ctx_h c \<noteq> None" "prod_managed_path c \<noteq> None" "managed_path w True fname = Match upath"
  shows "wp (dyad_produce F fname)
     (produced (published journal (async_publish c) (kvs_namespace c, topic, sint (ctx_rank c)) (flux w)) c w) w"
  by (rule wp_produce [OF submits_journal [OF assms(1)] assms(2-6)])

type_synonym store = "(string \<times> int) option \<times> (string option \<times> string \<times> int) set"

definition producer_flux :: "store flux_ops" where
  "producer_flux = no_flux\<lparr>fx_txn_create := (\<lambda>s. (Inr 0, s)), fx_txn_pack := (\<lambda>_ topic r s. (Inr (), (Some (topic, r), snd s))),
     fx_kvs_commit := (\<lambda>_ ns _ s. (Inr 0, case fst s of None \<Rightarrow> s | Some (t, r) \<Rightarrow> (None, insert (ns, t, r) (snd s)))),
     fx_future_wait_for := (\<lambda>_ s. (Inr (), s))\<rparr>"

lemma producer_flux_laws: "commit_laws producer_flux (\<lambda>s ns topic r. (ns, topic, r) \<in> snd s)"
  by (auto simp: commit_laws_def producer_flux_def no_flux_def split: option.splits)

definition producer_ctx :: dyad_ctx where
  "producer_ctx = sample_ctx\<lparr>relative_to_managed_path := True, key_depth := 0, key_bins := 1\<rparr>"

text \<open>
  A store that answers every wait with the given verdict on what has been submitted last.
\<close>

type_synonym kvs_log = "(string \<times> int) option \<times> commit_event list"

fun submit :: "string option \<Rightarrow> kvs_log \<Rightarrow> (c_errno + flux_future) \<times> kvs_log" where
  "submit ns (None, j) = (Inl EINVAL, (None, j))"
| "submit ns (Some (t, r), j) = (Inr 0, (None, j @ [Submitted (ns, t, r)]))"

definition answer_last :: "(kvs_entry \<Rightarrow> commit_event) \<Rightarrow> kvs_log \<Rightarrow> kvs_log" where
  "answer_last verdict s = (fst s, case rev (snd s) of Submitted e # _ \<Rightarrow> snd s @ [verdict e] | _ \<Rightarrow> snd s)"

definition log_flux :: "(kvs_entry \<Rightarrow> commit_event) \<Rightarrow> kvs_log flux_ops" where
  "log_flux verdict = no_flux\<lparr>fx_txn_create := (\<lambda>s. (Inr 0, (None, snd s))),
     fx_txn_pack := (\<lambda>_ topic r s. (Inr (), (Some (topic, r), snd s))),
     fx_kvs_commit := (\<lambda>_ ns _ s. submit ns s), fx_future_wait_for := (\<lambda>_ s. (Inr (), answer_last verdict s))\<rparr>"

definition last_submitted :: "kvs_log \<Rightarrow> flux_future \<Rightarrow> kvs_entry \<Rightarrow> bool" where
  "last_submitted s f e \<longleftrightarrow> (\<exists>j. snd s = j @ [Submitted e])"

lemma log_flux_laws:
  assumes "\<And>e. verdict e = Acked e \<or> (\<exists>er. verdict e = Refused e er)"
  shows "journal_laws (log_flux verdict) snd last_submitted"
proof -
  have "verdict e = Acked e" if "\<forall>er. verdict e \<noteq> Refused e er" for e using assms that by blast
  then show ?thesis
    by (auto simp: journal_laws_def log_flux_def no_flux_def last_submitted_def answer_last_def)
qed

lemma producer_ready:
  "gen_path_key ''f'' PATH_MAX (key_depth producer_ctx) (key_bins producer_ctx) = Some (0, ''f'')"
  "managed_path (file_world (Some [1, 2]) producer_ctx (None :: (string \<times> int) option, [] :: commit_event list)) True ''f'' = Match ''f''"
  "ctx_h producer_ctx \<noteq> None" "prod_managed_path producer_ctx \<noteq> None" "cell (file_world x producer_ctx s) = Some producer_ctx"
proof -
  show "gen_path_key ''f'' PATH_MAX (key_depth producer_ctx) (key_bins producer_ctx) = Some (0, ''f'')" by code_simp
  show "managed_path (file_world (Some [1, 2]) producer_ctx (None :: (string \<times> int) option, [] :: commit_event list)) True ''f'' = Match ''f''" by code_simp
qed (simp_all add: file_world_def producer_ctx_def sample_ctx_def dyad_ctx_default_def)

theorem dyad_produce_publishes_witness:
  "wp (dyad_produce (log_flux Acked) ''f'') (produced (published snd False (Some ''ns'', ''f'', 6) (None, [])) producer_ctx
     (file_world (Some [1, 2]) producer_ctx (None, []))) (file_world (Some [1, 2]) producer_ctx (None, []))"
proof -
  have k: "kvs_namespace producer_ctx = Some ''ns''" "sint (ctx_rank producer_ctx) = 6" "async_publish producer_ctx = False"
    by (simp_all add: producer_ctx_def sample_ctx_def dyad_ctx_default_def)
  have f: "flux (file_world (Some [1, 2]) producer_ctx (None, [])) = (None, [])" by (simp add: file_world_def)
  show ?thesis
    using dyad_produce_publishes [OF log_flux_laws [where verdict = Acked] producer_ready(5,1,3,4,2)]
    unfolding k f by simp
qed

text \<open>A commit that the key-value store refuses is reported as a success, with synchronous publishing too.\<close>

lemma produce_hides_refusal:
  "\<not> async_publish producer_ctx"
  "wp (dyad_produce (log_flux (\<lambda>e. Refused e EIO)) ''f'') (\<lambda>r w'. r = Some RC_OK
     \<and> snd (flux w') = [Submitted (Some ''ns'', ''f'', 6), Refused (Some ''ns'', ''f'', 6) EIO])
     (file_world (Some [1, 2]) producer_ctx (None, []))"
proof -
  let ?F = "log_flux (\<lambda>e. Refused e EIO)"
  show a: "\<not> async_publish producer_ctx" by (simp add: producer_ctx_def sample_ctx_def dyad_ctx_default_def)
  have "submits ?F producer_ctx ''f'' (\<lambda>rc s. rc = RC_OK
     \<and> snd s = [Submitted (Some ''ns'', ''f'', 6), Refused (Some ''ns'', ''f'', 6) EIO]) (None, [])"
    by (simp add: submits_def log_flux_def no_flux_def answer_last_def producer_ctx_def sample_ctx_def dyad_ctx_default_def)
  then have "submits ?F producer_ctx ''f'' (\<lambda>rc s. rc = RC_OK
     \<and> snd s = [Submitted (Some ''ns'', ''f'', 6), Refused (Some ''ns'', ''f'', 6) EIO])
     (flux (file_world (Some [1, 2]) producer_ctx (None, [])))"
    by (simp add: file_world_def)
  from wp_produce [OF this producer_ready(5,1,3,4,2)]
  show "wp (dyad_produce ?F ''f'') (\<lambda>r w'. r = Some RC_OK
     \<and> snd (flux w') = [Submitted (Some ''ns'', ''f'', 6), Refused (Some ''ns'', ''f'', 6) EIO])
     (file_world (Some [1, 2]) producer_ctx (None, []))"
    by (rule wp_mono) (auto simp: produced_def)
qed

end
