(* ===== verification/Client_Consume.thy ===== *)
theory Client_Consume
  imports Client_Store Client_Produce
begin

text \<open>
  Consuming a file: when \<^verbatim>\<open>dyad_consume\<close> reports success, the file holds what was there, or what the
  owner answered; after a failure it holds at most a beginning of that; and no other file has changed.
\<close>

section \<open>Leaving the contents alone\<close>

lemma fixed_parts [simp]: "fixed G (w\<lparr>faults := xs\<rparr>) = fixed G w" "fixed G (w\<lparr>errno := e\<rparr>) = fixed G w"
  "fixed G (w\<lparr>locks := l\<rparr>) = fixed G w"
proof -
  have "fdata (w\<lparr>errno := e\<rparr>) = fdata w" "fdata (w\<lparr>locks := l\<rparr>) = fdata w" by (rule same_files; simp)+
  then show "fixed G (w\<lparr>faults := xs\<rparr>) = fixed G w" "fixed G (w\<lparr>errno := e\<rparr>) = fixed G w"
    "fixed G (w\<lparr>locks := l\<rparr>) = fixed G w"
    by (simp_all add: fixed_def good_def wf_world_def)
qed

lemma fixed_dyad [simp]:
  fixes w :: "('e, 'x) dworld"
  shows "fixed G (w\<lparr>cell := c\<rparr>) = fixed G w" "fixed G (w\<lparr>flux := s\<rparr>) = fixed G w"
  by (simp_all add: fixed_def)

lemma fixed_drop_fd: "fixed G w \<Longrightarrow> fixed G (drop_fd fd w)"
proof -
  assume w: "fixed G w"
  have "names (drop_fd fd w) = names w" "inodes (drop_fd fd w) = inodes w" "others (drop_fd fd w) = others w"
    by (simp_all add: drop_fd_def split: option.split)
  with w same_files [of "drop_fd fd w" w] wf_world_drop_fd [of w fd] show ?thesis
    by (simp add: fixed_def good_def)
qed

lemma keep_fixed [keep]: "keeps (fixed G) (sys_unlock fd)" "keeps (fixed G) (sys_close fd)"
  unfolding sys_unlock_def sys_close_def fail_def
  by (rule keeps_syscall; auto intro: fixed_drop_fd split: fault.split option.split)+

lemma keep_fixed_release [keep]: "keeps (fixed G) (dyad_release_flock fd l)"
  unfolding dyad_release_flock_def by (intro keep)

lemma wp_fixed:
  fixes w :: "('e, 'x) dworld"
  assumes "posix_only m" "keeps (fixed G) m" "fixed G w"
    and "\<And>a (w' :: ('e, 'x) dworld). fixed G w' \<Longrightarrow> cell w' = cell w \<Longrightarrow> flux w' = flux w \<Longrightarrow> Q a w'"
  shows "wp m Q w"
  by (rule wp_mono [OF wp_conj [OF keepsD [OF assms(2,3)] posix_onlyD [OF assms(1), of w]]])
    (auto intro!: assms(4) dest: more_eq_parts)

section \<open>Fetching and storing\<close>

lemma wp_open_wr:
  fixes w :: "('e, 'x) dworld"
  assumes "good w" "fdata w p = Some d"
    and "\<And>w' :: ('e, 'x) dworld. fixed (fdata w) w' \<Longrightarrow> cell w' = cell w \<Longrightarrow> flux w' = flux w \<Longrightarrow> Q (- 1) w'"
    and "\<And>fd (w' :: ('e, 'x) dworld). view w w' (fdata w) \<Longrightarrow> cell w' = cell w \<Longrightarrow> flux w' = flux w \<Longrightarrow> 0 \<le> fd \<Longrightarrow>
       fd_at w' fd p False True \<Longrightarrow> write_at w' fd 0 \<Longrightarrow> Q fd w'"
  shows "wp (sys_open p O_WRONLY m) Q w"
proof -
  have wr: "\<not> opens_read O_WRONLY" "opens_write O_WRONLY" "\<not> has_flag O_WRONLY O_CREAT" "\<not> has_flag O_WRONLY O_TRUNC"
    "\<not> has_flag O_WRONLY O_APPEND"
    by (simp_all add: oflag_defs)
  have nd: "\<not> is_dir w p" using assms(2) fdata_is_dir by fastforce
  have o: "wp (sys_open p O_WRONLY m) (\<lambda>fd w'. fd \<noteq> - 1 \<longrightarrow> write_at w' fd 0) w"
    unfolding sys_open_def fail_def
    by (rule wp_syscall_cases)
      (use wr in \<open>auto simp: new_fd_def write_at_def split: fault.split option.split\<close>)
  have "wp (sys_open p O_WRONLY m) (\<lambda>fd w'. view w w' (fdata w) \<and> (fd = - 1 \<or> 0 \<le> fd \<and> fd_at w' fd p False True)) w"
    by (rule wp_open_view [OF assms(1) nd]) (use wr assms(2) in \<open>auto simp: opened_def\<close>)
  note both = wp_posix [OF posix_sys(2) wp_conj [OF this o]]
  show ?thesis
  proof (rule wp_mono [OF both], goal_cases)
    case (1 fd w')
    then have m: "world.more w' = world.more w" and v1: "view w w' (fdata w)" by simp_all
    note same = more_eq_parts(1,6) [OF m] and v = viewD(1,2) [OF v1]
    show ?case
    proof (cases "fd = - 1")
      case True
      with assms(3) [OF _ same] v show ?thesis by (simp add: fixed_def)
    next
      case False
      with 1 show ?thesis by (intro assms(4) [OF v1 same]) auto
    qed
  qed
qed

text \<open>
  The old contents, or what a beginning of data with \<open>P\<close> makes of them; of data that takes several writes nothing is
  said.
\<close>

definition part_of :: "(bytes \<Rightarrow> bool) \<Rightarrow> bytes \<Rightarrow> bytes \<Rightarrow> bool" where
  "part_of P old d \<longleftrightarrow> d = old \<or> (\<exists>x. P x \<and> (length x < TRANSFER_GRANULARITY \<longrightarrow> (\<exists>k. d = overlay old 0 (take k x))))"

lemma part_of_old [simp]: "part_of P old old"
  by (simp add: part_of_def)

lemma part_of_mono: "part_of P old d \<Longrightarrow> (\<And>x. P x \<Longrightarrow> P' x) \<Longrightarrow> part_of P' old d"
  unfolding part_of_def by blast

definition mixed :: "('e, 'x) dworld \<Rightarrow> string \<Rightarrow> (bytes \<Rightarrow> bool) \<Rightarrow> ('e, 'x) dworld \<Rightarrow> bool" where
  "mixed w p P w' \<longleftrightarrow> (\<exists>d. fixed ((fdata w)(p \<mapsto> d)) w' \<and> part_of P (the (fdata w p)) d)"

lemma mixed_same: "good w' \<Longrightarrow> fdata w' = fdata w \<Longrightarrow> fdata w p = Some d \<Longrightarrow> mixed w p P w'"
  unfolding mixed_def fixed_def by (intro exI [of _ d]) auto

lemma mixed_stored: "stored w p x rc w' \<Longrightarrow> P x \<Longrightarrow> mixed w p P w'"
  unfolding stored_def mixed_def part_of_def by blast

text \<open>
  What each way of leaving the stretch of code says: \<open>K\<close> is what success without a change rests on,
  \<open>P\<close> what is known of data that has been stored.
\<close>

fun left :: "('e, 'x) dworld \<Rightarrow> string \<Rightarrow> bool \<Rightarrow> (bytes \<Rightarrow> bool) \<Rightarrow> leave \<Rightarrow> ('e, 'x) dworld \<Rightarrow> bool" where
  "left w p K P (To_done rc data) w' \<longleftrightarrow> settings w' = settings w \<and> mixed w p P w' \<and> (rc = RC_OK \<longrightarrow> K \<and> fixed (fdata w) w')"
| "left w p K P (To_close rc) w' \<longleftrightarrow> settings w' = settings w \<and> mixed w p P w' \<and> rc \<noteq> RC_OK"
| "left w p K P (Falls data) w' \<longleftrightarrow> settings w' = settings w
     \<and> (K \<and> fixed (fdata w) w' \<or> (\<exists>d. P d \<and> stored w p d RC_OK w'))"
| "left w p K P Undefined w' \<longleftrightarrow> True"

lemma settings_cell: "cell w' = cell w \<Longrightarrow> settings w' = settings w"
  by (simp add: settings_def)

lemma wp_store_fetched:
  fixes w :: "('e, 'x) dworld"
  assumes "good w" "fdata w p = Some old" "P d"
  shows "wp (do {
       io_fd \<leftarrow> sys_open p O_WRONLY 0;
       if io_fd = - 1 then State_Monad.return (To_close RC_BADFIO)
       else do {
         rc \<leftarrow> dyad_cons_store fuel mdata io_fd d;
         case rc of
           None \<Rightarrow> State_Monad.return Undefined
         | Some rc \<Rightarrow> do {
             r \<leftarrow> sys_close io_fd;
             if r \<noteq> 0 then do {
               _ \<leftarrow> dyad_release_flock lock_fd True;
               State_Monad.return (To_done RC_BADFIO file_data) }
             else if is_error rc then do {
               _ \<leftarrow> dyad_release_flock (if through_io then io_fd else lock_fd) True;
               State_Monad.return (To_done rc file_data) }
             else State_Monad.return (Falls file_data) } } }) (left w p K P) w"
proof (subst wp_bind, rule wp_open_wr [OF assms(1,2)], goal_cases)
  case (1 w1)
  then have "good w1" "fdata w1 = fdata w" by (simp_all add: fixed_def)
  from mixed_same [OF this assms(2)] settings_cell [OF 1(2)] show ?case by simp
next
  case (2 io_fd w1)
  note v = viewD [OF 2(1)]
  have d: "fdata w1 p = Some old" using v(2) assms(2) by simp
  have st: "stored w1 p d rc w' = stored w p d rc w'" for rc and w' :: "('e, 'x) dworld"
    by (simp add: stored_def v(2))
  have rest: "wp (case r of
           None \<Rightarrow> State_Monad.return Undefined
         | Some rc \<Rightarrow> do {
             r \<leftarrow> sys_close io_fd;
             if r \<noteq> 0 then do {
               _ \<leftarrow> dyad_release_flock lock_fd True;
               State_Monad.return (To_done RC_BADFIO file_data) }
             else if is_error rc then do {
               _ \<leftarrow> dyad_release_flock (if through_io then io_fd else lock_fd) True;
               State_Monad.return (To_done rc file_data) }
             else State_Monad.return (Falls file_data) }) (left w p K P) w2"
    if c2: "cell w2 = cell w1" and s2: "\<forall>rc. r = Some rc \<longrightarrow> stored w1 p d rc w2" for r and w2 :: "('e, 'x) dworld"
  proof (cases r)
    case (Some rc)
    with s2 obtain x where x: "fixed ((fdata w)(p \<mapsto> x)) w2"
      "length d < TRANSFER_GRANULARITY \<longrightarrow>
         (\<exists>k. x = overlay (the (fdata w p)) 0 (take k d) \<and> (rc = RC_OK \<longrightarrow> length d \<le> k))"
      by (auto simp: stored_def v(2))
    have s: "stored w p d rc w'" if "fixed ((fdata w)(p \<mapsto> x)) w'" for w' :: "('e, 'x) dworld"
      using that x(2) unfolding stored_def by blast
    have t: "mixed w p P w'" if "fixed ((fdata w)(p \<mapsto> x)) w'" for w' :: "('e, 'x) dworld"
      by (rule mixed_stored [where P = P, OF s [OF that] assms(3)])
    have unlock: "wp (do { _ \<leftarrow> dyad_release_flock fd True; State_Monad.return (To_done rc' file_data) }) (left w p K P) w3"
      if "fixed ((fdata w)(p \<mapsto> x)) w3" "cell w3 = cell w" "rc' \<noteq> RC_OK" for fd rc' and w3 :: "('e, 'x) dworld"
      unfolding wp_bind
    proof (rule wp_fixed [OF posix_flocks(4) keep_fixed_release that(1)], goal_cases)
      case (1 a w4)
      then show ?case using t settings_cell [of w4 w] that by simp
    qed
    have falls: "left w p K P (Falls file_data) w3"
      if "fixed ((fdata w)(p \<mapsto> x)) w3" "cell w3 = cell w" "rc = RC_OK" for w3 :: "('e, 'x) dworld"
      using s [OF that(1)] that(3) assms(3) settings_cell [OF that(2)] by auto
    show ?thesis
      unfolding Some option.case wp_bind [of "sys_close io_fd"]
      by (rule wp_fixed [OF posix_sys(3) keep_fixed(2) x(1)])
        (use c2 2(2) unlock falls in auto)
  qed simp
  have n: "io_fd \<noteq> - 1" using 2(4) by simp
  show ?case
    unfolding if_not_P [OF n] wp_bind
    by (rule wp_mono [OF wp_cons_store [OF v(1) 2(5) d 2(6)]], rule rest) auto
qed

lemma left_mono:
  assumes "left w1 p K P l w'" "settings w1 = settings w" "fdata w1 = fdata w" "\<And>d. P d \<Longrightarrow> P' d" "K \<Longrightarrow> K'"
  shows "left w p K' P' l w'"
  using assms by (cases l) (auto simp: mixed_def stored_def intro: part_of_mono)

lemma left_failed:
  assumes "calm w w1" "fdata w p = Some old" "fixed (fdata w1) w'" "cell w' = cell w1" "rc \<noteq> RC_OK"
  shows "left w p K P (To_done rc data) w'"
proof -
  have "good w'" "fdata w' = fdata w" using assms(3) calmD(2) [OF assms(1)] by (simp_all add: fixed_def)
  from mixed_same [OF this assms(2)] settings_cell [OF assms(4)] calmD(3) [OF assms(1)] assms(5) show ?thesis by simp
qed

lemma wp_fetch_and_store:
  fixes w :: "('e, 'x) dworld"
  assumes laws: "client_laws F answers owner" and "good w" "fdata w p = Some old" "wired w"
  shows "wp (fetch_and_store F fuel through_io p md lock_fd)
     (left w p K (answers (owner_rank md) DYAD_DTL_RPC_NAME (fetch_payload (fpath md)))) w"
  unfolding fetch_and_store_def wp_bind
proof (rule wp_mono [OF wp_get_data [OF laws calm_refl [OF assms(2)] assms(4)]], clarify, goal_cases)
  case (1 rc data n w1)
  note c = calmD [OF 1(1)]
  show ?case
  proof (cases "rc = RC_OK")
    case False
    have f: "fixed (fdata w1) w1" using c(1) by (simp add: fixed_def)
    show ?thesis
      unfolding wp_bind if_P [OF False [folded is_error_iff]]
    proof (rule wp_fixed [OF posix_flocks(4) keep_fixed_release f], goal_cases)
      case (1 a w2)
      from left_failed [OF \<open>calm w w1\<close> assms(3) 1(1,2) False] False show ?case by simp
    qed
  next
    case True
    with 1(2) obtain d where d: "data = Some d"
      "answers (owner_rank md) DYAD_DTL_RPC_NAME (fetch_payload (fpath md)) d" by (auto simp: got_def)
    have d1: "fdata w1 p = Some old" using c(2) assms(3) by simp
    let ?P = "answers (owner_rank md) DYAD_DTL_RPC_NAME (fetch_payload (fpath md))"
    note st = wp_store_fetched [where w = w1 and p = p and d = "the data" and mdata = md and fuel = fuel and K = K
        and file_data = data and lock_fd = lock_fd and through_io = through_io and P = ?P, OF c(1) d1]
    have Q: "left w p K ?P l w'" if "left w1 p K ?P l w'" for l and w' :: "('e, 'x) dworld"
      by (rule left_mono [OF that c(3,2)]) simp_all
    have ok: "\<not> is_error rc" using True by simp
    show ?thesis
      unfolding if_not_P [OF ok] by (rule wp_mono [OF st Q]) (simp_all add: d)
  qed
qed

section \<open>Under the lock\<close>

lemma settingsD:
  assumes "settings w' = settings w" "cell w = Some c"
  shows "\<exists>c'. cell w' = Some c' \<and> kvs_namespace c' = kvs_namespace c \<and> key_depth c' = key_depth c
    \<and> key_bins c' = key_bins c \<and> service_mux c' = service_mux c \<and> node_idx c' = node_idx c
    \<and> use_fs_locks c' = use_fs_locks c \<and> shared_storage c' = shared_storage c
    \<and> cache_capacity_bytes c' = cache_capacity_bytes c"
proof -
  from assms obtain c' where c': "cell w' = Some c'"
    "c'\<lparr>reenter := True, dtl_handle := None\<rparr> = c\<lparr>reenter := True, dtl_handle := None\<rparr>"
    by (auto simp: settings_def)
  from c'(2) have "kvs_namespace c' = kvs_namespace c" "key_depth c' = key_depth c" "key_bins c' = key_bins c"
    "service_mux c' = service_mux c" "node_idx c' = node_idx c" "use_fs_locks c' = use_fs_locks c"
    "shared_storage c' = shared_storage c" "cache_capacity_bytes c' = cache_capacity_bytes c"
    by (cases c; cases c'; simp)+
  with c'(1) show ?thesis by blast
qed

text \<open>The owner of the path is this node, or elsewhere and has answered.\<close>

definition owned_here :: "(string option \<Rightarrow> string \<Rightarrow> int \<Rightarrow> bool) \<Rightarrow> dyad_ctx \<Rightarrow> string \<Rightarrow> string \<Rightarrow> bool" where
  "owned_here owner c topic upath \<longleftrightarrow> (\<exists>md. found owner (kvs_namespace c) topic upath md
     \<and> owner_rank md div service_mux c = node_idx c)"

definition from_owner ::
  "(string option \<Rightarrow> string \<Rightarrow> int \<Rightarrow> bool) \<Rightarrow> (uint32 \<Rightarrow> string \<Rightarrow> json \<Rightarrow> bytes \<Rightarrow> bool) \<Rightarrow> dyad_ctx \<Rightarrow> string \<Rightarrow> string
     \<Rightarrow> bytes \<Rightarrow> bool" where
  "from_owner owner answers c topic upath d \<longleftrightarrow> (\<exists>md. found owner (kvs_namespace c) topic upath md
     \<and> owner_rank md div service_mux c \<noteq> node_idx c
     \<and> answers (owner_rank md) DYAD_DTL_RPC_NAME (fetch_payload upath) d)"

text \<open>What the operation needs: the parts of the context, and a key for the path.\<close>

definition consumer :: "('e, 'x) dworld \<Rightarrow> dyad_ctx \<Rightarrow> string \<Rightarrow> string \<Rightarrow> bool" where
  "consumer w c upath topic \<longleftrightarrow> cell w = Some c \<and> wired w \<and> service_mux c \<noteq> 0 \<and> cache_capacity_bytes c = 0
     \<and> (\<exists>k. gen_path_key upath PATH_MAX (key_depth c) (key_bins c) = Some (k, topic))"

lemma wp_fetch_private:
  fixes w :: "('e, 'x) dworld"
  assumes laws: "client_laws F answers owner" and g: "good w" and p: "fdata w p = Some old"
    and c: "consumer w c upath topic"
  shows "wp (do {
       r \<leftarrow> dyad_fetch_metadata F p upath;
       case r of
         None \<Rightarrow> State_Monad.return Undefined
       | Some (rc, mdata) \<Rightarrow>
           if is_error rc then do {
             _ \<leftarrow> dyad_release_flock lock_fd True;
             State_Monad.return (To_done rc None) }
           else (case mdata of
                   None \<Rightarrow> do {
                     _ \<leftarrow> dyad_release_flock lock_fd True;
                     State_Monad.return (To_done RC_OK None) }
                 | Some md \<Rightarrow> fetch_and_store F fuel False p md lock_fd) })
     (left w p (owned_here owner c topic upath) (from_owner owner answers c topic upath)) w"
proof -
  from c obtain k where k: "gen_path_key upath PATH_MAX (key_depth c) (key_bins c) = Some (k, topic)"
    and cw: "cell w = Some c" "wired w" "service_mux c \<noteq> 0" by (auto simp: consumer_def)
  show ?thesis
    unfolding wp_bind
  proof (rule wp_mono [OF wp_fetch_metadata [OF laws calm_refl [OF g] cw(1) k cw(3)]], elim conjE exE, goal_cases)
    case (1 r w1 rc m)
    note cd = calmD [OF 1(1)]
    have f: "fixed (fdata w1) w1" using cd(1) by (simp add: fixed_def)
    have p1: "fdata w1 p = Some old" using cd(2) p by simp
    show ?case
    proof (cases "rc = RC_OK")
      case False
      show ?thesis
        unfolding 1(3) option.case prod.case wp_bind if_P [OF False [folded is_error_iff]]
      proof (rule wp_fixed [OF posix_flocks(4) keep_fixed_release f], goal_cases)
        case (1 a w2)
        from left_failed [OF \<open>calm w w1\<close> p 1(1,2) False] False show ?case by simp
      qed
    next
      case True
      with 1(4) obtain md where md: "found owner (kvs_namespace c) topic upath md"
        "m = (if owner_rank md div service_mux c = node_idx c then None else Some md)" by auto
      show ?thesis
      proof (cases "owner_rank md div service_mux c = node_idx c")
        case here: True
        then have own: "owned_here owner c topic upath" using md(1) by (auto simp: owned_here_def)
        have "wp (do { _ \<leftarrow> dyad_release_flock lock_fd True; State_Monad.return (To_done RC_OK None) })
           (left w p (owned_here owner c topic upath) (from_owner owner answers c topic upath)) w1"
          unfolding wp_bind
        proof (rule wp_fixed [OF posix_flocks(4) keep_fixed_release f], goal_cases)
          case (1 a w2)
          then have f2: "fixed (fdata w) w2" using cd(2) by simp
          then have "mixed w p P w2" for P using p by (intro mixed_same) (simp_all add: fixed_def)
          with f2 own settings_cell [OF 1(2)] cd(3) show ?case by simp
        qed
        with here md(2) True 1(3) show ?thesis by simp
      next
        case False
        then have P: "from_owner owner answers c topic upath d"
          if "answers (owner_rank md) DYAD_DTL_RPC_NAME (fetch_payload (fpath md)) d" for d
          using md(1) that by (auto simp: from_owner_def found_def)
        have "wp (fetch_and_store F fuel False p md lock_fd)
           (left w p (owned_here owner c topic upath) (from_owner owner answers c topic upath)) w1"
          by (rule wp_mono [OF wp_fetch_and_store [where K = False, OF laws cd(1) p1 cd(4) [OF cw(2)]]])
            (erule left_mono [OF _ cd(3,2) P]; simp)
        with False md(2) True 1(3) show ?thesis by simp
      qed
    qed
  qed
qed

lemma wp_consume_private:
  fixes w :: "('e, 'x) dworld"
  assumes laws: "client_laws F answers owner" and g: "good w" and p: "fdata w p = Some old"
    and c: "consumer w c upath topic"
  shows "wp (consume_private F fuel p upath lock_fd sz)
     (left w p (use_fs_locks c \<and> 0 < sz \<or> owned_here owner c topic upath)
        (\<lambda>d. (\<not> use_fs_locks c \<or> sz \<le> 0) \<and> from_owner owner answers c topic upath d)) w"
    (is "wp _ ?post w")
proof -
  have cw: "cell w = Some c" using c by (simp add: consumer_def)
  have fin: "wp (case l of
       Falls file_data \<Rightarrow> do {
         _ \<leftarrow> dyad_release_flock lock_fd True;
         c \<leftarrow> get_cell;
         _ \<leftarrow> dyad_cache_maybe_evict c (cons_managed_path (the c));
         State_Monad.return l }
     | _ \<Rightarrow> State_Monad.return l) ?post w1" if l: "?post l w1" for l w1
  proof (cases l)
    case (Falls data)
    from l Falls have s1: "settings w1 = settings w" by simp
    have cap: "\<exists>c'. cell w2 = Some c' \<and> cache_capacity_bytes c' = 0" if "cell w2 = cell w1" for w2 :: "('e, 'x) dworld"
      using settingsD [OF _ cw, of w2] settings_cell [OF that] s1 c by (auto simp: consumer_def)
    obtain G where G: "fixed G w1" "\<And>w2. fixed G w2 \<Longrightarrow> settings w2 = settings w1 \<Longrightarrow> ?post l w2"
    proof -
      from l Falls consider "fixed (fdata w) w1" | d x where "fixed ((fdata w)(p \<mapsto> x)) w1"
        "(\<not> use_fs_locks c \<or> sz \<le> 0) \<and> from_owner owner answers c topic upath d"
        "length d < TRANSFER_GRANULARITY \<longrightarrow> (\<exists>k. x = overlay (the (fdata w p)) 0 (take k d) \<and> length d \<le> k)"
        by (auto simp: stored_def)
      then show ?thesis
      proof cases
        case 1
        show ?thesis by (rule that [OF 1]) (use 1 l Falls in \<open>auto simp: stored_def fixed_def\<close>)
      next
        case 2
        show ?thesis by (rule that [OF 2(1)]) (use 2 s1 Falls in \<open>auto simp: stored_def\<close>)
      qed
    qed
    have "wp (do {
         _ \<leftarrow> dyad_release_flock lock_fd True;
         c \<leftarrow> get_cell;
         _ \<leftarrow> dyad_cache_maybe_evict c (cons_managed_path (the c));
         State_Monad.return l }) ?post w1"
      unfolding wp_bind [of "dyad_release_flock _ _"]
    proof (rule wp_fixed [OF posix_flocks(4) keep_fixed_release G(1)], goal_cases)
      case (1 a w2)
      with cap [OF 1(2)] G(2) [OF 1(1) settings_cell [OF 1(2)]] show ?case
        by (auto simp: wps disabled_evict simp del: left.simps)
    qed
    then show ?thesis using Falls by simp
  qed (use l in \<open>simp_all add: wps del: left.simps\<close>)
  show ?thesis
  proof (cases "\<not> use_fs_locks c \<or> sz \<le> 0")
    case True
    have mono: "left w p (use_fs_locks c \<and> 0 < sz \<or> owned_here owner c topic upath)
        (\<lambda>d. (\<not> use_fs_locks c \<or> sz \<le> 0) \<and> from_owner owner answers c topic upath d) l w1"
      if "left w p (owned_here owner c topic upath) (from_owner owner answers c topic upath) l w1" for l w1
      by (rule left_mono [OF that refl refl]) (use True in auto)
    note fetch = wp_fetch_private [OF laws g p c, where fuel = fuel and lock_fd = lock_fd]
    show ?thesis
      unfolding consume_private_def wp_bind [of the_ctx] wp_cell(2) cw option.sel if_P [OF True]
        wp_bind [of "_ \<bind> _"]
      by (rule wp_mono [OF fetch], rule fin, rule mono)
  next
    case False
    have "?post (Falls None) w" using g False by (simp add: fixed_def)
    from fin [OF this] show ?thesis
      using cw False by (auto simp: consume_private_def wps)
  qed
qed

section \<open>The whole call\<close>

text \<open>What the file may hold once the lock is taken: also what another process has left.\<close>

definition starts_with :: "'x world_scheme \<Rightarrow> string \<Rightarrow> bytes \<Rightarrow> bool" where
  "starts_with w p old \<longleftrightarrow> fdata w p = Some old \<or> fdata w p = None \<and> old = [] \<or> left_by_other w p old"

text \<open>
  The outcome of a call that returns: other files are as they were. After a failure the file is as it was, or it holds what it
  started with, or that with a beginning of the owner's data over it. After success it holds what it started with, or the
  owner's data over that. The data of a file that is not empty is replaced only when locks are not used
  or its size could not be read.
\<close>

definition consumed ::
  "(bytes \<Rightarrow> bool) \<Rightarrow> bool \<Rightarrow> dyad_ctx \<Rightarrow> ('e, 'x) dworld \<Rightarrow> string \<Rightarrow> dyad_rc option \<Rightarrow> ('e, 'x) dworld \<Rightarrow> bool" where
  "consumed P here c w p r w' \<longleftrightarrow> (r \<noteq> None \<longrightarrow> (\<forall>q. q \<noteq> p \<longrightarrow> fdata w' q = fdata w q))
     \<and> (r \<noteq> None \<and> r \<noteq> Some RC_OK \<longrightarrow> fdata w' p = fdata w p
          \<or> (\<exists>old d. starts_with w p old \<and> fdata w' p = Some d \<and> part_of P old d))
     \<and> (r = Some RC_OK \<longrightarrow> (\<exists>old d. starts_with w p old \<and> fdata w' p = Some d
          \<and> (d = old \<and> (use_fs_locks c \<and> old \<noteq> [] \<or> here)
             \<or> (old = [] \<or> \<not> use_fs_locks c \<or> faults w \<noteq> []) \<and>
                (\<exists>x. P x \<and> (length x < TRANSFER_GRANULARITY \<longrightarrow> d = overlay old 0 x)))))"

lemma wp_consume_done:
  fixes w :: "('e, 'x) dworld"
  assumes "fixed G w" and "\<And>r (w' :: ('e, 'x) dworld). fixed G w' \<Longrightarrow> r = rc \<or> r = RC_BADFIO \<Longrightarrow> Q (Some r) w'"
    and "cell w \<noteq> None"
  shows "wp (consume_done fd rc data) Q w"
  unfolding consume_done_def wp_bind
proof (rule wp_fixed [OF posix_sys(3) keep_fixed(2) assms(1)], goal_cases)
  case (1 r w1)
  from assms(3) 1(2) have "cell w1 \<noteq> None" by simp
  with 1(1) assms(2) [of w1] assms(2) [of "w1\<lparr>cell := c\<rparr>" for c] show ?case
    by (auto simp: give_back_def dyad_dtl_flux_return_buffer_def consume_close_def wps)
qed

lemma wp_after_leave:
  fixes w w3 w4 :: "('e, 'x) dworld"
  assumes l: "left w3 p (use_fs_locks c \<and> 0 < sz \<or> here) (\<lambda>d. (\<not> use_fs_locks c \<or> sz \<le> 0) \<and> P d) l w4"
    and d3: "fdata w3 = (fdata w)(p \<mapsto> old)" "starts_with w p old" and cw: "cell w3 \<noteq> None"
    and sz: "sz = 0 \<and> faults w \<noteq> [] \<or> sz = int (length old)"
  shows "wp (case l of
           Undefined \<Rightarrow> State_Monad.return None
         | To_close rc \<Rightarrow> consume_close rc
         | To_done rc file_data \<Rightarrow> consume_done lock_fd rc file_data
         | Falls file_data \<Rightarrow> consume_done lock_fd RC_OK file_data) (consumed P here c w p) w4"
proof -
  have cell: "cell w4 \<noteq> None" if "settings w4 = settings w3" using that cw by (auto simp: settings_def)
  have fail: "consumed P here c w p (Some r) w'" if "fixed ((fdata w)(p \<mapsto> d)) w'" "r \<noteq> RC_OK" "part_of P old d"
    for r d and w' :: "('e, 'x) dworld"
    using that d3(2) by (auto simp: consumed_def fixed_def)
  have mx: "\<exists>d. fixed ((fdata w)(p \<mapsto> d)) w4 \<and> part_of P old d" if "mixed w3 p (\<lambda>d. (\<not> use_fs_locks c \<or> sz \<le> 0) \<and> P d) w4"
    using that unfolding mixed_def d3 by (auto intro: part_of_mono)
  have same: "consumed P here c w p (Some RC_OK) w'"
    if "fixed ((fdata w)(p \<mapsto> old)) w'" "use_fs_locks c \<and> 0 < sz \<or> here" for w' :: "('e, 'x) dworld"
    using that sz d3(2) by (auto simp: consumed_def fixed_def)
  have new: "consumed P here c w p (Some RC_OK) w'"
    if "fixed ((fdata w)(p \<mapsto> d)) w'" "\<not> use_fs_locks c \<or> sz \<le> 0" "P x"
      "length x < TRANSFER_GRANULARITY \<longrightarrow> d = overlay old 0 x" for d x and w' :: "('e, 'x) dworld"
  proof -
    have "old = [] \<or> \<not> use_fs_locks c \<or> faults w \<noteq> []" using that(2) sz by auto
    moreover have "\<forall>q. q \<noteq> p \<longrightarrow> fdata w' q = fdata w q" "fdata w' p = Some d" using that(1) by (auto simp: fixed_def)
    ultimately show ?thesis using d3(2) that(3,4) unfolding consumed_def by blast
  qed
  show ?thesis
  proof (cases l)
    case (To_done rc data)
    with l mx obtain d where s4: "settings w4 = settings w3" and t: "fixed ((fdata w)(p \<mapsto> d)) w4" "part_of P old d"
      by auto
    show ?thesis
    proof (cases "rc = RC_OK")
      case True
      with l To_done have k: "use_fs_locks c \<and> 0 < sz \<or> here" and f: "fixed ((fdata w)(p \<mapsto> old)) w4"
        by (auto simp: d3)
      show ?thesis unfolding To_done leave.case
        by (rule wp_consume_done [OF f _ cell [OF s4]]) (use True fail same k in auto)
    next
      case False
      show ?thesis unfolding To_done leave.case
        by (rule wp_consume_done [OF t(1) _ cell [OF s4]]) (use False fail t(2) in auto)
    qed
  next
    case (To_close rc)
    with l mx obtain d where s4: "settings w4 = settings w3" and t: "fixed ((fdata w)(p \<mapsto> d)) w4" "part_of P old d"
      and "rc \<noteq> RC_OK"
      by auto
    with cell [OF s4] fail [of d "w4\<lparr>cell := c\<rparr>" rc for c] show ?thesis
      unfolding To_close leave.case by (auto simp: consume_close_def wps)
  next
    case (Falls data)
    with l have s4: "settings w4 = settings w3" by simp
    from l Falls consider "use_fs_locks c \<and> 0 < sz \<or> here" "fixed ((fdata w)(p \<mapsto> old)) w4"
      | x d where "\<not> use_fs_locks c \<or> sz \<le> 0" "P x" "fixed ((fdata w)(p \<mapsto> d)) w4"
        "length x < TRANSFER_GRANULARITY \<longrightarrow> d = overlay old 0 x"
      by (auto simp: stored_def d3 cong: imp_cong)
    then show ?thesis
    proof cases
      case 1
      show ?thesis unfolding Falls leave.case
        by (rule wp_consume_done [OF 1(2) _ cell [OF s4]]) (use 1 fail same in auto)
    next
      case 2
      show ?thesis unfolding Falls leave.case
      proof (rule wp_consume_done [OF 2(3) _ cell [OF s4]])
        fix r and w' :: "('e, 'x) dworld"
        assume f: "fixed ((fdata w)(p \<mapsto> d)) w'"
        have "length x < TRANSFER_GRANULARITY \<longrightarrow> d = overlay old 0 (take (length x) x)" using 2(4) by simp
        with 2(2) have "part_of P old d" unfolding part_of_def by blast
        with new [OF f 2(1,2,4)] fail [OF f] show "consumed P here c w p (Some r) w'" by (cases "r = RC_OK") simp_all
      qed
    qed
  qed (simp add: consumed_def)
qed

lemma wp_consume_managed:
  fixes w :: "('e, 'x) dworld"
  assumes laws: "client_laws F answers owner" and g: "good w" and nd: "\<not> is_dir w p"
    and c: "consumer w c upath topic" and own: "\<not> shared_storage c"
  shows "wp (consume_managed F fuel p upath)
     (consumed (from_owner owner answers c topic upath) (owned_here owner c topic upath) c w p) w"
proof -
  let ?w0 = "w\<lparr>cell := map_option (\<lambda>c. c\<lparr>reenter := False\<rparr>) (cell w)\<rparr>"
  let ?c0 = "c\<lparr>reenter := False\<rparr>"
  let ?flags = "O_RDWR OR O_CREAT"
  let ?P = "from_owner owner answers c topic upath" and ?H = "owned_here owner c topic upath"
  have cw: "cell ?w0 = Some ?c0" using c by (simp add: consumer_def)
  have g0: "good ?w0" and nd0: "\<not> is_dir ?w0 p" using g nd by simp_all
  have con: "consumer w' ?c0 upath topic" if "cell w' = cell ?w0" for w' :: "('e, 'x) dworld"
    using c that by (auto simp: consumer_def wired_def)
  have same: "from_owner owner answers ?c0 topic upath = ?P" "owned_here owner ?c0 topic upath = ?H"
    by (simp_all add: from_owner_def owned_here_def fun_eq_iff)
  have fl: "opens_read ?flags" "opens_write ?flags" "\<not> has_flag ?flags O_TRUNC"
    by (simp_all add: oflag_defs)
  have fail: "consumed ?P ?H c w p (Some r) w'" if "fdata w' = fdata w \<or> (\<exists>d. fdata w' = (fdata w)(p \<mapsto> d) \<and> starts_with w p d)"
    "r \<noteq> RC_OK" for r w'
    using that by (auto simp: consumed_def)
  show ?thesis
    unfolding consume_managed_def wp_bind [of "upd_ctx _"] wp_cell(4) wp_bind [of "sys_open _ _ _"]
  proof (rule wp_posix_with [OF posix_sys(2)], (rule wp_open_view [OF g0 nd0]; intro impI), goal_cases)
    case (1 w1)
    have "fdata w1 = fdata w" using viewD(2) [OF 1(1)] by simp
    moreover have "cell w1 \<noteq> None" using more_eq_parts(1) [OF 1(3)] cw by simp
    ultimately show ?case
      using fail by (auto simp: consume_close_def wps)
  next
    case (2 lock_fd w1)
    note v1 = viewD [OF 2(1)] and m1 = more_eq_parts(1) [OF 2(6)]
    obtain o1 where o1: "fdata w1 = (fdata w)(p \<mapsto> o1)" "starts_with w p o1"
    proof (cases "fdata w p")
      case None
      then show ?thesis using that [of "[]"] v1(2) by (simp add: opened_def starts_with_def)
    next
      case (Some d)
      moreover have "(fdata w)(p \<mapsto> d) = fdata w" using Some by (metis fun_upd_triv)
      ultimately show ?thesis using that [of d] v1(2) fl by (simp add: opened_def starts_with_def)
    qed
    have at1: "fd_at w1 lock_fd p True True" using 2(4) fl by simp
    have d1: "fdata w1 p = Some o1" using o1 by simp
    have n: "lock_fd \<noteq> - 1" using 2(2) by simp
    show ?case
      unfolding if_not_P [OF n] wp_bind [of "dyad_excl_flock _ _"]
    proof (rule wp_posix_with [OF posix_flocks(1)], (rule wp_excl_flock_view [OF v1(1) at1 d1]; intro impI), goal_cases)
      case (1 w2)
      have f: "fixed ((fdata w)(p \<mapsto> o1)) w2" using viewD(1,2) [OF 1(1)] o1 by (simp add: fixed_def)
      have c2: "cell w2 \<noteq> None" using more_eq_parts(1) [OF 1(3)] m1 cw by simp
      have over: "wp (consume_done lock_fd RC_BADFIO None) (consumed ?P ?H c w p) w3"
        if "fixed ((fdata w)(p \<mapsto> o1)) w3" "cell w3 = cell w2" for w3
        by (rule wp_consume_done [OF that(1)]) (use that c2 fail o1(2) in \<open>auto simp: fixed_def\<close>)
      show ?case
        by (simp add: wp_bind, rule wp_fixed [OF posix_flocks(4) keep_fixed_release f], rule over)
    next
      case (2 G w2)
      note v2 = viewD [OF 2(1)] and m2 = more_eq_parts(1) [OF 2(3)]
      obtain old where old: "fdata w2 = (fdata w)(p \<mapsto> old)" "starts_with w p old"
      proof -
        from 2(2) consider "G = fdata w1" | d where "left_by_other w1 p d" "G = (fdata w1)(p \<mapsto> d)" by blast
        then show ?thesis
        proof cases
          case 1
          then show ?thesis using that [of o1] v2(2) o1 by simp
        next
          case 2
          then have "left_by_other w p d" using v1(3) by simp
          with 2 show ?thesis using that [of d] v2(2) o1 by (simp add: starts_with_def)
        qed
      qed
      have d2: "fdata w2 p = Some old" using old by simp
      have ok: "\<not> is_error RC_OK" by simp
      show ?case
        unfolding if_not_P [OF ok] wp_bind [of "get_file_size _"]
      proof (rule wp_posix_with [OF posix_attrs(4)],
          rule wp_get_file_size_view [OF v2(1) v2(6) [OF at1] d2], intro impI, goal_cases)
        case (1 sz w3)
        note v3 = viewD [OF 1(1)]
        have c3: "cell w3 = Some ?c0" using more_eq_parts(1) [OF 1(3)] m2 m1 cw by simp
        have sz: "sz = 0 \<and> faults w \<noteq> [] \<or> sz = int (length old)" using 1(2) v1(7) v2(7) by auto
        have d3: "fdata w3 = (fdata w)(p \<mapsto> old)" using v3(2) old(1) by simp
        then have p3: "fdata w3 p = Some old" by simp
        have con3: "consumer w3 ?c0 upath topic" by (rule con) (simp only: c3 cw)
        from wp_consume_private [OF laws v3(1) p3 con3, of fuel lock_fd sz]
        have priv: "wp (consume_private F fuel p upath lock_fd sz)
           (left w3 p (use_fs_locks c \<and> 0 < sz \<or> ?H) (\<lambda>d. (\<not> use_fs_locks c \<or> sz \<le> 0) \<and> ?P d)) w3"
          by (simp add: same)
        have np: "\<not> shared_storage ?c0" using own by simp
        show ?case
          unfolding wp_bind [of the_ctx] wp_cell(2) c3 option.sel if_not_P [OF np] wp_bind [of "consume_private _ _ _ _ _ _"]
          by (rule wp_mono [OF priv]) (rule wp_after_leave [OF _ d3 old(2) _ sz]; simp add: c3)
      qed
    qed
  qed
qed

lemma wp_dyad_consume:
  fixes w :: "('e, 'x) dworld"
  assumes laws: "client_laws F answers owner" and g: "good w" and nd: "\<not> is_dir w p"
    and c: "consumer w c upath topic" and own: "\<not> shared_storage c"
    and ready: "ctx_h c \<noteq> None" "cons_managed_path c \<noteq> None" "managed_path w False p = Match upath"
  shows "wp (dyad_consume F fuel p)
     (consumed (from_owner owner answers c topic upath) (owned_here owner c topic upath) c w p) w"
  using wp_consume_managed [OF laws g nd c own] ready c
  by (auto simp: dyad_consume_def wps wp_managed_upath consumer_def)

section \<open>The properties of consuming\<close>

text \<open>
  C2: what \<^verbatim>\<open>dyad_consume\<close> leaves behind, on a node that shares no storage with the owner and without eviction. Whatever
  calls have failed or were cut short, when the call returns no other file has changed, and (\<open>consumed\<close>):
  after a failure the file is as it was, or newly made and empty, or as another process left it, or it holds
  a beginning of the owner's answer written over that; after success it holds what it held (only when it has data
  and locks are used, or when the owner is this node), or the whole answer of the owner, written over an empty file unless
  locks are off or a call failed. What is said of the answer is said of answers of less than a GiB, which go in one write; for the
  loop that stores longer ones see C3 and \<open>store_loop_corrupts\<close>. A call that does not return (\<open>None\<close>: the fuel of a loop is used up)
  is not covered here either.
\<close>

theorem dyad_consume_correct:
  fixes w :: "('e, 'x) dworld"
  assumes "client_laws F answers owner" and "good w" and "\<not> is_dir w p"
    and "consumer w c upath topic" and "\<not> shared_storage c"
    and "ctx_h c \<noteq> None" "cons_managed_path c \<noteq> None" "managed_path w False p = Match upath"
  shows "wp (dyad_consume F fuel p)
     (consumed (from_owner owner answers c topic upath) (owned_here owner c topic upath) c w p) w"
  by (rule wp_dyad_consume [OF assms])

text \<open>A consumer on node 1 with relative names, and a Flux on which node 6 owns a file and answers it.\<close>

definition consumer_ctx :: dyad_ctx where
  "consumer_ctx = sample_ctx\<lparr>relative_to_managed_path := True, node_idx := 1, service_mux := 1, key_depth := 0,
     key_bins := 1, cons_managed_path := Some ''/a''\<rparr>"

definition consumer_flux :: "nat flux_ops" where
  "consumer_flux = no_flux\<lparr>fx_json_pack := (\<lambda>obj s. (Inr obj, s)), fx_rpc_pack := (\<lambda>_ _ _ _ s. (Inr 0, s)),
     fx_rpc_get_raw := (\<lambda>_ s. (Inr [1, 2, 3], s)), fx_rpc_get := (\<lambda>_ s. (Inl ENODATA, s)),
     fx_kvs_lookup := (\<lambda>_ _ _ _ s. (Inr 0, s)), fx_lookup_get := (\<lambda>_ s. (Inr 6, s))\<rparr>"

lemma consumer_flux_laws: "client_laws consumer_flux (\<lambda>_ _ _ d. d = [1, 2, 3]) (\<lambda>_ _ r. r = 6)"
  by (simp add: client_laws_def consumer_flux_def no_flux_def)

text \<open>Its run, step by step.\<close>

lemma consumer_path: "managed_path (file_world None consumer_ctx 0) False ''f'' = Match ''f''"
  by code_simp

lemma consumer_key: "gen_path_key ''f'' PATH_MAX 0 1 = Some (0, ''f'')" by code_simp

lemmas run_defs = dyad_consume_def consume_managed_def consume_private_def fetch_and_store_def dyad_get_data_def
  dyad_fetch_metadata_def dyad_kvs_read_def request_data_def end_of_stream_def dyad_cons_store_def store_data_def
  consume_done_def consume_close_def give_back_def dyad_dtl_flux_rpc_pack_def dyad_dtl_flux_recv_def
  dyad_dtl_flux_rpc_recv_response_def dyad_dtl_flux_establish_connection_def dyad_dtl_flux_get_buffer_def
  dyad_dtl_flux_close_connection_def dyad_dtl_flux_return_buffer_def mkdir_as_needed_def existing_dir_def
  dyad_excl_flock_def dyad_release_flock_def get_file_size_def report_check_def disabled_evict
lemmas sys_defs = sys_open_def sys_close_def sys_malloc_def sys_write_def sys_fstat_def sys_stat_def sys_setlkw_def
  sys_unlock_def fail_def wp_syscall new_fd_def new_file_def set_data_def set_off_def set_lock_def drop_fd_def
  inode_of_fd_def inode_of_path_def is_dir_def stat_of_def limit_def overlay_def may_lock_def after_wait_def

lemma consumer_file: "cons_managed_path c = Some ''/a'' \<Longrightarrow> cons_file_path c ''f'' = ''/a/f''"
proof -
  have "(case concat_str True (copy_path ''/a'') ''f'' ''/'' PATH_MAX of None \<Rightarrow> copy_path ''/a'' | Some p \<Rightarrow> p) = ''/a/f''" by code_simp
  then show "cons_managed_path c = Some ''/a'' \<Longrightarrow> cons_file_path c ''f'' = ''/a/f''" by (simp add: cons_file_path_def Let_def)
qed
lemma consumer_dirs: "dirname ''/a/f'' = ''/a''" "dirname ''f'' = ''.''" by code_simp+

lemma consumer_cell: "cell (file_world None consumer_ctx 0) = Some consumer_ctx" by (simp add: file_world_def)
lemma consumer_fields: "ctx_h consumer_ctx = Some 5" "cons_managed_path consumer_ctx = Some ''/a''"
  by (simp_all add: consumer_ctx_def sample_ctx_def dyad_ctx_default_def)
lemma consumer_run:
  "wp (dyad_consume consumer_flux 9 ''f'') (\<lambda>r w'. r = Some RC_OK \<and> fdata w' ''f'' = Some [1, 2, 3]) (file_world None consumer_ctx 0)"
proof -
  have "wp (consume_managed consumer_flux 9 ''f'' ''f'') (\<lambda>r w'. r = Some RC_OK \<and> fdata w' ''f'' = Some [1, 2, 3]) (file_world None consumer_ctx 0)"
    by (simp add: run_defs sys_defs wps wp_flux_call consumer_flux_def no_flux_def
    consumer_key file_world_def oflag_defs consumer_ctx_def sample_ctx_def sample_dtl_def dyad_ctx_default_def consumer_dirs consumer_file Let_def
    DYAD_SYNC_DIR_def flux_failed_def dir_inode_def TRANSFER_GRANULARITY_def fdata_def)
  then show ?thesis
  by (simp add: dyad_consume_def wps wp_managed_upath consumer_path consumer_cell consumer_fields)
qed
lemma consumer_ready: "consumer (file_world None consumer_ctx 0) consumer_ctx ''f'' ''f''"
  "\<not> is_dir (file_world None consumer_ctx 0) ''f''" "managed_path (file_world None consumer_ctx 0) False ''f'' = Match ''f''"
proof -
  have "gen_path_key ''f'' PATH_MAX (key_depth consumer_ctx) (key_bins consumer_ctx) = Some (0, ''f'')" by code_simp
  then show "consumer (file_world None consumer_ctx 0) consumer_ctx ''f'' ''f''"
    by (simp add: consumer_def wired_def file_world_def consumer_ctx_def sample_ctx_def sample_dtl_def dyad_ctx_default_def)
  show "\<not> is_dir (file_world None consumer_ctx 0) ''f''" by code_simp
  show "managed_path (file_world None consumer_ctx 0) False ''f'' = Match ''f''" by (rule consumer_path)
qed

theorem dyad_consume_correct_witness:
  "wp (dyad_consume consumer_flux 9 ''f'') (\<lambda>r w'. r = Some RC_OK \<and> fdata w' ''f'' = Some [1, 2, 3]
     \<and> consumed (from_owner (\<lambda>_ _ r. r = 6) (\<lambda>_ _ _ d. d = [1, 2, 3]) consumer_ctx ''f'' ''f'')
          (owned_here (\<lambda>_ _ r. r = 6) consumer_ctx ''f'' ''f'') consumer_ctx (file_world None consumer_ctx 0) ''f'' r w')
     (file_world None consumer_ctx 0)"
proof -
  have "wp (dyad_consume consumer_flux 9 ''f'')
     (consumed (from_owner (\<lambda>_ _ r. r = 6) (\<lambda>_ _ _ d. d = [1, 2, 3]) consumer_ctx ''f'' ''f'')
        (owned_here (\<lambda>_ _ r. r = 6) consumer_ctx ''f'' ''f'') consumer_ctx (file_world None consumer_ctx 0) ''f'')
     (file_world None consumer_ctx 0)"
    by (rule dyad_consume_correct [OF consumer_flux_laws file_world_good consumer_ready(2,1) _ _ _ consumer_ready(3)])
      (simp_all add: consumer_ctx_def sample_ctx_def dyad_ctx_default_def)
  from wp_conj [OF consumer_run this] show ?thesis by (rule wp_mono) simp
qed

end
