(* ===== verification/Client_Live.thy ===== *)
theory Client_Live
  imports Client_Consume
begin

text \<open>
  When nothing fails: with no faults in the schedule, no other process at the files and a Flux that answers,
  \<^verbatim>\<open>dyad_consume\<close> comes to an end, reports success and leaves the owner's data in the file.
\<close>

section \<open>Worlds in which nothing fails\<close>

definition clear :: "'x world_scheme \<Rightarrow> bool" where
  "clear w \<longleftrightarrow> good w \<and> faults w = [] \<and> (\<forall>p d. \<not> left_by_other w p d)"

lemma clearD: "clear w \<Longrightarrow> good w" "clear w \<Longrightarrow> faults w = []" "clear w \<Longrightarrow> \<not> left_by_other w p d"
  by (simp_all add: clear_def)

lemma clear_view: "clear w \<Longrightarrow> view w w' F \<Longrightarrow> clear w'"
  unfolding clear_def view_def by blast

lemma clear_closed: "clear w \<Longrightarrow> closed fd w w' \<Longrightarrow> clear w'"
  unfolding clear_def closed_def by blast

lemma clear_calm: "clear w \<Longrightarrow> calm w w' \<Longrightarrow> clear w'"
  unfolding calm_def by (blast intro: clear_view)

lemma clear_cell [simp]:
  fixes w :: "('e, 'x) dworld"
  shows "clear (w\<lparr>cell := c\<rparr>) = clear w" "clear (w\<lparr>flux := s\<rparr>) = clear w"
  by (simp_all add: clear_def good_def left_by_other_def)

section \<open>Storing\<close>

lemma overlay_take_drop:
  "overlay (overlay old 0 (take k data)) k (take m (drop k data)) = overlay old 0 (take (k + m) data)"
  if "k \<le> length data"
  using overlay_splice [of old 0 "take k data" "take m (drop k data)"] that
  by (simp add: min_absorb2 take_add)

lemma wp_store_loop_clear:
  assumes "clear w" "fd_at w fd p rd True" "fdata w p = Some (overlay old 0 (take k data))" "write_at w fd k"
    and "k \<le> length data" "length data - k < fuel"
  shows "wp (store_loop fuel fd data (int k)) (\<lambda>r w'. r = Some (Some (int (length data)))
     \<and> view w w' ((fdata w)(p \<mapsto> overlay old 0 data))) w"
  using assms
proof (induction fuel arbitrary: w k)
  case (Suc fuel)
  have g: "good w" using Suc.prems(1) by (simp add: clear_def)
  show ?case
  proof (cases "k < length data")
    case False
    then have "overlay old 0 (take k data) = overlay old 0 data" using Suc.prems(5) by simp
    then have "(fdata w)(p \<mapsto> overlay old 0 data) = fdata w" using Suc.prems(3) by (metis fun_upd_triv)
    with False view_refl [OF g] Suc.prems(5) show ?thesis by simp
  next
    case True
    define size where "size = min TRANSFER_GRANULARITY (length data - k)"
    have pos: "0 < size" using True by (simp add: size_def TRANSFER_GRANULARITY_def)
    let ?buf = "take size (drop k data)"
    have len: "length ?buf = size" by (simp add: size_def)
    have written: "nat (if int (length data) - int k > int TRANSFER_GRANULARITY then int TRANSFER_GRANULARITY
        else int (length data) - int k) = size"
      using True by (auto simp: size_def min_def nat_diff_distrib)
    have "wp (sys_write fd ?buf) (\<lambda>n. wp (if n = 0 then State_Monad.return (Some None)
        else store_loop fuel fd data (int k + n)) (\<lambda>r w'. r = Some (Some (int (length data)))
          \<and> view w w' ((fdata w)(p \<mapsto> overlay old 0 data)))) w"
    proof (rule wp_write_view [OF g Suc.prems(2-4)], goal_cases)
      case (1 w')
      then show ?case using clearD(2) [OF Suc.prems(1)] by simp
    next
      case (2 n w')
      have n: "n = size" using 2(6) clearD(2) [OF Suc.prems(1)] len by simp
      have v: "view w w' ((fdata w)(p \<mapsto> overlay old 0 (take (k + size) data)))"
        using 2(1) n overlay_take_drop [OF Suc.prems(5)] by simp
      have d: "fdata w' = (fdata w)(p \<mapsto> overlay old 0 (take (k + size) data))" by (rule viewD(2) [OF v])
      have "wp (store_loop fuel fd data (int (k + size))) (\<lambda>r w''. r = Some (Some (int (length data)))
          \<and> view w' w'' ((fdata w')(p \<mapsto> overlay old 0 data))) w'"
        by (rule Suc.IH [OF clear_view [OF Suc.prems(1) v] viewD(6) [OF v Suc.prems(2)]])
          (use 2(2) n d pos Suc.prems(6) True in \<open>auto simp: size_def\<close>)
      then show ?case
        using n pos view_trans [OF v] by (auto simp: d elim!: wp_mono)
    qed
    then show ?thesis using True written by (simp add: Let_def wp_bind fun_upd_def)
  qed
qed simp

lemma wp_store_data_clear:
  assumes "clear w" "fd_at w fd p rd True" "fdata w p = Some old" "write_at w fd 0" "length data < fuel"
  shows "wp (store_data fuel fd data) (\<lambda>r w'. r = Some RC_OK
     \<and> view w w' ((fdata w)(p \<mapsto> overlay old 0 data))) w"
proof (cases "length data < TRANSFER_GRANULARITY")
  case True
  have "wp (sys_write fd data) (\<lambda>n w'. n = int (length data) \<and> view w w' ((fdata w)(p \<mapsto> overlay old 0 data))) w"
    by (rule wp_write_view [OF clearD(1) [OF assms(1)] assms(2-4)]) (use clearD(2) [OF assms(1)] in auto)
  with True show ?thesis by (auto simp: store_data_def wps elim!: wp_mono)
next
  case False
  have "wp (store_loop fuel fd data (int 0)) (\<lambda>r w'. r = Some (Some (int (length data)))
     \<and> view w w' ((fdata w)(p \<mapsto> overlay old 0 data))) w"
    by (rule wp_store_loop_clear) (use assms in auto)
  with False show ?thesis by (auto simp: store_data_def wps elim!: wp_mono)
qed

lemma wp_mkdir_exists:
  assumes "clear w" "is_dir w d" "d \<noteq> []"
  shows "wp (mkdir_as_needed fuel (Some d) m) (\<lambda>r w'. (\<exists>k. r = Some k \<and> 0 \<le> k) \<and> w' = w) w"
proof -
  obtain i where i: "inode_of_path w d = Some i" "i_dir i"
    using assms(2) by (auto simp: is_dir_def split: option.splits)
  have "wp (sys_stat d) (\<lambda>sb w'. sb = Some (stat_of i) \<and> w' = w) w"
    by (rule wp_sys_stat_good) (use i clearD(2) [OF assms(1)] in simp_all)
  then show ?thesis
    using i assms(3) by (auto simp: mkdir_as_needed_def wps existing_dir_def stat_of_def elim!: wp_mono)
qed

lemma view_environ [simp]:
  fixes w w' :: "('e, 'x) dworld"
  shows "view w (w'\<lparr>environ := v\<rparr>) G = view w w' G"
  by (simp add: view_def good_def left_by_other_def fd_at_def is_dir_def inode_of_path_def fdata_def fun_eq_iff
      cong: conj_cong split: option.split)

lemma wp_report_check_view:
  fixes w w0 :: "('e, 'x) dworld"
  assumes "view w0 w G"
  shows "wp (report_check rc) (\<lambda>_ w'. view w0 w' G \<and> cell w' = cell w \<and> flux w' = flux w) w"
  using assms by (auto simp: report_check_def wps)

text \<open>The directory for the file is there; with relative names the code makes none.\<close>

definition has_dir :: "('e, 'x) dworld \<Rightarrow> string \<Rightarrow> bool" where
  "has_dir w odir \<longleftrightarrow> strncmp_eq odir ''.'' 1 \<or> odir \<noteq> [] \<and> is_dir w odir"

lemma wp_cons_store_clear:
  fixes w :: "('e, 'x) dworld"
  assumes "clear w" "fd_at w fd p rd True" "fdata w p = Some old" "write_at w fd 0" "length data < fuel"
    and "has_dir w (dirname (cons_file_path (the (cell w)) (fpath md)))"
  shows "wp (dyad_cons_store fuel md fd data) (\<lambda>r w'. r = Some RC_OK \<and> cell w' = cell w \<and> flux w' = flux w
     \<and> view w w' ((fdata w)(p \<mapsto> overlay old 0 data))) w"
proof -
  define odir where "odir = dirname (cons_file_path (the (cell w)) (fpath md))"
  let ?make = "if \<not> strncmp_eq odir ''.'' 1 then mkdir_as_needed fuel (Some odir) DIR_MODE else State_Monad.return (Some 0)"
  let ?post = "\<lambda>r w'. r = Some RC_OK \<and> cell w' = cell w \<and> flux w' = flux w
     \<and> view w w' ((fdata w)(p \<mapsto> overlay old 0 data))"
  have "wp ?make (\<lambda>r w'. (\<exists>k. r = Some k \<and> 0 \<le> k) \<and> w' = w) w"
    using assms(6) wp_mkdir_exists [OF assms(1), of odir fuel DIR_MODE] by (auto simp: has_dir_def odir_def)
  moreover have "wp (do {
         rc \<leftarrow> (if k < 0 then State_Monad.return (Some RC_BADFIO) else store_data fuel fd data);
         case rc of
           None \<Rightarrow> State_Monad.return None
         | Some rc \<Rightarrow> do { report_check rc; State_Monad.return (Some rc) } }) ?post w" if "0 \<le> k" for k :: int
  proof -
    have nk: "\<not> k < 0" using that by simp
    show ?thesis
      unfolding if_not_P [OF nk] wp_bind [of "store_data _ _ _"]
    proof (rule wp_posix_with [OF posix_store], rule wp_mono [OF wp_store_data_clear [OF assms(1-5)]],
        intro impI, elim conjE, goal_cases)
      case (1 r w')
      note m = more_eq_parts(1,6) [OF 1(1)]
      show ?case
        unfolding 1(2) option.case wp_bind
        by (rule wp_mono [OF wp_report_check_view [OF 1(3)]]) (use m in simp)
    qed
  qed
  ultimately show ?thesis
    unfolding dyad_cons_store_def wp_bind wp_cell(2) Let_def odir_def [symmetric]
    by (elim wp_mono) (clarsimp simp: wp_bind)
qed

section \<open>A Flux that answers\<close>

text \<open>Every call of the client is answered, and a stream of responses ends after its data.\<close>

definition client_works :: "'e flux_ops \<Rightarrow> bool" where
  "client_works F \<longleftrightarrow> (\<forall>obj s. \<not> isl (fst (fx_json_pack F obj s)))
     \<and> (\<forall>h topic rank p s. \<not> isl (fst (fx_rpc_pack F h topic rank p s)))
     \<and> (\<forall>f s. \<not> isl (fst (fx_rpc_get_raw F f s)))
     \<and> (\<forall>f s. fst (fx_rpc_get F f s) = Inl ENODATA)
     \<and> (\<forall>h ns wait topic s. \<not> isl (fst (fx_kvs_lookup F h ns wait topic s)))
     \<and> (\<forall>f s. \<not> isl (fst (fx_lookup_get F f s)))"

lemma client_worksD:
  assumes "client_works F"
  shows "\<exists>a s'. fx_json_pack F obj s = (Inr a, s')" "\<exists>a s'. fx_rpc_pack F h topic rank p s = (Inr a, s')"
    "\<exists>a s'. fx_rpc_get_raw F f s = (Inr a, s')" "\<exists>s'. fx_rpc_get F fo s = (Inl ENODATA, s')"
    "\<exists>a s'. fx_kvs_lookup F h ns wait topic s = (Inr a, s')" "\<exists>a s'. fx_lookup_get F f s = (Inr a, s')"
proof -
  have ok: "\<exists>a s'. x = (Inr a, s')" if "\<not> isl (fst x)" for x :: "(c_errno + 'b) \<times> 'c"
    using that by (cases x; cases "fst x") auto
  show "\<exists>a s'. fx_json_pack F obj s = (Inr a, s')" "\<exists>a s'. fx_rpc_pack F h topic rank p s = (Inr a, s')"
    "\<exists>a s'. fx_rpc_get_raw F f s = (Inr a, s')"
    "\<exists>a s'. fx_kvs_lookup F h ns wait topic s = (Inr a, s')" "\<exists>a s'. fx_lookup_get F f s = (Inr a, s')"
    using assms by (auto simp: client_works_def intro!: ok)
  show "\<exists>s'. fx_rpc_get F fo s = (Inl ENODATA, s')"
    using assms by (metis client_works_def prod.collapse)
qed

lemma wp_malloc_clear: "faults w = [] \<Longrightarrow> wp sys_malloc Q w = Q True w"
  by (simp add: sys_malloc_def wp_syscall)

lemma wp_fetch_metadata_clear:
  fixes w :: "('e, 'x) dworld"
  assumes "client_works F" "clear w" "cell w = Some c" "service_mux c \<noteq> 0"
    and "gen_path_key upath PATH_MAX (key_depth c) (key_bins c) = Some (k, topic)"
  shows "wp (dyad_fetch_metadata F fname upath) (\<lambda>r w'. \<exists>m. r = Some (RC_OK, m)) w"
proof -
  from client_worksD(5) [OF assms(1)] obtain f s1
    where 1: "fx_kvs_lookup F (ctx_h c) (kvs_namespace c) True topic (flux w) = (Inr f, s1)" by blast
  from client_worksD(6) [OF assms(1)] obtain r s2 where 2: "fx_lookup_get F f s1 = (Inr r, s2)" by blast
  show ?thesis
    using assms(3-5) 1 2 clearD(2) [OF assms(2)]
    by (simp add: dyad_fetch_metadata_def dyad_kvs_read_def wps wp_flux_call wp_malloc_clear)
qed

lemma wp_get_data_clear:
  fixes w :: "('e, 'x) dworld"
  assumes "client_works F" "clear w" "wired w"
  shows "wp (dyad_get_data F md) (\<lambda>(rc, d, n) w'. rc = RC_OK) w"
proof -
  obtain c dt fd where c: "cell w = Some c" "dtl_handle c = Some dt" "flux_dtl_handle dt = Some fd"
    using assms(3) by (auto simp: wired_def)
  from client_worksD(1) [OF assms(1)] obtain q s1
    where 1: "fx_json_pack F [(''upath'', JStr (fpath md))] (flux w) = (Inr q, s1)" by blast
  from client_worksD(2) [OF assms(1)] obtain f s2
    where 2: "fx_rpc_pack F (ctx_h c) DYAD_DTL_RPC_NAME (owner_rank md) q s1 = (Inr f, s2)" by blast
  from client_worksD(3) [OF assms(1)] obtain d s3 where 3: "fx_rpc_get_raw F f s2 = (Inr d, s3)" by blast
  obtain g where 4: "fx_rpc_get F (Some f) = (\<lambda>s. (Inl ENODATA, g s))"
  proof
    show "fx_rpc_get F (Some f) = (\<lambda>s. (Inl ENODATA, snd (fx_rpc_get F (Some f) s)))"
      using client_worksD(4) [OF assms(1)] by (metis snd_conv)
  qed
  show ?thesis
    using c 1 2 3 4 clearD(2) [OF assms(2)]
    by (simp add: dyad_get_data_def dyad_dtl_flux_rpc_pack_def request_data_def end_of_stream_def
        dyad_dtl_flux_rpc_recv_response_def dyad_dtl_flux_establish_connection_def dyad_dtl_flux_recv_def
        dyad_dtl_flux_get_buffer_def dyad_dtl_flux_close_connection_def wps wp_flux_call wp_malloc_clear flux_failed_def get_errno_def wp_State)
qed

section \<open>Descriptors\<close>

lemma wp_open_wr_clear:
  fixes w :: "('e, 'x) dworld"
  assumes "clear w" "fdata w p = Some d"
    and "\<And>fd (w' :: ('e, 'x) dworld). view w w' (fdata w) \<Longrightarrow> cell w' = cell w \<Longrightarrow> flux w' = flux w \<Longrightarrow> 0 \<le> fd \<Longrightarrow>
       next_fd w = nat fd \<Longrightarrow> fd_at w' fd p False True \<Longrightarrow> write_at w' fd 0 \<Longrightarrow> Q fd w'"
  shows "wp (sys_open p O_WRONLY m) Q w"
proof -
  note g = clearD(1) [OF assms(1)] and f = clearD(2) [OF assms(1)]
  have nd: "\<not> is_dir w p" using assms(2) fdata_is_dir by fastforce
  have ok: "open_ok w p O_WRONLY" "opened w p O_WRONLY = fdata w"
    using assms(2) by (simp_all add: open_ok_def opened_def oflag_defs)
  have fl: "opens_write O_WRONLY" by (simp add: oflag_defs)
  have num: "wp (sys_open p O_WRONLY m) (\<lambda>fd w'. view w w' (fdata w) \<and> 0 \<le> fd \<and> next_fd w = nat fd) w"
    by (rule wp_open_view [OF g nd]) (use f ok in auto)
  have at: "wp (sys_open p O_WRONLY m) (\<lambda>fd w'. fd = - 1 \<or> 0 \<le> fd \<and> cell w' = cell w \<and> flux w' = flux w
      \<and> fd_at w' fd p False True \<and> write_at w' fd 0) w"
    by (rule wp_open_wr [OF g assms(2)]) simp_all
  show ?thesis
    by (rule wp_mono [OF wp_conj [OF num at]]) (auto intro!: assms(3))
qed

lemma wp_close_clear:
  fixes w :: "('e, 'x) dworld"
  assumes "clear w" "fd_at w fd p rd wr"
    and "\<And>w' :: ('e, 'x) dworld. closed fd w w' \<Longrightarrow> clear w' \<Longrightarrow> cell w' = cell w \<Longrightarrow> flux w' = flux w \<Longrightarrow> Q 0 w'"
  shows "wp (sys_close fd) Q w"
proof -
  from assms(2) have f: "0 \<le> fd" "fds w (nat fd) \<noteq> None" by (auto simp: fd_at_def)
  have c: "closed fd w (drop_fd fd w)" by (rule closed_drop_fd [OF clearD(1) [OF assms(1)] f(1)])
  have m: "world.more (drop_fd fd w) = world.more w" by simp
  from assms(3) [OF c clear_closed [OF assms(1) c]] more_eq_parts(1,6) [OF m]
  show ?thesis using f clearD(2) [OF assms(1)] by (auto simp: sys_close_def wp_syscall)
qed

lemma wp_unlock_clear:
  fixes w :: "('e, 'x) dworld"
  assumes "clear w" "fd_at w fd p rd wr" "fdata w p = Some d"
    and "\<And>rc (w' :: ('e, 'x) dworld). view w w' (fdata w) \<Longrightarrow> clear w' \<Longrightarrow> cell w' = cell w \<Longrightarrow> flux w' = flux w \<Longrightarrow> Q rc w'"
  shows "wp (dyad_release_flock fd True) Q w"
proof (rule wp_posix_with [OF posix_flocks(4)], rule wp_release_flock_view [OF clearD(1) [OF assms(1)] assms(2,3)],
    intro impI, goal_cases)
  case (1 rc w')
  from assms(4) [OF 1(1) clear_view [OF assms(1) 1(1)]] more_eq_parts(1,6) [OF 1(2)] show ?case .
qed

section \<open>Fetching and storing\<close>

lemma settings_paths:
  assumes "settings w' = settings w" "cell w = Some c"
  shows "\<exists>c'. cell w' = Some c' \<and> cons_managed_path c' = cons_managed_path c"
proof -
  from assms obtain c' where c': "cell w' = Some c'"
    "c'\<lparr>reenter := True, dtl_handle := None\<rparr> = c\<lparr>reenter := True, dtl_handle := None\<rparr>"
    by (auto simp: settings_def)
  from c'(2) have "cons_managed_path c' = cons_managed_path c" by (cases c; cases c'; simp)
  with c'(1) show ?thesis by blast
qed

definition stored_here ::
  "('e, 'x) dworld \<Rightarrow> string \<Rightarrow> int \<Rightarrow> (bytes \<Rightarrow> bool) \<Rightarrow> leave \<Rightarrow> ('e, 'x) dworld \<Rightarrow> bool" where
  "stored_here w p lock_fd P l w' \<longleftrightarrow> (\<exists>x d. l = Falls x \<and> P d \<and> settings w' = settings w \<and> clear w'
     \<and> fd_at w' lock_fd p True True \<and> fdata w' = (fdata w)(p \<mapsto> d))"

lemma wp_store_fetched_clear:
  fixes w :: "('e, 'x) dworld"
  assumes "clear w" "fdata w p = Some []" "fd_at w lock_fd p True True" "P d" "length d < fuel"
    and "has_dir w (dirname (cons_file_path (the (cell w)) (fpath md)))"
  shows "wp (do {
       io_fd \<leftarrow> sys_open p O_WRONLY 0;
       if io_fd = - 1 then State_Monad.return (To_close RC_BADFIO)
       else do {
         rc \<leftarrow> dyad_cons_store fuel md io_fd d;
         case rc of
           None \<Rightarrow> State_Monad.return Undefined
         | Some rc \<Rightarrow> do {
             r \<leftarrow> sys_close io_fd;
             if r \<noteq> 0 then do {
               _ \<leftarrow> dyad_release_flock lock_fd True;
               State_Monad.return (To_done RC_BADFIO file_data) }
             else if is_error rc then do {
               _ \<leftarrow> dyad_release_flock (if through_io then io_fd else lock_fd) True;
               State_Monad.return (To_done rc file_data) }
             else State_Monad.return (Falls file_data) } } }) (stored_here w p lock_fd P) w"
proof (subst wp_bind, rule wp_open_wr_clear [OF assms(1,2)], goal_cases)
  case (1 io_fd w1)
  note v = viewD [OF 1(1)] and c1 = clear_view [OF assms(1) 1(1)]
  have d: "fdata w1 p = Some []" using v(2) assms(2) by simp
  have n: "io_fd \<noteq> - 1" using 1(4) by simp
  have new: "lock_fd \<noteq> io_fd"
    using fd_at_less [OF clearD(1) [OF assms(1)] assms(3)] 1(5) assms(3) by (auto simp: fd_at_def)
  have dir: "has_dir w1 (dirname (cons_file_path (the (cell w1)) (fpath md)))"
    using assms(6) v(4) 1(2) by (simp add: has_dir_def)
  show ?case
    unfolding if_not_P [OF n] wp_bind [of "dyad_cons_store _ _ _ _"]
  proof (rule wp_mono [OF wp_cons_store_clear [OF c1 1(6) d 1(7) assms(5) dir]], elim conjE, goal_cases)
    case (1 r w2)
    have o: "overlay [] 0 d = d" by (simp add: overlay_def)
    note v2 = viewD [OF 1(4)]
    have ok: "\<not> is_error RC_OK" by simp
    show ?case
      unfolding 1(1) option.case wp_bind [of "sys_close _"]
    proof (rule wp_close_clear [OF clear_view [OF c1 1(4)] v2(6) [OF \<open>fd_at w1 io_fd p False True\<close>]], goal_cases)
      case (1 w3)
      have "fd_at w3 lock_fd p True True"
        using 1(1) new v2(6) [OF v(6) [OF assms(3)]] by (simp add: closed_def)
      moreover have "fdata w3 = (fdata w)(p \<mapsto> d)" using 1(1) v2(2) v(2) o by (simp add: closed_def)
      moreover have "settings w3 = settings w"
        using settings_cell [of w3 w] 1(3) \<open>cell w2 = cell w1\<close> \<open>cell w1 = cell w\<close> by simp
      ultimately show ?case using 1(2) assms(4) by (simp add: stored_here_def) blast
    qed
  qed
qed

lemma wp_fetch_and_store_clear:
  fixes w :: "('e, 'x) dworld"
  assumes laws: "client_laws F answers owner" "client_works F"
    and w: "clear w" "fdata w p = Some []" "fd_at w lock_fd p True True" "wired w" "cell w = Some c"
    and dir: "has_dir w (dirname (cons_file_path c (fpath md)))"
    and P: "\<And>d. answers (owner_rank md) DYAD_DTL_RPC_NAME (fetch_payload (fpath md)) d \<Longrightarrow> P d \<and> length d < fuel"
  shows "wp (fetch_and_store F fuel through_io p md lock_fd) (stored_here w p lock_fd P) w"
  unfolding fetch_and_store_def wp_bind [of "dyad_get_data _ _"]
proof (rule wp_mono [OF wp_conj [OF wp_get_data [OF laws(1) calm_refl [OF clearD(1) [OF w(1)]] w(4)]
      wp_get_data_clear [OF laws(2) w(1,4)]]], clarify, goal_cases)
  case (1 rc data n w1)
  note c1 = calmD [OF 1(1)]
  from 1(2) obtain d where d: "data = Some d" "P d" "length d < fuel"
    using P by (auto simp: got_def)
  obtain c' where c': "cell w1 = Some c'" "cons_managed_path c' = cons_managed_path c"
    using settings_paths [OF c1(3) w(5)] by blast
  have dir1: "has_dir w1 (dirname (cons_file_path (the (cell w1)) (fpath md)))"
    using dir c1(7) c' by (simp add: has_dir_def cons_file_path_def)
  have p1: "fdata w1 p = Some []" using c1(2) w(2) by simp
  have lift: "stored_here w p lock_fd P l w'" if "stored_here w1 p lock_fd P l w'" for l w'
    using that c1(2,3) by (simp add: stored_here_def)
  have ok: "\<not> is_error RC_OK" by simp
  note st = wp_store_fetched_clear [where file_data = data and through_io = through_io and P = P,
      OF clear_calm [OF w(1) 1(1)] p1 c1(5) [OF w(3)] d(2,3) dir1]
  show ?case
    unfolding if_not_P [OF ok] d(1) option.sel
    by (rule wp_mono [OF st [unfolded d(1)]], rule lift)
qed

lemma wp_consume_private_clear:
  fixes w :: "('e, 'x) dworld"
  assumes laws: "client_laws F answers owner" "client_works F"
    and w: "clear w" "fdata w p = Some []" "fd_at w lock_fd p True True"
    and c: "consumer w c upath topic"
    and dir: "has_dir w (dirname (cons_file_path c upath))"
    and away: "\<not> owned_here owner c topic upath"
    and fuel: "\<And>d. from_owner owner answers c topic upath d \<Longrightarrow> length d < fuel"
  shows "wp (consume_private F fuel p upath lock_fd 0)
     (stored_here w p lock_fd (from_owner owner answers c topic upath)) w"
proof -
  let ?P = "from_owner owner answers c topic upath"
  from c obtain k where k: "gen_path_key upath PATH_MAX (key_depth c) (key_bins c) = Some (k, topic)"
    and cw: "cell w = Some c" "wired w" "service_mux c \<noteq> 0" by (auto simp: consumer_def)
  have fin: "wp (case l of
       Falls file_data \<Rightarrow> do {
         _ \<leftarrow> dyad_release_flock lock_fd True;
         c \<leftarrow> get_cell;
         _ \<leftarrow> dyad_cache_maybe_evict c (cons_managed_path (the c));
         State_Monad.return l }
     | _ \<Rightarrow> State_Monad.return l) (stored_here w p lock_fd ?P) w1" if l: "stored_here w p lock_fd ?P l w1" for l w1
  proof -
    from l obtain x d where x: "l = Falls x" "?P d" "settings w1 = settings w" "clear w1"
      "fd_at w1 lock_fd p True True" "fdata w1 = (fdata w)(p \<mapsto> d)" by (auto simp: stored_here_def)
    have d1: "fdata w1 p = Some d" using x(6) by simp
    show ?thesis
      unfolding x(1) leave.case wp_bind [of "dyad_release_flock _ _"]
    proof (rule wp_unlock_clear [OF x(4,5) d1], goal_cases)
      case (1 rc w2)
      have s2: "settings w2 = settings w" using settings_cell [OF 1(3)] x(3) by simp
      obtain c2 where c2: "cell w2 = Some c2" "cache_capacity_bytes c2 = 0"
        using settingsD [OF s2 cw(1)] c by (auto simp: consumer_def)
      show ?case
        using c2 x(2,6) s2 1(2) viewD(2) [OF 1(1)] viewD(6) [OF 1(1) x(5)]
        by (auto simp: wps disabled_evict stored_here_def)
    qed
  qed
  have fetch: "wp (do {
       r \<leftarrow> dyad_fetch_metadata F p upath;
       case r of
         None \<Rightarrow> State_Monad.return Undefined
       | Some (rc, mdata) \<Rightarrow>
           if is_error rc then do {
             _ \<leftarrow> dyad_release_flock lock_fd True;
             State_Monad.return (To_done rc None) }
           else (case mdata of
                   None \<Rightarrow> do {
                     _ \<leftarrow> dyad_release_flock lock_fd True;
                     State_Monad.return (To_done RC_OK None) }
                 | Some md \<Rightarrow> fetch_and_store F fuel False p md lock_fd) }) (stored_here w p lock_fd ?P) w"
    unfolding wp_bind
  proof (rule wp_mono [OF wp_conj [OF wp_fetch_metadata [OF laws(1) calm_refl [OF clearD(1) [OF w(1)]] cw(1) k cw(3)]
        wp_fetch_metadata_clear [OF laws(2) w(1) cw(1,3) k]]], elim conjE exE, goal_cases)
    case (1 r w1 m rc m')
    note c1 = calmD [OF 1(1)]
    from 1 obtain md where md: "found owner (kvs_namespace c) topic upath md" "r = Some (RC_OK, Some md)"
      "owner_rank md div service_mux c \<noteq> node_idx c"
      using away by (auto simp: owned_here_def split: if_splits)
    have P: "?P d \<and> length d < fuel"
      if "answers (owner_rank md) DYAD_DTL_RPC_NAME (fetch_payload (fpath md)) d" for d
    proof -
      have "?P d" using md that by (auto simp: from_owner_def found_def)
      from conjI [OF this fuel [OF this]] show ?thesis .
    qed
    have p1: "fdata w1 p = Some []" using c1(2) w(2) by simp
    have dir1: "has_dir w1 (dirname (cons_file_path c (fpath md)))"
    proof -
      have f: "fpath md = upath" using md(1) by (auto simp: found_def)
      show ?thesis using dir by (simp add: has_dir_def f c1(7))
    qed
    have cw1: "cell w1 = Some c" using 1 cw(1) by simp
    have "wp (fetch_and_store F fuel False p md lock_fd) (stored_here w1 p lock_fd ?P) w1"
      by (rule wp_fetch_and_store_clear [OF laws clear_calm [OF w(1) 1(1)] p1 c1(5) [OF w(3)] c1(4) [OF cw(2)]
            cw1 dir1 P])
    moreover have "stored_here w p lock_fd ?P l w'" if "stored_here w1 p lock_fd ?P l w'" for l w'
      using that c1(2,3) by (simp add: stored_here_def)
    ultimately show ?case unfolding md(2) by (auto elim: wp_mono)
  qed
  have True: "\<not> use_fs_locks c \<or> (0 :: int) \<le> 0" by simp
  show ?thesis
    unfolding consume_private_def wp_bind [of the_ctx] wp_cell(2) cw(1) option.sel if_P [OF True]
      wp_bind [of "_ \<bind> _"]
    by (rule wp_mono [OF fetch], rule fin)
qed

section \<open>The whole call\<close>

text \<open>The file is there and empty, or can be created.\<close>

definition can_create :: "'x world_scheme \<Rightarrow> string \<Rightarrow> bool" where
  "can_create w p \<longleftrightarrow> fdata w p = Some [] \<or> fdata w p = None \<and> is_dir w (dirname p) \<and> \<not> is_dir w p"

lemma can_create_opens:
  assumes "can_create w p"
  shows "\<not> is_dir w p" "open_ok w p (O_RDWR OR O_CREAT)" "opened w p (O_RDWR OR O_CREAT) = (fdata w)(p \<mapsto> [])"
proof -
  show "\<not> is_dir w p" using assms fdata_is_dir by (fastforce simp: can_create_def)
  show "open_ok w p (O_RDWR OR O_CREAT)"
    using assms by (auto simp: can_create_def open_ok_def oflag_defs)
  show "opened w p (O_RDWR OR O_CREAT) = (fdata w)(p \<mapsto> [])"
    using assms by (auto simp: can_create_def opened_def oflag_defs fun_eq_iff)
qed

lemma wp_dyad_consume_clear:
  fixes w :: "('e, 'x) dworld"
  assumes laws: "client_laws F answers owner" "client_works F" and w: "clear w" "can_create w p"
    and c: "consumer w c upath topic" and own: "\<not> shared_storage c"
    and ready: "ctx_h c \<noteq> None" "cons_managed_path c \<noteq> None" "managed_path w False p = Match upath"
    and dir: "has_dir w (dirname (cons_file_path c upath))"
    and away: "\<not> owned_here owner c topic upath"
    and fuel: "\<And>d. from_owner owner answers c topic upath d \<Longrightarrow> length d < fuel"
  shows "wp (dyad_consume F fuel p) (\<lambda>r w'. r = Some RC_OK
     \<and> (\<exists>d. from_owner owner answers c topic upath d \<and> fdata w' = (fdata w)(p \<mapsto> d))) w" (is "wp _ ?post w")
proof -
  let ?w0 = "w\<lparr>cell := map_option (\<lambda>c. c\<lparr>reenter := False\<rparr>) (cell w)\<rparr>"
  let ?c0 = "c\<lparr>reenter := False\<rparr>" and ?flags = "O_RDWR OR O_CREAT"
  let ?P = "from_owner owner answers c topic upath"
  have cw: "cell ?w0 = Some ?c0" using c by (simp add: consumer_def)
  have con: "consumer w' ?c0 upath topic" if "cell w' = cell ?w0" for w' :: "('e, 'x) dworld"
    using c that by (auto simp: consumer_def wired_def)
  have same: "from_owner owner answers ?c0 topic upath = ?P" "owned_here owner ?c0 topic upath = owned_here owner c topic upath"
    "cons_file_path ?c0 upath = cons_file_path c upath"
    by (simp_all add: from_owner_def owned_here_def cons_file_path_def fun_eq_iff)
  have cl0: "clear ?w0" using w(1) by simp
  have "can_create ?w0 p" using w(2) by (simp add: can_create_def)
  note cc = can_create_opens [OF this]
  have fl: "opens_read ?flags" "opens_write ?flags" by (simp_all add: oflag_defs)
  have "wp (consume_managed F fuel p upath) ?post w"
    unfolding consume_managed_def wp_bind [of "upd_ctx _"] wp_cell(4) wp_bind [of "sys_open _ _ _"]
  proof (rule wp_posix_with [OF posix_sys(2)], (rule wp_open_view [OF clearD(1) [OF cl0] cc(1)]; intro impI), goal_cases)
    case (1 w1)
    then show ?case using clearD(2) [OF w(1)] cc(2) by simp
  next
    case (2 lock_fd w1)
    note v1 = viewD [OF 2(1)] and c1 = clear_view [OF cl0 2(1)] and m1 = more_eq_parts(1) [OF 2(6)]
    have at1: "fd_at w1 lock_fd p True True" using 2(4) fl by simp
    have d1: "fdata w1 = (fdata w)(p \<mapsto> [])" using v1(2) cc(3) by simp
    then have p1: "fdata w1 p = Some []" by simp
    have n: "lock_fd \<noteq> - 1" using 2(2) by simp
    have ok: "\<not> is_error RC_OK" by simp
    show ?case
      unfolding if_not_P [OF n] wp_bind [of "dyad_excl_flock _ _"]
    proof (rule wp_posix_with [OF posix_flocks(1)],
        (rule wp_excl_flock_view [OF clearD(1) [OF c1] at1 p1]; intro impI), goal_cases)
      case (1 w2)
      then show ?case using clearD(2) [OF c1] by simp
    next
      case (2 G w2)
      note v2 = viewD [OF 2(1)] and c2 = clear_view [OF c1 2(1)] and m2 = more_eq_parts(1) [OF 2(3)]
      have d2: "fdata w2 = (fdata w)(p \<mapsto> [])" using 2(2) clearD(3) [OF c1] v2(2) d1 by auto
      then have p2: "fdata w2 p = Some []" by simp
      show ?case
        unfolding if_not_P [OF ok] wp_bind [of "get_file_size _"]
      proof (rule wp_posix_with [OF posix_attrs(4)],
          rule wp_get_file_size_view [OF v2(1) v2(6) [OF at1] p2], intro impI, goal_cases)
        case (1 sz w3)
        note v3 = viewD [OF 1(1)] and c3 = clear_view [OF c2 1(1)]
        have cw3: "cell w3 = Some ?c0" using more_eq_parts(1) [OF 1(3)] m2 m1 cw by simp
        have sz: "sz = 0" using 1(2) clearD(2) [OF c2] by simp
        have d3: "fdata w3 = (fdata w)(p \<mapsto> [])" using v3(2) d2 by simp
        then have p3: "fdata w3 p = Some []" by simp
        have dir3: "has_dir w3 (dirname (cons_file_path ?c0 upath))"
          using dir v1(4) v2(4) v3(4) same(3) by (simp add: has_dir_def)
        have con3: "consumer w3 ?c0 upath topic" by (rule con) (simp only: cw3 cw)
        have np: "\<not> shared_storage ?c0" using own by simp
        have away0: "\<not> owned_here owner ?c0 topic upath" using away same(2) by simp
        have priv: "wp (consume_private F fuel p upath lock_fd sz) (stored_here w3 p lock_fd ?P) w3"
          using wp_consume_private_clear [OF laws c3 p3 v3(6) [OF v2(6) [OF at1]] con3 dir3 away0] fuel
          by (simp add: same(1) sz)
        show ?case
          unfolding wp_bind [of the_ctx] wp_cell(2) cw3 option.sel if_not_P [OF np] wp_bind [of "consume_private _ _ _ _ _ _"]
        proof (rule wp_mono [OF priv], goal_cases)
          case (1 l w4)
          then obtain x d where x: "l = Falls x" "?P d" "settings w4 = settings w3" "clear w4"
            "fd_at w4 lock_fd p True True" "fdata w4 = (fdata w)(p \<mapsto> d)" by (auto simp: stored_here_def d3)
          obtain c4 where c4: "cell w4 = Some c4" using settingsD [OF x(3) cw3] by blast
          show ?case
            unfolding x(1) leave.case consume_done_def wp_bind [of "sys_close _"]
          proof (rule wp_close_clear [OF x(4,5)], goal_cases)
            case (1 w5)
            then show ?case
              using x(2,6) c4
              by (auto simp: closed_def give_back_def dyad_dtl_flux_return_buffer_def consume_close_def wps)
          qed
        qed
      qed
    qed
  qed
  then show ?thesis
    using ready c by (auto simp: dyad_consume_def wps wp_managed_upath consumer_def)
qed

section \<open>Properties\<close>

text \<open>
  C3: consuming succeeds when nothing fails. With an empty schedule of faults, no other process holding
  locks, a Flux that answers, and a file that is owned elsewhere and whose local copy is empty or
  can be created, \<^verbatim>\<open>dyad_consume\<close> terminates with \<^verbatim>\<open>DYAD_RC_OK\<close>, the local copy then holds exactly the
  owner's data, of whatever size, and all other files are as before.
\<close>

theorem dyad_consume_completes:
  fixes w :: "('e, 'x) dworld"
  assumes "client_laws F answers owner" "client_works F" and "clear w" "can_create w p"
    and "consumer w c upath topic" and "\<not> shared_storage c"
    and "ctx_h c \<noteq> None" "cons_managed_path c \<noteq> None" "managed_path w False p = Match upath"
    and "has_dir w (dirname (cons_file_path c upath))"
    and "\<not> owned_here owner c topic upath"
    and "\<forall>d. from_owner owner answers c topic upath d \<longrightarrow> length d < fuel"
  shows "wp (dyad_consume F fuel p) (\<lambda>r w'. r = Some RC_OK
     \<and> (\<exists>d. from_owner owner answers c topic upath d \<and> fdata w' = (fdata w)(p \<mapsto> d))) w"
  by (rule wp_dyad_consume_clear [OF assms(1-11)]) (use assms(12) in blast)

theorem dyad_consume_completes_witness:
  "wp (dyad_consume consumer_flux 9 ''f'') (\<lambda>r w'. r = Some RC_OK
     \<and> fdata w' = (fdata (file_world None consumer_ctx (0 :: nat)))(''f'' \<mapsto> [1, 2, 3])) (file_world None consumer_ctx 0)"
proof -
  let ?w = "file_world None consumer_ctx (0 :: nat)"
  let ?owner = "\<lambda>(_ :: string option) (_ :: string) r. r = (6 :: int)"
  let ?answers = "\<lambda>(_ :: uint32) (_ :: string) (_ :: json) d. d = ([1, 2, 3] :: bytes)"
  have works: "client_works consumer_flux"
    by (simp add: client_works_def consumer_flux_def no_flux_def)
  have clear: "clear ?w"
    unfolding clear_def by (intro conjI file_world_good) (simp_all add: file_world_def left_by_other_def)
  have create: "can_create ?w ''f''"
    by (simp add: can_create_def fdata_def inode_of_path_def is_dir_def file_world_def dir_inode_def consumer_dirs
        split: option.split)
  have path: "cons_managed_path consumer_ctx = Some ''/a''" by (rule consumer_fields(2))
  have dir: "has_dir ?w (dirname (cons_file_path consumer_ctx ''f''))"
    by (simp add: has_dir_def consumer_file [OF path] consumer_dirs is_dir_def inode_of_path_def file_world_def dir_inode_def)
  have away: "\<not> owned_here ?owner consumer_ctx ''f'' ''f''"
    by (auto simp: owned_here_def found_def consumer_ctx_def)
  have data: "from_owner ?owner ?answers consumer_ctx ''f'' ''f'' d \<Longrightarrow> d = [1, 2, 3]" for d
    by (auto simp: from_owner_def)
  have "wp (dyad_consume consumer_flux 9 ''f'') (\<lambda>r w'. r = Some RC_OK
     \<and> (\<exists>d. from_owner ?owner ?answers consumer_ctx ''f'' ''f'' d \<and> fdata w' = (fdata ?w)(''f'' \<mapsto> d))) ?w"
  proof (rule dyad_consume_completes [OF consumer_flux_laws works clear create consumer_ready(1) _ _ _ consumer_ready(3) dir away])
    show "\<forall>d. from_owner ?owner ?answers consumer_ctx ''f'' ''f'' d \<longrightarrow> length d < 9"
      by (auto dest!: data)
  qed (simp_all add: consumer_fields, simp add: consumer_ctx_def sample_ctx_def dyad_ctx_default_def)
  then show ?thesis
  proof (rule wp_mono, elim conjE exE, goal_cases)
    case (1 r w' d)
    show ?case using 1(2,4) unfolding data [OF 1(3)] by (rule conjI)
  qed
qed

text \<open>
  A directory that is missing is never made: the call that would make it comes after the file has been
  created in it, which fails.
\<close>

lemma dyad_consume_missing_directory:
  fixes w :: "('e, 'x) dworld"
  assumes "good w" "fdata w p = None" "\<not> is_dir w p" "\<not> is_dir w (dirname p)"
    and "cell w = Some c" "ctx_h c \<noteq> None" "cons_managed_path c \<noteq> None" "managed_path w False p = Match upath"
  shows "wp (dyad_consume F fuel p) (\<lambda>r w'. r = Some RC_BADFIO \<and> fdata w' = fdata w) w"
proof -
  let ?w0 = "w\<lparr>cell := map_option (\<lambda>c. c\<lparr>reenter := False\<rparr>) (cell w)\<rparr>"
  have g: "good ?w0" "\<not> is_dir ?w0 p" using assms(1,3) by simp_all
  have no: "\<not> open_ok ?w0 p (O_RDWR OR O_CREAT)" using assms(2,4) by (simp add: open_ok_def)
  have "wp (consume_managed F fuel p upath) (\<lambda>r w'. r = Some RC_BADFIO \<and> fdata w' = fdata w) w"
    unfolding consume_managed_def wp_bind [of "upd_ctx _"] wp_cell(4) wp_bind [of "sys_open _ _ _"]
  proof (rule wp_posix_with [OF posix_sys(2)], (rule wp_open_view [OF g]; intro impI), goal_cases)
    case (1 w1)
    have "fdata w1 = fdata w" using viewD(2) [OF 1(1)] by simp
    moreover have "cell w1 \<noteq> None" using more_eq_parts(1) [OF 1(3)] assms(5) by simp
    ultimately show ?case by (auto simp: consume_close_def wps)
  next
    case (2 fd w1)
    with no show ?case by simp
  qed
  then show ?thesis
    using assms(5-8) by (auto simp: dyad_consume_def wps wp_managed_upath)
qed

end
