(* ===== verification/Margo.thy ===== *)
theory Margo
  imports Flux_Dtl
begin

text \<open>
  The Margo transport, \<^verbatim>\<open>src/dyad/dtl/margo_dtl.c\<close>. The consumer runs a Margo server; the producer tells
  it that data is ready, the consumer's handler pulls the data by remote memory access, and
  \<^verbatim>\<open>dyad_dtl_margo_recv\<close>, which has been waiting for the handler, takes it over. Margo and Mercury are not part of the
  repository: their calls are the fields of a record over the same state \<open>'e\<close> that Flux works on.
  Handles and addresses of the library are numbers, \<open>0\<close> being \<^verbatim>\<open>NULL\<close>; memory from \<^verbatim>\<open>malloc\<close> has arbitrary
  contents, which the definition that allocates it gets as an argument.
\<close>

section \<open>The library\<close>

text \<open>What a bulk handle exposes: data to read, or room to write to.\<close>

datatype bulk_mem = Read_only bytes | Write_only size_t

text \<open>\<open>None\<close> and \<open>False\<close> stand for a return value other than \<^verbatim>\<open>HG_SUCCESS\<close>.\<close>

record 'e margo_ops =
  mg_get_protocol_info :: "string option \<Rightarrow> 'e \<Rightarrow> (bool \<times> nat) \<times> 'e"
  mg_free_protocol_info :: "nat \<Rightarrow> 'e \<Rightarrow> 'e"
  mg_init :: "string \<Rightarrow> bool \<Rightarrow> nat \<Rightarrow> 'e \<Rightarrow> nat \<times> 'e"
  mg_register :: "nat \<Rightarrow> bool \<Rightarrow> 'e \<Rightarrow> nat \<times> 'e"
  mg_register_data :: "nat \<Rightarrow> nat \<Rightarrow> 'e \<Rightarrow> 'e"
  mg_addr_self :: "nat \<Rightarrow> 'e \<Rightarrow> nat option \<times> 'e"
  mg_addr_to_string :: "nat \<Rightarrow> nat \<Rightarrow> nat \<Rightarrow> 'e \<Rightarrow> string option \<times> 'e"
  mg_addr_lookup :: "nat \<Rightarrow> string \<Rightarrow> 'e \<Rightarrow> nat option \<times> 'e"
  mg_addr_free :: "nat \<Rightarrow> nat \<Rightarrow> 'e \<Rightarrow> 'e"
  mg_bulk_create :: "nat \<Rightarrow> bulk_mem \<Rightarrow> 'e \<Rightarrow> nat option \<times> 'e"
  mg_bulk_free :: "nat \<Rightarrow> 'e \<Rightarrow> bool \<times> 'e"
  mg_bulk_pull :: "nat \<Rightarrow> nat \<Rightarrow> nat \<Rightarrow> nat \<Rightarrow> size_t \<Rightarrow> 'e \<Rightarrow> bytes option \<times> 'e"
  mg_create :: "nat \<Rightarrow> nat \<Rightarrow> nat \<Rightarrow> 'e \<Rightarrow> nat option \<times> 'e"
  mg_forward :: "nat \<Rightarrow> size_t \<times> nat \<Rightarrow> 'e \<Rightarrow> bool \<times> 'e"
  mg_get_output :: "nat \<Rightarrow> 'e \<Rightarrow> bool \<times> 'e"
  mg_free_output :: "nat \<Rightarrow> 'e \<Rightarrow> 'e"
  mg_destroy :: "nat \<Rightarrow> 'e \<Rightarrow> bool \<times> 'e"
  mg_handle_info :: "nat \<Rightarrow> 'e \<Rightarrow> nat \<times> nat"
  mg_get_input :: "nat \<Rightarrow> 'e \<Rightarrow> (size_t \<times> nat) option \<times> 'e"
  mg_respond :: "nat \<Rightarrow> int \<Rightarrow> 'e \<Rightarrow> bool \<times> 'e"
  mg_free_input :: "nat \<Rightarrow> 'e \<Rightarrow> bool \<times> 'e"
  mg_finalize :: "nat \<Rightarrow> 'e \<Rightarrow> 'e"

section \<open>The handle\<close>

record addr_cache_entry =
  addr_str :: string
  entry_addr :: nat

record dyad_dtl_margo =
  md_h :: "flux_handle option"
  md_debug :: bool
  mid :: nat
  local_addr :: nat
  remote_addr :: nat
  sendrecv_rpc_id :: nat
  recv_ready :: bool
  recv_len :: size_t
  recv_buffer :: "bytes option"
  addr_cache :: "addr_cache_entry list"
  addr_cache_cap :: nat

text \<open>\<^verbatim>\<open>ctx->dtl_handle->private_dtl.margo_dtl_handle\<close>, \<open>None\<close> when it is \<^verbatim>\<open>NULL\<close>.\<close>

record 'e margo_world = "'e dyad_world" +
  margo_dtl_handle :: "dyad_dtl_margo option"

type_synonym ('e, 'y) mworld = "('e, 'y margo_world_ext) dworld"

type_synonym ('e, 'y, 'a) mio = "(('e, 'y) mworld, 'a) state"

definition the_margo :: "('e, 'y, dyad_dtl_margo) mio" where
  "the_margo = State (\<lambda>w. (the (margo_dtl_handle w), w))"

definition set_margo :: "dyad_dtl_margo option \<Rightarrow> ('e, 'y, unit) mio" where
  "set_margo h = State (\<lambda>w. ((), w\<lparr>margo_dtl_handle := h\<rparr>))"

definition upd_margo :: "(dyad_dtl_margo \<Rightarrow> dyad_dtl_margo) \<Rightarrow> ('e, 'y, unit) mio" where
  "upd_margo f = State (\<lambda>w. ((), w\<lparr>margo_dtl_handle := map_option f (margo_dtl_handle w)\<rparr>))"

lemma wp_margo [wps]:
  fixes w :: "('e, 'y) mworld"
  shows "wp the_margo P w = P (the (margo_dtl_handle w)) w"
    "wp (set_margo h) Q w = Q () (w\<lparr>margo_dtl_handle := h\<rparr>)"
    "wp (upd_margo f) Q w = Q () (w\<lparr>margo_dtl_handle := map_option f (margo_dtl_handle w)\<rparr>)"
  by (simp_all add: the_margo_def set_margo_def upd_margo_def wp_State)

section \<open>The consumer's handler\<close>

text \<open>An \<^verbatim>\<open>assert\<close>: when it fails the process is gone, and the result is \<open>None\<close>.\<close>

definition must :: "bool \<Rightarrow> ('e, 'y, 'a option) mio \<Rightarrow> ('e, 'y, 'a option) mio" where
  "must b m = (if b then m else State_Monad.return None)"

definition data_ready_rpc :: "'e margo_ops \<Rightarrow> nat \<Rightarrow> ('e, 'y, unit option) mio" where
  "data_ready_rpc M h = do {
     (inst, producer_addr) \<leftarrow> lib_get (mg_handle_info M h);
     inp \<leftarrow> lib_call (mg_get_input M h);
     must (inp \<noteq> None) (do {
       let (n, bulk) = the inp;
       ok \<leftarrow> sys_malloc;
       upd_margo (\<lambda>d. d\<lparr>recv_len := n, recv_buffer := (if ok then Some (replicate (unat n) 0) else None)\<rparr>);
       local_bulk \<leftarrow> lib_call (mg_bulk_create M inst (Write_only n));
       must (local_bulk \<noteq> None) (do {
         pulled \<leftarrow> lib_call (mg_bulk_pull M inst producer_addr bulk (the local_bulk) n);
         must (pulled \<noteq> None) (do {
           upd_margo (\<lambda>d. d\<lparr>recv_buffer := map_option (\<lambda>_. the pulled) (recv_buffer d)\<rparr>);
           freed \<leftarrow> lib_call (mg_bulk_free M (the local_bulk));
           must freed (do {
             sent \<leftarrow> lib_call (mg_respond M h 0);
             must sent (do {
               freed \<leftarrow> lib_call (mg_free_input M h);
               must freed (do {
                 gone \<leftarrow> lib_call (mg_destroy M h);
                 must gone (do {
                   upd_margo (\<lambda>d. d\<lparr>recv_ready := True\<rparr>);
                   State_Monad.return (Some ()) }) }) }) }) }) }) }) }"

section \<open>Buffers\<close>

definition dyad_dtl_margo_get_buffer ::
  "nat \<Rightarrow> bytes option option \<Rightarrow> ('e, 'y, dyad_rc \<times> bytes option option) mio" where
  "dyad_dtl_margo_get_buffer data_size data_buf =
     (if data_buf = None \<or> data_buf \<noteq> Some None then State_Monad.return (RC_BADBUF, data_buf)
      else do {
        ok \<leftarrow> sys_malloc;
        State_Monad.return
          (if \<not> ok then (RC_SYSFAIL, Some None) else (RC_OK, Some (Some (replicate data_size 0)))) })"

definition dyad_dtl_margo_return_buffer ::
  "bytes option option \<Rightarrow> ('e, 'y, dyad_rc \<times> bytes option option) mio" where
  "dyad_dtl_margo_return_buffer data_buf =
     State_Monad.return
       (if data_buf = None \<or> data_buf = Some None then (RC_BADBUF, data_buf) else (RC_OK, Some None))"

section \<open>Finalising\<close>

fun free_cached :: "'e margo_ops \<Rightarrow> nat \<Rightarrow> addr_cache_entry list \<Rightarrow> ('e, 'y, unit) mio" where
  "free_cached M inst [] = State_Monad.return ()"
| "free_cached M inst (e # es) = do {
     flux_do (mg_addr_free M inst (entry_addr e));
     free_cached M inst es }"

definition dyad_dtl_margo_finalize :: "'e margo_ops \<Rightarrow> ('e, 'y, dyad_rc) mio" where
  "dyad_dtl_margo_finalize M = do {
     c \<leftarrow> the_ctx;
     h \<leftarrow> State (\<lambda>w. (margo_dtl_handle w, w));
     (if dtl_handle c = None then State_Monad.return ()
      else case h of
        None \<Rightarrow> State_Monad.return ()
      | Some d \<Rightarrow> do {
          (if mid d \<noteq> 0 then do {
             flux_do (mg_addr_free M (mid d) (local_addr d));
             (if remote_addr d \<noteq> 0 then flux_do (mg_addr_free M (mid d) (remote_addr d))
              else State_Monad.return ());
             free_cached M (mid d) (addr_cache d);
             flux_do (mg_finalize M (mid d)) }
           else State_Monad.return ());
          set_margo None });
     State_Monad.return RC_OK }"

section \<open>Initialising\<close>

definition DYAD_MARGO_PROTO_ENV :: string where "DYAD_MARGO_PROTO_ENV = ''DYAD_MARGO_PROTO''"

definition validate_margo_protocol :: "'e margo_ops \<Rightarrow> string \<Rightarrow> ('e, 'y, dyad_rc) mio" where
  "validate_margo_protocol M protocol = do {
     (ok, info) \<leftarrow> lib_call (mg_get_protocol_info M (Some protocol));
     if \<not> ok \<or> info = 0 then do {
       (if info \<noteq> 0 then flux_do (mg_free_protocol_info M info) else State_Monad.return ());
       (ok, info) \<leftarrow> lib_call (mg_get_protocol_info M None);
       if \<not> ok \<or> info = 0 then State_Monad.return RC_MARGO_BAD_PROTO
       else do {
         flux_do (mg_free_protocol_info M info);
         State_Monad.return RC_MARGO_BAD_PROTO } }
     else do {
       flux_do (mg_free_protocol_info M info);
       State_Monad.return RC_OK } }"

text \<open>
  Starting Margo: for the producer as a client, for the consumer as a server with the handler. The
  result says whether there is an instance; in any other mode \<open>mid\<close> keeps what the memory held.
\<close>

definition start_margo :: "'e margo_ops \<Rightarrow> string \<Rightarrow> dyad_dtl_comm_mode \<Rightarrow> ('e, 'y, bool) mio" where
  "start_margo M protocol comm_mode =
     (if comm_mode = COMM_SEND then do {
        inst \<leftarrow> lib_call (mg_init M protocol False 0);
        upd_margo (\<lambda>d. d\<lparr>mid := inst\<rparr>);
        if inst = 0 then State_Monad.return False
        else do {
          rpc \<leftarrow> lib_call (mg_register M inst False);
          upd_margo (\<lambda>d. d\<lparr>sendrecv_rpc_id := rpc\<rparr>);
          State_Monad.return True } }
      else if comm_mode = COMM_RECV then do {
        inst \<leftarrow> lib_call (mg_init M protocol True 1);
        upd_margo (\<lambda>d. d\<lparr>mid := inst\<rparr>);
        if inst = 0 then State_Monad.return False
        else do {
          rpc \<leftarrow> lib_call (mg_register M inst True);
          upd_margo (\<lambda>d. d\<lparr>sendrecv_rpc_id := rpc\<rparr>);
          flux_do (mg_register_data M inst rpc);
          State_Monad.return True } }
      else State_Monad.return True)"

definition margo_init_failed :: "'e margo_ops \<Rightarrow> ('e, 'y, dyad_rc) mio" where
  "margo_init_failed M = do {
     _ \<leftarrow> dyad_dtl_margo_finalize M;
     State_Monad.return RC_MARGOINIT_FAIL }"

definition dyad_dtl_margo_init ::
  "'e margo_ops \<Rightarrow> dyad_dtl_margo \<Rightarrow> dyad_dtl_comm_mode \<Rightarrow> bool \<Rightarrow> ('e, 'y, dyad_rc) mio" where
  "dyad_dtl_margo_init M raw comm_mode debug = do {
     ok \<leftarrow> sys_malloc;
     if \<not> ok then do { set_margo None; State_Monad.return RC_SYSFAIL }
     else do {
       c \<leftarrow> the_ctx;
       set_margo (Some (raw\<lparr>md_h := ctx_h c, md_debug := debug, recv_ready := False, addr_cache := [],
                            addr_cache_cap := 0\<rparr>));
       env \<leftarrow> sys_getenv DYAD_MARGO_PROTO_ENV;
       let protocol = (case env of None \<Rightarrow> ''ofi+tcp'' | Some p \<Rightarrow> if p = [] then ''ofi+tcp'' else p);
       rc \<leftarrow> validate_margo_protocol M protocol;
       if rc \<noteq> RC_OK then margo_init_failed M
       else do {
         started \<leftarrow> start_margo M protocol comm_mode;
         if \<not> started then margo_init_failed M
         else do {
           d \<leftarrow> the_margo;
           self \<leftarrow> lib_call (mg_addr_self M (mid d));
           case self of
             None \<Rightarrow> margo_init_failed M
           | Some self \<Rightarrow> do {
               upd_margo (\<lambda>d. d\<lparr>local_addr := self, remote_addr := 0\<rparr>);
               upd_dtl (\<lambda>d. d\<lparr>dtl_wired := True, dtl_has_detach := True,
                              send_detached_is_thread_safe := False\<rparr>);
               State_Monad.return RC_OK } } } } }"

section \<open>The address cache\<close>

fun find_cached :: "string \<Rightarrow> addr_cache_entry list \<Rightarrow> nat option" where
  "find_cached s [] = None"
| "find_cached s (e # es) = (if addr_str e = s then Some (entry_addr e) else find_cached s es)"

definition grow_cache :: "('e, 'y, bool) mio" where
  "grow_cache = do {
     d \<leftarrow> the_margo;
     if length (addr_cache d) = addr_cache_cap d then do {
       ok \<leftarrow> sys_malloc;
       (if ok then upd_margo (\<lambda>d. d\<lparr>addr_cache_cap := (if addr_cache_cap d = 0 then 8 else addr_cache_cap d * 2)\<rparr>)
        else State_Monad.return ());
       State_Monad.return ok }
     else State_Monad.return True }"

text \<open>The second component is \<^verbatim>\<open>*out_addr\<close>, \<open>None\<close> when it is left alone.\<close>

definition dyad_dtl_margo_addr_cache_lookup ::
  "'e margo_ops \<Rightarrow> string \<Rightarrow> ('e, 'y, dyad_rc \<times> nat option) mio" where
  "dyad_dtl_margo_addr_cache_lookup M s = do {
     d \<leftarrow> the_margo;
     case find_cached s (addr_cache d) of
       Some a \<Rightarrow> State_Monad.return (RC_OK, Some a)
     | None \<Rightarrow> do {
         addr \<leftarrow> lib_call (mg_addr_lookup M (mid d) s);
         case addr of
           None \<Rightarrow> State_Monad.return (RC_MARGOINIT_FAIL, None)
         | Some addr \<Rightarrow> do {
             ok \<leftarrow> grow_cache;
             if \<not> ok then do {
               flux_do (mg_addr_free M (mid d) addr);
               State_Monad.return (RC_SYSFAIL, None) }
             else do {
               ok \<leftarrow> sys_malloc;
               if \<not> ok then do {
                 flux_do (mg_addr_free M (mid d) addr);
                 State_Monad.return (RC_SYSFAIL, None) }
               else do {
                 upd_margo (\<lambda>d. d\<lparr>addr_cache := addr_cache d @ [\<lparr>addr_str = s, entry_addr = addr\<rparr>]\<rparr>);
                 State_Monad.return (RC_OK, Some addr) } } } } }"

section \<open>Requests\<close>

definition ADDR_STR_SIZE :: nat where "ADDR_STR_SIZE = 128"

definition margo_members :: "dyad_ctx \<Rightarrow> string \<Rightarrow> uint32 \<Rightarrow> string \<Rightarrow> json" where
  "margo_members c upath producer_rank addr =
     [(''upath'', JStr upath), (''tag_prod'', JInt (sint producer_rank)), (''pid_cons'', JInt (ctx_pid c)),
      (''addr'', JStr addr)]"

definition pack_members ::
  "'e flux_ops \<Rightarrow> 'e margo_ops \<Rightarrow> (dyad_ctx \<Rightarrow> string \<Rightarrow> json) \<Rightarrow> ('e, 'y, dyad_rc \<times> json option) mio" where
  "pack_members F M members = do {
     d \<leftarrow> the_margo;
     addr \<leftarrow> lib_call (mg_addr_to_string M (mid d) ADDR_STR_SIZE (local_addr d));
     case addr of
       None \<Rightarrow> State_Monad.return (RC_BADPACK, None)
     | Some addr \<Rightarrow> do {
         c \<leftarrow> the_ctx;
         packed_obj \<leftarrow> flux_call (fx_json_pack F (members c addr));
         State_Monad.return (if packed_obj = None then RC_BADPACK else RC_OK, packed_obj) } }"

definition dyad_dtl_margo_rpc_pack ::
  "'e flux_ops \<Rightarrow> 'e margo_ops \<Rightarrow> string \<Rightarrow> uint32 \<Rightarrow> ('e, 'y, dyad_rc \<times> json option) mio" where
  "dyad_dtl_margo_rpc_pack F M upath producer_rank =
     pack_members F M (\<lambda>c. margo_members c upath producer_rank)"

definition dyad_dtl_margo_rpc_pack_range ::
  "'e flux_ops \<Rightarrow> 'e margo_ops \<Rightarrow> string \<Rightarrow> uint32 \<Rightarrow> size_t \<Rightarrow> size_t \<Rightarrow> ('e, 'y, dyad_rc \<times> json option) mio" where
  "dyad_dtl_margo_rpc_pack_range F M upath producer_rank offset len =
     pack_members F M (\<lambda>c addr. margo_members c upath producer_rank addr
        @ [(''offset'', JInt (int_of_size offset)), (''length'', JInt (int_of_size len))])"

text \<open>The members every request has: the path and the address of the consumer.\<close>

definition unpack_members :: "json \<Rightarrow> (string \<times> string) option" where
  "unpack_members obj =
     (case (member_str ''upath'' obj, member_int ''tag_prod'' obj, member_int ''pid_cons'' obj, member_str ''addr'' obj) of
        (Some upath, Some tag_prod, Some pid, Some addr) \<Rightarrow> Some (upath, addr)
      | _ \<Rightarrow> None)"

definition unpack_margo_range :: "json \<Rightarrow> (string \<times> string \<times> size_t \<times> size_t) option" where
  "unpack_margo_range obj =
     (case (unpack_members obj, member_int ''offset'' obj, member_int ''length'' obj) of
        (Some (upath, addr), Some offset_val, Some length_val) \<Rightarrow>
          Some (upath, addr, size_of_int offset_val, size_of_int length_val)
      | _ \<Rightarrow> None)"

text \<open>The lookup writes into \<^verbatim>\<open>remote_addr\<close>.\<close>

definition lookup_remote :: "'e margo_ops \<Rightarrow> string \<Rightarrow> ('e, 'y, dyad_rc) mio" where
  "lookup_remote M addr = do {
     (rc, a) \<leftarrow> dyad_dtl_margo_addr_cache_lookup M addr;
     (case a of None \<Rightarrow> State_Monad.return () | Some a \<Rightarrow> upd_margo (\<lambda>d. d\<lparr>remote_addr := a\<rparr>));
     State_Monad.return rc }"

definition dyad_dtl_margo_rpc_unpack ::
  "'e flux_ops \<Rightarrow> 'e margo_ops \<Rightarrow> flux_msg \<Rightarrow> ('e, 'y, dyad_rc \<times> string option) mio" where
  "dyad_dtl_margo_rpc_unpack F M msg = do {
     r \<leftarrow> flux_call (fx_request_unpack F msg);
     case Option.bind r unpack_members of
       None \<Rightarrow> State_Monad.return (RC_BADUNPACK, None)
     | Some (upath, addr) \<Rightarrow> do {
         rc \<leftarrow> lookup_remote M addr;
         State_Monad.return (rc, Some upath) } }"

definition dyad_dtl_margo_rpc_unpack_range ::
  "'e flux_ops \<Rightarrow> 'e margo_ops \<Rightarrow> flux_msg \<Rightarrow> ('e, 'y, dyad_rc \<times> (string \<times> size_t \<times> size_t) option) mio" where
  "dyad_dtl_margo_rpc_unpack_range F M msg = do {
     r \<leftarrow> flux_call (fx_request_unpack F msg);
     case Option.bind r unpack_margo_range of
       None \<Rightarrow> State_Monad.return (RC_BADUNPACK, None)
     | Some (upath, addr, offset, len) \<Rightarrow> do {
         rc \<leftarrow> lookup_remote M addr;
         State_Monad.return (rc, Some (upath, offset, len)) } }"

definition dyad_dtl_margo_rpc_respond :: "flux_msg \<Rightarrow> ('e, 'y, dyad_rc) mio" where
  "dyad_dtl_margo_rpc_respond orig_msg = State_Monad.return RC_OK"

definition dyad_dtl_margo_rpc_recv_response :: "flux_future \<Rightarrow> ('e, 'y, dyad_rc) mio" where
  "dyad_dtl_margo_rpc_recv_response f = State_Monad.return RC_OK"

definition dyad_dtl_margo_establish_connection :: "('e, 'y, dyad_rc) mio" where
  "dyad_dtl_margo_establish_connection = State_Monad.return RC_OK"

section \<open>Sending and receiving\<close>

text \<open>
  The labels \<^verbatim>\<open>margo_error\<close> and \<^verbatim>\<open>margo_error_bulk\<close>. The local variables of the function start with
  whatever is on the stack: \<open>mh0\<close> and \<open>bulk0\<close>.
\<close>

definition margo_error_bulk :: "'e margo_ops \<Rightarrow> nat \<Rightarrow> ('e, 'y, dyad_rc) mio" where
  "margo_error_bulk M local_bulk = do {
     (if local_bulk \<noteq> 0
      then do { _ \<leftarrow> lib_call (mg_bulk_free M local_bulk); State_Monad.return () }
      else State_Monad.return ());
     State_Monad.return RC_MARGOINIT_FAIL }"

definition margo_error :: "'e margo_ops \<Rightarrow> nat \<Rightarrow> nat \<Rightarrow> ('e, 'y, dyad_rc) mio" where
  "margo_error M mh local_bulk = do {
     (if mh \<noteq> 0
      then do { _ \<leftarrow> lib_call (mg_destroy M mh); State_Monad.return () }
      else State_Monad.return ());
     margo_error_bulk M local_bulk }"

definition dyad_dtl_margo_send_to ::
  "'e margo_ops \<Rightarrow> nat \<Rightarrow> nat \<Rightarrow> nat \<Rightarrow> nat \<Rightarrow> nat \<Rightarrow> bytes \<Rightarrow> ('e, 'y, dyad_rc) mio" where
  "dyad_dtl_margo_send_to M mh0 bulk0 inst rpc_id remote buf = do {
     local_bulk \<leftarrow> lib_call (mg_bulk_create M inst (Read_only buf));
     case local_bulk of
       None \<Rightarrow> margo_error_bulk M bulk0
     | Some local_bulk \<Rightarrow> do {
         mh \<leftarrow> lib_call (mg_create M inst remote rpc_id);
         case mh of
           None \<Rightarrow> margo_error M mh0 local_bulk
         | Some mh \<Rightarrow> do {
             ok \<leftarrow> lib_call (mg_forward M mh (of_nat (length buf), local_bulk));
             if \<not> ok then margo_error M mh local_bulk
             else do {
               ok \<leftarrow> lib_call (mg_get_output M mh);
               if \<not> ok then margo_error M mh local_bulk
               else do {
                 flux_do (mg_free_output M mh);
                 _ \<leftarrow> lib_call (mg_destroy M mh);
                 _ \<leftarrow> lib_call (mg_bulk_free M local_bulk);
                 State_Monad.return RC_OK } } } } }"

definition dyad_dtl_margo_send :: "'e margo_ops \<Rightarrow> nat \<Rightarrow> nat \<Rightarrow> bytes \<Rightarrow> ('e, 'y, dyad_rc) mio" where
  "dyad_dtl_margo_send M mh0 bulk0 buf = do {
     d \<leftarrow> the_margo;
     dyad_dtl_margo_send_to M mh0 bulk0 (mid d) (sendrecv_rpc_id d) (remote_addr d) buf }"

record dyad_dtl_margo_req_state =
  mrs_mid :: nat
  mrs_rpc_id :: nat
  mrs_remote_addr :: nat

definition dyad_dtl_margo_detach_request :: "('e, 'y, dyad_rc \<times> dyad_dtl_margo_req_state option) mio" where
  "dyad_dtl_margo_detach_request = do {
     ok \<leftarrow> sys_malloc;
     if \<not> ok then State_Monad.return (RC_SYSFAIL, None)
     else do {
       d \<leftarrow> the_margo;
       upd_margo (\<lambda>d. d\<lparr>remote_addr := 0\<rparr>);
       State_Monad.return (RC_OK, Some \<lparr>mrs_mid = mid d, mrs_rpc_id = sendrecv_rpc_id d,
                                        mrs_remote_addr = remote_addr d\<rparr>) } }"

definition dyad_dtl_margo_send_detached ::
  "'e margo_ops \<Rightarrow> nat \<Rightarrow> nat \<Rightarrow> dyad_dtl_margo_req_state \<Rightarrow> bytes \<Rightarrow> ('e, 'y, dyad_rc) mio" where
  "dyad_dtl_margo_send_detached M mh0 bulk0 st buf =
     dyad_dtl_margo_send_to M mh0 bulk0 (mrs_mid st) (mrs_rpc_id st) (mrs_remote_addr st) buf"

definition dyad_dtl_margo_abort_detached :: "dyad_dtl_margo_req_state \<Rightarrow> ('e, 'y, dyad_rc) mio" where
  "dyad_dtl_margo_abort_detached st = State_Monad.return RC_OK"

text \<open>
  Waiting for the handler, which Margo runs in a stream of its own for the calls that arrive
  (\<open>incoming\<close>); \<open>None\<close> when none of them makes the data ready, or a handler has died. A handler is one step
  here: that the waiting thread looks at the flag in the middle of a handler, between the pull and the setting of the flag, is not
  modelled.
\<close>

fun await_ready :: "'e margo_ops \<Rightarrow> nat list \<Rightarrow> ('e, 'y, unit option) mio" where
  "await_ready M [] = do {
     d \<leftarrow> the_margo;
     State_Monad.return (if recv_ready d then Some () else None) }"
| "await_ready M (h # hs) = do {
     d \<leftarrow> the_margo;
     if recv_ready d then State_Monad.return (Some ())
     else do {
       r \<leftarrow> data_ready_rpc M h;
       case r of None \<Rightarrow> State_Monad.return None | Some _ \<Rightarrow> await_ready M hs } }"

text \<open>The copy into memory that could not be allocated, or from such memory, is undefined.\<close>

definition dyad_dtl_margo_recv :: "'e margo_ops \<Rightarrow> nat list \<Rightarrow> ('e, 'y, (dyad_rc \<times> bytes option \<times> nat) option) mio" where
  "dyad_dtl_margo_recv M incoming = do {
     r \<leftarrow> await_ready M incoming;
     case r of
       None \<Rightarrow> State_Monad.return None
     | Some _ \<Rightarrow> do {
         d \<leftarrow> the_margo;
         ok \<leftarrow> sys_malloc;
         if unat (recv_len d) \<noteq> 0 \<and> (\<not> ok \<or> recv_buffer d = None) then State_Monad.return None
         else do {
           upd_margo (\<lambda>d. d\<lparr>recv_buffer := None, recv_len := 0, recv_ready := False\<rparr>);
           State_Monad.return
             (Some (RC_OK,
                if ok then Some (take (unat (recv_len d)) (case recv_buffer d of None \<Rightarrow> [] | Some b \<Rightarrow> b)) else None,
                unat (recv_len d))) } } }"

definition dyad_dtl_margo_close_connection :: "('e, 'y, dyad_rc) mio" where
  "dyad_dtl_margo_close_connection = State_Monad.return RC_OK"

end
