(* ===== verification/Margo_Correct.thy ===== *)
theory Margo_Correct
  imports Margo Frames Samples "HOL-Library.Multiset"
begin

text \<open>
  What the Margo transport does with the library's resources and with the data: the address cache is a map that never forgets
  or doubles an address, every registration of memory is given back, what the consumer receives is what the producer
  exposed; and the address of the last consumer is freed twice at the end.
\<close>

section \<open>The address cache\<close>

definition cache_map :: "addr_cache_entry list \<Rightarrow> string \<rightharpoonup> nat" where
  "cache_map es = map_of (map (\<lambda>e. (addr_str e, entry_addr e)) es)"

lemma find_cached_map: "find_cached s es = cache_map es s"
  by (induction es) (auto simp: cache_map_def)

definition cache_ok :: "dyad_dtl_margo \<Rightarrow> bool" where
  "cache_ok d \<longleftrightarrow> distinct (map addr_str (addr_cache d)) \<and> length (addr_cache d) \<le> addr_cache_cap d"

lemma cache_map_append:
  "cache_map es s = None \<Longrightarrow> cache_map (es @ [\<lparr>addr_str = s, entry_addr = a\<rparr>]) = (cache_map es)(s \<mapsto> a)"
  by (induction es) (auto simp: cache_map_def fun_eq_iff)

lemma cache_map_None: "cache_map es s = None \<longleftrightarrow> s \<notin> addr_str ` set es"
  by (simp add: cache_map_def map_of_eq_None_iff image_image)

lemma wp_malloc_parts:
  fixes w :: "('e, 'y) mworld"
  assumes "\<And>r (w' :: ('e, 'y) mworld). world.more w' = world.more w \<Longrightarrow> Q r w'"
  shows "wp sys_malloc Q w"
  by (rule wp_mono [OF posix_onlyD [OF posix_sys(1)]]) (rule assms)

text \<open>What a lookup does to the cache, and what it does not do when the address is known.\<close>

definition looked_up ::
  "dyad_dtl_margo \<Rightarrow> ('e, 'y) mworld \<Rightarrow> string \<Rightarrow> dyad_rc \<times> nat option \<Rightarrow> ('e, 'y) mworld \<Rightarrow> bool" where
  "looked_up d w s r w' \<longleftrightarrow> (\<exists>d'. margo_dtl_handle w' = Some d' \<and> cache_ok d' \<and> mid d' = mid d
     \<and> (case cache_map (addr_cache d) s of
          Some a \<Rightarrow> r = (RC_OK, Some a) \<and> w' = w
        | None \<Rightarrow>
            (if fst r = RC_OK
             then \<exists>a. snd r = Some a \<and> cache_map (addr_cache d') = (cache_map (addr_cache d))(s \<mapsto> a)
             else snd r = None \<and> addr_cache d' = addr_cache d)))"

lemma more_handle:
  fixes w w' :: "('e, 'y) mworld"
  assumes "world.more w' = world.more w"
  shows "margo_dtl_handle w' = margo_dtl_handle w" "flux w' = flux w" "cell w' = cell w"
proof -
  have "dyad_world.more w' = dyad_world.more w" using assms by (cases w; cases w'; simp)
  then show "margo_dtl_handle w' = margo_dtl_handle w"
    by (cases w; cases w'; simp)
  show "flux w' = flux w" "cell w' = cell w" using more_eq_parts [OF assms] by simp_all
qed

lemma handle_parts [simp]:
  fixes w :: "('e, 'y) mworld"
  shows "margo_dtl_handle (w\<lparr>flux := s\<rparr>) = margo_dtl_handle w" "margo_dtl_handle (w\<lparr>errno := e\<rparr>) = margo_dtl_handle w"
    "margo_dtl_handle (w\<lparr>cell := c\<rparr>) = margo_dtl_handle w"
    "flux (w\<lparr>margo_dtl_handle := h\<rparr>) = flux w" "cell (w\<lparr>margo_dtl_handle := h\<rparr>) = cell w"
  by simp_all

lemma wp_addr_cache_lookup:
  fixes w :: "('e, 'y) mworld"
  assumes d: "margo_dtl_handle w = Some d" "cache_ok d"
  shows "wp (dyad_dtl_margo_addr_cache_lookup M s) (looked_up d w s) w"
proof (cases "cache_map (addr_cache d) s")
  case (Some a)
  with d show ?thesis
    by (simp add: dyad_dtl_margo_addr_cache_lookup_def wps find_cached_map looked_up_def)
next
  case None
  obtain r q where r: "mg_addr_lookup M (mid d) s (flux w) = (r, q)" by fastforce
  let ?w = "w\<lparr>flux := q\<rparr>"
  have failed: "looked_up d w s (rc, None) w'" if "rc \<noteq> RC_OK" "margo_dtl_handle w' = Some d'"
    "cache_ok d'" "mid d' = mid d" "addr_cache d' = addr_cache d" for rc d' w'
    using that None by (simp add: looked_up_def)
  show ?thesis
  proof (cases r)
    case None
    with r \<open>cache_map (addr_cache d) s = None\<close> d failed [of RC_MARGOINIT_FAIL "w\<lparr>flux := q\<rparr>" d] show ?thesis
      by (simp add: dyad_dtl_margo_addr_cache_lookup_def wps wp_lib_call find_cached_map)
  next
    case (Some a)
    let ?rest = "\<lambda>ok. if \<not> ok then do {
               flux_do (mg_addr_free M (mid d) a);
               State_Monad.return (RC_SYSFAIL, None) }
             else do {
               ok \<leftarrow> sys_malloc;
               if \<not> ok then do {
                 flux_do (mg_addr_free M (mid d) a);
                 State_Monad.return (RC_SYSFAIL, None) }
               else do {
                 upd_margo (\<lambda>d. d\<lparr>addr_cache := addr_cache d @ [\<lparr>addr_str = s, entry_addr = a\<rparr>]\<rparr>);
                 State_Monad.return (RC_OK, Some a) } }"
    have rest: "wp (?rest ok) (looked_up d w s) w1"
      if h: "margo_dtl_handle w1 = Some d1" "addr_cache d1 = addr_cache d" "mid d1 = mid d" "cache_ok d1"
        and room: "ok \<Longrightarrow> length (addr_cache d1) < addr_cache_cap d1" for ok d1 and w1 :: "('e, 'y) mworld"
    proof (cases ok)
      case False
      with h failed [of RC_SYSFAIL _ d1] show ?thesis by (simp add: wps)
    next
      case True
      have new: "looked_up d w s (RC_OK, Some a) w2"
        if "margo_dtl_handle w2 = Some (d1\<lparr>addr_cache := addr_cache d1 @ [\<lparr>addr_str = s, entry_addr = a\<rparr>]\<rparr>)" for w2
      proof -
        have "s \<notin> addr_str ` set (addr_cache d)"
          using \<open>cache_map (addr_cache d) s = None\<close> by (simp add: cache_map_None)
        then show ?thesis
          using that h room [OF True] \<open>cache_map (addr_cache d) s = None\<close> cache_map_append [OF \<open>cache_map (addr_cache d) s = None\<close>, of a]
          by (simp add: looked_up_def cache_ok_def)
      qed
      have "wp sys_malloc (\<lambda>ok. wp (if \<not> ok then do {
                 flux_do (mg_addr_free M (mid d) a);
                 State_Monad.return (RC_SYSFAIL, None) }
               else do {
                 upd_margo (\<lambda>d. d\<lparr>addr_cache := addr_cache d @ [\<lparr>addr_str = s, entry_addr = a\<rparr>]\<rparr>);
                 State_Monad.return (RC_OK, Some a) }) (looked_up d w s)) w1"
      proof (rule wp_malloc_parts)
        fix ok and w2 :: "('e, 'y) mworld"
        assume "world.more w2 = world.more w1"
        then have h2: "margo_dtl_handle w2 = Some d1" using more_handle(1) [of w2 w1] h(1) by simp
        show "wp (if \<not> ok then do {
                 flux_do (mg_addr_free M (mid d) a);
                 State_Monad.return (RC_SYSFAIL, None) }
               else do {
                 upd_margo (\<lambda>d. d\<lparr>addr_cache := addr_cache d @ [\<lparr>addr_str = s, entry_addr = a\<rparr>]\<rparr>);
                 State_Monad.return (RC_OK, Some a) }) (looked_up d w s) w2"
          using failed [of RC_SYSFAIL "w2\<lparr>flux := mg_addr_free M (mid d) a (flux w2)\<rparr>" d1] h h2 new by (simp add: wps)
      qed
      with True show ?thesis by (simp add: wp_bind)
    qed
    have grow: "wp grow_cache (\<lambda>ok. wp (?rest ok) (looked_up d w s)) ?w"
    proof (cases "length (addr_cache d) = addr_cache_cap d")
      case True
      have "wp sys_malloc (\<lambda>ok. wp (do {
          (if ok then upd_margo (\<lambda>d. d\<lparr>addr_cache_cap := (if addr_cache_cap d = 0 then 8 else addr_cache_cap d * 2)\<rparr>)
           else State_Monad.return ());
          State_Monad.return ok }) (\<lambda>ok. wp (?rest ok) (looked_up d w s))) ?w"
      proof (rule wp_malloc_parts)
        fix ok and w1 :: "('e, 'y) mworld"
        assume "world.more w1 = world.more ?w"
        then have h: "margo_dtl_handle w1 = Some d" using more_handle(1) [of w1 ?w] d(1) by simp
        let ?d1 = "d\<lparr>addr_cache_cap := (if addr_cache_cap d = 0 then 8 else addr_cache_cap d * 2)\<rparr>"
        have ok1: "cache_ok ?d1" using d(2) by (auto simp: cache_ok_def)
        have room: "length (addr_cache ?d1) < addr_cache_cap ?d1" using True by auto
        show "wp (do {
          (if ok then upd_margo (\<lambda>d. d\<lparr>addr_cache_cap := (if addr_cache_cap d = 0 then 8 else addr_cache_cap d * 2)\<rparr>)
           else State_Monad.return ());
          State_Monad.return ok }) (\<lambda>ok. wp (?rest ok) (looked_up d w s)) w1"
          using rest [of "w1\<lparr>margo_dtl_handle := Some ?d1\<rparr>" ?d1 ok] rest [of w1 d False] h ok1 room d(2)
          by (cases ok) (simp_all add: wp_bind [of "upd_margo _"] wp_margo)
      qed
      with True show ?thesis
        unfolding grow_cache_def wp_bind [of the_margo] wp_margo(1) by (simp add: d(1) wp_bind [of sys_malloc])
    next
      case False
      then have "length (addr_cache d) < addr_cache_cap d" using d(2) by (simp add: cache_ok_def)
      with False rest [of ?w d True] d show ?thesis by (simp add: grow_cache_def wp_bind wps)
    qed
    show ?thesis
      unfolding dyad_dtl_margo_addr_cache_lookup_def wp_bind [of the_margo] wp_margo(1) d(1) option.sel find_cached_map
        \<open>cache_map (addr_cache d) s = None\<close> option.case wp_bind [of "lib_call _"] wp_lib_call r prod.case Some
        wp_bind [of grow_cache]
      by (rule grow)
  qed
qed

text \<open>Once an address is known it stays known.\<close>

definition knows :: "string \<Rightarrow> nat \<Rightarrow> ('e, 'y) mworld \<Rightarrow> bool" where
  "knows s a w \<longleftrightarrow> (\<exists>d. margo_dtl_handle w = Some d \<and> cache_ok d \<and> cache_map (addr_cache d) s = Some a)"

lemma looked_up_handle:
  assumes "looked_up d w s r w'"
  shows "\<exists>d'. margo_dtl_handle w' = Some d' \<and> cache_ok d'" "fst r = RC_OK \<Longrightarrow> margo_dtl_handle w = Some d \<Longrightarrow> cache_ok d \<Longrightarrow>
    \<exists>a. snd r = Some a \<and> knows s a w'"
proof -
  show "\<exists>d'. margo_dtl_handle w' = Some d' \<and> cache_ok d'" using assms by (auto simp: looked_up_def)
  show "\<exists>a. snd r = Some a \<and> knows s a w'" if "fst r = RC_OK" "margo_dtl_handle w = Some d" "cache_ok d"
    using assms that by (cases "cache_map (addr_cache d) s") (auto simp: looked_up_def knows_def)
qed

lemma wp_lookup_known:
  fixes w :: "('e, 'y) mworld"
  assumes "knows s a w"
  shows "wp (dyad_dtl_margo_addr_cache_lookup M s) (\<lambda>r w'. r = (RC_OK, Some a) \<and> w' = w) w"
    "wp (dyad_dtl_margo_addr_cache_lookup M t) (\<lambda>_. knows s a) w"
proof -
  from assms obtain d where d: "margo_dtl_handle w = Some d" "cache_ok d" "cache_map (addr_cache d) s = Some a"
    by (auto simp: knows_def)
  show "wp (dyad_dtl_margo_addr_cache_lookup M s) (\<lambda>r w'. r = (RC_OK, Some a) \<and> w' = w) w"
    by (rule wp_mono [OF wp_addr_cache_lookup [OF d(1,2)]]) (use d(3) in \<open>auto simp: looked_up_def\<close>)
  show "wp (dyad_dtl_margo_addr_cache_lookup M t) (\<lambda>_. knows s a) w"
  proof (rule wp_mono [OF wp_addr_cache_lookup [OF d(1,2)]])
    fix r and w' :: "('e, 'y) mworld"
    assume l: "looked_up d w t r w'"
    show "knows s a w'"
      using l d(3) assms
      by (cases "cache_map (addr_cache d) t"; cases "fst r = RC_OK"; cases "t = s") (auto simp: looked_up_def knows_def)
  qed
qed

fun lookup_all :: "'e margo_ops \<Rightarrow> string list \<Rightarrow> ('e, 'y, unit) mio" where
  "lookup_all M [] = State_Monad.return ()"
| "lookup_all M (s # ss) = do { _ \<leftarrow> dyad_dtl_margo_addr_cache_lookup M s; lookup_all M ss }"

lemma wp_lookup_all:
  fixes w :: "('e, 'y) mworld"
  assumes "knows s a w"
  shows "wp (lookup_all M ss) (\<lambda>_. knows s a) w"
  using assms
proof (induction ss arbitrary: w)
  case (Cons t ss)
  show ?case
    unfolding lookup_all.simps wp_bind
    by (rule wp_mono [OF wp_lookup_known(2) [OF Cons.prems]]) (rule Cons.IH)
qed simp

section \<open>Registered memory\<close>

text \<open>What is registered is counted by the library; only registering and freeing change it.\<close>

definition bulk_laws :: "'e margo_ops \<Rightarrow> ('e \<Rightarrow> nat multiset) \<Rightarrow> bool" where
  "bulk_laws M bulks \<longleftrightarrow>
     (\<forall>i m s. fst (mg_bulk_create M i m s) \<noteq> Some 0 \<and> bulks (snd (mg_bulk_create M i m s))
        = (case fst (mg_bulk_create M i m s) of None \<Rightarrow> bulks s | Some b \<Rightarrow> add_mset b (bulks s)))
   \<and> (\<forall>b s. bulks (snd (mg_bulk_free M b s)) = bulks s - {#b#})
   \<and> (\<forall>i a r s. bulks (snd (mg_create M i a r s)) = bulks s)
   \<and> (\<forall>h x s. bulks (snd (mg_forward M h x s)) = bulks s)
   \<and> (\<forall>h s. bulks (snd (mg_get_output M h s)) = bulks s)
   \<and> (\<forall>h s. bulks (mg_free_output M h s) = bulks s)
   \<and> (\<forall>h s. bulks (snd (mg_destroy M h s)) = bulks s)
   \<and> (\<forall>h s. bulks (snd (mg_get_input M h s)) = bulks s)
   \<and> (\<forall>i a b l n s. bulks (snd (mg_bulk_pull M i a b l n s)) = bulks s)
   \<and> (\<forall>h r s. bulks (snd (mg_respond M h r s)) = bulks s)
   \<and> (\<forall>h s. bulks (snd (mg_free_input M h s)) = bulks s)"

lemma bulk_lawsD:
  assumes "bulk_laws M bulks"
  shows "fst (mg_bulk_create M i m s) = Some b \<Longrightarrow> b \<noteq> 0"
    "bulks (snd (mg_bulk_create M i m s))
       = (case fst (mg_bulk_create M i m s) of None \<Rightarrow> bulks s | Some b \<Rightarrow> add_mset b (bulks s))"
    "bulks (snd (mg_bulk_free M b s)) = bulks s - {#b#}"
    "bulks (snd (mg_create M i a r s)) = bulks s" "bulks (snd (mg_forward M h x s)) = bulks s"
    "bulks (snd (mg_get_output M h s)) = bulks s" "bulks (mg_free_output M h s) = bulks s"
    "bulks (snd (mg_destroy M h s)) = bulks s" "bulks (snd (mg_get_input M h s)) = bulks s"
    "bulks (snd (mg_bulk_pull M i a b l n s)) = bulks s" "bulks (snd (mg_respond M h k s)) = bulks s"
    "bulks (snd (mg_free_input M h s)) = bulks s"
proof -
  show "fst (mg_bulk_create M i m s) = Some b \<Longrightarrow> b \<noteq> 0" using assms unfolding bulk_laws_def by metis
  show "bulks (snd (mg_forward M h x s)) = bulks s" using assms by (cases x) (simp add: bulk_laws_def)
qed (use assms in \<open>simp_all add: bulk_laws_def\<close>)

text \<open>Nothing is registered that was not before, and nothing that was is lost.\<close>

definition balanced :: "('e \<Rightarrow> nat multiset) \<Rightarrow> ('e, 'y) mworld \<Rightarrow> ('e, 'y) mworld \<Rightarrow> bool" where
  "balanced bulks w w' \<longleftrightarrow> bulks (flux w') = bulks (flux w) \<and> margo_dtl_handle w' = margo_dtl_handle w"

lemma wp_margo_send_to:
  fixes w :: "('e, 'y) mworld"
  assumes laws: "bulk_laws M bulks" and "bulk0 \<notin># bulks (flux w)"
  shows "wp (dyad_dtl_margo_send_to M mh0 bulk0 inst rpc remote buf) (\<lambda>_. balanced bulks w) w"
proof -
  note l = bulk_lawsD [OF laws]
  have err: "wp (margo_error M mh b) (\<lambda>_. balanced bulks w) w1"
    if "bulks (flux w1) = add_mset b (bulks (flux w))" "margo_dtl_handle w1 = margo_dtl_handle w" "b \<noteq> 0"
    for mh b and w1 :: "('e, 'y) mworld"
    using that by (simp add: margo_error_def margo_error_bulk_def wps wp_lib l balanced_def)
  show ?thesis
  proof (cases "fst (mg_bulk_create M inst (Read_only buf) (flux w))")
    case None
    with assms(2) show ?thesis
      by (simp add: dyad_dtl_margo_send_to_def margo_error_bulk_def wps wp_lib l balanced_def diff_single_trivial)
  next
    case (Some b)
    with l(1) have b: "b \<noteq> 0" by blast
    show ?thesis
      using Some by (auto simp: dyad_dtl_margo_send_to_def wps wp_lib l balanced_def intro!: err [OF _ _ b] split: option.split)
  qed
qed

section \<open>Transferring data\<close>

text \<open>
  What the library is relied on for: the call that arrives as \<open>h\<close> announces the length of \<open>d\<close>, and
  pulling what it exposes gives \<open>d\<close>.
\<close>

definition carries :: "'e margo_ops \<Rightarrow> nat \<Rightarrow> bytes \<Rightarrow> bool" where
  "carries M h d \<longleftrightarrow> (\<forall>s n b. fst (mg_get_input M h s) = Some (n, b) \<longrightarrow> unat n = length d
     \<and> (\<forall>i a l s x. fst (mg_bulk_pull M i a b l n s) = Some x \<longrightarrow> x = d))"

lemma carriesD:
  assumes "carries M h d" "fst (mg_get_input M h s) = Some (n, b)"
  shows "unat n = length d" "fst (mg_bulk_pull M i a b l n s') = Some x \<Longrightarrow> x = d"
  using assms unfolding carries_def by blast+

text \<open>No call of the handler fails.\<close>

definition margo_works :: "'e margo_ops \<Rightarrow> bool" where
  "margo_works M \<longleftrightarrow> (\<forall>h s. fst (mg_get_input M h s) \<noteq> None) \<and> (\<forall>i m s. fst (mg_bulk_create M i m s) \<noteq> None)
     \<and> (\<forall>i a b l n s. fst (mg_bulk_pull M i a b l n s) \<noteq> None) \<and> (\<forall>b s. fst (mg_bulk_free M b s))
     \<and> (\<forall>h k s. fst (mg_respond M h k s)) \<and> (\<forall>h s. fst (mg_free_input M h s)) \<and> (\<forall>h s. fst (mg_destroy M h s))"

definition data_arrived :: "bytes \<Rightarrow> bool \<Rightarrow> ('e, 'y) mworld \<Rightarrow> bool" where
  "data_arrived d full w \<longleftrightarrow> (\<exists>h. margo_dtl_handle w = Some h \<and> recv_ready h \<and> unat (recv_len h) = length d
     \<and> (recv_buffer h = Some d \<or> recv_buffer h = None \<and> \<not> full))"

lemma wp_must: "wp (must b m) Q w = (if b then wp m Q w else Q None w)"
  by (simp add: must_def)

lemma wp_malloc_full:
  fixes w :: "('e, 'y) mworld"
  assumes "\<And>r (w' :: ('e, 'y) mworld). world.more w' = world.more w \<Longrightarrow> faults w = [] \<longrightarrow> r \<and> faults w' = [] \<Longrightarrow> Q r w'"
  shows "wp sys_malloc Q w"
proof -
  have "wp sys_malloc (\<lambda>r w'. faults w = [] \<longrightarrow> r \<and> faults w' = []) w"
    by (rule wp_sys_malloc) (use quiet_same(10) in force)
  from wp_posix [OF posix_sys(1) this] show ?thesis by (rule wp_mono) (use assms in blast)
qed

lemma wp_data_ready:
  fixes w :: "('e, 'y) mworld"
  assumes "carries M h d" "margo_dtl_handle w = Some g"
  shows "wp (data_ready_rpc M h) (\<lambda>r w'. r \<noteq> None \<longrightarrow> data_arrived d (faults w = []) w' \<and> (faults w = [] \<longrightarrow> faults w' = [])) w"
proof (cases "fst (mg_get_input M h (flux w))")
  case None
  then show ?thesis by (simp add: data_ready_rpc_def wps wp_lib wp_must split: prod.split)
next
  case (Some x)
  then obtain n b where x: "fst (mg_get_input M h (flux w)) = Some (n, b)" by (cases x) auto
  note c = carriesD [OF assms(1) x]
  obtain i a where ia: "mg_handle_info M h (flux w) = (i, a)" by fastforce
  have ne: "Some (n, b) \<noteq> None" by simp
  show ?thesis
    unfolding data_ready_rpc_def wp_bind [of "lib_get _"] wp_lib_get ia prod.case wp_bind [of "lib_call (mg_get_input _ _)"] wp_lib
      wp_must x option.sel Let_def if_P [OF ne] wp_bind [of sys_malloc]
  proof (rule wp_malloc_full, goal_cases)
    case (1 ok w1)
    have h1: "margo_dtl_handle w1 = Some g" using more_handle(1) [OF 1(1)] assms(2) by simp
    show ?case
      by (simp add: wps wp_lib wp_must) (use 1(2) h1 c in \<open>auto simp: data_arrived_def\<close>)
  qed
qed

lemma wp_data_ready_works:
  fixes w :: "('e, 'y) mworld"
  assumes "margo_works M"
  shows "wp (data_ready_rpc M h) (\<lambda>r w'. r \<noteq> None) w"
proof -
  from assms have k: "\<And>h s. fst (mg_get_input M h s) \<noteq> None" "\<And>i m s. fst (mg_bulk_create M i m s) \<noteq> None"
    "\<And>i a b l n s. fst (mg_bulk_pull M i a b l n s) \<noteq> None" "\<And>b s. fst (mg_bulk_free M b s)"
    "\<And>h k s. fst (mg_respond M h k s)" "\<And>h s. fst (mg_free_input M h s)" "\<And>h s. fst (mg_destroy M h s)"
    unfolding margo_works_def by blast+
  obtain n b where x: "fst (mg_get_input M h (flux w)) = Some (n, b)" using k(1) [of h "flux w"] by auto
  obtain i a where ia: "mg_handle_info M h (flux w) = (i, a)" by fastforce
  have ne: "Some (n, b) \<noteq> None" by simp
  show ?thesis
    unfolding data_ready_rpc_def wp_bind [of "lib_get _"] wp_lib_get ia prod.case wp_bind [of "lib_call (mg_get_input _ _)"] wp_lib
      wp_must x option.sel Let_def if_P [OF ne] wp_bind [of sys_malloc]
    by (rule wp_malloc_parts) (simp add: wps wp_lib wp_must k(4-7) k(2,3) [simplified])
qed

lemma wp_data_ready_balanced:
  fixes w :: "('e, 'y) mworld"
  assumes "bulk_laws M bulks"
  shows "wp (data_ready_rpc M h) (\<lambda>r w'. r \<noteq> None \<longrightarrow> bulks (flux w') = bulks (flux w)) w"
proof (cases "fst (mg_get_input M h (flux w))")
  case None
  then show ?thesis by (simp add: data_ready_rpc_def wps wp_lib wp_must split: prod.split)
next
  case (Some x)
  then obtain n b where x: "fst (mg_get_input M h (flux w)) = Some (n, b)" by (cases x) auto
  obtain i a where ia: "mg_handle_info M h (flux w) = (i, a)" by fastforce
  have ne: "Some (n, b) \<noteq> None" by simp
  note l = bulk_lawsD [OF assms]
  show ?thesis
    unfolding data_ready_rpc_def wp_bind [of "lib_get _"] wp_lib_get ia prod.case wp_bind [of "lib_call (mg_get_input _ _)"] wp_lib
      wp_must x option.sel Let_def if_P [OF ne] wp_bind [of sys_malloc]
  proof (rule wp_malloc_full, goal_cases)
    case (1 ok w1)
    have "flux w1 = snd (mg_get_input M h (flux w))" using more_handle(2) [OF 1(1)] by simp
    then show ?case by (auto simp: wps wp_lib wp_must l)
  qed
qed

lemma wp_await_ready:
  fixes w :: "('e, 'y) mworld"
  assumes "\<forall>h\<in>set hs. carries M h d" "margo_dtl_handle w = Some g" "\<not> recv_ready g"
  shows "wp (await_ready M hs) (\<lambda>r w'. r \<noteq> None \<longrightarrow> data_arrived d (faults w = []) w' \<and> (faults w = [] \<longrightarrow> faults w' = [])) w"
    "margo_works M \<Longrightarrow> hs \<noteq> [] \<Longrightarrow> wp (await_ready M hs) (\<lambda>r w'. r \<noteq> None) w"
proof -
  have ready: "wp (await_ready M hs) (\<lambda>r w'. r = Some () \<and> w' = w1) w1" if "data_arrived d b w1"
    for hs b and w1 :: "('e, 'y) mworld"
    using that by (cases hs) (auto simp: wps data_arrived_def)
  show "wp (await_ready M hs) (\<lambda>r w'. r \<noteq> None \<longrightarrow> data_arrived d (faults w = []) w' \<and> (faults w = [] \<longrightarrow> faults w' = [])) w"
  proof (cases hs)
    case (Cons h hs')
    then have "carries M h d" using assms(1) by simp
    show ?thesis
      unfolding Cons await_ready.simps wp_bind wp_margo(1) assms(2) option.sel if_not_P [OF assms(3)]
    proof (rule wp_mono [OF wp_data_ready [OF \<open>carries M h d\<close> assms(2)]], goal_cases)
      case (1 r w1)
      show ?case
      proof (cases r)
        case (Some u)
        with 1 have da: "data_arrived d (faults w = []) w1" by simp
        show ?thesis unfolding Some option.case by (rule wp_mono [OF ready [OF da]]) (use 1 Some da in auto)
      qed (use 1 in simp)
    qed
  qed (use assms in \<open>simp add: wps\<close>)
  show "wp (await_ready M hs) (\<lambda>r w'. r \<noteq> None) w" if "margo_works M" "hs \<noteq> []"
  proof (cases hs)
    case (Cons h hs')
    then have "carries M h d" using assms(1) by simp
    show ?thesis
      unfolding Cons await_ready.simps wp_bind wp_margo(1) assms(2) option.sel if_not_P [OF assms(3)]
    proof (rule wp_mono [OF wp_conj [OF wp_data_ready [OF \<open>carries M h d\<close> assms(2)] wp_data_ready_works [OF that(1)]]], goal_cases)
      case (1 r w1)
      show ?case
      proof (cases r)
        case (Some u)
        with 1 have da: "data_arrived d (faults w = []) w1" by simp
        show ?thesis unfolding Some option.case by (rule wp_mono [OF ready [OF da]]) (use 1 Some da in auto)
      qed (use 1 in simp)
    qed
  qed (use that in simp)
qed

definition received :: "bytes \<Rightarrow> (dyad_rc \<times> bytes option \<times> nat) option \<Rightarrow> ('e, 'y) mworld \<Rightarrow> bool" where
  "received d r w' \<longleftrightarrow> (\<exists>x. r = Some (RC_OK, x, length d) \<and> (x = Some d \<or> x = None \<and> d = []))
     \<and> (\<exists>g. margo_dtl_handle w' = Some g \<and> \<not> recv_ready g \<and> recv_buffer g = None)"

lemma wp_recv_arrived:
  fixes w :: "('e, 'y) mworld"
  assumes "data_arrived d full w"
  shows "wp (do {
         g \<leftarrow> the_margo;
         ok \<leftarrow> sys_malloc;
         if unat (recv_len g) \<noteq> 0 \<and> (\<not> ok \<or> recv_buffer g = None) then State_Monad.return None
         else do {
           upd_margo (\<lambda>d. d\<lparr>recv_buffer := None, recv_len := 0, recv_ready := False\<rparr>);
           State_Monad.return
             (Some (RC_OK,
                if ok then Some (take (unat (recv_len g)) (case recv_buffer g of None \<Rightarrow> [] | Some b \<Rightarrow> b)) else None,
                unat (recv_len g))) } })
     (\<lambda>r w'. (r \<noteq> None \<longrightarrow> received d r w') \<and> (full \<and> faults w = [] \<longrightarrow> r = Some (RC_OK, Some d, length d))) w"
proof -
  from assms obtain g where g: "margo_dtl_handle w = Some g" "unat (recv_len g) = length d"
    "recv_buffer g = Some d \<or> recv_buffer g = None \<and> \<not> full" by (auto simp: data_arrived_def)
  show ?thesis
    unfolding wp_bind [of the_margo] wp_margo(1) g(1) option.sel wp_bind [of sys_malloc]
  proof (rule wp_malloc_full, goal_cases)
    case (1 ok w1)
    have "margo_dtl_handle w1 = Some g" using more_handle(1) [OF 1(1)] g(1) by simp
    then show ?case using g(2,3) 1(2) by (auto simp: wps received_def)
  qed
qed

lemma wp_margo_recv:
  fixes w :: "('e, 'y) mworld"
  assumes "\<forall>h\<in>set hs. carries M h d" "margo_dtl_handle w = Some g" "\<not> recv_ready g"
  shows "wp (dyad_dtl_margo_recv M hs) (\<lambda>r w'. r \<noteq> None \<longrightarrow> received d r w') w"
    "margo_works M \<Longrightarrow> hs \<noteq> [] \<Longrightarrow> faults w = [] \<Longrightarrow>
       wp (dyad_dtl_margo_recv M hs) (\<lambda>r w'. r = Some (RC_OK, Some d, length d)) w"
proof -
  note a = wp_await_ready [OF assms]
  show "wp (dyad_dtl_margo_recv M hs) (\<lambda>r w'. r \<noteq> None \<longrightarrow> received d r w') w"
    unfolding dyad_dtl_margo_recv_def wp_bind [of "await_ready _ _"]
  proof (rule wp_mono [OF a(1)], goal_cases)
    case (1 r w1)
    show ?case
    proof (cases r)
      case (Some u)
      with 1 have da: "data_arrived d (faults w = []) w1" by simp
      show ?thesis unfolding Some option.case by (rule wp_mono [OF wp_recv_arrived [OF da]]) simp
    qed simp
  qed
  show "wp (dyad_dtl_margo_recv M hs) (\<lambda>r w'. r = Some (RC_OK, Some d, length d)) w"
    if works: "margo_works M" "hs \<noteq> []" "faults w = []"
    unfolding dyad_dtl_margo_recv_def wp_bind [of "await_ready _ _"]
  proof (rule wp_mono [OF wp_conj [OF a(1) a(2) [OF works(1,2)]]], goal_cases)
    case (1 r w1)
    then obtain u where u: "r = Some u" and da: "data_arrived d True w1" "faults w1 = []" using works(3) by auto
    show ?case unfolding u option.case by (rule wp_mono [OF wp_recv_arrived [OF da(1)]]) (use da(2) in simp)
  qed
qed

section \<open>Freeing addresses\<close>

lemma wp_free_cached:
  fixes w :: "('e, 'y) mworld"
  shows "wp (free_cached M i es) Q w = Q () (w\<lparr>flux := fold (\<lambda>e. mg_addr_free M i (entry_addr e)) es (flux w)\<rparr>)"
  by (induction es arbitrary: w) (simp_all add: wps)

text \<open>A library that writes down which addresses it is told to free.\<close>

definition logs_frees :: "nat list margo_ops \<Rightarrow> bool" where
  "logs_frees M \<longleftrightarrow> (\<forall>i a s. mg_addr_free M i a s = s @ [a]) \<and> (\<forall>i s. mg_finalize M i s = s)"

lemma wp_margo_finalize:
  fixes w :: "(nat list, 'y) mworld"
  assumes "logs_frees M" "cell w = Some c" "dtl_handle c \<noteq> None" "margo_dtl_handle w = Some d" "mid d \<noteq> 0"
  shows "wp (dyad_dtl_margo_finalize M) (\<lambda>rc w'. rc = RC_OK \<and> margo_dtl_handle w' = None
     \<and> flux w' = flux w @ local_addr d # (if remote_addr d \<noteq> 0 then [remote_addr d] else []) @ map entry_addr (addr_cache d)) w"
proof -
  have f: "fold (\<lambda>e. mg_addr_free M i (entry_addr e)) es s = s @ map entry_addr es" for i es s
    using assms(1) by (induction es arbitrary: s) (simp_all add: logs_frees_def)
  show ?thesis
    using assms by (auto simp: dyad_dtl_margo_finalize_def wps wp_State wp_free_cached f logs_frees_def)
qed

lemma keep_margo_cell [keep]:
  "keeps (\<lambda>w. cell w = c) (lib_call f)" "keeps (\<lambda>w. cell w = c) (flux_do g)"
  "keeps (\<lambda>w. cell w = c) (flux_call k)" "keeps (\<lambda>w :: ('e, 'y) mworld. cell w = c) the_margo"
  "keeps (\<lambda>w :: ('e, 'y) mworld. cell w = c) (upd_margo u)" "keeps (\<lambda>w :: ('e, 'y) mworld. cell w = c) sys_malloc"
proof -
  show "keeps (\<lambda>w :: ('e, 'y) mworld. cell w = c) sys_malloc"
    unfolding keeps_def by (intro allI impI, rule wp_malloc_parts) (use more_handle(3) in blast)
qed (simp_all add: keeps_def wps wp_lib wp_flux_call split: prod.split sum.split)

lemma keep_lookup_cell [keep]:
  "keeps (\<lambda>w :: ('e, 'y) mworld. cell w = c) (dyad_dtl_margo_addr_cache_lookup M s)"
  unfolding dyad_dtl_margo_addr_cache_lookup_def grow_cache_def by (intro keep)

text \<open>After a request has been unpacked the address of the consumer is both in the cache and the remote one.\<close>

definition remote_cached :: "('e, 'y) mworld \<Rightarrow> bool" where
  "remote_cached w \<longleftrightarrow> (\<exists>d. margo_dtl_handle w = Some d \<and> mid d \<noteq> 0 \<and> remote_addr d \<in> entry_addr ` set (addr_cache d))"

lemma wp_margo_unpack:
  fixes w :: "('e, 'y) mworld"
  assumes "margo_dtl_handle w = Some d" "cache_ok d" "mid d \<noteq> 0"
  shows "wp (dyad_dtl_margo_rpc_unpack F M msg) (\<lambda>r w'. (fst r = RC_OK \<longrightarrow> remote_cached w') \<and> cell w' = cell w) w"
proof -
  have look: "wp (do { rc \<leftarrow> lookup_remote M addr; State_Monad.return (rc, Some upath) })
     (\<lambda>r w'. (fst r = RC_OK \<longrightarrow> remote_cached w') \<and> cell w' = cell w) w1"
    if "margo_dtl_handle w1 = Some d" "cell w1 = cell w" for addr upath and w1 :: "('e, 'y) mworld"
    unfolding lookup_remote_def wp_bind
  proof (rule wp_mono [OF wp_conj [OF wp_addr_cache_lookup [OF that(1) assms(2)] keepsD [OF keep_lookup_cell that(2)]]],
      goal_cases)
    case (1 r w2)
    then have l: "looked_up d w1 addr r w2" and c: "cell w2 = cell w" by simp_all
    obtain rc out where r: "r = (rc, out)" by (cases r)
    from l obtain d' where d': "margo_dtl_handle w2 = Some d'" "mid d' = mid d" by (auto simp: looked_up_def)
    show ?case
    proof (cases "rc = RC_OK")
      case True
      with looked_up_handle(2) [OF l] that(1) assms(2) r obtain a where a: "out = Some a" "knows addr a w2" by auto
      then have "(addr, a) \<in> (\<lambda>e. (addr_str e, entry_addr e)) ` set (addr_cache d')"
        using d' by (auto simp: knows_def cache_map_def dest: map_of_SomeD)
      then have "a \<in> entry_addr ` set (addr_cache d')" by force
      with d' a assms(3) c r show ?thesis by (simp add: wps remote_cached_def)
    next
      case False
      with c r show ?thesis by (cases out) (simp_all add: wps)
    qed
  qed
  obtain r s where r: "fx_request_unpack F msg (flux w) = (r, s)" by fastforce
  show ?thesis
    using r assms(1)
    by (cases r) (auto simp: dyad_dtl_margo_rpc_unpack_def wp_bind [of "flux_call _"] wp_flux_call intro!: look
        split: option.split)
qed

section \<open>Sample libraries\<close>

definition no_margo :: "'e margo_ops" where
  "no_margo = \<lparr>mg_get_protocol_info = (\<lambda>_ s. ((False, 0), s)), mg_free_protocol_info = (\<lambda>_ s. s),
     mg_init = (\<lambda>_ _ _ s. (0, s)), mg_register = (\<lambda>_ _ s. (0, s)), mg_register_data = (\<lambda>_ _ s. s),
     mg_addr_self = (\<lambda>_ s. (None, s)), mg_addr_to_string = (\<lambda>_ _ _ s. (None, s)), mg_addr_lookup = (\<lambda>_ _ s. (None, s)),
     mg_addr_free = (\<lambda>_ _ s. s), mg_bulk_create = (\<lambda>_ _ s. (None, s)), mg_bulk_free = (\<lambda>_ s. (False, s)),
     mg_bulk_pull = (\<lambda>_ _ _ _ _ s. (None, s)), mg_create = (\<lambda>_ _ _ s. (None, s)), mg_forward = (\<lambda>_ _ s. (False, s)),
     mg_get_output = (\<lambda>_ s. (False, s)), mg_free_output = (\<lambda>_ s. s), mg_destroy = (\<lambda>_ s. (False, s)),
     mg_handle_info = (\<lambda>_ _. (0, 0)), mg_get_input = (\<lambda>_ s. (None, s)), mg_respond = (\<lambda>_ _ s. (False, s)),
     mg_free_input = (\<lambda>_ s. (False, s)), mg_finalize = (\<lambda>_ s. s)\<rparr>"

definition sample_margo :: dyad_dtl_margo where
  "sample_margo = \<lparr>md_h = Some 5, md_debug = False, mid = 1, local_addr = 2, remote_addr = 0, sendrecv_rpc_id = 3,
     recv_ready = False, recv_len = 0, recv_buffer = None, addr_cache = [], addr_cache_cap = 0\<rparr>"

definition margo_sample_world :: "'e \<Rightarrow> ('e, unit) mworld" where
  "margo_sample_world s =
     \<lparr>names = (\<lambda>_. None), inodes = (\<lambda>_. None), next_ino = 0, fds = (\<lambda>_. None), next_fd = 3, locks = (\<lambda>_. None),
      others = (\<lambda>_. None), errno = E_NONE, now = 0, file_mask = 0, dir_order = (\<lambda>_. []), faults = [], cell = Some sample_ctx,
      environ = (\<lambda>_. None), realpaths = (\<lambda>_. None), self_pid = 7, streams = (\<lambda>_. None), next_stream = 0, flux = s,
      margo_dtl_handle = Some sample_margo\<rparr>"

lemma margo_sample [simp]: "margo_dtl_handle (margo_sample_world s) = Some sample_margo" "cache_ok sample_margo"
  "mid sample_margo = 1" "\<not> recv_ready sample_margo" "faults (margo_sample_world s) = []" "flux (margo_sample_world s) = s"
  "cell (margo_sample_world s) = Some sample_ctx"
  by (simp_all add: margo_sample_world_def sample_margo_def cache_ok_def)

section \<open>Properties\<close>

text \<open>
  C31: an address is looked up once. After a request from a consumer has been unpacked successfully, a later
  lookup of the same address string, whatever other consumers have asked in between and whatever allocations have
  failed, finds the same address without another call to Margo.
\<close>

theorem margo_address_cached:
  fixes w :: "('e, 'y) mworld"
  assumes "margo_dtl_handle w = Some d" "cache_ok d"
  shows "wp (do {
       r \<leftarrow> dyad_dtl_margo_addr_cache_lookup M s;
       lookup_all M ss;
       before \<leftarrow> lib_get (\<lambda>s. s);
       r' \<leftarrow> dyad_dtl_margo_addr_cache_lookup M s;
       after \<leftarrow> lib_get (\<lambda>s. s);
       State_Monad.return (r, r', before, after) })
     (\<lambda>(r, r', before, after) w'. fst r = RC_OK \<longrightarrow> r' = r \<and> after = before) w"
  unfolding wp_bind [of "dyad_dtl_margo_addr_cache_lookup _ _"]
proof (rule wp_mono [OF wp_addr_cache_lookup [OF assms]], goal_cases)
  case (1 r w1)
  show ?case
  proof (cases "fst r = RC_OK")
    case True
    with looked_up_handle(2) [OF 1 True assms] obtain a where a: "r = (RC_OK, Some a)" "knows s a w1" by (cases r) auto
    show ?thesis
      unfolding wp_bind [of "lookup_all _ _"]
      by (rule wp_mono [OF wp_lookup_all [OF a(2)]])
        (auto simp: wps a(1) intro!: wp_mono [OF wp_lookup_known(1)])
  next
    case False
    then show ?thesis by (auto simp: wps intro!: wp_total)
  qed
qed

definition counting_margo :: "nat margo_ops" where
  "counting_margo = no_margo\<lparr>mg_addr_lookup := (\<lambda>_ _ n. (Some (n + 10), n + 1))\<rparr>"

theorem margo_address_cached_witness:
  "wp (do {
       r \<leftarrow> dyad_dtl_margo_addr_cache_lookup counting_margo ''n1'';
       lookup_all counting_margo [''n2'', ''n1''];
       before \<leftarrow> lib_get (\<lambda>s. s);
       r' \<leftarrow> dyad_dtl_margo_addr_cache_lookup counting_margo ''n1'';
       after \<leftarrow> lib_get (\<lambda>s. s);
       State_Monad.return (r, r', before, after) })
     (\<lambda>x w'. (case x of (r, r', before, after) \<Rightarrow> r' = r \<and> after = before) \<and> x = ((RC_OK, Some 10), (RC_OK, Some 10), 2, 2))
     (margo_sample_world 0)" (is "wp ?m _ _")
proof -
  have "fst (run_state ?m (margo_sample_world 0)) = ((RC_OK, Some 10), (RC_OK, Some 10), 2, 2)" by code_simp
  then have run: "wp ?m (\<lambda>x w'. x = ((RC_OK, Some 10), (RC_OK, Some 10), 2, 2)) (margo_sample_world 0)"
    by (simp add: wp_run)
  show ?thesis
    by (rule wp_mono [OF wp_conj [OF run margo_address_cached [where d = sample_margo]]]) auto
qed

text \<open>
  C30: registrations of memory are given back. Whatever calls to Margo fail in \<^verbatim>\<open>dyad_dtl_margo_send_to\<close>,
  the same memory is registered afterwards as before, and so it is after a run of the consumer's handler,
  unless one of its assertions stops the process. The handles on the stack that a failing call leaves as they
  were must not be those of registered memory.
\<close>

theorem margo_registrations_balanced:
  fixes w w1 :: "('e, 'y) mworld"
  assumes "bulk_laws M bulks" and "bulk0 \<notin># bulks (flux w)"
  shows "wp (dyad_dtl_margo_send_to M mh0 bulk0 inst rpc remote buf) (\<lambda>_ w'. bulks (flux w') = bulks (flux w)) w
    \<and> wp (data_ready_rpc M h) (\<lambda>r w'. r \<noteq> None \<longrightarrow> bulks (flux w') = bulks (flux w1)) w1"
proof
  show "wp (dyad_dtl_margo_send_to M mh0 bulk0 inst rpc remote buf) (\<lambda>_ w'. bulks (flux w') = bulks (flux w)) w"
    by (rule wp_mono [OF wp_margo_send_to [OF assms]]) (simp add: balanced_def)
  show "wp (data_ready_rpc M h) (\<lambda>r w'. r \<noteq> None \<longrightarrow> bulks (flux w') = bulks (flux w1)) w1"
    by (rule wp_data_ready_balanced [OF assms(1)])
qed

text \<open>A library in which the reply to the announcement never comes.\<close>

definition bulk_margo :: "nat list margo_ops" where
  "bulk_margo = no_margo\<lparr>mg_bulk_create := (\<lambda>_ _ s. (Some (Suc (length s)), Suc (length s) # s)),
     mg_bulk_free := (\<lambda>b s. (True, remove1 b s)), mg_create := (\<lambda>_ _ _ s. (Some 1, s)), mg_forward := (\<lambda>_ _ s. (True, s))\<rparr>"

theorem margo_registrations_balanced_witness:
  "wp (dyad_dtl_margo_send_to bulk_margo 0 0 1 3 10 [1, 2, 3]) (\<lambda>rc w'. mset (flux w') = {#7#} \<and> rc = RC_MARGOINIT_FAIL)
     (margo_sample_world [7])"
proof -
  have laws: "bulk_laws bulk_margo mset"
    by (simp add: bulk_laws_def bulk_margo_def no_margo_def)
  have run: "wp (dyad_dtl_margo_send_to bulk_margo 0 0 1 3 10 [1, 2, 3]) (\<lambda>rc w'. rc = RC_MARGOINIT_FAIL)
     (margo_sample_world [7])"
    by (simp add: dyad_dtl_margo_send_to_def margo_error_def margo_error_bulk_def wps wp_lib bulk_margo_def no_margo_def)
  have "wp (dyad_dtl_margo_send_to bulk_margo 0 0 1 3 10 [1, 2, 3])
      (\<lambda>_ w'. mset (flux w') = mset (flux (margo_sample_world [7]))) (margo_sample_world [7])"
    by (rule margo_registrations_balanced [OF laws, THEN conjunct1]) simp
  from wp_conj [OF run this] show ?thesis by (rule wp_mono) simp
qed

text \<open>
  C29: the consumer gets the producer's data. When the calls that arrive expose \<open>d\<close>, \<^verbatim>\<open>dyad_dtl_margo_recv\<close>, if it
  returns, returns exactly \<open>d\<close> and leaves the handle ready for the next transfer, whatever has failed;
  and it does return when a call arrives and nothing fails.
\<close>

theorem margo_recv_exact:
  fixes w :: "('e, 'y) mworld"
  assumes "\<forall>h\<in>set incoming. carries M h d" "margo_dtl_handle w = Some g" "\<not> recv_ready g"
  shows "wp (dyad_dtl_margo_recv M incoming) (\<lambda>r w'. (r \<noteq> None \<longrightarrow> received d r w')
     \<and> (margo_works M \<and> incoming \<noteq> [] \<and> faults w = [] \<longrightarrow> r = Some (RC_OK, Some d, length d))) w"
proof (cases "margo_works M \<and> incoming \<noteq> [] \<and> faults w = []")
  case True
  then have t: "margo_works M" "incoming \<noteq> []" "faults w = []" by simp_all
  show ?thesis by (rule wp_mono [OF wp_conj [OF wp_margo_recv(1) [OF assms] wp_margo_recv(2) [OF assms t]]]) simp
next
  case False
  show ?thesis by (rule wp_mono [OF wp_margo_recv(1) [OF assms]]) (use False in blast)
qed

definition pull_margo :: "'e margo_ops" where
  "pull_margo = no_margo\<lparr>mg_get_input := (\<lambda>_ s. (Some (3, 8), s)), mg_bulk_create := (\<lambda>_ _ s. (Some 1, s)),
     mg_bulk_pull := (\<lambda>_ _ _ _ _ s. (Some [4, 5, 6], s)), mg_bulk_free := (\<lambda>_ s. (True, s)), mg_respond := (\<lambda>_ _ s. (True, s)),
     mg_free_input := (\<lambda>_ s. (True, s)), mg_destroy := (\<lambda>_ s. (True, s))\<rparr>"

theorem margo_recv_exact_witness:
  "wp (dyad_dtl_margo_recv pull_margo [1]) (\<lambda>r w'. r = Some (RC_OK, Some [4, 5, 6], 3)) (margo_sample_world (0 :: nat))"
proof -
  have "carries pull_margo 1 [4, 5, 6]" "margo_works pull_margo"
    by (simp_all add: carries_def margo_works_def pull_margo_def no_margo_def)
  then show ?thesis
    by (intro wp_mono [OF margo_recv_exact [where d = "[4, 5, 6]" and g = sample_margo]]) auto
qed

text \<open>
  C32: the last consumer's address is freed twice. The address that unpacking a request leaves in the handle belongs to the
  cache; \<^verbatim>\<open>dyad_dtl_margo_finalize\<close> frees it as the remote address and once more with the cache.
\<close>

theorem margo_frees_address_twice:
  fixes w :: "(nat list, 'y) mworld"
  assumes "logs_frees M" "cell w = Some c" "dtl_handle c \<noteq> None"
    and "margo_dtl_handle w = Some d" "cache_ok d" "mid d \<noteq> 0"
  shows "wp (do {
       r \<leftarrow> dyad_dtl_margo_rpc_unpack F M msg;
       h \<leftarrow> the_margo;
       before \<leftarrow> lib_get (\<lambda>s. s);
       _ \<leftarrow> dyad_dtl_margo_finalize M;
       State_Monad.return (fst r, remote_addr h, before) })
     (\<lambda>(rc, a, before) w'. rc = RC_OK \<and> a \<noteq> 0 \<longrightarrow>
        (\<exists>freed. flux w' = before @ freed \<and> 1 < count (mset freed) a)) w"
  unfolding wp_bind [of "dyad_dtl_margo_rpc_unpack _ _ _"]
proof (rule wp_mono [OF wp_margo_unpack [OF assms(4-6)]], goal_cases)
  case (1 r w1)
  show ?case
  proof (cases "fst r = RC_OK")
    case True
    with 1 obtain d1 where d1: "margo_dtl_handle w1 = Some d1" "mid d1 \<noteq> 0"
      "remote_addr d1 \<in> entry_addr ` set (addr_cache d1)" by (auto simp: remote_cached_def)
    have c1: "cell w1 = Some c" using 1 assms(2) by simp
    have n: "0 < count (mset (map entry_addr (addr_cache d1))) (remote_addr d1)"
      using d1(3) by (simp add: count_greater_zero_iff)
    show ?thesis
      unfolding wp_bind [of the_margo] wp_margo(1) d1(1) option.sel wp_bind [of "lib_get _"] wp_lib_get
        wp_bind [of "dyad_dtl_margo_finalize _"]
      by (rule wp_mono [OF wp_margo_finalize [OF assms(1) c1 assms(3) d1(1,2)]]) (use n in auto)
  next
    case False
    then show ?thesis by (auto simp: wps intro!: wp_total)
  qed
qed

definition logging_margo :: "nat list margo_ops" where
  "logging_margo = no_margo\<lparr>mg_addr_lookup := (\<lambda>_ _ s. (Some 10, s)), mg_addr_free := (\<lambda>_ a s. s @ [a])\<rparr>"

definition margo_request_flux :: "nat list flux_ops" where
  "margo_request_flux = no_flux\<lparr>fx_request_unpack := (\<lambda>_ s. (Inr [(''upath'', JStr ''f''), (''tag_prod'', JInt 6),
     (''pid_cons'', JInt 7), (''addr'', JStr ''n1'')], s))\<rparr>"

theorem margo_frees_address_twice_witness:
  "wp (do {
       r \<leftarrow> dyad_dtl_margo_rpc_unpack margo_request_flux logging_margo 1;
       h \<leftarrow> the_margo;
       before \<leftarrow> lib_get (\<lambda>s. s);
       _ \<leftarrow> dyad_dtl_margo_finalize logging_margo;
       State_Monad.return (fst r, remote_addr h, before) })
     (\<lambda>x w'. x = (RC_OK, 10, []) \<and> flux w' = [2, 10, 10] \<and> (\<exists>freed. flux w' = [] @ freed \<and> 1 < count (mset freed) 10))
     (margo_sample_world [])" (is "wp ?m _ ?w")
proof -
  have laws: "logs_frees logging_margo" by (simp add: logs_frees_def logging_margo_def no_margo_def)
  have run: "wp ?m (\<lambda>x w'. x = (RC_OK, 10, []) \<and> flux w' = [2, 10, 10]) ?w"
  proof -
    have "fst (run_state ?m ?w) = (RC_OK, 10, [])" "flux (snd (run_state ?m ?w)) = [2, 10, 10]" by code_simp+
    then show ?thesis by (simp add: wp_run)
  qed
  have c: "dtl_handle sample_ctx \<noteq> None" by (simp add: sample_ctx_def)
  show ?thesis
    by (rule wp_mono [OF wp_conj [OF run margo_frees_address_twice [OF laws _ c, where d = sample_margo]]]) auto
qed

text \<open>
  Before Margo has been started the handle holds what was in the memory: when the protocol is not available,
  \<^verbatim>\<open>dyad_dtl_margo_init\<close> frees addresses that were never looked up.
\<close>

lemma margo_init_frees_garbage:
  "fst (run_state (dyad_dtl_margo_init logging_margo (sample_margo\<lparr>mid := 99, local_addr := 98, remote_addr := 97\<rparr>)
     COMM_SEND False) (margo_sample_world [])) = RC_MARGOINIT_FAIL"
  "flux (snd (run_state (dyad_dtl_margo_init logging_margo (sample_margo\<lparr>mid := 99, local_addr := 98, remote_addr := 97\<rparr>)
     COMM_SEND False) (margo_sample_world []))) = [98, 97]"
  by code_simp+

end
