(* ===== verification/Ucx.thy ===== *)
theory Ucx
  imports Ctx Base64
begin

text \<open>
  The UCX transport, \<^verbatim>\<open>src/dyad/dtl/ucx_dtl.c\<close>, with its cache of endpoints, \<^verbatim>\<open>ucx_ep_cache.cpp\<close>. The
  consumer registers one large buffer for remote writing and sends the producer its address, the buffer's and the
  key that allows writing to it; the producer connects to the consumer, or takes a connection it has kept, and puts the
  data into the buffer, whose first eight bytes the consumer watches. UCX is not part of the repository: its calls are
  the fields of a record over the state \<open>'e\<close> that also Flux works on. Handles and addresses are numbers, \<open>0\<close>
  being \<^verbatim>\<open>NULL\<close>. A loop that waits for UCX gets the number of its rounds as fuel; \<open>None\<close> is the result of a wait that does not
  end, and of the calls the C standard leaves undefined: reading through \<^verbatim>\<open>NULL\<close>, and \<^verbatim>\<open>free\<close> on memory that UCX has
  allocated, or the other way round.
\<close>

section \<open>The library\<close>

datatype ucs_status = UCS_OK | UCS_INPROGRESS | UCS_ERR_NOT_CONNECTED | UCS_ERR int

definition UCX_STATUS_FAIL :: "ucs_status \<Rightarrow> bool" where
  "UCX_STATUS_FAIL status \<longleftrightarrow> status \<noteq> UCS_OK"

text \<open>\<^verbatim>\<open>ucs_status_ptr_t\<close>: \<^verbatim>\<open>NULL\<close>, an error disguised as a pointer, or a request that is under way.\<close>

datatype ucs_status_ptr = Ptr_null | Ptr_err ucs_status | Ptr_req nat

datatype ucx_prot = PROT_LOCAL_READ | PROT_REMOTE_WRITE

text \<open>
  A call that fills in a field of the handle returns what it leaves there, \<open>None\<close> when it leaves the field as it
  was. The memory UCX has registered, which peers write to, is part of \<open>'e\<close>. \<open>cxx_map_order\<close> is not UCX's:
  it is the order in which the C++ library runs through a \<^verbatim>\<open>std::unordered_map\<close> whose entries were inserted in the given order.
\<close>

record 'e ucx_ops =
  ux_config_read :: "'e \<Rightarrow> ucs_status \<times> 'e"
  ux_init :: "'e \<Rightarrow> (ucs_status \<times> nat option) \<times> 'e"
  ux_worker_create :: "nat \<Rightarrow> 'e \<Rightarrow> (ucs_status \<times> nat option) \<times> 'e"
  ux_worker_get_address :: "nat \<Rightarrow> 'e \<Rightarrow> (ucs_status \<times> (nat \<times> bytes) option) \<times> 'e"
  ux_worker_release_address :: "nat \<Rightarrow> nat \<Rightarrow> 'e \<Rightarrow> 'e"
  ux_worker_progress :: "nat \<Rightarrow> 'e \<Rightarrow> 'e"
  ux_worker_destroy :: "nat \<Rightarrow> 'e \<Rightarrow> 'e"
  ux_cleanup :: "nat \<Rightarrow> 'e \<Rightarrow> 'e"
  ux_mem_map :: "nat \<Rightarrow> size_t \<Rightarrow> ucx_prot \<Rightarrow> 'e \<Rightarrow> (ucs_status \<times> nat option) \<times> 'e"
  ux_mem_query :: "nat \<Rightarrow> 'e \<Rightarrow> ucs_status \<times> nat"
  ux_mem_unmap :: "nat \<Rightarrow> nat \<Rightarrow> 'e \<Rightarrow> 'e"
  ux_rkey_pack :: "nat \<Rightarrow> nat \<Rightarrow> 'e \<Rightarrow> (ucs_status \<times> (nat \<times> bytes) option) \<times> 'e"
  ux_rkey_buffer_release :: "nat \<Rightarrow> 'e \<Rightarrow> 'e"
  ux_ep_create :: "nat \<Rightarrow> bytes option \<Rightarrow> 'e \<Rightarrow> (ucs_status \<times> nat option) \<times> 'e"
  ux_ep_close :: "nat \<Rightarrow> 'e \<Rightarrow> ucs_status_ptr \<times> 'e"
  ux_ep_rkey_unpack :: "nat \<Rightarrow> bytes \<Rightarrow> 'e \<Rightarrow> (ucs_status \<times> nat option) \<times> 'e"
  ux_rkey_destroy :: "nat \<Rightarrow> 'e \<Rightarrow> 'e"
  ux_put :: "nat \<Rightarrow> nat \<Rightarrow> size_t \<Rightarrow> uint64 \<Rightarrow> nat \<Rightarrow> 'e \<Rightarrow> ucs_status_ptr \<times> 'e"
  ux_request_check_status :: "nat \<Rightarrow> 'e \<Rightarrow> ucs_status"
  ux_request_free :: "nat \<Rightarrow> 'e \<Rightarrow> 'e"
  ux_load :: "nat \<Rightarrow> 'e \<Rightarrow> size_t"
  ux_store :: "nat \<Rightarrow> size_t \<Rightarrow> 'e \<Rightarrow> 'e"
  cxx_map_order :: "(uint64 \<times> nat) list \<Rightarrow> (uint64 \<times> nat) list"

section \<open>The handle\<close>

text \<open>A packed key lies in memory that UCX has allocated, or in memory from \<^verbatim>\<open>malloc\<close>.\<close>

datatype rkey_mem = Ucx_mem nat bytes | Heap_mem bytes

fun rkey_bytes :: "rkey_mem \<Rightarrow> bytes" where
  "rkey_bytes (Ucx_mem a b) = b"
| "rkey_bytes (Heap_mem b) = b"

record dyad_dtl_ucx =
  ud_h :: "flux_handle option"
  ud_comm_mode :: dyad_dtl_comm_mode
  ud_debug :: bool
  ucx_ctx :: nat
  ucx_worker :: nat
  mem_handle :: nat
  net_buf :: nat
  max_transfer_size :: size_t
  local_address :: "(nat \<times> bytes) option"
  local_addr_len :: size_t
  remote_address :: "bytes option"
  remote_addr_len :: size_t
  ud_ep :: nat
  comm_tag :: uint64
  ep_cache :: "(uint64 \<times> nat) list option"
  consumer_conn_key :: uint64
  rkey_buf :: "rkey_mem option"
  rkey_size :: size_t
  cons_buf_ptr :: uint64
  ud_rkey :: nat

text \<open>\<^verbatim>\<open>ctx->dtl_handle->private_dtl.ucx_dtl_handle\<close>, \<open>None\<close> when it is \<^verbatim>\<open>NULL\<close>.\<close>

record 'e ucx_world = "'e dyad_world" +
  ucx_dtl_handle :: "dyad_dtl_ucx option"

type_synonym ('e, 'y) uworld = "('e, 'y ucx_world_ext) dworld"

type_synonym ('e, 'y, 'a) uio = "(('e, 'y) uworld, 'a) state"

definition the_ucx :: "('e, 'y, dyad_dtl_ucx) uio" where
  "the_ucx = State (\<lambda>w. (the (ucx_dtl_handle w), w))"

definition set_ucx :: "dyad_dtl_ucx option \<Rightarrow> ('e, 'y, unit) uio" where
  "set_ucx h = State (\<lambda>w. ((), w\<lparr>ucx_dtl_handle := h\<rparr>))"

definition upd_ucx :: "(dyad_dtl_ucx \<Rightarrow> dyad_dtl_ucx) \<Rightarrow> ('e, 'y, unit) uio" where
  "upd_ucx f = State (\<lambda>w. ((), w\<lparr>ucx_dtl_handle := map_option f (ucx_dtl_handle w)\<rparr>))"

lemma wp_ucx [wps]:
  fixes w :: "('e, 'y) uworld"
  shows "wp the_ucx P w = P (the (ucx_dtl_handle w)) w"
    "wp (set_ucx h) Q w = Q () (w\<lparr>ucx_dtl_handle := h\<rparr>)"
    "wp (upd_ucx f) Q w = Q () (w\<lparr>ucx_dtl_handle := map_option f (ucx_dtl_handle w)\<rparr>)"
  by (simp_all add: the_ucx_def set_ucx_def upd_ucx_def wp_State)

text \<open>Going on after a step that may be stuck or undefined.\<close>

definition and_then :: "('e, 'y, 'a option) uio \<Rightarrow> ('a \<Rightarrow> ('e, 'y, 'b option) uio) \<Rightarrow> ('e, 'y, 'b option) uio" where
  "and_then m k = do { r \<leftarrow> m; case r of None \<Rightarrow> State_Monad.return None | Some a \<Rightarrow> k a }"

definition do_if :: "bool \<Rightarrow> ('e, 'y, unit) uio \<Rightarrow> ('e, 'y, unit) uio" where
  "do_if b m = (if b then m else State_Monad.return ())"

section \<open>Waiting\<close>

text \<open>The loops of \<^verbatim>\<open>dyad_ucx_request_wait\<close> and \<^verbatim>\<open>ucx_disconnect\<close>.\<close>

fun await_request :: "'e ucx_ops \<Rightarrow> nat \<Rightarrow> nat \<Rightarrow> nat \<Rightarrow> ('e, 'y, ucs_status option) uio" where
  "await_request U 0 worker request = State_Monad.return None"
| "await_request U (Suc fuel) worker request = do {
     flux_do (ux_worker_progress U worker);
     status \<leftarrow> lib_get (ux_request_check_status U request);
     if status = UCS_INPROGRESS then await_request U fuel worker request
     else do {
       flux_do (ux_request_free U request);
       State_Monad.return (Some status) } }"

definition dyad_ucx_request_wait :: "'e ucx_ops \<Rightarrow> nat \<Rightarrow> ucs_status_ptr \<Rightarrow> ('e, 'y, ucs_status option) uio" where
  "dyad_ucx_request_wait U fuel request =
     (case request of
        Ptr_null \<Rightarrow> State_Monad.return (Some UCS_OK)
      | Ptr_req r \<Rightarrow> do {
          d \<leftarrow> the_ucx;
          await_request U fuel (ucx_worker d) r }
      | Ptr_err status \<Rightarrow> State_Monad.return (Some status))"

section \<open>Endpoints\<close>

text \<open>\<^verbatim>\<open>ep\<close> is \<^verbatim>\<open>&dtl_handle->ep\<close> in every call of the repository.\<close>

definition ucx_connect :: "'e ucx_ops \<Rightarrow> nat \<Rightarrow> bytes option \<Rightarrow> ('e, 'y, dyad_rc) uio" where
  "ucx_connect U worker addr = do {
     (status, new) \<leftarrow> lib_call (ux_ep_create U worker addr);
     (case new of None \<Rightarrow> State_Monad.return () | Some ep \<Rightarrow> upd_ucx (\<lambda>d. d\<lparr>ud_ep := ep\<rparr>));
     if UCX_STATUS_FAIL status then State_Monad.return RC_UCXCOMM_FAIL
     else do {
       d \<leftarrow> the_ucx;
       State_Monad.return (if ud_ep d = 0 then RC_UCXCOMM_FAIL else RC_OK) } }"

definition ucx_disconnect :: "'e ucx_ops \<Rightarrow> nat \<Rightarrow> nat \<Rightarrow> nat \<Rightarrow> ('e, 'y, dyad_rc option) uio" where
  "ucx_disconnect U fuel worker ep =
     (if ep = 0 then State_Monad.return (Some RC_OK)
      else do {
        stat_ptr \<leftarrow> lib_call (ux_ep_close U ep);
        and_then
          (case stat_ptr of
             Ptr_null \<Rightarrow> State_Monad.return (Some UCS_OK)
           | Ptr_req r \<Rightarrow> await_request U fuel worker r
           | Ptr_err status \<Rightarrow> State_Monad.return (Some status))
          (\<lambda>status. State_Monad.return (Some (if UCX_STATUS_FAIL status then RC_UCXEP_FAIL else RC_OK))) })"

text \<open>The cache, in the order of insertion.\<close>

definition dyad_ucx_ep_cache_init :: "('e, 'y, dyad_rc) uio" where
  "dyad_ucx_ep_cache_init = do {
     d \<leftarrow> the_ucx;
     if ep_cache d \<noteq> None then State_Monad.return RC_BADBUF
     else do {
       ok \<leftarrow> sys_malloc;
       do_if ok (upd_ucx (\<lambda>d. d\<lparr>ep_cache := Some []\<rparr>));
       State_Monad.return (if ok then RC_OK else RC_SYSFAIL) } }"

definition dyad_ucx_ep_cache_find :: "('e, 'y, dyad_rc) uio" where
  "dyad_ucx_ep_cache_find = do {
     d \<leftarrow> the_ucx;
     if ud_ep d \<noteq> 0 then State_Monad.return RC_BADBUF
     else case map_of (the (ep_cache d)) (consumer_conn_key d) of
       None \<Rightarrow> do { upd_ucx (\<lambda>d. d\<lparr>ud_ep := 0\<rparr>); State_Monad.return RC_NOTFOUND }
     | Some ep \<Rightarrow> do { upd_ucx (\<lambda>d. d\<lparr>ud_ep := ep\<rparr>); State_Monad.return RC_OK } }"

text \<open>Inserting an entry takes memory; when there is none the exception becomes \<^verbatim>\<open>DYAD_RC_SYSFAIL\<close>.\<close>

definition dyad_ucx_ep_cache_insert :: "'e ucx_ops \<Rightarrow> bytes option \<Rightarrow> nat \<Rightarrow> ('e, 'y, dyad_rc) uio" where
  "dyad_ucx_ep_cache_insert U addr worker = do {
     d \<leftarrow> the_ucx;
     let key = consumer_conn_key d;
     if map_of (the (ep_cache d)) key \<noteq> None then State_Monad.return RC_OK
     else do {
       rc \<leftarrow> ucx_connect U worker addr;
       if is_error rc then State_Monad.return rc
       else do {
         ok \<leftarrow> sys_malloc;
         if \<not> ok then State_Monad.return RC_SYSFAIL
         else do {
           upd_ucx (\<lambda>d. d\<lparr>ep_cache := map_option (\<lambda>es. es @ [(key, ud_ep d)]) (ep_cache d)\<rparr>);
           State_Monad.return RC_OK } } } }"

definition cache_remove_impl :: "'e ucx_ops \<Rightarrow> nat \<Rightarrow> uint64 \<times> nat \<Rightarrow> nat \<Rightarrow> ('e, 'y, unit option) uio" where
  "cache_remove_impl U fuel it worker =
     and_then (ucx_disconnect U fuel worker (snd it)) (\<lambda>_. do {
       upd_ucx (\<lambda>d. d\<lparr>ep_cache := map_option (filter (\<lambda>e. fst e \<noteq> fst it)) (ep_cache d)\<rparr>);
       State_Monad.return (Some ()) })"

definition dyad_ucx_ep_cache_remove :: "'e ucx_ops \<Rightarrow> nat \<Rightarrow> nat \<Rightarrow> ('e, 'y, dyad_rc option) uio" where
  "dyad_ucx_ep_cache_remove U fuel worker = do {
     d \<leftarrow> the_ucx;
     and_then
       (case map_of (the (ep_cache d)) (consumer_conn_key d) of
          None \<Rightarrow> State_Monad.return (Some ())
        | Some ep \<Rightarrow> cache_remove_impl U fuel (consumer_conn_key d, ep) worker)
       (\<lambda>_. State_Monad.return (Some RC_OK)) }"

fun remove_all_eps :: "'e ucx_ops \<Rightarrow> nat \<Rightarrow> (uint64 \<times> nat) list \<Rightarrow> nat \<Rightarrow> ('e, 'y, unit option) uio" where
  "remove_all_eps U fuel [] worker = State_Monad.return (Some ())"
| "remove_all_eps U fuel (it # its) worker =
     and_then (cache_remove_impl U fuel it worker) (\<lambda>_. remove_all_eps U fuel its worker)"

definition dyad_ucx_ep_cache_finalize :: "'e ucx_ops \<Rightarrow> nat \<Rightarrow> nat \<Rightarrow> ('e, 'y, dyad_rc option) uio" where
  "dyad_ucx_ep_cache_finalize U fuel worker = do {
     d \<leftarrow> the_ucx;
     case ep_cache d of
       None \<Rightarrow> State_Monad.return (Some RC_OK)
     | Some es \<Rightarrow> and_then (remove_all_eps U fuel (cxx_map_order U es) worker) (\<lambda>_. do {
         upd_ucx (\<lambda>d. d\<lparr>ep_cache := None\<rparr>);
         State_Monad.return (Some RC_OK) }) }"

section \<open>Buffers\<close>

definition UCX_MAX_TRANSFER_SIZE :: size_t where "UCX_MAX_TRANSFER_SIZE = 4 * 1024 * 1024 * 1024"

definition ucx_allocate_buffer :: "'e ucx_ops \<Rightarrow> ('e, 'y, dyad_rc) uio" where
  "ucx_allocate_buffer U = do {
     d \<leftarrow> the_ucx;
     if ucx_ctx d = 0 then State_Monad.return RC_NOCTX
     else if ud_comm_mode d = COMM_NONE then State_Monad.return RC_BAD_COMM_MODE
     else do {
       (status, m) \<leftarrow> lib_call (ux_mem_map U (ucx_ctx d) (max_transfer_size d + 8)
         (if ud_comm_mode d = COMM_SEND then PROT_LOCAL_READ else PROT_REMOTE_WRITE));
       (case m of None \<Rightarrow> State_Monad.return () | Some m \<Rightarrow> upd_ucx (\<lambda>d. d\<lparr>mem_handle := m\<rparr>));
       if UCX_STATUS_FAIL status then State_Monad.return RC_UCXMMAP_FAIL
       else do {
         d \<leftarrow> the_ucx;
         (status, address) \<leftarrow> lib_get (ux_mem_query U (mem_handle d));
         if UCX_STATUS_FAIL status then do {
           flux_do (ux_mem_unmap U (ucx_ctx d) (mem_handle d));
           State_Monad.return RC_UCXMMAP_FAIL }
         else do {
           upd_ucx (\<lambda>d. d\<lparr>net_buf := address, cons_buf_ptr := of_nat address\<rparr>);
           if ud_comm_mode d = COMM_RECV then do {
             (status, key) \<leftarrow> lib_call (ux_rkey_pack U (ucx_ctx d) (mem_handle d));
             (case key of None \<Rightarrow> State_Monad.return ()
              | Some (a, b) \<Rightarrow> upd_ucx (\<lambda>d. d\<lparr>rkey_buf := Some (Ucx_mem a b), rkey_size := of_nat (length b)\<rparr>));
             if UCX_STATUS_FAIL status then do {
               flux_do (ux_mem_unmap U (ucx_ctx d) (mem_handle d));
               State_Monad.return RC_UCXRKEY_PACK_FAILED }
             else State_Monad.return RC_OK }
           else State_Monad.return RC_OK } } } }"

text \<open>\<^verbatim>\<open>buf\<close> is \<^verbatim>\<open>&dtl_handle->net_buf\<close> in the only call.\<close>

definition ucx_free_buffer :: "'e ucx_ops \<Rightarrow> nat \<Rightarrow> nat \<Rightarrow> ('e, 'y, dyad_rc) uio" where
  "ucx_free_buffer U ucp_ctx mem = do {
     d \<leftarrow> the_ucx;
     if ucp_ctx = 0 then State_Monad.return RC_NOCTX
     else if mem = 0 then State_Monad.return RC_UCXMMAP_FAIL
     else if net_buf d = 0 then State_Monad.return RC_BADBUF
     else do {
       flux_do (ux_mem_unmap U ucp_ctx mem);
       upd_ucx (\<lambda>d. d\<lparr>net_buf := 0\<rparr>);
       State_Monad.return RC_OK } }"

text \<open>The argument is the old value of \<^verbatim>\<open>*data_buf\<close>, the second component the new one.\<close>

definition dyad_dtl_ucx_get_buffer :: "size_t \<Rightarrow> nat \<Rightarrow> ('e, 'y, dyad_rc \<times> nat) uio" where
  "dyad_dtl_ucx_get_buffer data_size data_buf = do {
     d \<leftarrow> the_ucx;
     State_Monad.return (if data_size > max_transfer_size d then (RC_BADBUF, data_buf) else (RC_OK, net_buf d)) }"

definition dyad_dtl_ucx_return_buffer :: "nat option \<Rightarrow> ('e, 'y, dyad_rc \<times> nat option) uio" where
  "dyad_dtl_ucx_return_buffer data_buf =
     State_Monad.return (if data_buf = None \<or> data_buf = Some 0 then (RC_BADBUF, data_buf) else (RC_OK, Some 0))"

section \<open>Sending and receiving\<close>

definition ucx_send_no_wait :: "'e ucx_ops \<Rightarrow> nat \<Rightarrow> size_t \<Rightarrow> ('e, 'y, ucs_status_ptr) uio" where
  "ucx_send_no_wait U buf buflen = do {
     d \<leftarrow> the_ucx;
     if ud_ep d = 0 then State_Monad.return (Ptr_err UCS_ERR_NOT_CONNECTED)
     else case rkey_buf d of
       None \<Rightarrow> State_Monad.return (Ptr_err UCS_ERR_NOT_CONNECTED)
     | Some key \<Rightarrow> do {
         (status, new) \<leftarrow> lib_call (ux_ep_rkey_unpack U (ud_ep d) (rkey_bytes key));
         (case new of None \<Rightarrow> State_Monad.return () | Some k \<Rightarrow> upd_ucx (\<lambda>d. d\<lparr>ud_rkey := k\<rparr>));
         if UCX_STATUS_FAIL status then State_Monad.return (Ptr_err UCS_ERR_NOT_CONNECTED)
         else do {
           d \<leftarrow> the_ucx;
           stat_ptr \<leftarrow> lib_call (ux_put U (ud_ep d) buf buflen (cons_buf_ptr d) (ud_rkey d));
           State_Monad.return
             (case stat_ptr of Ptr_err _ \<Rightarrow> Ptr_err UCS_ERR_NOT_CONNECTED | _ \<Rightarrow> stat_ptr) } } }"

definition dyad_dtl_ucx_send :: "'e ucx_ops \<Rightarrow> nat \<Rightarrow> nat \<Rightarrow> size_t \<Rightarrow> ('e, 'y, dyad_rc option) uio" where
  "dyad_dtl_ucx_send U fuel buf buflen = do {
     stat_ptr \<leftarrow> ucx_send_no_wait U buf buflen;
     and_then (dyad_ucx_request_wait U fuel stat_ptr) (\<lambda>status.
       State_Monad.return (Some (if status \<noteq> UCS_OK then RC_UCXCOMM_FAIL else RC_OK))) }"

text \<open>Watching the first eight bytes of the buffer.\<close>

fun ucx_recv_no_wait :: "'e ucx_ops \<Rightarrow> nat \<Rightarrow> ('e, 'y, ucs_status_ptr option) uio" where
  "ucx_recv_no_wait U 0 = State_Monad.return None"
| "ucx_recv_no_wait U (Suc fuel) = do {
     d \<leftarrow> the_ucx;
     if net_buf d = 0 then State_Monad.return None
     else do {
       temp \<leftarrow> lib_get (ux_load U (net_buf d));
       flux_do (ux_worker_progress U (ucx_worker d));
       if temp = 0 then ucx_recv_no_wait U fuel else State_Monad.return (Some Ptr_null) } }"

definition dyad_dtl_ucx_recv :: "'e ucx_ops \<Rightarrow> nat \<Rightarrow> ('e, 'y, dyad_rc option) uio" where
  "dyad_dtl_ucx_recv U fuel =
     and_then (ucx_recv_no_wait U fuel) (\<lambda>_. State_Monad.return (Some RC_OK))"

section \<open>Requests\<close>

function dec_of :: "int \<Rightarrow> string" where
  "dec_of n = (if n < 10 then [char_of (48 + n)] else dec_of (n div 10) @ [char_of (48 + n mod 10)])"
  by auto

termination by (relation "measure nat") auto

declare dec_of.simps [simp del]

definition c_atoll :: "string \<Rightarrow> uint64" where
  "c_atoll s =
     (let (neg, ds) = signed_number s; v = int (digits_val ds) in
      of_int (if neg then max (- v) (- (2 ^ 63)) else min v (2 ^ 63 - 1)))"

definition string_of_bytes :: "bytes \<Rightarrow> string" where
  "string_of_bytes b = map (\<lambda>x. char_of (unat x)) b"

text \<open>The text of \<^verbatim>\<open>b\<close> in base64, without the terminating zero; \<open>None\<close> when the encoder refuses.\<close>

definition encode_text :: "bytes \<Rightarrow> string option" where
  "encode_text b =
     (let enc_len = base64_encoded_length (of_nat (length b)) in
      case base64_encode_using_maps base64_maps_rfc4648 (enc_len + 1) b of
        Inl _ \<Rightarrow> None
      | Inr (_, out) \<Rightarrow> Some (string_of_bytes (take (unat enc_len) out)))"

definition ucx_members :: "string \<Rightarrow> uint32 \<Rightarrow> uint64 \<Rightarrow> int \<Rightarrow> string \<Rightarrow> string \<Rightarrow> json" where
  "ucx_members upath producer_rank tag_val pid addr rkey =
     [(''upath'', JStr upath), (''tag_prod'', JInt (sint producer_rank)), (''cons_buf'', JStr (dec_of (uint tag_val))),
      (''pid_cons'', JInt pid), (''addr'', JStr addr), (''rkey'', JStr rkey)]"

definition dyad_dtl_ucx_rpc_pack ::
  "'e flux_ops \<Rightarrow> 'e ucx_ops \<Rightarrow> string \<Rightarrow> uint32 \<Rightarrow> ('e, 'y, (dyad_rc \<times> json option) option) uio" where
  "dyad_dtl_ucx_rpc_pack F U upath producer_rank = do {
     d \<leftarrow> the_ucx;
     if net_buf d = 0 then State_Monad.return None
     else do {
       flux_do (ux_store U (net_buf d) 0);
       case local_address d of
         None \<Rightarrow> State_Monad.return (Some (RC_BADPACK, None))
       | Some (_, addr) \<Rightarrow> do {
           ok \<leftarrow> sys_malloc;
           if \<not> ok then State_Monad.return (Some (RC_SYSFAIL, None))
           else case encode_text (take (unat (local_addr_len d)) addr) of
             None \<Rightarrow> State_Monad.return (Some (RC_BADPACK, None))
           | Some cons_enc_buf \<Rightarrow> do {
               ok \<leftarrow> sys_malloc;
               if \<not> ok then State_Monad.return (Some (RC_SYSFAIL, None))
               else if rkey_buf d = None \<and> rkey_size d \<noteq> 0 then State_Monad.return None
               else case encode_text (take (unat (rkey_size d))
                      (case rkey_buf d of None \<Rightarrow> [] | Some key \<Rightarrow> rkey_bytes key)) of
                 None \<Rightarrow> State_Monad.return (Some (RC_BADPACK, None))
               | Some rkey_enc_buf \<Rightarrow> do {
                   c \<leftarrow> the_ctx;
                   packed_obj \<leftarrow> flux_call (fx_json_pack F
                     (ucx_members upath producer_rank (cons_buf_ptr d) (ctx_pid c) cons_enc_buf rkey_enc_buf));
                   State_Monad.return (Some (if packed_obj = None then RC_BADPACK else RC_OK, packed_obj)) } } } } }"

text \<open>
  Members are unpacked in the order of the format string; \<^verbatim>\<open>s:i\<close> stores 32 bits into a variable of 64 bits that is zero.
\<close>

definition c_int_bits :: "int \<Rightarrow> uint64" where
  "c_int_bits i = ucast (of_int i :: uint32)"

text \<open>
  Decoding into memory from \<^verbatim>\<open>malloc\<close>, of the decoded length, so that no write of the decoder leaves it (see
  \<open>decode_loop_within\<close>); the outer \<open>None\<close> is a failed allocation, the inner one a failed decoding.
\<close>

definition decode_text :: "string \<Rightarrow> ('e, 'y, bytes option option) uio" where
  "decode_text s = do {
     ok \<leftarrow> sys_malloc;
     State_Monad.return
       (if \<not> ok then None
        else let n = base64_decoded_length (of_nat (length s)) in
             Some (case base64_decode_using_maps base64_maps_rfc4648 (replicate (unat n) 0) n (bytes_of_string s) of
                     Some (Inr _, out) \<Rightarrow> Some out
                   | _ \<Rightarrow> None)) }"

text \<open>The part of \<^verbatim>\<open>dyad_dtl_ucx_rpc_unpack\<close> that takes over the remote key.\<close>

definition unpack_rkey :: "string \<Rightarrow> ('e, 'y, dyad_rc option) uio" where
  "unpack_rkey enc_rkey = do {
     upd_ucx (\<lambda>d. d\<lparr>rkey_size := base64_decoded_length (of_nat (length enc_rkey))\<rparr>);
     d \<leftarrow> the_ucx;
     if (case rkey_buf d of Some (Ucx_mem _ _) \<Rightarrow> True | _ \<Rightarrow> False) then State_Monad.return None
     else do {
       key \<leftarrow> decode_text enc_rkey;
       case key of
         None \<Rightarrow> do { upd_ucx (\<lambda>d. d\<lparr>rkey_buf := None\<rparr>); State_Monad.return (Some RC_SYSFAIL) }
       | Some None \<Rightarrow> do {
           upd_ucx (\<lambda>d. d\<lparr>rkey_buf := None, rkey_size := 0\<rparr>);
           State_Monad.return (Some RC_BAD_B64DECODE) }
       | Some (Some key) \<Rightarrow> do {
           upd_ucx (\<lambda>d. d\<lparr>rkey_buf := Some (Heap_mem key)\<rparr>);
           State_Monad.return (Some RC_OK) } } }"

definition dyad_dtl_ucx_rpc_unpack ::
  "'e flux_ops \<Rightarrow> flux_msg \<Rightarrow> ('e, 'y, (dyad_rc \<times> string option) option) uio" where
  "dyad_dtl_ucx_rpc_unpack F msg = do {
     r \<leftarrow> flux_call (fx_request_unpack F msg);
     let obj = (case r of None \<Rightarrow> [] | Some obj \<Rightarrow> obj);
     case (member_str ''upath'' obj, member_int ''tag_prod'' obj, member_str ''cons_buf'' obj) of
       (Some upath, Some tag_prod, Some tag_value_str) \<Rightarrow>
         (case (member_int ''pid_cons'' obj, member_str ''addr'' obj, member_str ''rkey'' obj) of
            (Some pid, Some enc_addr, Some enc_rkey) \<Rightarrow> do {
              upd_ucx (\<lambda>d. d\<lparr>cons_buf_ptr := c_atoll tag_value_str, comm_tag := push_bit 32 (c_int_bits tag_prod),
                             consumer_conn_key := push_bit 32 (c_int_bits pid),
                             remote_addr_len := base64_decoded_length (of_nat (length enc_addr))\<rparr>);
              addr \<leftarrow> decode_text enc_addr;
              case addr of
                None \<Rightarrow> do {
                  upd_ucx (\<lambda>d. d\<lparr>remote_address := None\<rparr>);
                  State_Monad.return (Some (RC_SYSFAIL, Some upath)) }
              | Some None \<Rightarrow> do {
                  upd_ucx (\<lambda>d. d\<lparr>remote_address := None, remote_addr_len := 0\<rparr>);
                  State_Monad.return (Some (RC_BAD_B64DECODE, Some upath)) }
              | Some (Some addr) \<Rightarrow> do {
                  upd_ucx (\<lambda>d. d\<lparr>remote_address := Some addr\<rparr>);
                  and_then (unpack_rkey enc_rkey) (\<lambda>rc. State_Monad.return (Some (rc, Some upath))) } }
          | _ \<Rightarrow> State_Monad.return (Some (RC_BADUNPACK, Some upath)))
     | _ \<Rightarrow> State_Monad.return None }"

definition dyad_dtl_ucx_rpc_respond :: "flux_msg \<Rightarrow> ('e, 'y, dyad_rc) uio" where
  "dyad_dtl_ucx_rpc_respond orig_msg = State_Monad.return RC_OK"

definition dyad_dtl_ucx_rpc_recv_response :: "flux_future \<Rightarrow> ('e, 'y, dyad_rc) uio" where
  "dyad_dtl_ucx_rpc_recv_response f = State_Monad.return RC_OK"

section \<open>Connections\<close>

definition dyad_dtl_ucx_establish_connection :: "'e ucx_ops \<Rightarrow> ('e, 'y, dyad_rc) uio" where
  "dyad_dtl_ucx_establish_connection U = do {
     d \<leftarrow> the_ucx;
     if ud_comm_mode d = COMM_SEND then do {
       rc \<leftarrow> dyad_ucx_ep_cache_find;
       if is_error rc then dyad_ucx_ep_cache_insert U (remote_address d) (ucx_worker d)
       else State_Monad.return RC_OK }
     else State_Monad.return (if ud_comm_mode d = COMM_RECV then RC_OK else RC_BAD_COMM_MODE) }"

definition dyad_dtl_ucx_close_connection :: "'e ucx_ops \<Rightarrow> ('e, 'y, dyad_rc option) uio" where
  "dyad_dtl_ucx_close_connection U = do {
     d \<leftarrow> the_ucx;
     if ud_comm_mode d = COMM_SEND then do {
       do_if (ud_rkey d \<noteq> 0) (flux_do (ux_rkey_destroy U (ud_rkey d)));
       upd_ucx (\<lambda>d. d\<lparr>ud_rkey := 0\<rparr>);
       if (case rkey_buf d of Some (Ucx_mem _ _) \<Rightarrow> True | _ \<Rightarrow> False) then State_Monad.return None
       else do {
         upd_ucx (\<lambda>d. d\<lparr>rkey_buf := None, ud_ep := 0, remote_address := None, remote_addr_len := 0, comm_tag := 0\<rparr>);
         State_Monad.return (Some RC_OK) } }
     else if ud_comm_mode d = COMM_RECV then do {
       upd_ucx (\<lambda>d. d\<lparr>comm_tag := 0\<rparr>);
       State_Monad.return (Some RC_OK) }
     else State_Monad.return (Some RC_BAD_COMM_MODE) }"

section \<open>Finalising\<close>

definition release_rkey_buf :: "'e ucx_ops \<Rightarrow> ('e, 'y, unit option) uio" where
  "release_rkey_buf U = do {
     d \<leftarrow> the_ucx;
     case (rkey_buf d, ud_comm_mode d = COMM_SEND) of
       (None, _) \<Rightarrow> State_Monad.return (Some ())
     | (Some (Ucx_mem _ _), True) \<Rightarrow> State_Monad.return None
     | (Some (Heap_mem _), False) \<Rightarrow> State_Monad.return None
     | (Some (Heap_mem _), True) \<Rightarrow> do {
         upd_ucx (\<lambda>d. d\<lparr>rkey_buf := None\<rparr>);
         State_Monad.return (Some ()) }
     | (Some (Ucx_mem a _), False) \<Rightarrow> do {
         flux_do (ux_rkey_buffer_release U a);
         upd_ucx (\<lambda>d. d\<lparr>rkey_buf := None\<rparr>);
         State_Monad.return (Some ()) } }"

text \<open>What is left once the endpoints are closed and the packed key is released.\<close>

definition release_worker :: "'e ucx_ops \<Rightarrow> ('e, 'y, unit) uio" where
  "release_worker U = do {
     d \<leftarrow> the_ucx;
     do_if (ud_rkey d \<noteq> 0) (flux_do (ux_rkey_destroy U (ud_rkey d)));
     upd_ucx (\<lambda>d. d\<lparr>ud_rkey := 0\<rparr>);
     do_if (mem_handle d \<noteq> 0) (do { _ \<leftarrow> ucx_free_buffer U (ucx_ctx d) (mem_handle d); State_Monad.return () });
     upd_ucx (\<lambda>d. d\<lparr>mem_handle := 0\<rparr>);
     do_if (ucx_worker d \<noteq> 0) (flux_do (ux_worker_destroy U (ucx_worker d)));
     upd_ucx (\<lambda>d. d\<lparr>ucx_worker := 0\<rparr>);
     do_if (ucx_ctx d \<noteq> 0) (flux_do (ux_cleanup U (ucx_ctx d)));
     upd_ucx (\<lambda>d. d\<lparr>ucx_ctx := 0\<rparr>) }"

definition release_addresses :: "'e ucx_ops \<Rightarrow> ('e, 'y, unit) uio" where
  "release_addresses U = do {
     d \<leftarrow> the_ucx;
     (case local_address d of
        None \<Rightarrow> State_Monad.return ()
      | Some (a, _) \<Rightarrow> flux_do (ux_worker_release_address U (ucx_worker d) a));
     upd_ucx (\<lambda>d. d\<lparr>local_address := None, remote_address := None\<rparr>) }"

definition dyad_dtl_ucx_finalize :: "'e ucx_ops \<Rightarrow> nat \<Rightarrow> ('e, 'y, dyad_rc option) uio" where
  "dyad_dtl_ucx_finalize U fuel = do {
     c \<leftarrow> the_ctx;
     h \<leftarrow> State (\<lambda>w. (ucx_dtl_handle w, w));
     if dtl_handle c = None \<or> h = None then State_Monad.return (Some RC_OK)
     else and_then
       (if ud_ep (the h) \<noteq> 0 then dyad_dtl_ucx_close_connection U else State_Monad.return (Some RC_OK)) (\<lambda>_. do {
       upd_ucx (\<lambda>d. d\<lparr>ud_ep := 0\<rparr>);
       and_then (dyad_ucx_ep_cache_finalize U fuel (ucx_worker (the h))) (\<lambda>_. do {
         release_addresses U;
         and_then (release_rkey_buf U) (\<lambda>_. do {
           release_worker U;
           set_ucx None;
           State_Monad.return (Some RC_OK) }) }) }) }"

section \<open>Initialising\<close>

definition ucx_warmup :: "'e ucx_ops \<Rightarrow> nat \<Rightarrow> ('e, 'y, dyad_rc option) uio" where
  "ucx_warmup U fuel = do {
     (rc, send_buf) \<leftarrow> dyad_dtl_ucx_get_buffer 1 0;
     if is_error rc then State_Monad.return (Some rc)
     else do {
       ok \<leftarrow> sys_malloc;
       if \<not> ok then State_Monad.return (Some RC_SYSFAIL)
       else do {
         d \<leftarrow> the_ucx;
         rc \<leftarrow> ucx_connect U (ucx_worker d) (map_option snd (local_address d));
         if is_error rc then State_Monad.return (Some rc)
         else do {
           send_stat_ptr \<leftarrow> ucx_send_no_wait U send_buf 1;
           if send_stat_ptr = Ptr_err UCS_ERR_NOT_CONNECTED then State_Monad.return (Some rc)
           else and_then (dyad_ucx_request_wait U fuel send_stat_ptr) (\<lambda>send_status. do {
             d \<leftarrow> the_ucx;
             and_then (ucx_disconnect U fuel (ucx_worker d) (ud_ep d)) (\<lambda>_.
               State_Monad.return (Some (if UCX_STATUS_FAIL send_status then RC_UCXCOMM_FAIL else RC_OK))) }) } } } }"

definition ucx_init_failed :: "'e ucx_ops \<Rightarrow> nat \<Rightarrow> ('e, 'y, dyad_rc option) uio" where
  "ucx_init_failed U fuel =
     and_then (dyad_dtl_ucx_finalize U fuel) (\<lambda>_. State_Monad.return (Some RC_UCXINIT_FAIL))"

definition fresh_ucx :: "flux_handle option \<Rightarrow> dyad_dtl_comm_mode \<Rightarrow> bool \<Rightarrow> dyad_dtl_ucx" where
  "fresh_ucx h comm_mode debug =
     \<lparr>ud_h = h, ud_comm_mode = comm_mode, ud_debug = debug, ucx_ctx = 0, ucx_worker = 0, mem_handle = 0, net_buf = 0,
      max_transfer_size = UCX_MAX_TRANSFER_SIZE, local_address = None, local_addr_len = 0, remote_address = None,
      remote_addr_len = 0, ud_ep = 0, comm_tag = 0, ep_cache = None, consumer_conn_key = 0, rkey_buf = None,
      rkey_size = 0, cons_buf_ptr = 0, ud_rkey = 0\<rparr>"

text \<open>The part of \<^verbatim>\<open>dyad_dtl_ucx_init\<close> that starts UCX: its context, its worker and the worker's address.\<close>

definition start_ucx :: "'e ucx_ops \<Rightarrow> ('e, 'y, bool) uio" where
  "start_ucx U = do {
     status \<leftarrow> lib_call (ux_config_read U);
     if UCX_STATUS_FAIL status then State_Monad.return False
     else do {
       (status, new) \<leftarrow> lib_call (ux_init U);
       (case new of None \<Rightarrow> State_Monad.return () | Some x \<Rightarrow> upd_ucx (\<lambda>d. d\<lparr>ucx_ctx := x\<rparr>));
       if UCX_STATUS_FAIL status then State_Monad.return False
       else do {
         d \<leftarrow> the_ucx;
         (status, new) \<leftarrow> lib_call (ux_worker_create U (ucx_ctx d));
         (case new of None \<Rightarrow> State_Monad.return () | Some x \<Rightarrow> upd_ucx (\<lambda>d. d\<lparr>ucx_worker := x\<rparr>));
         if UCX_STATUS_FAIL status then State_Monad.return False
         else do {
           d \<leftarrow> the_ucx;
           (_, new) \<leftarrow> lib_call (ux_worker_get_address U (ucx_worker d));
           (case new of None \<Rightarrow> State_Monad.return ()
            | Some (a, b) \<Rightarrow> upd_ucx (\<lambda>d. d\<lparr>local_address := Some (a, b), local_addr_len := of_nat (length b)\<rparr>));
           State_Monad.return True } } } }"

definition dyad_dtl_ucx_init ::
  "'e ucx_ops \<Rightarrow> nat \<Rightarrow> dyad_dtl_mode \<Rightarrow> dyad_dtl_comm_mode \<Rightarrow> bool \<Rightarrow> ('e, 'y, dyad_rc option) uio" where
  "dyad_dtl_ucx_init U fuel mode comm_mode debug = do {
     ok \<leftarrow> sys_malloc;
     if \<not> ok then do { set_ucx None; State_Monad.return (Some RC_SYSFAIL) }
     else do {
       c \<leftarrow> the_ctx;
       set_ucx (Some (fresh_ucx (ctx_h c) comm_mode debug));
       started \<leftarrow> start_ucx U;
       if \<not> started then ucx_init_failed U fuel
       else do {
         rc \<leftarrow> dyad_ucx_ep_cache_init;
         if is_error rc then ucx_init_failed U fuel
         else do {
           _ \<leftarrow> ucx_allocate_buffer U;
           upd_dtl (\<lambda>d. d\<lparr>dtl_wired := True, dtl_has_detach := False, send_detached_is_thread_safe := False\<rparr>);
           and_then (ucx_warmup U fuel) (\<lambda>rc.
             if is_error rc then ucx_init_failed U fuel
             else do {
               upd_ucx (\<lambda>d. d\<lparr>ud_ep := 0\<rparr>);
               State_Monad.return (Some RC_OK) }) } } } }"

end
