(* ===== verification/Ucx_Correct.thy ===== *)
theory Ucx_Correct
  imports Ucx Frames Samples "HOL-Library.Multiset"
begin

text \<open>
  What the UCX transport does with a request and with the library's resources: the producer unpacks what the consumer has packed;
  finalising gives back every resource the handle owns, once, and in an order UCX allows; the warm-up of a
  producer leaves an endpoint open; and a consumer gets the endpoint of another one with the same process number.
\<close>

section \<open>Numbers and base64 text\<close>

lemma digits_val_append:
  "\<forall>c\<in>set s. is_digit c \<Longrightarrow> is_digit c \<Longrightarrow> digits_val (s @ [c]) = 10 * digits_val s + (of_char c - 48)"
  by (simp add: digits_val_def takeWhile_append2 takeWhile_eq_all_conv [THEN iffD2])

lemma digit_char:
  fixes n :: int
  assumes "0 \<le> n" "n < 10"
  shows "is_digit (char_of (48 + n)) \<and> of_char (char_of (48 + n)) = 48 + nat n"
proof -
  obtain m where m: "n = int m" using assms(1) nonneg_int_cases by blast
  have "char_of (48 + n) = (char_of (48 + m) :: char)" using char_of_nat [of "48 + m", where 'a = int] m by simp
  with assms(2) m show ?thesis by (simp add: is_digit_def Let_def)
qed

lemma dec_of_digits: "0 \<le> n \<Longrightarrow> dec_of n \<noteq> [] \<and> (\<forall>c\<in>set (dec_of n). is_digit c) \<and> digits_val (dec_of n) = nat n"
proof (induction n rule: dec_of.induct)
  case (1 n)
  show ?case
  proof (cases "n < 10")
    case True
    with 1 digit_char [of n] show ?thesis by (simp add: dec_of.simps [of n] digits_val_def)
  next
    case False
    have "nat n = 10 * nat (n div 10) + nat (n mod 10)" using 1(2) by (simp add: nat_div_distrib nat_mod_distrib)
    moreover have "0 \<le> n div 10" using 1(2) by (simp add: pos_imp_zdiv_nonneg_iff)
    ultimately show ?thesis
      using False 1 digit_char [of "n mod 10"] digits_val_append [of "dec_of (n div 10)" "char_of (48 + n mod 10)"]
      by (simp add: dec_of.simps [of n])
  qed
qed

lemma digit_plain: "is_digit c \<Longrightarrow> \<not> is_space c \<and> c \<noteq> CHR ''-'' \<and> c \<noteq> CHR ''+''"
  by (auto simp: is_digit_def is_space_def Let_def)

lemma signed_number_dec: "0 \<le> n \<Longrightarrow> signed_number (dec_of n) = (False, dec_of n)"
proof -
  assume n: "0 \<le> n"
  obtain c cs where c: "dec_of n = c # cs" using dec_of_digits [OF n] by (cases "dec_of n") auto
  then have "is_digit c" using dec_of_digits [OF n] by simp
  from digit_plain [OF this] c show "signed_number (dec_of n) = (False, dec_of n)" by (simp add: signed_number_def)
qed

lemma c_atoll_dec:
  assumes "unat v < 2 ^ 63"
  shows "c_atoll (dec_of (uint v)) = (v :: uint64)"
proof -
  have "digits_val (dec_of (uint v)) = unat v" using dec_of_digits [of "uint v"] by simp
  moreover have "int (unat v) \<le> 2 ^ 63 - 1"
  proof -
    have "int (unat v) < int (2 ^ 63)" using assms by (rule of_nat_less_iff [THEN iffD2])
    then show ?thesis unfolding of_nat_power of_nat_numeral by linarith
  qed
  ultimately show ?thesis by (simp only: c_atoll_def signed_number_dec [OF uint_ge_0] prod.case Let_def if_False min_absorb1) simp
qed

lemma bytes_string_bytes [simp]: "bytes_of_string (string_of_bytes b) = b"
proof -
  have "of_char (char_of (unat x)) = x" for x :: uint8
  proof -
    have "of_char (char_of (unat x)) = (of_nat (of_char (char_of (unat x) :: char) :: nat) :: uint8)"
      by (simp only: of_nat_of_char)
    then show ?thesis by (simp add: unat_less_256)
  qed
  then show ?thesis by (simp add: bytes_of_string_def string_of_bytes_def o_def)
qed

text \<open>Decoding gives the bytes back, with zeros up to the end of the buffer.\<close>

definition padded :: "bytes \<Rightarrow> bytes" where
  "padded b = b @ replicate ((length b + 2) div 3 * 3 - length b) 0"

lemma encode_text_Some:
  assumes "length b < 2 ^ 60" "encode_text b = Some s"
  shows "bytes_of_string s = encode_loop base64_maps_rfc4648 b" "length s = 4 * ((length b + 2) div 3)"
proof -
  have "unat (base64_encoded_length (of_nat (length b))) = length (encode_loop base64_maps_rfc4648 b)"
    using assms(1) by (simp add: unat_encoded_length rfc4648.encode_loop_length)
  then show s: "bytes_of_string s = encode_loop base64_maps_rfc4648 b"
    using assms(2) by (auto simp: encode_text_def base64_encode_using_maps_def Let_def split: if_splits)
  show "length s = 4 * ((length b + 2) div 3)"
    using arg_cong [OF s, of length] by (simp add: rfc4648.encode_loop_length)
qed

section \<open>Steps in a world with a UCX handle\<close>

lemma ucx_parts [simp]:
  fixes w :: "('e, 'y) uworld"
  shows "ucx_dtl_handle (w\<lparr>flux := s\<rparr>) = ucx_dtl_handle w" "ucx_dtl_handle (w\<lparr>errno := e\<rparr>) = ucx_dtl_handle w"
    "ucx_dtl_handle (w\<lparr>cell := c\<rparr>) = ucx_dtl_handle w"
    "flux (w\<lparr>ucx_dtl_handle := h\<rparr>) = flux w" "cell (w\<lparr>ucx_dtl_handle := h\<rparr>) = cell w"
    "faults (w\<lparr>ucx_dtl_handle := h\<rparr>) = faults w" "faults (w\<lparr>flux := s\<rparr>) = faults w"
  by simp_all

lemma ucx_more:
  fixes w w' :: "('e, 'y) uworld"
  assumes "world.more w' = world.more w"
  shows "ucx_dtl_handle w' = ucx_dtl_handle w" "flux w' = flux w" "cell w' = cell w"
proof -
  have "dyad_world.more w' = dyad_world.more w" using assms by (cases w; cases w'; simp)
  then show "ucx_dtl_handle w' = ucx_dtl_handle w" by (cases w; cases w'; simp)
  show "flux w' = flux w" "cell w' = cell w" using more_eq_parts [OF assms] by simp_all
qed

text \<open>An allocation changes nothing the transport looks at, and succeeds when nothing is scheduled to fail.\<close>

definition allocated :: "('e, 'y) uworld \<Rightarrow> bool \<Rightarrow> ('e, 'y) uworld \<Rightarrow> bool" where
  "allocated w r w' \<longleftrightarrow> ucx_dtl_handle w' = ucx_dtl_handle w \<and> flux w' = flux w \<and> cell w' = cell w
     \<and> (faults w = [] \<longrightarrow> r \<and> faults w' = [])"

lemma wp_alloc:
  fixes w :: "('e, 'y) uworld"
  assumes "\<And>r w'. allocated w r w' \<Longrightarrow> Q r w'"
  shows "wp sys_malloc Q w"
proof -
  have "wp sys_malloc (\<lambda>r w'. faults w = [] \<longrightarrow> r \<and> faults w' = []) w"
    by (rule wp_sys_malloc) (use quiet_same(10) in force)
  from wp_posix [OF posix_sys(1) this] show ?thesis
  proof (rule wp_mono, goal_cases)
    case (1 r w')
    then show ?case using ucx_more [of w' w] by (intro assms) (simp add: allocated_def)
  qed
qed

lemma wp_decode_text:
  fixes w :: "('e, 'y) uworld"
  assumes "length b < 2 ^ 60" "encode_text b = Some s"
    and "\<And>r (w' :: ('e, 'y) uworld). allocated w (r \<noteq> None) w' \<Longrightarrow> r = None \<or> r = Some (Some (padded b)) \<Longrightarrow> Q r w'"
  shows "wp (decode_text s) Q w"
proof -
  note s = encode_text_Some [OF assms(1,2)]
  have "4 * ((length b + 2) div 3) < 2 ^ 62" using assms(1) by simp
  then have "unat (base64_decoded_length (of_nat (length s))) = (length b + 2) div 3 * 3"
    using unat_decoded_length [of "length s"] s(2) by simp
  moreover have "length (bytes_of_string s) = length s" by (simp add: bytes_of_string_def)
  ultimately have "base64_decode_using_maps base64_maps_rfc4648 (replicate (unat (base64_decoded_length (of_nat (length s)))) 0)
      (base64_decoded_length (of_nat (length s))) (bytes_of_string s) = Some (Inr (length b), padded b)"
    using decode_encoded [OF s(1), of "base64_decoded_length (of_nat (length s))"] s(2) assms(1) by (simp add: padded_def)
  then have e: "decode_text s = do { ok \<leftarrow> sys_malloc; State_Monad.return (if \<not> ok then None else Some (Some (padded b))) }"
    by (simp add: decode_text_def Let_def cong: if_cong)
  show ?thesis
    unfolding e wp_bind
  proof (rule wp_alloc, goal_cases)
    case (1 ok w')
    then show ?case by (cases ok) (auto simp: wps allocated_def intro!: assms(3))
  qed
qed

lemma wp_and_then: "wp (and_then m k) Q w = wp m (\<lambda>r. case r of None \<Rightarrow> Q None | Some a \<Rightarrow> wp (k a) Q) w"
  by (simp add: and_then_def wp_bind option.case_distrib [of "\<lambda>m. wp m Q"] cong: option.case_cong)

lemma wp_do_if [wps]: "wp (do_if b m) Q w = (if b then wp m Q w else Q () w)"
  by (simp add: do_if_def)

section \<open>Requests\<close>

text \<open>What the consumer's handle has to offer.\<close>

definition offers :: "dyad_dtl_ucx \<Rightarrow> bytes \<Rightarrow> bytes \<Rightarrow> bool" where
  "offers d addr key \<longleftrightarrow> length addr < 2 ^ 60 \<and> length key < 2 ^ 60 \<and> unat (cons_buf_ptr d) < 2 ^ 63
     \<and> (\<exists>a k. local_address d = Some (a, addr) \<and> local_addr_len d = of_nat (length addr)
        \<and> rkey_buf d = Some k \<and> rkey_bytes k = key \<and> rkey_size d = of_nat (length key))"

definition faithful_json :: "'e flux_ops \<Rightarrow> bool" where
  "faithful_json F \<longleftrightarrow> (\<forall>ms s obj. fst (fx_json_pack F ms s) = Inr obj \<longrightarrow> obj = ms)"

text \<open>The object \<open>obj\<close> carries what \<open>d\<close> offers.\<close>

definition packed :: "dyad_dtl_ucx \<Rightarrow> bytes \<Rightarrow> bytes \<Rightarrow> string \<Rightarrow> uint32 \<Rightarrow> int \<Rightarrow> json \<Rightarrow> bool" where
  "packed d addr key upath rank pid obj \<longleftrightarrow>
     (\<exists>ea ek. encode_text addr = Some ea \<and> encode_text key = Some ek
        \<and> obj = ucx_members upath rank (cons_buf_ptr d) pid ea ek)"

lemma wp_ucx_rpc_pack:
  fixes w :: "('e, 'y) uworld"
  assumes "ucx_dtl_handle w = Some d" "offers d addr key" "faithful_json F" "cell w = Some c"
  shows "wp (dyad_dtl_ucx_rpc_pack F U upath rank)
     (\<lambda>r w'. \<forall>obj. r = Some (RC_OK, Some obj) \<longrightarrow> packed d addr key upath rank (ctx_pid c) obj) w"
proof -
  from assms(2) obtain a k where o: "local_address d = Some (a, addr)" "unat (local_addr_len d) = length addr"
    "rkey_buf d = Some k" "rkey_bytes k = key" "unat (rkey_size d) = length key"
    by (auto simp: offers_def unat_of_nat take_bit_eq_mod)
  have json: "wp (flux_call (fx_json_pack F (ucx_members upath rank (cons_buf_ptr d) (ctx_pid (the (cell w2))) ea ek)))
      (\<lambda>r w'. \<forall>obj. Some (if r = None then RC_BADPACK else RC_OK, r) = Some (RC_OK, Some obj)
         \<longrightarrow> packed d addr key upath rank (ctx_pid c) obj) w2"
    if "cell w2 = Some c" "encode_text addr = Some ea" "encode_text key = Some ek" for w2 :: "('e, 'y) uworld" and ea ek
  proof -
    let ?ms = "ucx_members upath rank (cons_buf_ptr d) (ctx_pid (the (cell w2))) ea ek"
    obtain r s where r: "fx_json_pack F ?ms (flux w2) = (r, s)" by fastforce
    show ?thesis
    proof (cases r)
      case (Inr obj)
      with assms(3) r have "obj = ?ms" unfolding faithful_json_def by (metis fst_conv)
      with r Inr that show ?thesis by (auto simp: wp_flux_call packed_def)
    qed (simp add: wp_flux_call r)
  qed
  show ?thesis
    unfolding dyad_dtl_ucx_rpc_pack_def wp_bind [of the_ucx] wp_ucx(1) assms(1) option.sel
    using assms(1,4) o json
    by (auto simp: wps wp_bind allocated_def intro!: wp_alloc split: option.split)
qed

text \<open>What the producer's handle holds after unpacking such an object.\<close>

definition unpacked ::
  "dyad_dtl_ucx \<Rightarrow> bytes \<Rightarrow> bytes \<Rightarrow> string \<Rightarrow> int \<Rightarrow> bool \<Rightarrow> (dyad_rc \<times> string option) option \<Rightarrow> ('e, 'y) uworld \<Rightarrow> bool" where
  "unpacked d addr key upath pid full r w' \<longleftrightarrow>
     (r = Some (RC_SYSFAIL, Some upath) \<and> \<not> full
      \<or> r = Some (RC_OK, Some upath)
        \<and> (\<exists>d'. ucx_dtl_handle w' = Some d' \<and> cons_buf_ptr d' = cons_buf_ptr d
             \<and> remote_address d' = Some (padded addr) \<and> rkey_buf d' = Some (Heap_mem (padded key))
             \<and> consumer_conn_key d' = push_bit 32 (c_int_bits pid)))"

definition heap_key :: "dyad_dtl_ucx \<Rightarrow> bool" where
  "heap_key d \<longleftrightarrow> (case rkey_buf d of Some (Ucx_mem _ _) \<Rightarrow> False | _ \<Rightarrow> True)"

lemma wp_unpack_rkey:
  fixes w :: "('e, 'y) uworld"
  assumes "length key < 2 ^ 60" "encode_text key = Some ek" "ucx_dtl_handle w = Some d" "heap_key d"
  shows "wp (unpack_rkey ek) (\<lambda>r w'. r = Some RC_SYSFAIL \<and> faults w \<noteq> []
     \<or> r = Some RC_OK \<and> ucx_dtl_handle w' = Some (d\<lparr>rkey_size := base64_decoded_length (of_nat (length ek)),
          rkey_buf := Some (Heap_mem (padded key))\<rparr>)) w"
proof -
  have h: "\<not> (case rkey_buf d of Some (Ucx_mem _ _) \<Rightarrow> True | _ \<Rightarrow> False)"
    using assms(4) by (simp add: heap_key_def split: option.splits rkey_mem.splits)
  show ?thesis
    unfolding unpack_rkey_def wp_bind [of "upd_ucx _"] wp_ucx(3) wp_bind [of the_ucx] wp_ucx(1)
    using h assms(3)
    by (auto simp: wps wp_bind [of "decode_text _"] allocated_def intro!: wp_decode_text [OF assms(1,2)])
qed

lemma members_of_packed:
  "member_str ''upath'' (ucx_members p k v i ea ek) = Some p"
  "member_int ''tag_prod'' (ucx_members p k v i ea ek) = Some (sint k)"
  "member_str ''cons_buf'' (ucx_members p k v i ea ek) = Some (dec_of (uint v))"
  "member_int ''pid_cons'' (ucx_members p k v i ea ek) = Some i"
  "member_str ''addr'' (ucx_members p k v i ea ek) = Some ea"
  "member_str ''rkey'' (ucx_members p k v i ea ek) = Some ek"
  by (simp_all add: member_str_def member_int_def ucx_members_def)

lemma wp_ucx_rpc_unpack:
  fixes w :: "('e, 'y) uworld"
  assumes "packed d addr key upath rank pid obj" "offers d addr key"
    and "fst (fx_request_unpack G msg (flux w)) = Inr obj" "ucx_dtl_handle w = Some d2" "heap_key d2"
  shows "wp (dyad_dtl_ucx_rpc_unpack G msg) (unpacked d addr key upath pid (faults w = [])) w"
proof -
  from assms(1) obtain ea ek where e: "encode_text addr = Some ea" "encode_text key = Some ek"
    and obj: "obj = ucx_members upath rank (cons_buf_ptr d) pid ea ek" by (auto simp: packed_def)
  from assms(2) have len: "length addr < 2 ^ 60" "length key < 2 ^ 60" "unat (cons_buf_ptr d) < 2 ^ 63"
    by (auto simp: offers_def)
  obtain s where r: "fx_request_unpack G msg (flux w) = (Inr obj, s)" using assms(3) by (metis fst_conv surj_pair)
  have key: "wp (and_then (unpack_rkey ek) (\<lambda>rc. State_Monad.return (Some (rc, Some upath))))
      (unpacked d addr key upath pid full) w1"
    if h: "ucx_dtl_handle w1 = Some d1" "heap_key d1" "cons_buf_ptr d1 = cons_buf_ptr d"
      "remote_address d1 = Some (padded addr)" "consumer_conn_key d1 = push_bit 32 (c_int_bits pid)"
      "full \<longrightarrow> faults w1 = []" for d1 full and w1 :: "('e, 'y) uworld"
    unfolding wp_and_then
    by (rule wp_mono [OF wp_unpack_rkey [OF len(2) e(2) h(1,2)]]) (use h in \<open>auto simp: wps unpacked_def\<close>)
  show ?thesis
    unfolding dyad_dtl_ucx_rpc_unpack_def wp_bind [of "flux_call _"] wp_flux_call r prod.case sum.case option.case Let_def
      obj members_of_packed wp_bind [of "upd_ucx _"] wp_ucx(3) wp_bind [of "decode_text _"]
  proof (rule wp_decode_text [OF len(1) e(1)], goal_cases)
    case (1 r w1)
    then show ?case
      using assms(4,5) c_atoll_dec [OF len(3)]
      by (auto simp: wps allocated_def unpacked_def heap_key_def intro!: key)
  qed
qed

section \<open>The ledger of resources\<close>

text \<open>
  An abstract account of what is open. Giving back something that is not open, or something another open resource
  depends on (the comments of \<^verbatim>\<open>dyad_dtl_ucx_finalize\<close>: endpoints, addresses and keys before the worker, the worker and the memory before the
  context), makes the ledger \<open>None\<close>.
\<close>

datatype ucx_res = R_ctx nat | R_worker nat | R_address nat | R_mem nat | R_ep nat | R_rkey nat | R_rkey_buf nat

fun depends :: "ucx_res \<Rightarrow> ucx_res \<Rightarrow> bool" where
  "depends (R_ep _) (R_worker _) = True"
| "depends (R_address _) (R_worker _) = True"
| "depends (R_rkey _) (R_worker _) = True"
| "depends (R_worker _) (R_ctx _) = True"
| "depends (R_mem _) (R_ctx _) = True"
| "depends _ _ = False"

type_synonym ledger = "ucx_res multiset option"

definition acquire :: "ucx_res \<Rightarrow> ledger \<Rightarrow> ledger" where
  "acquire r v = map_option (add_mset r) v"

definition release :: "ucx_res \<Rightarrow> ledger \<Rightarrow> ledger" where
  "release r v =
     (case v of None \<Rightarrow> None
      | Some m \<Rightarrow> if r \<in># m \<and> (\<forall>x\<in>#m. \<not> depends x r) then Some (m - {#r#}) else None)"

text \<open>A call that opens a resource when it succeeds, and otherwise opens nothing and leaves the field alone.\<close>

definition opens :: "('e \<Rightarrow> ledger) \<Rightarrow> ('a \<Rightarrow> ucx_res) \<Rightarrow> ('a \<Rightarrow> bool) \<Rightarrow> ('e \<Rightarrow> (ucs_status \<times> 'a option) \<times> 'e) \<Rightarrow> bool" where
  "opens book R valid f \<longleftrightarrow> (\<forall>s. case f s of ((status, new), s') \<Rightarrow>
     (if status = UCS_OK then \<exists>x. new = Some x \<and> valid x \<and> book s' = acquire (R x) (book s)
      else new = None \<and> book s' = book s))"

definition nonzero :: "nat \<Rightarrow> bool" where "nonzero n \<longleftrightarrow> n \<noteq> 0"

definition opening_laws :: "'e ucx_ops \<Rightarrow> ('e \<Rightarrow> ledger) \<Rightarrow> bool" where
  "opening_laws U book \<longleftrightarrow> opens book R_ctx nonzero (ux_init U) \<and> (\<forall>c. opens book R_worker nonzero (ux_worker_create U c))
     \<and> (\<forall>w. opens book (\<lambda>(a, _). R_address a) (\<lambda>_. True) (ux_worker_get_address U w))
     \<and> (\<forall>c n p. opens book R_mem nonzero (ux_mem_map U c n p))
     \<and> (\<forall>c m. opens book (\<lambda>(a, _). R_rkey_buf a) (\<lambda>_. True) (ux_rkey_pack U c m))
     \<and> (\<forall>w a. opens book R_ep nonzero (ux_ep_create U w a))
     \<and> (\<forall>e b. opens book R_rkey nonzero (ux_ep_rkey_unpack U e b))"

definition closing_laws :: "'e ucx_ops \<Rightarrow> ('e \<Rightarrow> ledger) \<Rightarrow> bool" where
  "closing_laws U book \<longleftrightarrow> (\<forall>c s. book (ux_cleanup U c s) = release (R_ctx c) (book s))
     \<and> (\<forall>w s. book (ux_worker_destroy U w s) = release (R_worker w) (book s))
     \<and> (\<forall>w a s. book (ux_worker_release_address U w a s) = release (R_address a) (book s))
     \<and> (\<forall>c m s. book (ux_mem_unmap U c m s) = release (R_mem m) (book s))
     \<and> (\<forall>e s. book (snd (ux_ep_close U e s)) = release (R_ep e) (book s))
     \<and> (\<forall>k s. book (ux_rkey_destroy U k s) = release (R_rkey k) (book s))
     \<and> (\<forall>a s. book (ux_rkey_buffer_release U a s) = release (R_rkey_buf a) (book s))
     \<and> (\<forall>w s. book (ux_worker_progress U w s) = book s) \<and> (\<forall>r s. book (ux_request_free U r s) = book s)
     \<and> (\<forall>s. book (snd (ux_config_read U s)) = book s)
     \<and> (\<forall>e b n t k s. book (snd (ux_put U e b n t k s)) = book s)
     \<and> (\<forall>es. mset (cxx_map_order U es) = mset es)"

lemma closing_lawsD:
  assumes "closing_laws U book"
  shows "book (ux_cleanup U c s) = release (R_ctx c) (book s)" "book (ux_worker_destroy U w s) = release (R_worker w) (book s)"
    "book (ux_worker_release_address U w a s) = release (R_address a) (book s)"
    "book (ux_mem_unmap U c m s) = release (R_mem m) (book s)" "book (snd (ux_ep_close U e s)) = release (R_ep e) (book s)"
    "book (ux_rkey_destroy U k s) = release (R_rkey k) (book s)"
    "book (ux_rkey_buffer_release U a s) = release (R_rkey_buf a) (book s)" "book (ux_worker_progress U w s) = book s"
    "book (ux_request_free U r s) = book s" "book (snd (ux_config_read U s)) = book s"
    "book (snd (ux_put U e b n t k s)) = book s" "mset (cxx_map_order U es) = mset es"
  using assms by (simp_all add: closing_laws_def)

text \<open>What a handle owns, in the order in which it is given back.\<close>

definition eps_of :: "dyad_dtl_ucx \<Rightarrow> ucx_res multiset" where
  "eps_of d = (case ep_cache d of None \<Rightarrow> {#} | Some es \<Rightarrow> image_mset (\<lambda>e. R_ep (snd e)) (mset es))"

definition address_of :: "dyad_dtl_ucx \<Rightarrow> ucx_res multiset" where
  "address_of d = (case local_address d of None \<Rightarrow> {#} | Some (a, _) \<Rightarrow> {#R_address a#})"

definition rkey_buf_of :: "dyad_dtl_ucx \<Rightarrow> ucx_res multiset" where
  "rkey_buf_of d = (case rkey_buf d of Some (Ucx_mem a _) \<Rightarrow> {#R_rkey_buf a#} | _ \<Rightarrow> {#})"

definition handle_res :: "(nat \<Rightarrow> ucx_res) \<Rightarrow> nat \<Rightarrow> ucx_res multiset" where
  "handle_res R n = (if n = 0 then {#} else {#R n#})"

definition mem_of :: "dyad_dtl_ucx \<Rightarrow> ucx_res multiset" where
  "mem_of d = (if net_buf d = 0 then {#} else handle_res R_mem (mem_handle d))"

definition owned :: "dyad_dtl_ucx \<Rightarrow> ucx_res multiset" where
  "owned d = eps_of d + address_of d + rkey_buf_of d + handle_res R_rkey (ud_rkey d) + mem_of d
     + handle_res R_worker (ucx_worker d) + handle_res R_ctx (ucx_ctx d)"

text \<open>The form of a handle: keys in the memory that fits the direction, endpoints that are not \<^verbatim>\<open>NULL\<close>.\<close>

fun key_fits :: "dyad_dtl_comm_mode \<Rightarrow> rkey_mem option \<Rightarrow> bool" where
  "key_fits m None = True"
| "key_fits m (Some (Ucx_mem a b)) = (m \<noteq> COMM_SEND)"
| "key_fits m (Some (Heap_mem b)) = (m = COMM_SEND)"

definition wf_ucx :: "dyad_dtl_ucx \<Rightarrow> bool" where
  "wf_ucx d \<longleftrightarrow> key_fits (ud_comm_mode d) (rkey_buf d)
     \<and> (\<forall>es. ep_cache d = Some es \<longrightarrow> 0 \<notin> snd ` set es) \<and> (net_buf d \<noteq> 0 \<longrightarrow> ucx_ctx d \<noteq> 0)"

text \<open>Everything open is owned by the handle, apart from \<open>extra\<close>.\<close>

definition accounts :: "('e \<Rightarrow> ledger) \<Rightarrow> ucx_res multiset \<Rightarrow> dyad_dtl_ucx \<Rightarrow> ('e, 'y) uworld \<Rightarrow> bool" where
  "accounts book extra d w \<longleftrightarrow> ucx_dtl_handle w = Some d \<and> wf_ucx d \<and> book (flux w) = Some (extra + owned d)"

lemma depends_parts:
  "\<not> depends x (R_ep e)" "\<not> depends x (R_address a)" "\<not> depends x (R_mem m)" "\<not> depends x (R_rkey k)"
  "\<not> depends x (R_rkey_buf b)" "depends x (R_worker v) \<longleftrightarrow> (\<exists>n. x = R_ep n \<or> x = R_address n \<or> x = R_rkey n)"
  "depends x (R_ctx c) \<longleftrightarrow> (\<exists>n. x = R_worker n \<or> x = R_mem n)"
  by (cases x; simp)+

lemma release_some: "r \<in># m \<Longrightarrow> \<forall>x\<in>#m. \<not> depends x r \<Longrightarrow> release r (Some m) = Some (m - {#r#})"
  by (simp add: release_def)

lemma release_add: "\<forall>x\<in>#m. \<not> depends x r \<Longrightarrow> \<not> depends r r \<Longrightarrow> release r (Some (add_mset r m)) = Some m"
  by (simp add: release_def)

section \<open>Waiting and closing\<close>

text \<open>Every request is complete after fewer rounds than the fuel.\<close>

definition settles :: "'e ucx_ops \<Rightarrow> nat \<Rightarrow> bool" where
  "settles U fuel \<longleftrightarrow>
     (\<forall>r v s. \<exists>k<fuel. ux_request_check_status U r ((ux_worker_progress U v ^^ Suc k) s) \<noteq> UCS_INPROGRESS)"

text \<open>\<open>X\<close> holds when a result is there, and one is there when requests settle.\<close>

definition finishes :: "'e ucx_ops \<Rightarrow> nat \<Rightarrow> 'a option \<Rightarrow> bool \<Rightarrow> bool" where
  "finishes U fuel r X \<longleftrightarrow> (if r = None then \<not> settles U fuel else X)"

lemma finishes_simps [simp]: "finishes U fuel (Some a) X = X" "finishes U fuel None X = (\<not> settles U fuel)"
  by (simp_all add: finishes_def)

text \<open>Only the library has moved, and its ledger is now \<open>v\<close>.\<close>

definition moved :: "('e \<Rightarrow> ledger) \<Rightarrow> ledger \<Rightarrow> ('e, 'y) uworld \<Rightarrow> ('e, 'y) uworld \<Rightarrow> bool" where
  "moved book v w w' \<longleftrightarrow> w' = w\<lparr>flux := flux w'\<rparr> \<and> book (flux w') = v"

lemma moved_step [simp]: "moved book v (w\<lparr>flux := s\<rparr>) w' = moved book v w w'"
  "moved book v w (w\<lparr>flux := s\<rparr>) \<longleftrightarrow> book s = v" "moved book v w w \<longleftrightarrow> book (flux w) = v"
  by (simp_all add: moved_def)

lemma moved_same:
  fixes w w' :: "('e, 'y) uworld"
  assumes "moved book v w w'"
  shows "ucx_dtl_handle w' = ucx_dtl_handle w" "cell w' = cell w" "book (flux w') = v"
proof -
  have e: "w' = w\<lparr>flux := flux w'\<rparr>" and b: "book (flux w') = v" using assms by (simp_all add: moved_def)
  show "book (flux w') = v" by (rule b)
  show "ucx_dtl_handle w' = ucx_dtl_handle w" "cell w' = cell w" by (subst e, simp)+
qed

lemma wp_await_book:
  fixes w :: "('e, 'y) uworld"
  assumes "closing_laws U book"
  shows "wp (await_request U fuel v r) (\<lambda>_. moved book (book (flux w)) w) w"
proof (induction fuel arbitrary: w)
  case (Suc fuel)
  note l = closing_lawsD [OF assms]
  have "wp (await_request U fuel v r) (\<lambda>_. moved book (book (flux w)) w) (w\<lparr>flux := ux_worker_progress U v (flux w)\<rparr>)"
    using Suc [of "w\<lparr>flux := ux_worker_progress U v (flux w)\<rparr>"] by (simp add: l)
  then show ?case by (simp add: wps l)
qed simp

lemma finishes_mono: "finishes U fuel r X \<Longrightarrow> (X \<Longrightarrow> Y) \<Longrightarrow> finishes U fuel r Y"
  by (simp add: finishes_def split: if_splits)

lemma wp_await_settles:
  fixes w :: "('e, 'y) uworld"
  assumes "k < fuel" "ux_request_check_status U r ((ux_worker_progress U v ^^ Suc k) (flux w)) \<noteq> UCS_INPROGRESS"
  shows "wp (await_request U fuel v r) (\<lambda>x _. x \<noteq> None) w"
  using assms
proof (induction fuel arbitrary: k w)
  case (Suc fuel)
  show ?case
  proof (cases "ux_request_check_status U r (ux_worker_progress U v (flux w)) = UCS_INPROGRESS")
    case True
    with Suc.prems obtain k' where k: "k = Suc k'" by (cases k) auto
    with Suc.IH [of k' "w\<lparr>flux := ux_worker_progress U v (flux w)\<rparr>"] Suc.prems True
    show ?thesis by (simp add: wps funpow_swap1)
  qed (simp add: wps)
qed simp

lemma wp_await:
  fixes w :: "('e, 'y) uworld"
  assumes "closing_laws U book"
  shows "wp (await_request U fuel v r) (\<lambda>x w'. moved book (book (flux w)) w w' \<and> finishes U fuel x True) w"
proof (cases "settles U fuel")
  case True
  then obtain k where "k < fuel" "ux_request_check_status U r ((ux_worker_progress U v ^^ Suc k) (flux w)) \<noteq> UCS_INPROGRESS"
    unfolding settles_def by blast
  from wp_conj [OF wp_await_book [OF assms] wp_await_settles [OF this]] show ?thesis
    by (rule wp_mono) (auto simp: finishes_def)
next
  case False
  show ?thesis by (rule wp_mono [OF wp_await_book [OF assms]]) (simp add: finishes_def False)
qed

lemma wp_disconnect:
  fixes w :: "('e, 'y) uworld"
  assumes "closing_laws U book" "ep \<noteq> 0"
  shows "wp (ucx_disconnect U fuel v ep)
     (\<lambda>r w'. moved book (release (R_ep ep) (book (flux w))) w w' \<and> finishes U fuel r True) w"
proof -
  obtain p s where p: "ux_ep_close U ep (flux w) = (p, s)" by fastforce
  have b: "book s = release (R_ep ep) (book (flux w))" using closing_lawsD(5) [OF assms(1), of ep "flux w"] p by simp
  note wait = wp_await [OF assms(1), of fuel v _ "w\<lparr>flux := s\<rparr>"]
  show ?thesis
  proof (cases p)
    case (Ptr_req r)
    show ?thesis
      using assms(2)
      by (simp add: ucx_disconnect_def wp_bind wp_lib p wp_and_then Ptr_req)
        (rule wp_mono [OF wait], auto simp: wps b finishes_def split: option.split)
  qed (use assms(2) b in \<open>auto simp: ucx_disconnect_def wps wp_lib p wp_and_then\<close>)
qed

text \<open>Closing all endpoints of the cache.\<close>

definition eps_closed :: "('e \<Rightarrow> ledger) \<Rightarrow> ucx_res multiset \<Rightarrow> dyad_dtl_ucx \<Rightarrow> ('e, 'y) uworld \<Rightarrow> ('e, 'y) uworld \<Rightarrow> bool" where
  "eps_closed book m d w w' \<longleftrightarrow> book (flux w') = Some m \<and> cell w' = cell w
     \<and> (\<exists>es. ucx_dtl_handle w' = Some (d\<lparr>ep_cache := es\<rparr>))"

lemma eps_closed_refl:
  assumes "ucx_dtl_handle w = Some d" "book (flux w) = Some m"
  shows "eps_closed book m d w w"
proof -
  have "ucx_dtl_handle w = Some (d\<lparr>ep_cache := ep_cache d\<rparr>)" using assms(1) by simp
  with assms(2) show ?thesis unfolding eps_closed_def by blast
qed

lemma eps_closed_step:
  "eps_closed book m (d\<lparr>ep_cache := x\<rparr>) (w1\<lparr>ucx_dtl_handle := h\<rparr>) w2 \<Longrightarrow> cell w1 = cell w \<Longrightarrow> eps_closed book m d w w2"
  unfolding eps_closed_def by auto

lemma wp_remove_all_eps:
  fixes w :: "('e, 'y) uworld"
  assumes laws: "closing_laws U book"
    and "ucx_dtl_handle w = Some d" "0 \<notin> snd ` set its" "book (flux w) = Some (image_mset (\<lambda>e. R_ep (snd e)) (mset its) + m)"
  shows "wp (remove_all_eps U fuel its v) (\<lambda>r w'. finishes U fuel r (eps_closed book m d w w')) w"
  using assms(2-)
proof (induction its arbitrary: w d)
  case Nil
  then show ?case by (simp add: eps_closed_refl)
next
  case (Cons it its)
  show ?case
    unfolding remove_all_eps.simps cache_remove_impl_def wp_and_then
  proof (rule wp_mono [OF wp_disconnect [OF laws]], goal_cases)
    case 1
    show ?case using Cons.prems(2) by force
  next
    case (2 r w')
    then have m: "moved book (release (R_ep (snd it)) (book (flux w))) w w'" and f: "finishes U fuel r True" by simp_all
    note h = moved_same [OF m]
    from h(3) Cons.prems(3) have b: "book (flux w') = Some (image_mset (\<lambda>e. R_ep (snd e)) (mset its) + m)"
      by (simp add: release_add depends_parts)
    show ?case
    proof (cases r)
      case None
      with f show ?thesis by simp
    next
      case (Some x)
      let ?d = "d\<lparr>ep_cache := map_option (filter (\<lambda>e. fst e \<noteq> fst it)) (ep_cache d)\<rparr>"
      let ?w = "w'\<lparr>ucx_dtl_handle := Some ?d\<rparr>"
      have "wp (remove_all_eps U fuel its v) (\<lambda>r w2. finishes U fuel r (eps_closed book m ?d ?w w2)) ?w"
        using Cons.prems(2) b by (intro Cons.IH) simp_all
      then have "wp (remove_all_eps U fuel its v) (\<lambda>r w2. finishes U fuel r (eps_closed book m d w w2)) ?w"
        by (rule wp_mono) (rule finishes_mono, assumption, rule eps_closed_step [OF _ h(2)])
      then show ?thesis
        unfolding Some option.case wp_bind [of "upd_ucx _"] wp_ucx(3) h(1) Cons.prems(1) option.map
          wp_return option.case .
    qed
  qed
qed

section \<open>Finalising\<close>

text \<open>The steps of \<^verbatim>\<open>dyad_dtl_ucx_finalize\<close> keep the account, with less and less in it.\<close>

definition leaves ::
  "('e \<Rightarrow> ledger) \<Rightarrow> ucx_res multiset \<Rightarrow> (dyad_dtl_ucx \<Rightarrow> bool) \<Rightarrow> ('e, 'y) uworld \<Rightarrow> ('e, 'y) uworld \<Rightarrow> bool" where
  "leaves book extra P w w' \<longleftrightarrow> (\<exists>d. accounts book extra d w' \<and> P d) \<and> cell w' = cell w"

lemma leavesI:
  "ucx_dtl_handle w' = Some d \<Longrightarrow> wf_ucx d \<Longrightarrow> book (flux w') = Some (extra + owned d) \<Longrightarrow> P d \<Longrightarrow> cell w' = cell w
   \<Longrightarrow> leaves book extra P w w'"
  by (auto simp: leaves_def accounts_def)

lemmas parts_of = owned_def eps_of_def address_of_def rkey_buf_of_def mem_of_def handle_res_def

lemma wp_ucx_close:
  fixes w :: "('e, 'y) uworld"
  assumes laws: "closing_laws U book" and d: "accounts book extra d w"
  shows "wp (dyad_dtl_ucx_close_connection U) (\<lambda>r. leaves book extra (\<lambda>d'. r \<noteq> None \<and> ucx_worker d' = ucx_worker d) w) w"
proof -
  from d have h: "ucx_dtl_handle w = Some d" "wf_ucx d" "book (flux w) = Some (extra + owned d)"
    by (simp_all add: accounts_def)
  note l = closing_lawsD [OF laws]
  show ?thesis
  proof (cases "ud_comm_mode d = COMM_SEND")
    case True
    then have k: "\<not> (case rkey_buf d of Some (Ucx_mem _ _) \<Rightarrow> True | _ \<Rightarrow> False)"
      using h(2) by (auto simp: wf_ucx_def split: option.splits rkey_mem.splits)
    have none: "rkey_buf_of d = {#}" using k by (auto simp: rkey_buf_of_def split: option.splits rkey_mem.splits)
    let ?d = "d\<lparr>ud_rkey := 0, rkey_buf := None, ud_ep := 0, remote_address := None, remote_addr_len := 0, comm_tag := 0\<rparr>"
    have parts: "wf_ucx ?d" "owned d = handle_res R_rkey (ud_rkey d) + owned ?d"
      using h(2) none by (simp_all add: wf_ucx_def parts_of)
    have gone: "book (ux_rkey_destroy U (ud_rkey d) (flux w)) = Some (extra + owned ?d)" if "ud_rkey d \<noteq> 0"
      using h(3) parts(2) that by (simp add: l handle_res_def release_add depends_parts)
    have stay: "book (flux w) = Some (extra + owned ?d)" if "ud_rkey d = 0"
      using h(3) parts(2) that by (simp add: handle_res_def)
    show ?thesis
      unfolding dyad_dtl_ucx_close_connection_def
      using h(1) True k parts(1) gone stay by (auto simp: wps intro!: leavesI)
  next
    case False
    have "wf_ucx (d\<lparr>comm_tag := 0\<rparr>)" "owned (d\<lparr>comm_tag := 0\<rparr>) = owned d"
      using h(2) by (simp_all add: wf_ucx_def parts_of)
    with False h show ?thesis
      by (auto simp: dyad_dtl_ucx_close_connection_def wps intro!: leavesI)
  qed
qed

lemma wp_ucx_cache_finalize:
  fixes w :: "('e, 'y) uworld"
  assumes laws: "closing_laws U book" and d: "accounts book extra d w"
  shows "wp (dyad_ucx_ep_cache_finalize U fuel v) (\<lambda>r w'. finishes U fuel r (leaves book extra (\<lambda>d'. eps_of d' = {#}
     \<and> ucx_worker d' = ucx_worker d) w w')) w"
proof -
  from d have h: "ucx_dtl_handle w = Some d" "wf_ucx d" "book (flux w) = Some (extra + owned d)"
    by (simp_all add: accounts_def)
  show ?thesis
  proof (cases "ep_cache d")
    case None
    with h show ?thesis
      by (auto simp: dyad_ucx_ep_cache_finalize_def wps eps_of_def intro!: leavesI)
  next
    case (Some es)
    let ?rest = "extra + owned (d\<lparr>ep_cache := None\<rparr>)"
    have z: "0 \<notin> snd ` set (cxx_map_order U es)"
      using h(2) Some closing_lawsD(12) [OF laws, of es] by (metis mset_eq_setD wf_ucx_def)
    have b: "book (flux w) = Some (image_mset (\<lambda>e. R_ep (snd e)) (mset (cxx_map_order U es)) + ?rest)"
      using h(3) Some by (simp add: closing_lawsD(12) [OF laws] parts_of)
    have wf: "wf_ucx (d\<lparr>ep_cache := None\<rparr>)" using h(2) by (simp add: wf_ucx_def)
    show ?thesis
      unfolding dyad_ucx_ep_cache_finalize_def wp_bind [of the_ucx] wp_ucx(1) h(1) option.sel Some option.case wp_and_then
    proof (rule wp_mono [OF wp_remove_all_eps [OF laws h(1) z b]], goal_cases)
      case (1 r w')
      show ?case
      proof (cases r)
        case None
        with 1 show ?thesis by simp
      next
        case (Some u)
        with 1 obtain es' where e: "ucx_dtl_handle w' = Some (d\<lparr>ep_cache := es'\<rparr>)" "book (flux w') = Some ?rest"
          "cell w' = cell w" by (auto simp: eps_closed_def)
        show ?thesis
          unfolding Some option.case
          using e wf by (auto simp: wps eps_of_def intro!: leavesI)
      qed
    qed
  qed
qed

lemma wp_release_addresses:
  fixes w :: "('e, 'y) uworld"
  assumes laws: "closing_laws U book" and d: "accounts book extra d w" "eps_of d = {#}"
  shows "wp (release_addresses U) (\<lambda>_. leaves book extra (\<lambda>d'. eps_of d' = {#} \<and> address_of d' = {#}
     \<and> ucx_worker d' = ucx_worker d) w) w"
proof -
  from d have h: "ucx_dtl_handle w = Some d" "wf_ucx d" "book (flux w) = Some (extra + owned d)"
    by (simp_all add: accounts_def)
  let ?d = "d\<lparr>local_address := None, remote_address := None\<rparr>"
  have parts: "wf_ucx ?d" "eps_of ?d = {#}" "address_of ?d = {#}" "owned d = address_of d + owned ?d"
    using h(2) d(2) by (simp_all add: wf_ucx_def parts_of)
  then show ?thesis
    unfolding release_addresses_def
    using h by (auto simp: wps closing_lawsD [OF laws] address_of_def release_add depends_parts intro!: leavesI split: option.split)
qed

lemma wp_release_rkey_buf:
  fixes w :: "('e, 'y) uworld"
  assumes laws: "closing_laws U book" and d: "accounts book extra d w" "eps_of d = {#}" "address_of d = {#}"
  shows "wp (release_rkey_buf U) (\<lambda>r. leaves book extra (\<lambda>d'. r \<noteq> None \<and> eps_of d' = {#} \<and> address_of d' = {#}
     \<and> rkey_buf_of d' = {#} \<and> ucx_worker d' = ucx_worker d) w) w"
proof -
  from d have h: "ucx_dtl_handle w = Some d" "wf_ucx d" "book (flux w) = Some (extra + owned d)"
    by (simp_all add: accounts_def)
  let ?d = "d\<lparr>rkey_buf := None\<rparr>"
  have parts: "wf_ucx ?d" "eps_of ?d = {#}" "address_of ?d = {#}" "rkey_buf_of ?d = {#}" "owned d = rkey_buf_of d + owned ?d"
    using h(2) d(2,3) by (simp_all add: wf_ucx_def parts_of)
  show ?thesis
  proof (cases "rkey_buf d")
    case None
    with h d show ?thesis by (auto simp: release_rkey_buf_def wps rkey_buf_of_def intro!: leavesI)
  next
    case (Some k)
    with h parts show ?thesis
      by (cases k) (auto simp: release_rkey_buf_def wps closing_lawsD [OF laws] rkey_buf_of_def release_add depends_parts wf_ucx_def
          intro!: leavesI)
  qed
qed

lemma release_handle:
  assumes "\<forall>x\<in>#m. \<not> depends x (R n)" "\<not> depends (R n) (R n)"
  shows "n \<noteq> 0 \<Longrightarrow> v = Some (handle_res R n + m) \<Longrightarrow> release (R n) v = Some m"
    "n = 0 \<Longrightarrow> v = Some (handle_res R n + m) \<Longrightarrow> v = Some m"
  using assms by (simp_all add: handle_res_def release_add)

text \<open>Endpoints that no handle knows of, and what finalising makes of the ledger beside them: the worker goes first.\<close>

definition only_eps :: "ucx_res multiset \<Rightarrow> bool" where
  "only_eps extra \<longleftrightarrow> (\<forall>x\<in>#extra. \<exists>e. x = R_ep e)"

definition finalized :: "ucx_res multiset \<Rightarrow> dyad_dtl_ucx \<Rightarrow> ledger" where
  "finalized extra d = (if extra = {#} then Some {#} else if ucx_worker d \<noteq> 0 then None else Some extra)"

lemma wp_release_worker:
  fixes w :: "('e, 'y) uworld"
  assumes laws: "closing_laws U book" and x: "only_eps extra"
    and d: "accounts book extra d w" "eps_of d = {#}" "address_of d = {#}" "rkey_buf_of d = {#}"
  shows "wp (release_worker U) (\<lambda>_ w'. book (flux w') = finalized extra d \<and> cell w' = cell w) w"
proof -
  let ?c = "handle_res R_ctx (ucx_ctx d) + extra" let ?wc = "handle_res R_worker (ucx_worker d) + ?c" let ?mwc = "mem_of d + ?wc"
  from d have h: "ucx_dtl_handle w = Some d" "wf_ucx d" "book (flux w) = Some (handle_res R_rkey (ud_rkey d) + ?mwc)"
    by (simp_all add: accounts_def owned_def ac_simps)
  note l = closing_lawsD [OF laws]
  define s1 where "s1 = (if ud_rkey d \<noteq> 0 then ux_rkey_destroy U (ud_rkey d) (flux w) else flux w)"
  define s2 where "s2 = (if mem_handle d \<noteq> 0 \<and> ucx_ctx d \<noteq> 0 \<and> net_buf d \<noteq> 0
     then ux_mem_unmap U (ucx_ctx d) (mem_handle d) s1 else s1)"
  define s3 where "s3 = (if ucx_worker d \<noteq> 0 then ux_worker_destroy U (ucx_worker d) s2 else s2)"
  define s4 where "s4 = (if ucx_ctx d \<noteq> 0 then ux_cleanup U (ucx_ctx d) s3 else s3)"
  have b1: "book s1 = Some ?mwc"
    using h(3) release_handle [of ?mwc R_rkey "ud_rkey d"] by (simp add: s1_def l depends_parts)
  have b2: "book s2 = Some ?wc"
  proof (cases "net_buf d = 0")
    case True
    with b1 show ?thesis by (simp add: s2_def mem_of_def)
  next
    case False
    with h(2) have "ucx_ctx d \<noteq> 0" by (simp add: wf_ucx_def)
    with b1 False release_handle [of ?wc R_mem "mem_handle d"] show ?thesis
      by (simp add: s2_def l mem_of_def depends_parts)
  qed
  have free: "\<forall>y\<in>#extra. \<not> depends y (R_ctx n)" for n using x by (auto simp: only_eps_def)
  have b4: "book s4 = finalized extra d"
  proof (cases "extra = {#} \<or> ucx_worker d = 0")
    case True
    then have c: "ucx_worker d \<noteq> 0 \<longrightarrow> (\<forall>y\<in>#?c. \<not> depends y (R_worker n))" for n by (auto simp: handle_res_def)
    have "book s3 = Some ?c"
      using b2 c release_handle(1) [of ?c R_worker "ucx_worker d"]
      by (cases "ucx_worker d = 0") (simp_all add: s3_def l handle_res_def [of R_worker 0])
    with release_handle [of extra R_ctx "ucx_ctx d"] free True show ?thesis
      by (auto simp: s4_def l finalized_def)
  next
    case False
    then obtain e where "R_ep e \<in># extra" using x by (metis multiset_nonemptyE only_eps_def)
    then have "\<exists>y\<in>#?wc. depends y (R_worker (ucx_worker d))" by (intro bexI [of _ "R_ep e"]) simp_all
    with False b2 have "book s3 = None" by (simp add: s3_def l release_def)
    with False show ?thesis by (simp add: s4_def l finalized_def release_def)
  qed
  have "wp (release_worker U) (\<lambda>_ w'. flux w' = s4 \<and> cell w' = cell w) w"
    using h(1) by (auto simp: release_worker_def ucx_free_buffer_def wps s1_def s2_def s3_def s4_def)
  then show ?thesis by (rule wp_mono) (simp add: b4)
qed

text \<open>The handle is gone and nothing is open any more.\<close>

definition all_released :: "('e \<Rightarrow> ledger) \<Rightarrow> ('e, 'y) uworld \<Rightarrow> bool" where
  "all_released book w \<longleftrightarrow> ucx_dtl_handle w = None \<and> book (flux w) = Some {#}"

lemma wp_ucx_finalize_beside:
  fixes w :: "('e, 'y) uworld"
  assumes laws: "closing_laws U book" and x: "only_eps extra" and d: "accounts book extra d w"
    and c: "cell w = Some c" "dtl_handle c \<noteq> None"
  shows "wp (dyad_dtl_ucx_finalize U fuel) (\<lambda>r w'. finishes U fuel r
     (r = Some RC_OK \<and> ucx_dtl_handle w' = None \<and> book (flux w') = finalized extra d)) w"
proof -
  let ?Q = "\<lambda>r w'. finishes U fuel r (r = Some RC_OK \<and> ucx_dtl_handle w' = None \<and> book (flux w') = finalized extra d)"
  let ?same = "\<lambda>d'. ucx_worker d' = ucx_worker d"
  let ?free = "and_then (release_rkey_buf U) (\<lambda>_. do { release_worker U; set_ucx None; State_Monad.return (Some RC_OK) })"
  let ?rest = "and_then (dyad_ucx_ep_cache_finalize U fuel (ucx_worker d)) (\<lambda>_. do { release_addresses U; ?free })"
  have fin: "finalized extra d' = finalized extra d" if "?same d'" for d' using that by (simp add: finalized_def)
  have free: "wp ?free ?Q w1" if "accounts book extra d1 w1" "eps_of d1 = {#}" "address_of d1 = {#}" "?same d1"
    for d1 and w1 :: "('e, 'y) uworld"
    unfolding wp_and_then
  proof (rule wp_mono [OF wp_release_rkey_buf [OF laws that(1-3)]], goal_cases)
    case (1 r w2)
    with \<open>?same d1\<close> obtain d2 where d2: "accounts book extra d2 w2" "eps_of d2 = {#}" "address_of d2 = {#}" "rkey_buf_of d2 = {#}"
      and r: "r \<noteq> None" "?same d2" by (auto simp: leaves_def)
    have "wp (do { release_worker U; set_ucx None; State_Monad.return (Some RC_OK) }) ?Q w2"
      unfolding wp_bind [of "release_worker _"]
      by (rule wp_mono [OF wp_release_worker [OF laws x d2]]) (simp add: wps fin [OF r(2)])
    with r show ?case by auto
  qed
  have rest: "wp ?rest ?Q w1" if d1: "accounts book extra d1 w1" "?same d1" for d1 and w1 :: "('e, 'y) uworld"
    unfolding wp_and_then
  proof (rule wp_mono [OF wp_ucx_cache_finalize [OF laws d1(1)]], goal_cases)
    case (1 r w2)
    show ?case
    proof (cases r)
      case None
      with 1 show ?thesis by simp
    next
      case (Some u)
      with 1 d1(2) obtain d2 where d2: "accounts book extra d2 w2" "eps_of d2 = {#}" "?same d2" by (auto simp: leaves_def)
      show ?thesis
        unfolding Some option.case wp_bind [of "release_addresses _"]
        by (rule wp_mono [OF wp_release_addresses [OF laws d2(1,2)]]) (use d2(3) in \<open>auto simp: leaves_def intro!: free\<close>)
    qed
  qed
  have open0: "accounts book extra (d1\<lparr>ud_ep := 0\<rparr>) (w1\<lparr>ucx_dtl_handle := Some (d1\<lparr>ud_ep := 0\<rparr>)\<rparr>)"
    if "accounts book extra d1 w1" for d1 and w1 :: "('e, 'y) uworld"
    using that by (simp add: accounts_def wf_ucx_def parts_of)
  have after: "wp (do { upd_ucx (\<lambda>d. d\<lparr>ud_ep := 0\<rparr>); ?rest }) ?Q w1" if "accounts book extra d1 w1" "?same d1" for d1
    and w1 :: "('e, 'y) uworld"
    using rest [OF open0 [OF that(1)]] that by (simp add: wp_bind [of "upd_ucx _"] wp_ucx accounts_def)
  have h: "ucx_dtl_handle w = Some d" using d by (simp add: accounts_def)
  have start: "wp (if ud_ep d \<noteq> 0 then dyad_dtl_ucx_close_connection U else State_Monad.return (Some RC_OK))
      (\<lambda>r. leaves book extra (\<lambda>d'. r \<noteq> None \<and> ?same d') w) w"
  proof (cases "ud_ep d = 0")
    case True
    with d show ?thesis by (auto simp: leaves_def)
  next
    case False
    then show ?thesis by simp (rule wp_mono [OF wp_ucx_close [OF laws d]], auto simp: leaves_def)
  qed
  have "wp (and_then (if ud_ep d \<noteq> 0 then dyad_dtl_ucx_close_connection U else State_Monad.return (Some RC_OK))
      (\<lambda>_. do { upd_ucx (\<lambda>d. d\<lparr>ud_ep := 0\<rparr>); ?rest })) ?Q w"
    unfolding wp_and_then
  proof (rule wp_mono [OF start], goal_cases)
    case (1 r w1)
    then obtain d1 u where "accounts book extra d1 w1" "?same d1" "r = Some u" by (auto simp: leaves_def)
    with after show ?case by auto
  qed
  moreover have n: "\<not> (dtl_handle c = None \<or> Some d = None)" using c(2) by simp
  ultimately show ?thesis
    by (simp add: dyad_dtl_ucx_finalize_def wp_bind [of the_ctx] wp_cell wp_bind [of "State _"] wp_State h c)
qed

lemma wp_ucx_finalize:
  fixes w :: "('e, 'y) uworld"
  assumes laws: "closing_laws U book" and d: "accounts book {#} d w" and c: "cell w = Some c" "dtl_handle c \<noteq> None"
  shows "wp (dyad_dtl_ucx_finalize U fuel) (\<lambda>r w'. finishes U fuel r (r = Some RC_OK \<and> all_released book w')) w"
  by (rule wp_mono [OF wp_ucx_finalize_beside [OF laws _ d c]])
    (auto simp: only_eps_def finalized_def all_released_def elim: finishes_mono)

section \<open>Initialising\<close>

lemma status_ok [simp]: "UCX_STATUS_FAIL UCS_OK = False"
  by (simp add: UCX_STATUS_FAIL_def)

lemma leaves_cell: "cell w1 = cell w \<Longrightarrow> leaves book extra P w1 = leaves book extra P w"
  by (simp add: leaves_def fun_eq_iff)

lemma opensE:
  assumes "opens book R valid f"
  obtains (opened) x s' where "f s = ((UCS_OK, Some x), s')" "valid x" "book s' = acquire (R x) (book s)"
  | (refused) st s' where "f s = ((st, None), s')" "st \<noteq> UCS_OK" "book s' = book s"
proof -
  obtain st new s' where f: "f s = ((st, new), s')" by (metis surj_pair)
  with assms have "if st = UCS_OK then \<exists>x. new = Some x \<and> valid x \<and> book s' = acquire (R x) (book s)
      else new = None \<and> book s' = book s"
    unfolding opens_def by (auto dest: spec [of _ s])
  with f opened refused show thesis by (auto split: if_splits)
qed

lemma opening_lawsD:
  assumes "opening_laws U book"
  shows "opens book R_ctx nonzero (ux_init U)" "opens book R_worker nonzero (ux_worker_create U c)"
    "opens book (\<lambda>(a, _). R_address a) (\<lambda>_. True) (ux_worker_get_address U w)"
    "opens book R_mem nonzero (ux_mem_map U c n p)" "opens book (\<lambda>(a, _). R_rkey_buf a) (\<lambda>_. True) (ux_rkey_pack U c m)"
    "opens book R_ep nonzero (ux_ep_create U w a)" "opens book R_rkey nonzero (ux_ep_rkey_unpack U e b)"
  using assms by (simp_all add: opening_laws_def)

text \<open>Before the endpoint cache exists.\<close>

definition begun :: "dyad_dtl_comm_mode \<Rightarrow> dyad_dtl_ucx \<Rightarrow> bool" where
  "begun mode d \<longleftrightarrow> ud_comm_mode d = mode \<and> ep_cache d = None \<and> rkey_buf d = None \<and> ud_rkey d = 0 \<and> net_buf d = 0
     \<and> mem_handle d = 0 \<and> ud_ep d = 0 \<and> max_transfer_size d = UCX_MAX_TRANSFER_SIZE"

lemma begun_fresh: "begun mode (fresh_ucx h mode debug)" "wf_ucx (fresh_ucx h mode debug)" "owned (fresh_ucx h mode debug) = {#}"
  by (simp_all add: begun_def fresh_ucx_def wf_ucx_def parts_of)

text \<open>The worker and its address.\<close>

definition started :: "dyad_dtl_comm_mode \<Rightarrow> bool \<Rightarrow> dyad_dtl_ucx \<Rightarrow> bool" where
  "started mode ok d \<longleftrightarrow> begun mode d \<and> (ok \<longrightarrow> ucx_ctx d \<noteq> 0 \<and> ucx_worker d \<noteq> 0)"

lemma wp_start_worker:
  fixes w :: "('e, 'y) uworld"
  assumes laws: "opening_laws U book" and d: "ucx_dtl_handle w = Some d" "begun mode d" "wf_ucx d"
    and only: "local_address d = None" "ucx_worker d = 0" "ucx_ctx d \<noteq> 0" "book (flux w) = Some (owned d)"
  shows "wp (do {
         d \<leftarrow> the_ucx;
         (status, new) \<leftarrow> lib_call (ux_worker_create U (ucx_ctx d));
         (case new of None \<Rightarrow> State_Monad.return () | Some x \<Rightarrow> upd_ucx (\<lambda>d. d\<lparr>ucx_worker := x\<rparr>));
         if UCX_STATUS_FAIL status then State_Monad.return False
         else do {
           d \<leftarrow> the_ucx;
           (_, new) \<leftarrow> lib_call (ux_worker_get_address U (ucx_worker d));
           (case new of None \<Rightarrow> State_Monad.return ()
            | Some (a, b) \<Rightarrow> upd_ucx (\<lambda>d. d\<lparr>local_address := Some (a, b), local_addr_len := of_nat (length b)\<rparr>));
           State_Monad.return True } })
     (\<lambda>ok. leaves book {#} (started mode ok) w) w"
  using opening_lawsD(2) [OF laws, of "ucx_ctx d"]
proof (cases rule: opensE [where s = "flux w"])
  case (opened x s)
  let ?d = "d\<lparr>ucx_worker := x\<rparr>"
  have w1: "wf_ucx ?d" "started mode True ?d" "book s = Some (owned ?d)"
    using opened d only by (simp_all add: wf_ucx_def started_def begun_def acquire_def parts_of nonzero_def)
  show ?thesis
    using opening_lawsD(3) [OF laws, of x]
  proof (cases rule: opensE [where s = s])
    case a: (opened y s')
    obtain k b where y: "y = (k, b)" by fastforce
    let ?e = "?d\<lparr>local_address := Some (k, b), local_addr_len := of_nat (length b)\<rparr>"
    have "wf_ucx ?e" "started mode True ?e" "book s' = Some (owned ?e)"
      using a w1 only y by (simp_all add: wf_ucx_def started_def begun_def acquire_def parts_of)
    then show ?thesis
      using opened(1) a(1) d(1) y by (auto simp: wps wp_lib UCX_STATUS_FAIL_def intro!: leavesI)
  next
    case (refused st s')
    with opened(1) d(1) w1 show ?thesis
      by (auto simp: wps wp_lib UCX_STATUS_FAIL_def intro!: leavesI)
  qed
next
  case (refused st s)
  with d only show ?thesis
    by (auto simp: wps wp_lib UCX_STATUS_FAIL_def started_def intro!: leavesI)
qed

lemma wp_start_ucx:
  fixes w :: "('e, 'y) uworld"
  assumes laws: "opening_laws U book" "closing_laws U book"
    and d: "ucx_dtl_handle w = Some (fresh_ucx h mode debug)" "book (flux w) = Some {#}"
  shows "wp (start_ucx U) (\<lambda>ok. leaves book {#} (started mode ok) w) w"
proof -
  let ?d = "fresh_ucx h mode debug"
  obtain st s where c: "ux_config_read U (flux w) = (st, s)" by fastforce
  have b: "book s = Some {#}" using closing_lawsD(10) [OF laws(2), of "flux w"] c d(2) by simp
  show ?thesis
  proof (cases "st = UCS_OK")
    case False
    with c d b begun_fresh show ?thesis
      by (auto simp: start_ucx_def wps wp_lib UCX_STATUS_FAIL_def started_def intro!: leavesI)
  next
    case True
    show ?thesis
      using opening_lawsD(1) [OF laws(1)]
    proof (cases rule: opensE [where s = s])
      case (opened x s')
      let ?e = "?d\<lparr>ucx_ctx := x\<rparr>"
      have e: "wf_ucx ?e" "begun mode ?e" "book s' = Some (owned ?e)" "ucx_ctx ?e \<noteq> 0" "local_address ?e = None" "ucx_worker ?e = 0"
        using opened(2,3) b by (simp_all add: wf_ucx_def begun_def fresh_ucx_def acquire_def parts_of nonzero_def)
      note go = wp_start_worker [OF laws(1) _ e(2,1,5,6,4), where w = "w\<lparr>flux := s', ucx_dtl_handle := Some ?e\<rparr>"]
      have "leaves book {#} P (w\<lparr>flux := s', ucx_dtl_handle := Some ?e\<rparr>) = leaves book {#} P w" for P
        by (rule leaves_cell) simp
      then show ?thesis
        unfolding start_ucx_def wp_bind [of "lib_call _"] wp_lib c fst_conv snd_conv prod.case True status_ok if_False
        using go e(3) by (simp add: opened(1) d(1) wp_bind [of "upd_ucx _"] wp_ucx)
    next
      case (refused st' s')
      with True c d b begun_fresh show ?thesis
        by (auto simp: start_ucx_def wps wp_lib UCX_STATUS_FAIL_def started_def intro!: leavesI)
    qed
  qed
qed

text \<open>Registering memory, packing and unpacking keys and putting data do not fail.\<close>

definition rdma_works :: "'e ucx_ops \<Rightarrow> bool" where
  "rdma_works U \<longleftrightarrow> (\<forall>c n p s. fst (fst (ux_mem_map U c n p s)) = UCS_OK)
     \<and> (\<forall>m s. \<exists>a. a \<noteq> 0 \<and> ux_mem_query U m s = (UCS_OK, a))
     \<and> (\<forall>c m s. fst (fst (ux_rkey_pack U c m s)) = UCS_OK)
     \<and> (\<forall>e b s. fst (fst (ux_ep_rkey_unpack U e b s)) = UCS_OK)
     \<and> (\<forall>e b n t k s x. fst (ux_put U e b n t k s) \<noteq> Ptr_err x)"

lemma rdma_worksD:
  assumes "rdma_works U"
  shows "fst (fst (ux_mem_map U c n p s)) = UCS_OK" "\<exists>x. x \<noteq> 0 \<and> ux_mem_query U m s = (UCS_OK, x)"
    "fst (fst (ux_rkey_pack U c m s)) = UCS_OK" "fst (fst (ux_ep_rkey_unpack U e b s)) = UCS_OK"
    "fst (ux_put U e a n t k s) \<noteq> Ptr_err x"
  using assms unfolding rdma_works_def by blast+

text \<open>Ready for the warm-up.\<close>

definition ready :: "dyad_dtl_comm_mode \<Rightarrow> dyad_dtl_ucx \<Rightarrow> bool" where
  "ready mode d \<longleftrightarrow> ud_comm_mode d = mode \<and> ep_cache d = Some [] \<and> ud_rkey d = 0 \<and> ud_ep d = 0
     \<and> (rkey_buf d = None \<longleftrightarrow> mode = COMM_SEND) \<and> max_transfer_size d = UCX_MAX_TRANSFER_SIZE"

lemma wp_allocate_buffer:
  fixes w :: "('e, 'y) uworld"
  assumes laws: "opening_laws U book" "rdma_works U" and mode: "mode = COMM_SEND \<or> mode = COMM_RECV"
    and d: "ucx_dtl_handle w = Some (d0\<lparr>ep_cache := Some []\<rparr>)" "started mode True d0" "wf_ucx d0" "book (flux w) = Some (owned d0)"
  shows "wp (ucx_allocate_buffer U) (\<lambda>_. leaves book {#} (ready mode) w) w"
proof -
  let ?d = "d0\<lparr>ep_cache := Some []\<rparr>" let ?p = "if mode = COMM_SEND then PROT_LOCAL_READ else PROT_REMOTE_WRITE"
  have m: "ud_comm_mode ?d = mode" "ucx_ctx ?d \<noteq> 0" "ud_comm_mode ?d \<noteq> COMM_NONE"
    using d(2) mode by (auto simp: started_def begun_def)
  from opening_lawsD(4) [OF laws(1), of "ucx_ctx ?d" "max_transfer_size ?d + 8" ?p] rdma_worksD(1) [OF laws(2)]
  obtain x s where x: "ux_mem_map U (ucx_ctx ?d) (max_transfer_size ?d + 8) ?p (flux w) = ((UCS_OK, Some x), s)" "x \<noteq> 0"
    "book s = acquire (R_mem x) (book (flux w))"
    by (cases rule: opensE [where s = "flux w"]) (auto simp: nonzero_def, metis fst_conv)
  obtain a where a: "a \<noteq> 0" "ux_mem_query U x s = (UCS_OK, a)" using rdma_worksD(2) [OF laws(2)] by blast
  let ?e = "?d\<lparr>mem_handle := x, net_buf := a, cons_buf_ptr := of_nat a\<rparr>"
  have e: "wf_ucx ?e" "book s = Some (owned ?e)" "mode = COMM_SEND \<longrightarrow> ready mode ?e"
    using d x a(1) by (simp_all add: wf_ucx_def acquire_def parts_of ready_def started_def begun_def)
  show ?thesis
  proof (cases "mode = COMM_SEND")
    case True
    with d(1) m x(1) a(2) e show ?thesis
      by (auto simp: ucx_allocate_buffer_def wps wp_lib intro!: leavesI)
  next
    case False
    with mode have r: "mode = COMM_RECV" by simp
    from opening_lawsD(5) [OF laws(1), of "ucx_ctx ?d" x] rdma_worksD(3) [OF laws(2)]
    obtain k b s' where k: "ux_rkey_pack U (ucx_ctx ?d) x s = ((UCS_OK, Some (k, b)), s')"
      "book s' = acquire (R_rkey_buf k) (book s)"
      by (cases rule: opensE [where s = s]) (auto split: prod.splits, metis fst_conv)
    let ?f = "?e\<lparr>rkey_buf := Some (Ucx_mem k b), rkey_size := of_nat (length b)\<rparr>"
    have "wf_ucx ?f" "book s' = Some (owned ?f)" "ready mode ?f"
      using d x a(1) k(2) e(2) r by (simp_all add: wf_ucx_def acquire_def parts_of ready_def started_def begun_def)
    with r d(1) m x(1) a(2) k(1) show ?thesis
      by (auto simp: ucx_allocate_buffer_def wps wp_lib intro!: leavesI)
  qed
qed

lemma wp_send_no_wait:
  fixes w :: "('e, 'y) uworld"
  assumes "ucx_dtl_handle w = Some d" "ud_ep d \<noteq> 0" "rkey_buf d = Some k"
    and "ux_ep_rkey_unpack U (ud_ep d) (rkey_bytes k) (flux w) = ((UCS_OK, Some x), s)"
    and "ux_put U (ud_ep d) buf n (cons_buf_ptr d) x s = (p, s')" "\<And>y. p \<noteq> Ptr_err y"
  shows "wp (ucx_send_no_wait U buf n) (\<lambda>q w'. q = p \<and> ucx_dtl_handle w' = Some (d\<lparr>ud_rkey := x\<rparr>) \<and> flux w' = s'
     \<and> cell w' = cell w) w"
proof -
  have "(case p of Ptr_err _ \<Rightarrow> Ptr_err UCS_ERR_NOT_CONNECTED | _ \<Rightarrow> p) = p" using assms(6) by (auto split: ucs_status_ptr.split)
  with assms show ?thesis by (simp add: ucx_send_no_wait_def wps wp_lib cong: ucs_status_ptr.case_cong)
qed

text \<open>A warm-up that connects leaves the endpoint of a producer open, and closes that of a consumer.\<close>

definition warmed :: "('e \<Rightarrow> ledger) \<Rightarrow> dyad_dtl_comm_mode \<Rightarrow> dyad_rc option \<Rightarrow> ('e, 'y) uworld \<Rightarrow> ('e, 'y) uworld \<Rightarrow> bool" where
  "warmed book mode r w w' \<longleftrightarrow>
     (if mode = COMM_SEND \<and> r = Some RC_OK then \<exists>e. leaves book {#R_ep e#} (\<lambda>d. ud_comm_mode d = mode) w w'
      else leaves book {#} (\<lambda>d. ud_comm_mode d = mode) w w')"

lemma wp_ucx_warmup:
  fixes w :: "('e, 'y) uworld"
  assumes laws: "opening_laws U book" "closing_laws U book" "rdma_works U" and mode: "mode = COMM_SEND \<or> mode = COMM_RECV"
    and d: "accounts book {#} d w" "ready mode d"
  shows "wp (ucx_warmup U fuel) (\<lambda>r w'. finishes U fuel r (warmed book mode r w w')) w"
proof -
  from d have h: "ucx_dtl_handle w = Some d" "wf_ucx d" "book (flux w) = Some (owned d)" "ud_comm_mode d = mode"
    by (simp_all add: accounts_def ready_def)
  let ?addr = "map_option snd (local_address d)"
  have failed: "warmed book mode (Some rc) w w'"
    if "ucx_dtl_handle w' = Some d" "book (flux w') = Some (owned d)" "cell w' = cell w" "rc \<noteq> RC_OK" for rc w'
    using that h by (auto simp: warmed_def intro!: leavesI)
  let ?go = "do {
         d' \<leftarrow> the_ucx;
         rc \<leftarrow> ucx_connect U (ucx_worker d') (map_option snd (local_address d'));
         if is_error rc then State_Monad.return (Some rc)
         else do {
           send_stat_ptr \<leftarrow> ucx_send_no_wait U (net_buf d) 1;
           if send_stat_ptr = Ptr_err UCS_ERR_NOT_CONNECTED then State_Monad.return (Some rc)
           else and_then (dyad_ucx_request_wait U fuel send_stat_ptr) (\<lambda>send_status. do {
             d \<leftarrow> the_ucx;
             and_then (ucx_disconnect U fuel (ucx_worker d) (ud_ep d)) (\<lambda>_.
               State_Monad.return (Some (if UCX_STATUS_FAIL send_status then RC_UCXCOMM_FAIL else RC_OK))) }) } }"
  have go: "wp ?go (\<lambda>r w'. finishes U fuel r (warmed book mode r w w')) w1"
    if w1: "ucx_dtl_handle w1 = Some d" "flux w1 = flux w" "cell w1 = cell w" for w1 :: "('e, 'y) uworld"
    using opening_lawsD(6) [OF laws(1), of "ucx_worker d" ?addr]
  proof (cases rule: opensE [where s = "flux w"])
    case (opened e s)
    let ?d = "d\<lparr>ud_ep := e\<rparr>"
    have e: "e \<noteq> 0" "book s = Some (add_mset (R_ep e) (owned d))" using opened h(3) by (simp_all add: nonzero_def acquire_def)
    have wf: "wf_ucx ?d" "owned ?d = owned d" using h(2) by (simp_all add: wf_ucx_def parts_of)
    show ?thesis
    proof (cases "mode = COMM_SEND")
      case True
      with d(2) have "rkey_buf d = None" by (simp add: ready_def)
      with True w1 opened(1) e wf h(4) show ?thesis
        by (auto simp: ucx_connect_def ucx_send_no_wait_def wps wp_lib warmed_def intro!: leavesI)
    next
      case False
      with d(2) mode obtain k where k: "rkey_buf d = Some k" "mode = COMM_RECV" "ud_rkey d = 0" by (auto simp: ready_def)
      from opening_lawsD(7) [OF laws(1), of e "rkey_bytes k"] rdma_worksD(4) [OF laws(3)]
      obtain x s1 where x: "ux_ep_rkey_unpack U e (rkey_bytes k) s = ((UCS_OK, Some x), s1)" "x \<noteq> 0"
        "book s1 = acquire (R_rkey x) (book s)"
        by (cases rule: opensE [where s = s]) (auto simp: nonzero_def, metis fst_conv)
      let ?e = "?d\<lparr>ud_rkey := x\<rparr>"
      obtain p s2 where p: "ux_put U e (net_buf d) 1 (cons_buf_ptr d) x s1 = (p, s2)" by fastforce
      have np: "p \<noteq> Ptr_err y" for y using rdma_worksD(5) [OF laws(3)] p by (metis fst_conv)
      have b2: "book s2 = Some (add_mset (R_ep e) (owned ?e))" "wf_ucx ?e"
        using closing_lawsD(11) [OF laws(2), of e "net_buf d" 1 "cons_buf_ptr d" x s1] p x(2,3) e(2) k(3) h(2)
        by (simp_all add: acquire_def parts_of wf_ucx_def)
      let ?close = "\<lambda>st :: ucs_status. do {
             d \<leftarrow> the_ucx;
             and_then (ucx_disconnect U fuel (ucx_worker d) (ud_ep d)) (\<lambda>_.
               State_Monad.return (Some (if UCX_STATUS_FAIL st then RC_UCXCOMM_FAIL else RC_OK))) }"
      have close: "wp (?close st) (\<lambda>r w'. finishes U fuel r (warmed book mode r w w')) w2"
        if w2: "ucx_dtl_handle w2 = Some ?e" "cell w2 = cell w" "book (flux w2) = Some (add_mset (R_ep e) (owned ?e))"
        for st and w2 :: "('e, 'y) uworld"
        unfolding wp_bind [of the_ucx] wp_ucx(1) w2(1) option.sel wp_and_then
      proof (rule wp_mono [OF wp_disconnect [OF laws(2)]], goal_cases)
        case (2 r w3)
        then have mv: "moved book (release (R_ep e) (book (flux w2))) w2 w3" and f: "finishes U fuel r True" by simp_all
        note h3 = moved_same [OF mv]
        have "book (flux w3) = Some (owned ?e)" using h3(3) w2(3) by (simp add: release_add depends_parts)
        with f h3 w2 b2(2) k(2) h(4) show ?case
          by (cases r) (auto simp: wps warmed_def intro!: leavesI)
      qed (simp add: e(1))
      have send: "wp (and_then (dyad_ucx_request_wait U fuel p) ?close) (\<lambda>r w'. finishes U fuel r (warmed book mode r w w')) w2"
        if w2: "ucx_dtl_handle w2 = Some ?e" "cell w2 = cell w" "flux w2 = s2" for w2 :: "('e, 'y) uworld"
      proof (cases p)
        case (Ptr_req q)
        show ?thesis
          unfolding wp_and_then dyad_ucx_request_wait_def Ptr_req ucs_status_ptr.case wp_bind [of the_ucx] wp_ucx(1)
        proof (rule wp_mono [OF wp_await [OF laws(2)]], goal_cases)
          case (1 r w3)
          then have mv: "moved book (book (flux w2)) w2 w3" and f: "finishes U fuel r True" by simp_all
          note h3 = moved_same [OF mv]
          show ?case
          proof (cases r)
            case None
            with f show ?thesis by simp
          next
            case (Some st)
            have "wp (?close st) (\<lambda>r w'. finishes U fuel r (warmed book mode r w w')) w3"
              using h3 b2(1) w2 by (intro close) simp_all
            then show ?thesis unfolding Some option.case wp_and_then wp_bind [of the_ucx] wp_ucx(1) .
          qed
        qed
      next
        case Ptr_null
        have "wp (?close UCS_OK) (\<lambda>r w'. finishes U fuel r (warmed book mode r w w')) w2"
          using b2(1) w2 by (intro close) simp_all
        then show ?thesis by (simp add: wp_and_then dyad_ucx_request_wait_def Ptr_null)
      qed (use np in blast)
      let ?w = "w1\<lparr>flux := s, ucx_dtl_handle := Some ?d\<rparr>"
      have sent: "wp (ucx_send_no_wait U (net_buf d) 1) (\<lambda>q w2. q = p \<and> ucx_dtl_handle w2 = Some ?e \<and> flux w2 = s2
          \<and> cell w2 = cell ?w) ?w"
        using wp_send_no_wait [of ?w ?d k U x s1 "net_buf d" 1 p s2] e(1) k(1) x(1) p np by simp
      have connect: "wp (ucx_connect U (ucx_worker d) ?addr) (\<lambda>rc w'. rc = RC_OK \<and> w' = ?w) w1"
        using w1 opened(1) e(1) by (simp add: ucx_connect_def wps wp_lib)
      show ?thesis
        unfolding wp_bind [of the_ucx] wp_ucx(1) w1(1) option.sel wp_bind [of "ucx_connect _ _ _"]
      proof (rule wp_mono [OF connect], goal_cases)
        case (1 rc w')
        then have rc: "rc = RC_OK" "w' = ?w" by simp_all
        have "wp (ucx_send_no_wait U (net_buf d) 1) (\<lambda>send_stat_ptr.
            wp (if send_stat_ptr = Ptr_err UCS_ERR_NOT_CONNECTED then State_Monad.return (Some rc)
              else and_then (dyad_ucx_request_wait U fuel send_stat_ptr) ?close)
              (\<lambda>r w'. finishes U fuel r (warmed book mode r w w'))) ?w"
          by (rule wp_mono [OF sent]) (use np w1(3) in \<open>auto intro!: send\<close>)
        then show ?case by (simp add: rc wp_bind [of "ucx_send_no_wait _ _ _"])
      qed
    qed
  next
    case (refused st s)
    with w1 h(3) show ?thesis
      by (auto simp: ucx_connect_def wps wp_lib UCX_STATUS_FAIL_def intro!: failed)
  qed
  have size: "\<not> max_transfer_size d < 1" using d(2) by (simp add: ready_def UCX_MAX_TRANSFER_SIZE_def)
  have buf: "wp (dyad_dtl_ucx_get_buffer 1 0) (\<lambda>r w'. r = (RC_OK, net_buf d) \<and> w' = w) w"
    using size h(1) by (simp add: dyad_dtl_ucx_get_buffer_def wps)
  show ?thesis
    unfolding ucx_warmup_def wp_bind [of "dyad_dtl_ucx_get_buffer _ _"]
  proof (rule wp_mono [OF buf], goal_cases)
    case (1 r w')
    then have r: "r = (RC_OK, net_buf d)" "w' = w" by simp_all
    have "wp sys_malloc (\<lambda>ok. wp (if \<not> ok then State_Monad.return (Some RC_SYSFAIL) else ?go)
        (\<lambda>r w'. finishes U fuel r (warmed book mode r w w'))) w"
    proof (rule wp_alloc, goal_cases)
      case (1 ok w1)
      then have "ucx_dtl_handle w1 = Some d" "flux w1 = flux w" "cell w1 = cell w" using h(1) by (simp_all add: allocated_def)
      then show ?case using go h(3) by (cases ok) (simp_all add: failed)
    qed
    then show ?case by (simp add: r wp_bind [of sys_malloc])
  qed
qed

text \<open>
  The outcome of initialising: a handle that owns all that is open, apart from a producer's warm-up endpoint; or an error, and
  nothing is open.
\<close>

definition ucx_opened :: "('e \<Rightarrow> ledger) \<Rightarrow> dyad_dtl_comm_mode \<Rightarrow> ('e, 'y) uworld \<Rightarrow> bool" where
  "ucx_opened book mode w \<longleftrightarrow> (\<exists>d. ucx_dtl_handle w = Some d \<and> ud_comm_mode d = mode \<and> wf_ucx d
     \<and> (if mode = COMM_SEND then \<exists>e. book (flux w) = Some (add_mset (R_ep e) (owned d)) else book (flux w) = Some (owned d)))"

definition init_outcome :: "('e \<Rightarrow> ledger) \<Rightarrow> dyad_dtl_comm_mode \<Rightarrow> dyad_rc option \<Rightarrow> ('e, 'y) uworld \<Rightarrow> bool" where
  "init_outcome book mode r w \<longleftrightarrow> (if r = Some RC_OK then ucx_opened book mode w else all_released book w)"

lemma wp_init_failed:
  fixes w :: "('e, 'y) uworld"
  assumes laws: "closing_laws U book" and d: "leaves book {#} P w0 w" and c: "cell w = Some c" "dtl_handle c \<noteq> None"
  shows "wp (ucx_init_failed U fuel) (\<lambda>r w'. finishes U fuel r (init_outcome book mode r w')) w"
proof -
  from d obtain d1 where d1: "accounts book {#} d1 w" by (auto simp: leaves_def)
  show ?thesis
    unfolding ucx_init_failed_def wp_and_then
    by (rule wp_mono [OF wp_ucx_finalize [OF laws d1 c]]) (auto simp: init_outcome_def finishes_def split: option.split if_splits)
qed

lemma wp_cache_init:
  fixes w :: "('e, 'y) uworld"
  assumes "ucx_dtl_handle w = Some d" "ep_cache d = None"
  shows "wp dyad_ucx_ep_cache_init (\<lambda>rc w'. flux w' = flux w \<and> cell w' = cell w \<and>
     (if rc = RC_OK then ucx_dtl_handle w' = Some (d\<lparr>ep_cache := Some []\<rparr>) else ucx_dtl_handle w' = Some d)) w"
  unfolding dyad_ucx_ep_cache_init_def wp_bind [of the_ucx] wp_ucx(1) assms option.sel
  by (simp add: wp_bind [of sys_malloc]) (rule wp_alloc, use assms in \<open>auto simp: wps allocated_def\<close>)

lemma wp_ucx_init:
  fixes w :: "('e, 'y) uworld"
  assumes laws: "opening_laws U book" "closing_laws U book" "rdma_works U" and mode: "mode = COMM_SEND \<or> mode = COMM_RECV"
    and w: "book (flux w) = Some {#}" "ucx_dtl_handle w = None" "cell w = Some c" "dtl_handle c \<noteq> None"
  shows "wp (dyad_dtl_ucx_init U fuel m mode debug) (\<lambda>r w'. finishes U fuel r (init_outcome book mode r w')) w"
proof -
  let ?Q = "\<lambda>r w'. finishes U fuel r (init_outcome book mode r w')"
  let ?d0 = "fresh_ucx (ctx_h c) mode debug"
  let ?warm = "and_then (ucx_warmup U fuel) (\<lambda>rc.
             if is_error rc then ucx_init_failed U fuel
             else do { upd_ucx (\<lambda>d. d\<lparr>ud_ep := 0\<rparr>); State_Monad.return (Some RC_OK) })"
  let ?wire = "do { upd_dtl (\<lambda>d. d\<lparr>dtl_wired := True, dtl_has_detach := False, send_detached_is_thread_safe := False\<rparr>); ?warm }"
  have warm: "wp ?warm ?Q w1" if d: "accounts book {#} d1 w1" "ready mode d1" and cw: "cell w1 = Some c1" "dtl_handle c1 \<noteq> None"
    for d1 c1 and w1 :: "('e, 'y) uworld"
    unfolding wp_and_then
  proof (rule wp_mono [OF wp_ucx_warmup [OF laws mode d]], goal_cases)
    case (1 r w2)
    show ?case
    proof (cases r)
      case None
      with 1 show ?thesis by simp
    next
      case (Some rc)
      with 1 have wm: "warmed book mode (Some rc) w1 w2" by simp
      show ?thesis
      proof (cases "rc = RC_OK")
        case True
        have ep0: "wf_ucx (d\<lparr>ud_ep := 0\<rparr>) = wf_ucx d" "owned (d\<lparr>ud_ep := 0\<rparr>) = owned d" for d
          by (simp_all add: wf_ucx_def parts_of)
        from wm True Some show ?thesis
          by (auto simp: warmed_def leaves_def accounts_def wps init_outcome_def ucx_opened_def ep0 split: if_splits)
      next
        case False
        with wm have l: "leaves book {#} (\<lambda>d. ud_comm_mode d = mode) w1 w2" by (simp add: warmed_def split: if_splits)
        then have "cell w2 = Some c1" using cw(1) by (simp add: leaves_def)
        with wp_init_failed [OF laws(2) l _ cw(2), of fuel mode] Some False show ?thesis by simp
      qed
    qed
  qed
  have wire: "wp ?wire ?Q w1" if l: "leaves book {#} (ready mode) w0 w1" and cw: "cell w1 = Some c1" "dtl_handle c1 \<noteq> None"
    for w0 w1 :: "('e, 'y) uworld" and c1
  proof -
    from l obtain d1 where d1: "accounts book {#} d1 w1" "ready mode d1" by (auto simp: leaves_def)
    show ?thesis
      unfolding wp_bind [of "upd_dtl _"] wp_upd_dtl cw(1) option.map
      by (rule warm [OF _ d1(2)], use d1(1) in \<open>simp add: accounts_def\<close>, simp, use cw(2) in auto)
  qed
  have start: "wp (do {
       started \<leftarrow> start_ucx U;
       if \<not> started then ucx_init_failed U fuel
       else do {
         rc \<leftarrow> dyad_ucx_ep_cache_init;
         if is_error rc then ucx_init_failed U fuel
         else do { _ \<leftarrow> ucx_allocate_buffer U; ?wire } } }) ?Q w1"
    if w1: "ucx_dtl_handle w1 = Some ?d0" "book (flux w1) = Some {#}" "cell w1 = Some c" for w1 :: "('e, 'y) uworld"
    unfolding wp_bind [of "start_ucx _"]
  proof (rule wp_mono [OF wp_start_ucx [OF laws(1,2) w1(1,2)]], goal_cases)
    case (1 ok w2)
    then obtain d where d: "accounts book {#} d w2" "started mode ok d" and cw: "cell w2 = Some c"
      using w1(3) by (auto simp: leaves_def)
    from d have h: "ucx_dtl_handle w2 = Some d" "ep_cache d = None" "wf_ucx d" "book (flux w2) = Some (owned d)"
      by (auto simp: accounts_def started_def begun_def)
    show ?case
    proof (cases ok)
      case False
      with wp_init_failed [OF laws(2) 1 cw w(4)] show ?thesis by simp
    next
      case True
      have "wp dyad_ucx_ep_cache_init (\<lambda>rc. wp (if is_error rc then ucx_init_failed U fuel
          else do { _ \<leftarrow> ucx_allocate_buffer U; ?wire }) ?Q) w2"
      proof (rule wp_mono [OF wp_cache_init [OF h(1,2)]], goal_cases)
        case (1 rc w3)
        show ?case
        proof (cases "rc = RC_OK")
          case rc: True
          with 1 have w3: "ucx_dtl_handle w3 = Some (d\<lparr>ep_cache := Some []\<rparr>)" "book (flux w3) = Some (owned d)" "cell w3 = Some c"
            using h(4) cw by simp_all
          have "wp (do { _ \<leftarrow> ucx_allocate_buffer U; ?wire }) ?Q w3"
            unfolding wp_bind [of "ucx_allocate_buffer _"]
          proof (rule wp_mono [OF wp_allocate_buffer [OF laws(1,3) mode w3(1) _ h(3) w3(2)]], goal_cases)
            case 1
            show ?case using d(2) True by simp
          next
            case (2 r w4)
            then have "cell w4 = Some c" using w3(3) by (simp add: leaves_def)
            with 2 w(4) show ?case by (intro wire)
          qed
          with rc show ?thesis by simp
        next
          case False
          with 1 h cw have l: "leaves book {#} (\<lambda>_. True) w3 w3" "cell w3 = Some c" by (auto intro!: leavesI)
          with wp_init_failed [OF laws(2) l w(4)] False show ?thesis by simp
        qed
      qed
      with True show ?thesis by (simp add: wp_bind [of dyad_ucx_ep_cache_init])
    qed
  qed
  show ?thesis
    unfolding dyad_dtl_ucx_init_def wp_bind [of sys_malloc]
  proof (rule wp_alloc, goal_cases)
    case (1 ok w1)
    then have w1: "flux w1 = flux w" "cell w1 = Some c" using w(3) by (simp_all add: allocated_def)
    show ?case
    proof (cases ok)
      case True
      have "wp (set_ucx (Some ?d0)) (\<lambda>_ w2. ucx_dtl_handle w2 = Some ?d0 \<and> book (flux w2) = Some {#} \<and> cell w2 = Some c) w1"
        using w1 w(1) by (simp add: wps)
      with True w1 start show ?thesis
        by (simp add: wp_bind [of the_ctx] wp_cell wp_bind [of "set_ucx _"] wp_ucx w(1))
    next
      case False
      with w1 w(1) show ?thesis by (simp add: wps init_outcome_def all_released_def)
    qed
  qed
qed

section \<open>Cached endpoints\<close>

text \<open>A producer's handle between two requests, and after the endpoint for the current consumer has been chosen.\<close>

definition producer :: "('e, 'y) uworld \<Rightarrow> dyad_dtl_ucx \<Rightarrow> bool" where
  "producer w d \<longleftrightarrow> ucx_dtl_handle w = Some d \<and> ud_comm_mode d = COMM_SEND \<and> heap_key d \<and> ep_cache d \<noteq> None"

definition cached_ep :: "dyad_dtl_ucx \<Rightarrow> uint64 \<Rightarrow> nat option" where
  "cached_ep d key = map_of (the (ep_cache d)) key"

text \<open>A request taken over: what it changes, and what it leaves alone.\<close>

definition taken :: "dyad_dtl_ucx \<Rightarrow> uint64 \<Rightarrow> ('e, 'y) uworld \<Rightarrow> bool" where
  "taken d key w \<longleftrightarrow> (\<exists>d'. producer w d' \<and> ud_ep d' = ud_ep d \<and> ep_cache d' = ep_cache d \<and> consumer_conn_key d' = key)"

lemma wp_decode_any:
  fixes w :: "('e, 'y) uworld"
  assumes "\<And>r w'. ucx_dtl_handle w' = ucx_dtl_handle w \<Longrightarrow> Q r w'"
  shows "wp (decode_text s) Q w"
  unfolding decode_text_def wp_bind by (rule wp_alloc) (auto simp: allocated_def intro!: assms)

lemma wp_unpack_takes:
  fixes w :: "('e, 'y) uworld"
  assumes "producer w d" "fst (fx_request_unpack G msg (flux w)) = Inr obj" "member_int ''pid_cons'' obj = Some pid"
  shows "wp (dyad_dtl_ucx_rpc_unpack G msg) (\<lambda>r w'. (\<exists>u. r = Some (RC_OK, u)) \<longrightarrow> taken d (push_bit 32 (c_int_bits pid)) w') w"
proof -
  obtain s where r: "fx_request_unpack G msg (flux w) = (Inr obj, s)" using assms(2) by (metis fst_conv surj_pair)
  let ?Q = "\<lambda>r w'. (\<exists>u. r = Some (RC_OK, u)) \<longrightarrow> taken d (push_bit 32 (c_int_bits pid)) w'"
  have rkey: "wp (unpack_rkey ek) (\<lambda>r w'. r = Some RC_OK \<longrightarrow> taken d1 (consumer_conn_key d1) w') w1"
    if d1: "producer w1 d1" for d1 ek and w1 :: "('e, 'y) uworld"
  proof -
    have h: "ucx_dtl_handle w1 = Some d1" "heap_key d1" using d1 by (simp_all add: producer_def)
    then have k: "\<not> (case rkey_buf d1 of Some (Ucx_mem _ _) \<Rightarrow> True | _ \<Rightarrow> False)"
      by (simp add: heap_key_def split: option.splits rkey_mem.splits)
    let ?w = "w1\<lparr>ucx_dtl_handle := Some (d1\<lparr>rkey_size := base64_decoded_length (of_nat (length ek))\<rparr>)\<rparr>"
    have take: "taken d1 (consumer_conn_key d1) (w2\<lparr>ucx_dtl_handle := Some (d1\<lparr>rkey_size := n, rkey_buf := Some (Heap_mem b)\<rparr>)\<rparr>)"
      for n b and w2 :: "('e, 'y) uworld"
      using d1 by (auto simp: taken_def producer_def heap_key_def)
    show ?thesis
      unfolding unpack_rkey_def wp_bind [of "upd_ucx _"] wp_ucx(3) wp_bind [of the_ucx] wp_ucx(1) h(1)
      using k by (auto simp: wps wp_bind [of "decode_text _"] take intro!: wp_decode_any split: option.split)
  qed
  show ?thesis
  proof (cases "member_str ''upath'' obj = None \<or> member_int ''tag_prod'' obj = None \<or> member_str ''cons_buf'' obj = None
      \<or> member_str ''addr'' obj = None \<or> member_str ''rkey'' obj = None")
    case True
    then show ?thesis
      using assms(3) by (auto simp: dyad_dtl_ucx_rpc_unpack_def wps wp_flux_call r split: option.split)
  next
    case False
    then obtain u t v ea ek where m: "member_str ''upath'' obj = Some u" "member_int ''tag_prod'' obj = Some t"
      "member_str ''cons_buf'' obj = Some v" "member_str ''addr'' obj = Some ea" "member_str ''rkey'' obj = Some ek" by auto
    have key: "wp (and_then (unpack_rkey ek) (\<lambda>rc. State_Monad.return (Some (rc, Some u)))) ?Q w1"
      if d1: "producer w1 d1" "ud_ep d1 = ud_ep d" "ep_cache d1 = ep_cache d" "consumer_conn_key d1 = push_bit 32 (c_int_bits pid)"
      for d1 and w1 :: "('e, 'y) uworld"
      unfolding wp_and_then
      by (rule wp_mono [OF rkey [OF d1(1)]]) (use d1 in \<open>auto simp: taken_def split: option.split\<close>)
    show ?thesis
      unfolding dyad_dtl_ucx_rpc_unpack_def wp_bind [of "flux_call _"] wp_flux_call r prod.case sum.case option.case Let_def m assms(3)
        wp_bind [of "upd_ucx _"] wp_ucx(3) wp_bind [of "decode_text _"]
    proof (rule wp_decode_any, goal_cases)
      case (1 x w1)
      with assms(1) show ?case
        by (auto simp: wps producer_def heap_key_def intro!: key split: option.split)
    qed
  qed
qed

text \<open>Choosing the endpoint: the cached one, without a call to UCX, or a new one, which is cached.\<close>

lemma wp_establish:
  fixes w :: "('e, 'y) uworld"
  assumes d: "producer w d" "ud_ep d = 0"
  shows "wp (dyad_dtl_ucx_establish_connection U) (\<lambda>rc w'. case cached_ep d (consumer_conn_key d) of
      Some e \<Rightarrow> rc = RC_OK \<and> w' = w\<lparr>ucx_dtl_handle := Some (d\<lparr>ud_ep := e\<rparr>)\<rparr>
    | None \<Rightarrow> rc = RC_OK \<longrightarrow> (\<exists>d'. producer w' d' \<and> ud_ep d' \<noteq> 0
        \<and> cached_ep d' = (cached_ep d)(consumer_conn_key d \<mapsto> ud_ep d'))) w"
proof -
  from d(1) obtain es where h: "ucx_dtl_handle w = Some d" "ud_comm_mode d = COMM_SEND" "heap_key d" "ep_cache d = Some es"
    by (auto simp: producer_def)
  show ?thesis
  proof (cases "map_of es (consumer_conn_key d)")
    case (Some e)
    with h d(2) show ?thesis
      by (simp add: dyad_dtl_ucx_establish_connection_def dyad_ucx_ep_cache_find_def wps cached_ep_def)
  next
    case None
    let ?Q = "\<lambda>rc w'. rc = RC_OK \<longrightarrow> (\<exists>d'. producer w' d' \<and> ud_ep d' \<noteq> 0
        \<and> cached_ep d' = (cached_ep d)(consumer_conn_key d \<mapsto> ud_ep d'))"
    have insert: "wp sys_malloc (\<lambda>ok. wp (if \<not> ok then State_Monad.return RC_SYSFAIL
         else do {
           upd_ucx (\<lambda>d'. d'\<lparr>ep_cache := map_option (\<lambda>es. es @ [(consumer_conn_key d, ud_ep d')]) (ep_cache d')\<rparr>);
           State_Monad.return RC_OK }) ?Q) w1"
      if w1: "ucx_dtl_handle w1 = Some (d\<lparr>ud_ep := e\<rparr>)" "e \<noteq> 0" for e and w1 :: "('e, 'y) uworld"
    proof (rule wp_alloc, goal_cases)
      case (1 ok w2)
      have new: "cached_ep (d\<lparr>ud_ep := e, ep_cache := Some (es @ [(consumer_conn_key d, e)])\<rparr>)
          = (cached_ep d)(consumer_conn_key d \<mapsto> e)"
        using None h(4) by (auto simp: fun_eq_iff cached_ep_def map_add_def split: option.split)
      from 1 w1 h show ?case
        by (simp add: allocated_def wps producer_def heap_key_def new)
    qed
    obtain st new s where c: "ux_ep_create U (ucx_worker d) (remote_address d) (flux w) = ((st, new), s)" by (metis surj_pair)
    have "wp (dyad_ucx_ep_cache_insert U (remote_address d) (ucx_worker d)) ?Q (w\<lparr>ucx_dtl_handle := Some (d\<lparr>ud_ep := 0\<rparr>)\<rparr>)"
      using h None c insert
      by (auto simp: dyad_ucx_ep_cache_insert_def ucx_connect_def wp_bind wp_ucx wp_lib split: option.split)
    then show ?thesis
      using h None d(2)
      by (simp add: dyad_dtl_ucx_establish_connection_def dyad_ucx_ep_cache_find_def wps cached_ep_def)
  qed
qed

lemma wp_producer_close:
  fixes w :: "('e, 'y) uworld"
  assumes "producer w d"
  shows "wp (dyad_dtl_ucx_close_connection U) (\<lambda>r w'. \<exists>d'. producer w' d' \<and> ud_ep d' = 0 \<and> ep_cache d' = ep_cache d) w"
proof -
  have "\<not> (case rkey_buf d of Some (Ucx_mem _ _) \<Rightarrow> True | _ \<Rightarrow> False)"
    using assms by (simp add: producer_def heap_key_def split: option.splits rkey_mem.splits)
  with assms show ?thesis
    by (auto simp: dyad_dtl_ucx_close_connection_def wps producer_def heap_key_def)
qed

text \<open>What a producer does for a request of a later consumer, and what is to be shown about it.\<close>

definition later_request ::
  "'e flux_ops \<Rightarrow> 'e ucx_ops \<Rightarrow> flux_msg \<Rightarrow> dyad_rc option \<Rightarrow> dyad_rc \<Rightarrow> nat
     \<Rightarrow> ('e, 'y, (dyad_rc option \<times> dyad_rc \<times> dyad_rc option \<times> dyad_rc) \<times> nat \<times> nat \<times> 'e \<times> 'e) uio" where
  "later_request G U m r1 c1 e1 = do {
     r2 \<leftarrow> dyad_dtl_ucx_rpc_unpack G m;
     before \<leftarrow> lib_get (\<lambda>s. s);
     c2 \<leftarrow> dyad_dtl_ucx_establish_connection U;
     h2 \<leftarrow> the_ucx;
     after \<leftarrow> lib_get (\<lambda>s. s);
     State_Monad.return ((r1, c1, map_option fst r2, c2), e1, ud_ep h2, before, after) }"

definition same_endpoint ::
  "(dyad_rc option \<times> dyad_rc \<times> dyad_rc option \<times> dyad_rc) \<times> nat \<times> nat \<times> 'e \<times> 'e \<Rightarrow> bool" where
  "same_endpoint = (\<lambda>((r1, c1, r2, c2), e1, e2, before, after).
     r1 = Some RC_OK \<and> c1 = RC_OK \<and> r2 = Some RC_OK \<longrightarrow> c2 = RC_OK \<and> e2 = e1 \<and> after = before)"

text \<open>The first request leaves its endpoint in the cache.\<close>

lemma wp_establish_caches:
  fixes w :: "('e, 'y) uworld"
  assumes "producer w d" "ud_ep d = 0" "consumer_conn_key d = key"
  shows "wp (dyad_dtl_ucx_establish_connection U) (\<lambda>c w'. c = RC_OK \<longrightarrow>
     (\<exists>d'. producer w' d' \<and> cached_ep d' key = Some (ud_ep d'))) w"
proof (rule wp_mono [OF wp_establish [OF assms(1,2)]], intro impI, goal_cases)
  case (1 c w')
  show ?case
  proof (cases "cached_ep d key")
    case None
    with 1 assms show ?thesis by auto
  next
    case (Some e)
    with 1 assms show ?thesis
      by (auto simp: producer_def heap_key_def cached_ep_def intro!: exI [of _ "d\<lparr>ud_ep := e\<rparr>"])
  qed
qed

text \<open>A request with the key of an endpoint in the cache is served over that endpoint.\<close>

lemma wp_later_request:
  fixes w :: "('e, 'y) uworld"
  assumes d: "producer w d" "ud_ep d = 0" "cached_ep d (push_bit 32 (c_int_bits pid)) = Some e"
    and o: "fst (fx_request_unpack G m (flux w)) = Inr obj" "member_int ''pid_cons'' obj = Some pid"
  shows "wp (later_request G U m r1 c1 e) (\<lambda>x _. same_endpoint x) w"
  unfolding later_request_def wp_bind [of "dyad_dtl_ucx_rpc_unpack _ _"]
proof (rule wp_mono [OF wp_unpack_takes [OF d(1) o]], goal_cases)
  case (1 r2 w1)
  show ?case
  proof (cases "map_option fst r2 = Some RC_OK")
    case True
    with 1 d obtain d1 where d1: "producer w1 d1" "ud_ep d1 = 0" "cached_ep d1 (consumer_conn_key d1) = Some e"
      by (auto simp: taken_def cached_ep_def)
    show ?thesis
      unfolding wp_bind [of "lib_get _"] wp_lib_get wp_bind [of "dyad_dtl_ucx_establish_connection _"]
      by (rule wp_mono [OF wp_establish [OF d1(1,2)]]) (use d1(3) in \<open>auto simp: wps same_endpoint_def\<close>)
  qed (auto simp: wps same_endpoint_def intro!: wp_total)
qed

lemma wp_close_later_request:
  fixes w :: "('e, 'y) uworld"
  assumes d: "producer w d" "cached_ep d (push_bit 32 (c_int_bits pid)) = Some e"
    and o: "\<forall>s. \<exists>obj. fst (fx_request_unpack G m s) = Inr obj \<and> member_int ''pid_cons'' obj = Some pid"
  shows "wp (dyad_dtl_ucx_close_connection U) (\<lambda>_. wp (later_request G U m r1 c1 e) (\<lambda>x _. same_endpoint x)) w"
proof (rule wp_mono [OF wp_producer_close [OF d(1)]], goal_cases)
  case (1 r w1)
  then obtain d1 where d1: "producer w1 d1" "ud_ep d1 = 0" "ep_cache d1 = ep_cache d" by blast
  from o obtain obj where obj: "fst (fx_request_unpack G m (flux w1)) = Inr obj" "member_int ''pid_cons'' obj = Some pid"
    by blast
  show ?case by (rule wp_later_request [OF d1(1,2) _ obj]) (use d1(3) d(2) in \<open>simp add: cached_ep_def\<close>)
qed

section \<open>A sample library\<close>

text \<open>Its state is the last handle it has given out, and the ledger itself. Every request takes one round.\<close>

definition next_handle :: "(nat \<Rightarrow> 'a) \<Rightarrow> (nat \<Rightarrow> ucx_res) \<Rightarrow> nat \<times> ledger \<Rightarrow> (ucs_status \<times> 'a option) \<times> nat \<times> ledger" where
  "next_handle f R s = ((UCS_OK, Some (f (Suc (fst s)))), Suc (fst s), acquire (R (Suc (fst s))) (snd s))"

definition sample_ucx :: "(nat \<times> ledger) ucx_ops" where
  "sample_ucx = \<lparr>ux_config_read = (\<lambda>s. (UCS_OK, s)), ux_init = next_handle id R_ctx,
     ux_worker_create = (\<lambda>_. next_handle id R_worker),
     ux_worker_get_address = (\<lambda>_. next_handle (\<lambda>n. (n, [1, 2, 3, 4])) R_address),
     ux_worker_release_address = (\<lambda>_ a (n, b). (n, release (R_address a) b)), ux_worker_progress = (\<lambda>_ s. s),
     ux_worker_destroy = (\<lambda>v (n, b). (n, release (R_worker v) b)), ux_cleanup = (\<lambda>c (n, b). (n, release (R_ctx c) b)),
     ux_mem_map = (\<lambda>_ _ _. next_handle id R_mem), ux_mem_query = (\<lambda>_ _. (UCS_OK, 4096)),
     ux_mem_unmap = (\<lambda>_ m (n, b). (n, release (R_mem m) b)),
     ux_rkey_pack = (\<lambda>_ _. next_handle (\<lambda>n. (n, [7, 8])) R_rkey_buf),
     ux_rkey_buffer_release = (\<lambda>a (n, b). (n, release (R_rkey_buf a) b)), ux_ep_create = (\<lambda>_ _. next_handle id R_ep),
     ux_ep_close = (\<lambda>e (n, b). (Ptr_req 1, n, release (R_ep e) b)), ux_ep_rkey_unpack = (\<lambda>_ _. next_handle id R_rkey),
     ux_rkey_destroy = (\<lambda>k (n, b). (n, release (R_rkey k) b)), ux_put = (\<lambda>_ _ _ _ _ s. (Ptr_req 2, s)),
     ux_request_check_status = (\<lambda>_ _. UCS_OK), ux_request_free = (\<lambda>_ s. s), ux_load = (\<lambda>_ _. 1), ux_store = (\<lambda>_ _ s. s),
     cxx_map_order = rev\<rparr>"

lemma opens_next: "(\<And>n. valid (f (Suc n)) \<and> R' (f (Suc n)) = R (Suc n)) \<Longrightarrow> opens snd R' valid (next_handle f R)"
  by (simp add: opens_def next_handle_def)

lemma sample_ucx_laws: "opening_laws sample_ucx snd" "closing_laws sample_ucx snd" "rdma_works sample_ucx"
proof -
  show "opening_laws sample_ucx snd"
    unfolding opening_laws_def by (simp add: sample_ucx_def opens_next nonzero_def)
  show "closing_laws sample_ucx snd"
    unfolding closing_laws_def by (simp add: sample_ucx_def split: prod.split)
  show "rdma_works sample_ucx"
    unfolding rdma_works_def by (simp add: sample_ucx_def next_handle_def)
qed

lemma sample_ucx_settles:
  assumes "0 < fuel"
  shows "settles sample_ucx fuel"
proof -
  have "ux_request_check_status sample_ucx r s \<noteq> UCS_INPROGRESS" for r s by (simp add: sample_ucx_def)
  with assms show ?thesis unfolding settles_def by blast
qed

definition ucx_sample_world :: "dyad_ctx \<Rightarrow> dyad_dtl_ucx option \<Rightarrow> 'e \<Rightarrow> ('e, unit) uworld" where
  "ucx_sample_world c h s =
     \<lparr>names = (\<lambda>_. None), inodes = (\<lambda>_. None), next_ino = 0, fds = (\<lambda>_. None), next_fd = 3, locks = (\<lambda>_. None),
      others = (\<lambda>_. None), errno = E_NONE, now = 0, file_mask = 0, dir_order = (\<lambda>_. []), faults = [], cell = Some c,
      environ = (\<lambda>_. None), realpaths = (\<lambda>_. None), self_pid = 7, streams = (\<lambda>_. None), next_stream = 0, flux = s,
      ucx_dtl_handle = h\<rparr>"

lemma ucx_sample [simp]: "ucx_dtl_handle (ucx_sample_world c h s) = h" "faults (ucx_sample_world c h s) = []"
  "flux (ucx_sample_world c h s) = s" "cell (ucx_sample_world c h s) = Some c"
  by (simp_all add: ucx_sample_world_def)

text \<open>A consumer's handle, and a producer's.\<close>

definition ucx_consumer :: dyad_dtl_ucx where
  "ucx_consumer = (fresh_ucx (Some 5) COMM_RECV False)\<lparr>ucx_ctx := 1, ucx_worker := 2, local_address := Some (3, [1, 2, 3, 4]),
     local_addr_len := 4, ep_cache := Some [], mem_handle := 4, net_buf := 4096, cons_buf_ptr := 4096,
     rkey_buf := Some (Ucx_mem 5 [7, 8]), rkey_size := 2\<rparr>"

definition ucx_producer :: dyad_dtl_ucx where
  "ucx_producer = (fresh_ucx (Some 5) COMM_SEND False)\<lparr>ucx_ctx := 1, ucx_worker := 2, local_address := Some (3, [9]),
     local_addr_len := 1, ep_cache := Some [], mem_handle := 4, net_buf := 8192, cons_buf_ptr := 8192\<rparr>"

lemma ucx_producer_parts [simp]: "rkey_buf ucx_producer = None" "ud_comm_mode ucx_producer = COMM_SEND"
  "ep_cache ucx_producer = Some []" "ud_ep ucx_producer = 0"
  by (simp_all add: ucx_producer_def fresh_ucx_def)

definition packing_flux :: "'e flux_ops" where
  "packing_flux = no_flux\<lparr>fx_json_pack := (\<lambda>ms s. (Inr ms, s))\<rparr>"

text \<open>The request of \<open>ucx_consumer\<close> as the process with number 7, and that of a process of the same number on another node.\<close>

definition request_members :: "nat \<Rightarrow> json" where
  "request_members k = ucx_members ''f'' 6 4096 7 (if k = 1 then ''AQIDBA=='' else ''BQYHCA=='') ''Bwg=''"

definition ucx_request_flux :: "'e flux_ops" where
  "ucx_request_flux = no_flux\<lparr>fx_request_unpack := (\<lambda>msg s. (Inr (request_members msg), s))\<rparr>"

lemma ucx_consumer_run:
  "fst (run_state (dyad_dtl_ucx_rpc_pack packing_flux sample_ucx ''f'' 6)
     (ucx_sample_world (sample_ctx\<lparr>ctx_pid := 7\<rparr>) (Some ucx_consumer) (0, None))) = Some (RC_OK, Some (request_members 1))"
  by code_simp

section \<open>Properties\<close>

text \<open>
  C33: the producer unpacks what the consumer has packed. From the object that \<^verbatim>\<open>dyad_dtl_ucx_rpc_pack\<close> makes,
  \<^verbatim>\<open>dyad_dtl_ucx_rpc_unpack\<close> gets the path, the consumer's address and its key for writing, filled up with zeros
  to whole base64 quartets, and the very address of its buffer; only a failing allocation keeps it from succeeding. The buffer's address must be below \<open>2 ^ 63\<close>, because it
  is printed unsigned and read with \<^verbatim>\<open>atoll\<close>.
\<close>

theorem ucx_request_roundtrip:
  fixes w w2 :: "('e, 'y) uworld"
  assumes "ucx_dtl_handle w = Some d" "offers d addr key" "faithful_json F" "cell w = Some c"
    and "ucx_dtl_handle w2 = Some d2" "heap_key d2"
  shows "wp (dyad_dtl_ucx_rpc_pack F U upath rank) (\<lambda>r _. \<forall>obj. r = Some (RC_OK, Some obj)
     \<and> fst (fx_request_unpack G msg (flux w2)) = Inr obj \<longrightarrow>
       wp (dyad_dtl_ucx_rpc_unpack G msg) (unpacked d addr key upath (ctx_pid c) (faults w2 = [])) w2) w"
  by (rule wp_mono [OF wp_ucx_rpc_pack [OF assms(1-4)]])
    (use wp_ucx_rpc_unpack [OF _ assms(2) _ assms(5,6)] in blast)

theorem ucx_request_roundtrip_witness:
  "wp (dyad_dtl_ucx_rpc_unpack ucx_request_flux 1)
     (unpacked ucx_consumer [1, 2, 3, 4] [7, 8] ''f'' 7 True) (ucx_sample_world sample_ctx (Some ucx_producer) (0 :: nat, None :: ledger))"
proof -
  let ?w = "ucx_sample_world (sample_ctx\<lparr>ctx_pid := 7\<rparr>) (Some ucx_consumer) (0, None)"
  have o: "offers ucx_consumer [1, 2, 3, 4] [7, 8]"
    by (simp add: offers_def ucx_consumer_def)
  have hk: "heap_key ucx_producer" by (simp add: heap_key_def)
  let ?w2 = "ucx_sample_world sample_ctx (Some ucx_producer) (0 :: nat, None :: ledger)"
  have "wp (dyad_dtl_ucx_rpc_pack packing_flux sample_ucx ''f'' 6) (\<lambda>r _. \<forall>obj. r = Some (RC_OK, Some obj)
      \<and> fst (fx_request_unpack ucx_request_flux 1 (flux ?w2)) = Inr obj \<longrightarrow>
        wp (dyad_dtl_ucx_rpc_unpack ucx_request_flux 1)
          (unpacked ucx_consumer [1, 2, 3, 4] [7, 8] ''f'' (ctx_pid (sample_ctx\<lparr>ctx_pid := 7\<rparr>)) (faults ?w2 = [])) ?w2) ?w"
    by (rule ucx_request_roundtrip [OF _ o _ _ _ hk]) (simp_all add: faithful_json_def packing_flux_def)
  then have "\<forall>obj. fst (run_state (dyad_dtl_ucx_rpc_pack packing_flux sample_ucx ''f'' 6) ?w) = Some (RC_OK, Some obj)
      \<and> fst (fx_request_unpack ucx_request_flux 1 (flux ?w2)) = Inr obj \<longrightarrow>
        wp (dyad_dtl_ucx_rpc_unpack ucx_request_flux 1)
          (unpacked ucx_consumer [1, 2, 3, 4] [7, 8] ''f'' (ctx_pid (sample_ctx\<lparr>ctx_pid := 7\<rparr>)) (faults ?w2 = [])) ?w2"
    unfolding wp_run [of "dyad_dtl_ucx_rpc_pack _ _ _ _"] .
  from spec [OF this, of "request_members 1"] show ?thesis
    unfolding ucx_consumer_run by (simp add: ucx_request_flux_def)
qed

text \<open>
  C34: what finalising gives back. \<^verbatim>\<open>dyad_dtl_ucx_finalize\<close> returns when requests settle within the fuel, and the handle is
  gone. When nothing is open but what the handle owns, nothing is left open: no resource is given back twice, and none
  while another one depends on it, however UCX answers. When endpoints are open beside it, as after the
  initialisation of every producer (C35), a worker is destroyed under them, which the ledger records as \<open>None\<close>.
\<close>

theorem ucx_finalize_releases:
  fixes w :: "('e, 'y) uworld"
  assumes "closing_laws U book" "ucx_dtl_handle w = Some d" "wf_ucx d" "book (flux w) = Some (leaked + owned d)" "only_eps leaked"
    and "cell w = Some c" "dtl_handle c \<noteq> None"
  shows "wp (dyad_dtl_ucx_finalize U fuel) (\<lambda>r w'. finishes U fuel r (r = Some RC_OK \<and> ucx_dtl_handle w' = None
     \<and> book (flux w') = (if leaked = {#} then Some {#} else if ucx_worker d \<noteq> 0 then None else Some leaked))) w"
  using wp_ucx_finalize_beside [OF assms(1,5) _ assms(6,7)] assms(2-4) by (simp add: accounts_def finalized_def)

text \<open>The states that initialising the sample leads to.\<close>

definition sample_inited :: "dyad_dtl_comm_mode \<Rightarrow> (nat \<times> ledger, unit) uworld" where
  "sample_inited mode = snd (run_state (dyad_dtl_ucx_init sample_ucx 1 DTL_UCX mode False)
     (ucx_sample_world sample_ctx None (0, Some {#})))"

lemma sample_inited_facts:
  assumes "mode = COMM_SEND \<or> mode = COMM_RECV"
  shows "ucx_opened snd mode (sample_inited mode)"
    and "\<exists>c. cell (sample_inited mode) = Some c \<and> dtl_handle c \<noteq> None"
    and "ucx_worker (the (ucx_dtl_handle (sample_inited mode))) \<noteq> 0"
proof -
  let ?m = "\<lambda>mode. dyad_dtl_ucx_init sample_ucx 1 DTL_UCX mode False" let ?w = "ucx_sample_world sample_ctx None (0, Some {#})"
  have "fst (run_state (?m COMM_SEND) ?w) = Some RC_OK" "fst (run_state (?m COMM_RECV) ?w) = Some RC_OK" by code_simp+
  with assms have ok: "fst (run_state (?m mode) ?w) = Some RC_OK" by auto
  have c: "dtl_handle sample_ctx \<noteq> None" by (simp add: sample_ctx_def)
  from wp_ucx_init [OF sample_ucx_laws assms, of ?w sample_ctx 1 DTL_UCX False] c ok
  show "ucx_opened snd mode (sample_inited mode)"
    by (simp add: wp_run sample_inited_def finishes_def init_outcome_def)
  have "case cell (sample_inited COMM_SEND) of None \<Rightarrow> False | Some c \<Rightarrow> (case dtl_handle c of None \<Rightarrow> False | Some _ \<Rightarrow> True)"
    "case cell (sample_inited COMM_RECV) of None \<Rightarrow> False | Some c \<Rightarrow> (case dtl_handle c of None \<Rightarrow> False | Some _ \<Rightarrow> True)"
    by code_simp+
  with assms show "\<exists>c. cell (sample_inited mode) = Some c \<and> dtl_handle c \<noteq> None" by (auto split: option.splits)
  have "ucx_worker (the (ucx_dtl_handle (sample_inited COMM_SEND))) \<noteq> 0"
    "ucx_worker (the (ucx_dtl_handle (sample_inited COMM_RECV))) \<noteq> 0"
    by code_simp+
  with assms show "ucx_worker (the (ucx_dtl_handle (sample_inited mode))) \<noteq> 0" by auto
qed

theorem ucx_finalize_releases_witness:
  "wp (dyad_dtl_ucx_finalize sample_ucx 1) (\<lambda>r w'. r = Some RC_OK \<and> all_released snd w') (sample_inited COMM_RECV)
   \<and> wp (dyad_dtl_ucx_finalize sample_ucx 1) (\<lambda>r w'. r = Some RC_OK \<and> ucx_dtl_handle w' = None \<and> snd (flux w') = None)
     (sample_inited COMM_SEND)"
proof
  obtain c d where c: "cell (sample_inited COMM_RECV) = Some c" "dtl_handle c \<noteq> None"
    and d: "ucx_dtl_handle (sample_inited COMM_RECV) = Some d" "wf_ucx d"
      "snd (flux (sample_inited COMM_RECV)) = Some ({#} + owned d)"
    using sample_inited_facts(1,2) [of COMM_RECV] by (auto simp: ucx_opened_def)
  show "wp (dyad_dtl_ucx_finalize sample_ucx 1) (\<lambda>r w'. r = Some RC_OK \<and> all_released snd w') (sample_inited COMM_RECV)"
    by (rule wp_mono [OF ucx_finalize_releases [OF sample_ucx_laws(2) d _ c, where fuel = 1]])
      (use sample_ucx_settles [of 1] in \<open>auto simp: finishes_def all_released_def only_eps_def split: if_splits\<close>)
next
  obtain c d e where c: "cell (sample_inited COMM_SEND) = Some c" "dtl_handle c \<noteq> None" and v: "ucx_worker d \<noteq> 0"
    and d: "ucx_dtl_handle (sample_inited COMM_SEND) = Some d" "wf_ucx d"
      "snd (flux (sample_inited COMM_SEND)) = Some ({#R_ep e#} + owned d)"
    using sample_inited_facts [of COMM_SEND] by (auto simp: ucx_opened_def)
  show "wp (dyad_dtl_ucx_finalize sample_ucx 1) (\<lambda>r w'. r = Some RC_OK \<and> ucx_dtl_handle w' = None \<and> snd (flux w') = None)
     (sample_inited COMM_SEND)"
    by (rule wp_mono [OF ucx_finalize_releases [OF sample_ucx_laws(2) d _ c, where fuel = 1]])
      (use sample_ucx_settles [of 1] v in \<open>auto simp: finishes_def only_eps_def split: if_splits\<close>)
qed

text \<open>
  C35: what initialising leaves open. When registering memory, packing and unpacking keys and putting data do not fail, a
  successful \<^verbatim>\<open>dyad_dtl_ucx_init\<close> of a consumer leaves a handle that owns all that is open. A successful one of a
  producer leaves beside it one endpoint open that no handle knows of: that of its warm-up. When initialising fails everything is
  given back.
\<close>

theorem ucx_init_opens:
  fixes w :: "('e, 'y) uworld"
  assumes "opening_laws U book" "closing_laws U book" "rdma_works U" "mode = COMM_SEND \<or> mode = COMM_RECV"
    and "book (flux w) = Some {#}" "ucx_dtl_handle w = None" "cell w = Some c" "dtl_handle c \<noteq> None"
  shows "wp (dyad_dtl_ucx_init U fuel m mode debug) (\<lambda>r w'. finishes U fuel r (init_outcome book mode r w')) w"
  by (rule wp_ucx_init [OF assms])

theorem ucx_init_opens_witness:
  "wp (dyad_dtl_ucx_init sample_ucx 1 DTL_UCX COMM_SEND False) (\<lambda>r w'. r = Some RC_OK \<and> ucx_opened snd COMM_SEND w')
     (ucx_sample_world sample_ctx None (0, Some {#}))"
proof -
  let ?m = "dyad_dtl_ucx_init sample_ucx 1 DTL_UCX COMM_SEND False" let ?w = "ucx_sample_world sample_ctx None (0, Some {#})"
  have "fst (run_state ?m ?w) = Some RC_OK" by code_simp
  then have run: "wp ?m (\<lambda>r w'. r = Some RC_OK) ?w" by (simp add: wp_run)
  have c: "dtl_handle sample_ctx \<noteq> None" by (simp add: sample_ctx_def)
  show ?thesis
    by (rule wp_mono [OF wp_conj [OF run ucx_init_opens [OF sample_ucx_laws, of COMM_SEND _ sample_ctx 1 DTL_UCX False]]])
      (use c in \<open>auto simp: init_outcome_def\<close>)
qed

text \<open>
  C36: consumers with the same process number share an endpoint. After a producer has served one consumer, a request of
  another one whose process has the same number, on whatever node and with whatever address, is served over the endpoint of the
  first: \<^verbatim>\<open>dyad_dtl_ucx_establish_connection\<close> reports success without a call to UCX.
\<close>

theorem ucx_same_pid_same_endpoint:
  fixes w :: "('e, 'y) uworld"
  assumes "producer w d" "ud_ep d = 0"
    and "\<forall>s. \<exists>obj. fst (fx_request_unpack G m1 s) = Inr obj \<and> member_int ''pid_cons'' obj = Some pid"
    and "\<forall>s. \<exists>obj. fst (fx_request_unpack G m2 s) = Inr obj \<and> member_int ''pid_cons'' obj = Some pid"
  shows "wp (do {
       r1 \<leftarrow> dyad_dtl_ucx_rpc_unpack G m1;
       c1 \<leftarrow> dyad_dtl_ucx_establish_connection U;
       h1 \<leftarrow> the_ucx;
       _ \<leftarrow> dyad_dtl_ucx_close_connection U;
       r2 \<leftarrow> dyad_dtl_ucx_rpc_unpack G m2;
       before \<leftarrow> lib_get (\<lambda>s. s);
       c2 \<leftarrow> dyad_dtl_ucx_establish_connection U;
       h2 \<leftarrow> the_ucx;
       after \<leftarrow> lib_get (\<lambda>s. s);
       State_Monad.return ((map_option fst r1, c1, map_option fst r2, c2), ud_ep h1, ud_ep h2, before, after) })
     (\<lambda>((r1, c1, r2, c2), e1, e2, before, after) _.
        r1 = Some RC_OK \<and> c1 = RC_OK \<and> r2 = Some RC_OK \<longrightarrow> c2 = RC_OK \<and> e2 = e1 \<and> after = before) w"
proof -
  let ?after = "\<lambda>r1 c1 h. do { _ \<leftarrow> dyad_dtl_ucx_close_connection U; later_request G U m2 r1 c1 (ud_ep h) }"
  have fails: "wp (?after r1 c1 h) (\<lambda>x _. same_endpoint x) w1"
    if "r1 \<noteq> Some RC_OK \<or> c1 \<noteq> RC_OK" for r1 c1 h and w1 :: "('e, 'y) uworld"
    using that by (auto simp: wp_bind later_request_def same_endpoint_def intro!: wp_total)
  from assms(3) obtain obj where o: "fst (fx_request_unpack G m1 (flux w)) = Inr obj" "member_int ''pid_cons'' obj = Some pid"
    by blast
  have "wp (do {
       r1 \<leftarrow> dyad_dtl_ucx_rpc_unpack G m1;
       c1 \<leftarrow> dyad_dtl_ucx_establish_connection U;
       h1 \<leftarrow> the_ucx;
       ?after (map_option fst r1) c1 h1 }) (\<lambda>x _. same_endpoint x) w"
    unfolding wp_bind [of "dyad_dtl_ucx_rpc_unpack G m1"]
  proof (rule wp_mono [OF wp_unpack_takes [OF assms(1) o]], goal_cases)
    case (1 r1 w1)
    show ?case
      unfolding wp_bind [of "dyad_dtl_ucx_establish_connection _"] wp_bind [of the_ucx] wp_ucx(1)
    proof (cases "map_option fst r1 = Some RC_OK")
      case True
      with 1 obtain d1 where d1: "producer w1 d1" "ud_ep d1 = 0" "consumer_conn_key d1 = push_bit 32 (c_int_bits pid)"
        using assms(2) by (auto simp: taken_def)
      show "wp (dyad_dtl_ucx_establish_connection U) (\<lambda>c1 w2.
          wp (?after (map_option fst r1) c1 (the (ucx_dtl_handle w2))) (\<lambda>x _. same_endpoint x) w2) w1"
      proof (rule wp_mono [OF wp_establish_caches [OF d1]], goal_cases)
        case (1 c1 w2)
        show ?case
        proof (cases "c1 = RC_OK")
          case True
          with 1 obtain d2 where "producer w2 d2" "cached_ep d2 (push_bit 32 (c_int_bits pid)) = Some (ud_ep d2)" by blast
          from wp_close_later_request [OF this assms(4)] this(1) show ?thesis
            by (simp add: wp_bind [of "dyad_dtl_ucx_close_connection _"] producer_def)
        qed (simp add: fails)
      qed
    qed (intro wp_total fails, simp)
  qed
  note run = this [unfolded later_request_def]
  show ?thesis
    by (rule wp_mono [OF run]) (auto simp: same_endpoint_def split: prod.splits)
qed

lemma wp_malloc_good: "faults w = [] \<Longrightarrow> wp sys_malloc Q w = Q True w"
  by (simp add: sys_malloc_def wp_syscall)

lemma sample_texts:
  "base64_decode_using_maps base64_maps_rfc4648 (replicate (unat (base64_decoded_length 8)) 0) (base64_decoded_length 8)
     (bytes_of_string ''AQIDBA=='') = Some (Inr 4, [1, 2, 3, 4, 0, 0])"
  "base64_decode_using_maps base64_maps_rfc4648 (replicate (unat (base64_decoded_length 8)) 0) (base64_decoded_length 8)
     (bytes_of_string ''BQYHCA=='') = Some (Inr 4, [5, 6, 7, 8, 0, 0])"
  "base64_decode_using_maps base64_maps_rfc4648 (replicate (unat (base64_decoded_length 4)) 0) (base64_decoded_length 4)
     (bytes_of_string ''Bwg='') = Some (Inr 2, [7, 8, 0])"
  by code_simp+

theorem ucx_same_pid_same_endpoint_witness:
  "wp (do {
       r1 \<leftarrow> dyad_dtl_ucx_rpc_unpack ucx_request_flux 1;
       c1 \<leftarrow> dyad_dtl_ucx_establish_connection sample_ucx;
       h1 \<leftarrow> the_ucx;
       _ \<leftarrow> dyad_dtl_ucx_close_connection sample_ucx;
       r2 \<leftarrow> dyad_dtl_ucx_rpc_unpack ucx_request_flux 2;
       before \<leftarrow> lib_get (\<lambda>s. s);
       c2 \<leftarrow> dyad_dtl_ucx_establish_connection sample_ucx;
       h2 \<leftarrow> the_ucx;
       after \<leftarrow> lib_get (\<lambda>s. s);
       State_Monad.return ((map_option fst r1, c1, map_option fst r2, c2), ud_ep h1, ud_ep h2, before, after) })
     (\<lambda>(rs, e1, e2, before, after) _. rs = (Some RC_OK, RC_OK, Some RC_OK, RC_OK) \<and> e2 = e1 \<and> after = before)
     (ucx_sample_world sample_ctx (Some ucx_producer) (0, None))" (is "wp ?m _ ?w")
proof -
  have run: "wp ?m (\<lambda>x _. fst x = (Some RC_OK, RC_OK, Some RC_OK, RC_OK)) ?w"
    unfolding ucx_sample_world_def ucx_producer_def fresh_ucx_def
    by (simp add: dyad_dtl_ucx_rpc_unpack_def unpack_rkey_def decode_text_def Let_def dyad_dtl_ucx_establish_connection_def
        dyad_ucx_ep_cache_find_def dyad_ucx_ep_cache_insert_def ucx_connect_def dyad_dtl_ucx_close_connection_def
        wps wp_lib wp_and_then wp_flux_call wp_malloc_good ucx_request_flux_def request_members_def members_of_packed
        sample_texts sample_ucx_def next_handle_def)
  have p: "producer ?w ucx_producer" "ud_ep ucx_producer = 0"
    by (simp_all add: producer_def heap_key_def)
  have r: "\<forall>s :: nat \<times> ledger. \<exists>obj. fst (fx_request_unpack ucx_request_flux k s) = Inr obj \<and> member_int ''pid_cons'' obj = Some 7" for k
    by (simp add: ucx_request_flux_def request_members_def members_of_packed)
  show ?thesis
    by (rule wp_mono [OF wp_conj [OF run ucx_same_pid_same_endpoint [OF p r r, where U = sample_ucx]]]) auto
qed

end
