(* ===== verification/Stream_Core.thy ===== *)
theory Stream_Core
  imports Wrapper
begin

text \<open>
  The state every C++ stream of DYAD carries, \<^verbatim>\<open>src/dyad/stream/dyad_stream_core.cpp\<close> with the parameters of
  \<^verbatim>\<open>include/dyad/stream/dyad_params.hpp\<close>, and the file streams of the C++ library as far as the wrappers use them.
  \<open>m_ctx\<close> tells whether the pointer of that name is not \<^verbatim>\<open>NULL\<close>; it then points to the context of the process. A result
  of \<open>None\<close> is undefined behaviour: a \<^verbatim>\<open>NULL\<close> pointer is dereferenced, or a call of the client is
  undefined. Log output is left out.
\<close>

text \<open>Going on after a step whose outcome may be undefined.\<close>

definition if_defined :: "('e, 'x, 'a option) dio \<Rightarrow> ('a \<Rightarrow> ('e, 'x, 'b option) dio) \<Rightarrow> ('e, 'x, 'b option) dio" where
  "if_defined m k = do { r \<leftarrow> m; case r of None \<Rightarrow> State_Monad.return None | Some a \<Rightarrow> k a }"

section \<open>Parameters\<close>

record dyad_params =
  p_debug :: bool
  p_shared_storage :: bool
  p_reinit :: bool
  p_async_publish :: bool
  p_fsync_write :: bool
  p_key_depth :: uint32
  p_key_bins :: uint32
  p_service_mux :: uint32
  p_dtl_mode :: dyad_dtl_mode
  p_kvs_namespace :: string
  p_cons_managed_path :: string
  p_prod_managed_path :: string
  p_relative_to_managed_path :: bool
  p_cache_capacity_bytes :: uint64
  p_cache_policy :: string
  p_cache_low_watermark :: rat
  p_cache_grace_period_sec :: uint32
  p_origin_path :: string

definition default_params :: dyad_params where
  "default_params =
     \<lparr>p_debug = False, p_shared_storage = False, p_reinit = False, p_async_publish = False, p_fsync_write = False,
      p_key_depth = 2, p_key_bins = 256, p_service_mux = 1, p_dtl_mode = DTL_DEFAULT, p_kvs_namespace = '''',
      p_cons_managed_path = '''', p_prod_managed_path = '''', p_relative_to_managed_path = False,
      p_cache_capacity_bytes = 0, p_cache_policy = dyad_cache_policy_name CACHE_NONE,
      p_cache_low_watermark = 8 / 10, p_cache_grace_period_sec = 5, p_origin_path = ''''\<rparr>"

section \<open>The core\<close>

record dyad_stream_core =
  m_ctx :: bool
  m_initialized :: bool
  m_is_prod :: bool
  m_is_cons :: bool
  core_upath :: string

definition new_stream_core :: dyad_stream_core where
  "new_stream_core = \<lparr>m_ctx = False, m_initialized = False, m_is_prod = False, m_is_cons = False, core_upath = ''''\<rparr>"

definition core_finalize :: "dyad_stream_core \<Rightarrow> dyad_stream_core" where
  "core_finalize core = (if m_ctx core then core\<lparr>m_ctx := False, m_initialized := False\<rparr> else core)"

text \<open>Whether a variable of the environment is set to something.\<close>

definition env_nonempty :: "string \<Rightarrow> ('e, 'x, bool) dio" where
  "env_nonempty v = do {
     e \<leftarrow> sys_getenv v;
     State_Monad.return (case e of None \<Rightarrow> False | Some s \<Rightarrow> s \<noteq> []) }"

text \<open>\<^verbatim>\<open>init (reinit)\<close>, from the environment.\<close>

definition core_init :: "'e flux_ops \<Rightarrow> bool \<Rightarrow> dyad_stream_core \<Rightarrow> ('e, 'x, dyad_stream_core option) dio" where
  "core_init F reinit core = do {
     reinit_env \<leftarrow> is_set ''DYAD_REINIT'';
     if \<not> (reinit \<or> reinit_env) \<and> m_initialized core then State_Monad.return (Some core)
     else do {
       c \<leftarrow> get_cell;
       if_defined
         (if reinit \<or> reinit_env \<or> c = None then dyad_ctx_init F COMM_RECV None
          else State_Monad.return (Some ())) (\<lambda>_. do {
         c \<leftarrow> get_cell;
         let core = core\<lparr>m_ctx := c \<noteq> None\<rparr>;
         cons \<leftarrow> env_nonempty ''DYAD_PATH_CONSUMER'';
         prod \<leftarrow> env_nonempty ''DYAD_PATH_PRODUCER'';
         let core = (if c = None then core else core\<lparr>m_is_cons := cons, m_is_prod := prod\<rparr>);
         State_Monad.return (Some (core\<lparr>m_initialized := True\<rparr>)) }) } }"

text \<open>\<^verbatim>\<open>init (params)\<close>. \<open>has_fd\<close> is the build option \<^verbatim>\<open>DYAD_HAS_STD_FSTREAM_FD\<close>.\<close>

definition params_args :: "dyad_params \<Rightarrow> init_args" where
  "params_args p =
     \<lparr>a_debug = p_debug p, a_check = False, a_shared_storage = p_shared_storage p, a_reinit = p_reinit p,
      a_async_publish = p_async_publish p, a_fsync_write = p_fsync_write p, a_key_depth = p_key_depth p,
      a_key_bins = p_key_bins p, a_service_mux = p_service_mux p, a_kvs_namespace = Some (p_kvs_namespace p),
      a_prod_managed_path = Some (p_prod_managed_path p), a_cons_managed_path = Some (p_cons_managed_path p),
      a_relative = p_relative_to_managed_path p, a_dtl_mode = Some (dyad_dtl_mode_name (p_dtl_mode p)),
      a_comm_mode = COMM_RECV, a_flux_handle = None, a_cache_capacity = p_cache_capacity_bytes p,
      a_cache_policy = Some (p_cache_policy p), a_low_watermark = p_cache_low_watermark p,
      a_grace_period = p_cache_grace_period_sec p,
      a_origin_path = (if p_origin_path p = [] then None else Some (p_origin_path p))\<rparr>"

definition core_init_params ::
  "'e flux_ops \<Rightarrow> bool \<Rightarrow> dyad_params \<Rightarrow> dyad_stream_core \<Rightarrow> ('e, 'x, dyad_stream_core option) dio" where
  "core_init_params F has_fd p core =
     if_defined (dyad_init F (params_args p)) (\<lambda>rc. do {
       c \<leftarrow> get_cell;
       let core = core\<lparr>m_ctx := c \<noteq> None\<rparr>;
       core \<leftarrow> (if \<not> is_error rc \<and> c \<noteq> None
                then do {
                  upd_ctx (\<lambda>c. c\<lparr>use_fs_locks := has_fd\<rparr>);
                  State_Monad.return (core\<lparr>m_is_prod := p_prod_managed_path p \<noteq> [],
                                           m_is_cons := p_cons_managed_path p \<noteq> []\<rparr>) }
                else State_Monad.return core);
       State_Monad.return (Some (core\<lparr>m_initialized := True\<rparr>)) })"

definition set_initialized :: "dyad_stream_core \<Rightarrow> dyad_stream_core" where
  "set_initialized core = core\<lparr>m_initialized := True\<rparr>"

section \<open>What the core does for a stream\<close>

definition open_sync :: "'e flux_ops \<Rightarrow> nat \<Rightarrow> dyad_stream_core \<Rightarrow> string \<Rightarrow> ('e, 'x, bool option) dio" where
  "open_sync F fuel core path =
     (if \<not> m_initialized core then State_Monad.return (Some True)
      else if \<not> m_is_cons core then State_Monad.return (Some True)
      else if \<not> m_ctx core then State_Monad.return None
      else if_defined (dyad_consume F fuel path) (\<lambda>rc. State_Monad.return (Some (\<not> is_error rc))))"

definition close_sync :: "'e flux_ops \<Rightarrow> dyad_stream_core \<Rightarrow> string \<Rightarrow> ('e, 'x, bool option) dio" where
  "close_sync F core path =
     (if \<not> m_initialized core then State_Monad.return (Some True)
      else if \<not> m_is_prod core then State_Monad.return (Some True)
      else if \<not> m_ctx core then State_Monad.return None
      else if_defined (dyad_produce F path) (\<lambda>rc. State_Monad.return (Some (\<not> is_error rc))))"

definition chk_fsync_write :: "dyad_stream_core \<Rightarrow> ('e, 'x, bool option) dio" where
  "chk_fsync_write core = do {
     c \<leftarrow> get_cell;
     State_Monad.return (if m_ctx core then map_option fsync_write c else None) }"

definition file_lock_exclusive :: "int \<Rightarrow> ('e, 'x, dyad_rc) dio" where
  "file_lock_exclusive fd = do {
     rc \<leftarrow> dyad_excl_flock fd True;
     (if is_error rc then do { _ \<leftarrow> dyad_release_flock fd True; State_Monad.return () } else State_Monad.return ());
     State_Monad.return rc }"

definition file_lock_shared :: "int \<Rightarrow> ('e, 'x, dyad_rc) dio" where
  "file_lock_shared fd = do {
     rc \<leftarrow> dyad_shared_flock fd True;
     (if is_error rc then do { _ \<leftarrow> dyad_release_flock fd True; State_Monad.return () } else State_Monad.return ());
     State_Monad.return rc }"

definition file_unlock :: "int \<Rightarrow> ('e, 'x, dyad_rc) dio" where
  "file_unlock fd = dyad_release_flock fd True"

text \<open>The member function of this name; the user part of the path stays in the core.\<close>

definition core_cmp_canonical_path_prefix ::
  "dyad_stream_core \<Rightarrow> bool \<Rightarrow> string \<Rightarrow> ('e, 'x, (bool \<times> dyad_stream_core) option) dio" where
  "core_cmp_canonical_path_prefix core is_prod path = do {
     c \<leftarrow> get_cell;
     rp \<leftarrow> get_realpaths;
     State_Monad.return
       (case cmp_canonical_path_prefix rp (if m_ctx core then c else None) is_prod path PATH_MAX of
          Null_deref \<Rightarrow> None
        | No_match \<Rightarrow> Some (False, core\<lparr>core_upath := ''''\<rparr>)
        | Match u \<Rightarrow> Some (True, core\<lparr>core_upath := u\<rparr>)) }"

section \<open>File streams of the C++ library\<close>

text \<open>
  A stream is the open file with what is still in its buffer, like a \<^verbatim>\<open>FILE\<close>, and whether \<^verbatim>\<open>failbit\<close> or
  \<^verbatim>\<open>badbit\<close> is set. A mode is translated to the one of \<^verbatim>\<open>fopen\<close> by the table of the standard; \<^verbatim>\<open>binary\<close> has no effect. A
  write that is cut short counts as one that fails. Exceptions, which are off by default, are left out.
\<close>

record openmode =
  om_in :: bool
  om_out :: bool
  om_app :: bool
  om_trunc :: bool
  om_ate :: bool

abbreviation no_mode :: openmode where
  "no_mode \<equiv> \<lparr>om_in = False, om_out = False, om_app = False, om_trunc = False, om_ate = False\<rparr>"

definition fopen_mode :: "openmode \<Rightarrow> string option" where
  "fopen_mode m =
     (if om_app m then (if om_trunc m then None else if om_in m then Some ''a+'' else Some ''a'')
      else if om_in m \<and> om_out m then (if om_trunc m then Some ''w+'' else Some ''r+'')
      else if om_in m then (if om_trunc m then None else Some ''r'')
      else if om_out m then Some ''w'' else None)"

definition sys_seek_end :: "int \<Rightarrow> ('x, int) io" where
  "sys_seek_end fd = syscall (\<lambda>flt w. case flt of Err e \<Rightarrow> fail e w | _ \<Rightarrow>
     (case inode_of_fd w fd of
        None \<Rightarrow> fail EBADF w
      | Some (f, i) \<Rightarrow> (0, set_off fd (length (i_data i)) w)))"

record std_stream =
  std_file :: "nat option"
  std_fail :: bool

definition std_new :: std_stream where
  "std_new = \<lparr>std_file = None, std_fail = False\<rparr>"

definition std_open :: "openmode \<Rightarrow> string \<Rightarrow> std_stream \<Rightarrow> ('e, 'x, std_stream) dio" where
  "std_open mode filename st =
     (case (std_file st, fopen_mode mode) of
        (None, Some s) \<Rightarrow> do {
          file \<leftarrow> sys_fopen filename s;
          case file of
            None \<Rightarrow> State_Monad.return (st\<lparr>std_fail := True\<rparr>)
          | Some fp \<Rightarrow> do {
              fd \<leftarrow> sys_fileno fp;
              r \<leftarrow> (if om_ate mode then sys_seek_end fd else State_Monad.return 0);
              if r < 0 then do { _ \<leftarrow> sys_fclose fp; State_Monad.return (st\<lparr>std_fail := True\<rparr>) }
              else State_Monad.return \<lparr>std_file = Some fp, std_fail = False\<rparr> } }
      | _ \<Rightarrow> State_Monad.return (st\<lparr>std_fail := True\<rparr>))"

definition std_close :: "std_stream \<Rightarrow> ('e, 'x, std_stream) dio" where
  "std_close st =
     (case std_file st of
        None \<Rightarrow> State_Monad.return (st\<lparr>std_fail := True\<rparr>)
      | Some fp \<Rightarrow> do {
          r \<leftarrow> sys_fclose fp;
          State_Monad.return \<lparr>std_file = None, std_fail = (std_fail st \<or> r \<noteq> 0)\<rparr> })"

definition std_flush :: "std_stream \<Rightarrow> ('e, 'x, std_stream) dio" where
  "std_flush st =
     (case std_file st of
        None \<Rightarrow> State_Monad.return st
      | Some fp \<Rightarrow>
          if std_fail st then State_Monad.return st
          else do {
            r \<leftarrow> sys_fflush fp;
            State_Monad.return (st\<lparr>std_fail := r \<noteq> 0\<rparr>) })"

text \<open>The destructor closes the file.\<close>

definition std_delete :: "std_stream option \<Rightarrow> ('e, 'x, unit) dio" where
  "std_delete s =
     (case s of
        Some st \<Rightarrow> (case std_file st of
            None \<Rightarrow> State_Monad.return ()
          | Some fp \<Rightarrow> do { _ \<leftarrow> sys_fclose fp; State_Monad.return () })
      | None \<Rightarrow> State_Monad.return ())"

definition std_is_open :: "std_stream \<Rightarrow> bool" where
  "std_is_open st \<longleftrightarrow> std_file st \<noteq> None"

end
