(* ===== verification/Stream_Api.thy ===== *)
theory Stream_Api
  imports Stream_Core
begin

text \<open>
  The C++ streams of DYAD, \<^verbatim>\<open>include/dyad/stream/dyad_stream_api.hpp\<close>, as compilers for C++11 and later see
  them: \<^verbatim>\<open>ifstream_dyad\<close>, \<^verbatim>\<open>ofstream_dyad\<close> and \<^verbatim>\<open>fstream_dyad\<close>. An object is its core, the stream of the library that
  it owns (\<open>None\<close> when the pointer is \<^verbatim>\<open>nullptr\<close>, as after a move), and the name it publishes. \<open>has_fd\<close> is the
  build option \<^verbatim>\<open>DYAD_HAS_STD_FSTREAM_FD\<close>: whether the descriptor of a stream can be had, without
  which the macros for locking are empty. \<^verbatim>\<open>fstream_dyad\<close> hands its stream to a macro for output streams, so
  that it compiles only without the option, and has no such argument here. Operations return the object as it is afterwards;
  \<open>None\<close> is undefined behaviour. \<^verbatim>\<open>rdbuf\<close> and \<^verbatim>\<open>get_stream\<close> hand out the pointer and do nothing else.
\<close>

record dyad_stream =
  m_core :: dyad_stream_core
  m_stream :: "std_stream option"
  m_filename :: string

section \<open>Descriptors of streams\<close>

text \<open>What is done to the descriptor of a stream that is open.\<close>

definition on_fd :: "(int \<Rightarrow> ('e, 'x, 'a) dio) \<Rightarrow> std_stream \<Rightarrow> ('e, 'x, unit) dio" where
  "on_fd f st =
     (case std_file st of
        None \<Rightarrow> State_Monad.return ()
      | Some fp \<Rightarrow> do { fd \<leftarrow> sys_fileno fp; _ \<leftarrow> f fd; State_Monad.return () })"

definition fsync_ofstream :: "bool \<Rightarrow> std_stream \<Rightarrow> ('e, 'x, std_stream) dio" where
  "fsync_ofstream has_fd st =
     (if std_is_open st
      then do {
        st \<leftarrow> std_flush st;
        (if has_fd then on_fd sys_fsync st else State_Monad.return ());
        State_Monad.return st }
      else State_Monad.return st)"

definition fsync_fstream :: "bool \<Rightarrow> std_stream \<Rightarrow> ('e, 'x, std_stream) dio" where
  "fsync_fstream has_fd st =
     (if std_is_open st
      then do {
        st \<leftarrow> std_flush st;
        (if has_fd then on_fd sys_fsync st else State_Monad.return ());
        State_Monad.return st }
      else State_Monad.return st)"

definition lock_exclusive_ofstream :: "std_stream \<Rightarrow> ('e, 'x, unit) dio" where
  "lock_exclusive_ofstream os = on_fd file_lock_exclusive os"

definition lock_shared_ifstream :: "std_stream \<Rightarrow> ('e, 'x, unit) dio" where
  "lock_shared_ifstream st = on_fd file_lock_shared st"

definition unlock_ofstream :: "std_stream \<Rightarrow> ('e, 'x, unit) dio" where
  "unlock_ofstream os = on_fd file_unlock os"

definition unlock_ifstream :: "std_stream \<Rightarrow> ('e, 'x, unit) dio" where
  "unlock_ifstream st = on_fd file_unlock st"

text \<open>The variants for \<^verbatim>\<open>basic_fstream\<close>, which nothing calls.\<close>

definition lock_exclusive_fstream :: "std_stream \<Rightarrow> ('e, 'x, unit) dio" where
  "lock_exclusive_fstream os = on_fd file_lock_exclusive os"

definition lock_shared_fstream :: "std_stream \<Rightarrow> ('e, 'x, unit) dio" where
  "lock_shared_fstream st = on_fd file_lock_shared st"

definition unlock_fstream :: "std_stream \<Rightarrow> ('e, 'x, unit) dio" where
  "unlock_fstream os = on_fd file_unlock os"

text \<open>The macros: nothing is done without the build option.\<close>

definition when_fd :: "bool \<Rightarrow> (std_stream \<Rightarrow> ('e, 'x, unit) dio) \<Rightarrow> std_stream \<Rightarrow> ('e, 'x, unit) dio" where
  "when_fd has_fd f st = (if has_fd then f st else State_Monad.return ())"

section \<open>Objects\<close>

definition stream_of_core :: "dyad_stream_core \<Rightarrow> dyad_stream" where
  "stream_of_core core = \<lparr>m_core = core, m_stream = Some std_new, m_filename = ''''\<rparr>"

definition fresh_stream :: "'e flux_ops \<Rightarrow> ('e, 'x, dyad_stream option) dio" where
  "fresh_stream F =
     if_defined (core_init F False new_stream_core) (\<lambda>core. State_Monad.return (Some (stream_of_core core)))"

text \<open>The move constructor: the new object, and what is left of the old one. A core is copied, not moved.\<close>

definition stream_move :: "dyad_stream \<Rightarrow> dyad_stream \<times> dyad_stream" where
  "stream_move rhs =
     (\<lparr>m_core = m_core rhs, m_stream = m_stream rhs, m_filename = ''''\<rparr>, rhs\<lparr>m_stream := None\<rparr>)"

definition stream_assign :: "dyad_stream \<Rightarrow> dyad_stream \<Rightarrow> ('e, 'x, dyad_stream \<times> dyad_stream) dio" where
  "stream_assign lhs rhs = do {
     std_delete (m_stream lhs);
     State_Monad.return (lhs\<lparr>m_stream := m_stream rhs, m_core := m_core rhs\<rparr>, rhs\<lparr>m_stream := None\<rparr>) }"

definition stream_swap :: "dyad_stream \<Rightarrow> dyad_stream \<Rightarrow> (dyad_stream \<times> dyad_stream) option" where
  "stream_swap lhs rhs =
     (case (m_stream lhs, m_stream rhs) of
        (None, _) \<Rightarrow> Some (lhs, rhs)
      | (Some _, None) \<Rightarrow> None
      | (Some a, Some b) \<Rightarrow> Some (lhs\<lparr>m_stream := Some b\<rparr>, rhs\<lparr>m_stream := Some a\<rparr>))"

definition stream_is_open :: "dyad_stream \<Rightarrow> bool" where
  "stream_is_open s = (case m_stream s of None \<Rightarrow> False | Some st \<Rightarrow> std_is_open st)"

definition stream_init :: "dyad_stream_core \<Rightarrow> dyad_stream \<Rightarrow> dyad_stream" where
  "stream_init core s = s\<lparr>m_core := set_initialized core\<rparr>"

section \<open>\<^verbatim>\<open>ifstream_dyad\<close>\<close>

abbreviation as_input :: "openmode \<Rightarrow> openmode" where "as_input mode \<equiv> mode\<lparr>om_in := True\<rparr>"
abbreviation as_output :: "openmode \<Rightarrow> openmode" where "as_output mode \<equiv> mode\<lparr>om_out := True\<rparr>"

text \<open>The constructors that open a file, of which there is one for each type a name may have.\<close>

definition ifstream_of_file :: "'e flux_ops \<Rightarrow> nat \<Rightarrow> string \<Rightarrow> openmode \<Rightarrow> ('e, 'x, dyad_stream option) dio" where
  "ifstream_of_file F fuel filename mode =
     if_defined (core_init F False new_stream_core) (\<lambda>core.
     if_defined (open_sync F fuel core filename) (\<lambda>_. do {
       st \<leftarrow> std_open (as_input mode) filename std_new;
       State_Monad.return (Some \<lparr>m_core = core, m_stream = Some st,
         m_filename = (if std_fail st then '''' else filename)\<rparr>) }))"

definition ifstream_of_string where "ifstream_of_string = ifstream_of_file"
definition ifstream_of_path where "ifstream_of_path = ifstream_of_file"

definition ifstream_open ::
  "'e flux_ops \<Rightarrow> nat \<Rightarrow> bool \<Rightarrow> string \<Rightarrow> openmode \<Rightarrow> dyad_stream \<Rightarrow> ('e, 'x, dyad_stream option) dio" where
  "ifstream_open F fuel has_fd filename mode s =
     (case m_stream s of
        None \<Rightarrow> State_Monad.return (Some s)
      | Some st \<Rightarrow> do {
          when_fd has_fd lock_shared_ifstream st;
          if_defined (open_sync F fuel (m_core s) filename) (\<lambda>_. do {
            st \<leftarrow> std_open (as_input mode) filename st;
            State_Monad.return (Some (s\<lparr>m_stream := Some st,
              m_filename := (if std_fail st then m_filename s else filename)\<rparr>)) }) })"

definition ifstream_close :: "bool \<Rightarrow> dyad_stream \<Rightarrow> ('e, 'x, dyad_stream) dio" where
  "ifstream_close has_fd s =
     (case m_stream s of
        None \<Rightarrow> State_Monad.return s
      | Some st \<Rightarrow> do {
          when_fd has_fd unlock_ifstream st;
          st \<leftarrow> std_close st;
          State_Monad.return (s\<lparr>m_stream := Some st\<rparr>) })"

definition ifstream_delete :: "dyad_stream \<Rightarrow> ('e, 'x, unit) dio" where
  "ifstream_delete s = std_delete (m_stream s)"

definition ifstream_of_core where "ifstream_of_core = stream_of_core"
definition ifstream_new where "ifstream_new = fresh_stream"
definition ifstream_move where "ifstream_move = stream_move"
definition ifstream_assign where "ifstream_assign = stream_assign"
definition ifstream_is_open where "ifstream_is_open = stream_is_open"
definition ifstream_swap where "ifstream_swap = stream_swap"
definition ifstream_init where "ifstream_init = stream_init"

section \<open>\<^verbatim>\<open>ofstream_dyad\<close>\<close>

text \<open>
  What follows the opening: a file under the managed path of the producer is locked, and its name kept. Without the
  build option every file counts as one.
\<close>

definition managed_output ::
  "bool \<Rightarrow> string \<Rightarrow> dyad_stream \<Rightarrow> std_stream \<Rightarrow> ('e, 'x, dyad_stream option) dio" where
  "managed_output has_fd filename s st =
     (if std_fail st then State_Monad.return (Some (s\<lparr>m_stream := Some st\<rparr>))
      else if_defined
        (if has_fd then core_cmp_canonical_path_prefix (m_core s) True filename
         else State_Monad.return (Some (True, m_core s))) (\<lambda>(managed, core).
        if \<not> managed then State_Monad.return (Some (s\<lparr>m_stream := Some st, m_core := core\<rparr>))
        else do {
          when_fd has_fd lock_exclusive_ofstream st;
          State_Monad.return (Some (s\<lparr>m_stream := Some st, m_core := core, m_filename := filename\<rparr>)) }))"

definition ofstream_of_file :: "'e flux_ops \<Rightarrow> bool \<Rightarrow> string \<Rightarrow> openmode \<Rightarrow> ('e, 'x, dyad_stream option) dio" where
  "ofstream_of_file F has_fd filename mode =
     if_defined (core_init F False new_stream_core) (\<lambda>core. do {
       st \<leftarrow> std_open (as_output mode) filename std_new;
       managed_output has_fd filename (stream_of_core core) st })"

definition ofstream_of_string where "ofstream_of_string = ofstream_of_file"

text \<open>With the build option this constructor names a variable that does not exist.\<close>

definition ofstream_of_path where "ofstream_of_path F = ofstream_of_file F False"

definition ofstream_open ::
  "bool \<Rightarrow> string \<Rightarrow> openmode \<Rightarrow> dyad_stream \<Rightarrow> ('e, 'x, dyad_stream option) dio" where
  "ofstream_open has_fd filename mode s =
     (case m_stream s of
        None \<Rightarrow> State_Monad.return (Some s)
      | Some st \<Rightarrow> do {
          st \<leftarrow> std_open (as_output mode) filename st;
          managed_output has_fd filename s st })"

text \<open>Closing up to the release of the lock, the same in \<^verbatim>\<open>close\<close> and in the destructor.\<close>

definition ofstream_release ::
  "bool \<Rightarrow> dyad_stream_core \<Rightarrow> std_stream \<Rightarrow> ('e, 'x, std_stream option) dio" where
  "ofstream_release has_fd core st =
     if_defined (chk_fsync_write core) (\<lambda>fsync_write. do {
       st \<leftarrow> (if fsync_write then fsync_ofstream has_fd st else State_Monad.return st);
       when_fd has_fd unlock_ofstream st;
       State_Monad.return (Some st) })"

definition ofstream_close :: "'e flux_ops \<Rightarrow> bool \<Rightarrow> dyad_stream \<Rightarrow> ('e, 'x, dyad_stream option) dio" where
  "ofstream_close F has_fd s =
     (case m_stream s of
        None \<Rightarrow> State_Monad.return (Some s)
      | Some st \<Rightarrow>
          if_defined (ofstream_release has_fd (m_core s) st) (\<lambda>st. do {
            st \<leftarrow> std_close st;
            if_defined (close_sync F (m_core s) (m_filename s)) (\<lambda>_.
              State_Monad.return (Some (s\<lparr>m_stream := Some st\<rparr>))) }))"

definition ofstream_delete :: "'e flux_ops \<Rightarrow> bool \<Rightarrow> dyad_stream \<Rightarrow> ('e, 'x, unit option) dio" where
  "ofstream_delete F has_fd s =
     (case m_stream s of
        None \<Rightarrow> State_Monad.return (Some ())
      | Some st \<Rightarrow>
          if std_is_open st
          then if_defined (ofstream_release has_fd (m_core s) st) (\<lambda>st. do {
            std_delete (Some st);
            if_defined (close_sync F (m_core s) (m_filename s)) (\<lambda>_. State_Monad.return (Some ())) })
          else do { std_delete (Some st); State_Monad.return (Some ()) })"

definition ofstream_of_core where "ofstream_of_core = stream_of_core"
definition ofstream_new where "ofstream_new = fresh_stream"
definition ofstream_move where "ofstream_move = stream_move"
definition ofstream_assign where "ofstream_assign = stream_assign"
definition ofstream_is_open where "ofstream_is_open = stream_is_open"
definition ofstream_swap where "ofstream_swap = stream_swap"
definition ofstream_init where "ofstream_init = stream_init"

section \<open>\<^verbatim>\<open>fstream_dyad\<close>\<close>

definition fstream_of_file :: "'e flux_ops \<Rightarrow> nat \<Rightarrow> string \<Rightarrow> openmode \<Rightarrow> ('e, 'x, dyad_stream option) dio" where
  "fstream_of_file F fuel filename mode =
     if_defined (core_init F False new_stream_core) (\<lambda>core.
     if_defined (open_sync F fuel core filename) (\<lambda>_. do {
       st \<leftarrow> std_open mode filename std_new;
       State_Monad.return (Some \<lparr>m_core = core, m_stream = Some st,
         m_filename = (if std_fail st then '''' else filename)\<rparr>) }))"

definition fstream_of_string where "fstream_of_string = fstream_of_file"
definition fstream_of_path where "fstream_of_path = fstream_of_file"

definition fstream_open ::
  "'e flux_ops \<Rightarrow> nat \<Rightarrow> string \<Rightarrow> openmode \<Rightarrow> dyad_stream \<Rightarrow> ('e, 'x, dyad_stream option) dio" where
  "fstream_open F fuel filename mode s =
     (case m_stream s of
        None \<Rightarrow> State_Monad.return (Some s)
      | Some st \<Rightarrow>
          if_defined (open_sync F fuel (m_core s) filename) (\<lambda>_. do {
            st \<leftarrow> std_open mode filename st;
            State_Monad.return (Some (s\<lparr>m_stream := Some st,
              m_filename := (if std_fail st then m_filename s else filename)\<rparr>)) }))"

definition fstream_release :: "dyad_stream_core \<Rightarrow> std_stream \<Rightarrow> ('e, 'x, std_stream option) dio" where
  "fstream_release core st =
     (if \<not> m_is_prod core then State_Monad.return (Some st)
      else if_defined (chk_fsync_write core) (\<lambda>fsync_write. do {
        st \<leftarrow> (if fsync_write then fsync_fstream False st else State_Monad.return st);
        State_Monad.return (Some st) }))"

definition fstream_close :: "'e flux_ops \<Rightarrow> dyad_stream \<Rightarrow> ('e, 'x, dyad_stream option) dio" where
  "fstream_close F s =
     (case m_stream s of
        None \<Rightarrow> State_Monad.return (Some s)
      | Some st \<Rightarrow>
          if_defined (fstream_release (m_core s) st) (\<lambda>st. do {
            st \<leftarrow> std_close st;
            if_defined (close_sync F (m_core s) (m_filename s)) (\<lambda>_.
              State_Monad.return (Some (s\<lparr>m_stream := Some st\<rparr>))) }))"

definition fstream_delete :: "'e flux_ops \<Rightarrow> dyad_stream \<Rightarrow> ('e, 'x, unit option) dio" where
  "fstream_delete F s =
     (case m_stream s of
        None \<Rightarrow> State_Monad.return (Some ())
      | Some st \<Rightarrow>
          if std_is_open st
          then if_defined (fstream_release (m_core s) st) (\<lambda>st. do {
            std_delete (Some st);
            if_defined (close_sync F (m_core s) (m_filename s)) (\<lambda>_. State_Monad.return (Some ())) })
          else do { std_delete (Some st); State_Monad.return (Some ()) })"

definition fstream_of_core where "fstream_of_core = stream_of_core"
definition fstream_new where "fstream_new = fresh_stream"
definition fstream_move where "fstream_move = stream_move"
definition fstream_assign where "fstream_assign = stream_assign"
definition fstream_is_open where "fstream_is_open = stream_is_open"
definition fstream_swap where "fstream_swap = stream_swap"
definition fstream_init where "fstream_init = stream_init"

end
