(* ===== verification/Stream_Correct.thy ===== *)
theory Stream_Correct
  imports Stream_Api Client_Produce Client_Store
begin

text \<open>
  What the C++ streams guarantee: which roles a core gets from its parameters, what an output stream has written
  when it gives its lock back and when it publishes the file, and what becomes of a stream that is moved.
\<close>

lemma wp_if_defined [wps]:
  "wp (if_defined m k) Q w = wp m (\<lambda>r w'. case r of None \<Rightarrow> Q None w' | Some a \<Rightarrow> wp (k a) Q w') w"
  by (auto simp: if_defined_def wps wp_def split: prod.split option.split)

section \<open>Parameters with one role\<close>

lemma wp_ctx_init_failed: "wp (init_failed F rc) (\<lambda>r _. r = RC_NOCTX) w"
  by (auto simp: init_failed_def wps intro!: wp_total)

lemma set_path_empty: "returns (\<lambda>rc. rc \<noteq> RC_OK) (dyad_set_prod_path (Some []))"
  "returns (\<lambda>rc. rc \<noteq> RC_OK) (dyad_set_cons_path (Some []))"
  by (auto simp: ensures_def dyad_set_prod_path_def dyad_set_cons_path_def load_managed_def Let_def wps
      split: option.split)

lemma init_parts_empty:
  assumes "a_prod_managed_path a = Some [] \<or> a_cons_managed_path a = Some []"
  shows "returns (\<lambda>r. r \<noteq> None) (init_parts a)"
proof -
  have cons: "returns (\<lambda>r. r \<noteq> None)
      (do { rc' \<leftarrow> dyad_set_cons_path (a_cons_managed_path a);
            State_Monad.return (if rc' \<noteq> RC_OK then Some rc else None) })"
    if "a_cons_managed_path a = Some []" for rc
    unfolding that by (rule ensures_bind_both [OF set_path_empty(2)]) (simp add: ensures_def)
  have prod: "returns (\<lambda>r. r \<noteq> None) (do { rc' \<leftarrow> dyad_set_prod_path (a_prod_managed_path a);
      if rc' \<noteq> RC_OK then State_Monad.return (Some rc)
      else do { rc' \<leftarrow> dyad_set_cons_path (a_cons_managed_path a);
                State_Monad.return (if rc' \<noteq> RC_OK then Some rc else None) } })" for rc
  proof (cases "a_prod_managed_path a = Some []")
    case True
    show ?thesis
      unfolding True by (rule ensures_bind_both [OF set_path_empty(1)]) (simp add: ensures_def)
  next
    case False
    with assms have c: "a_cons_managed_path a = Some []" by simp
    show ?thesis by (rule ensures_bind, rule ensures_If, rule ensures_return, simp, rule cons [OF c])
  qed
  show ?thesis unfolding init_parts_def by (intro ret prod) simp_all
qed

lemma init_body_empty:
  assumes "a_prod_managed_path a = Some p" "a_cons_managed_path a = Some q" "p = [] \<or> q = []"
  shows "returns is_error (init_body F a)"
proof -
  have f: "returns is_error (init_failed F rc)" for rc
    unfolding ensures_def by (rule allI, rule wp_mono [OF wp_ctx_init_failed]) simp
  have g: "returns is_error (init_finish RC_FLUXFAIL)" by (simp add: init_finish_def ensures_def wps)
  have parts: "returns is_error (do { failed \<leftarrow> init_parts a; case failed of Some rc \<Rightarrow> init_failed F rc | None \<Rightarrow> m })" for m
    by (rule ensures_bind_both [OF init_parts_empty]) (use assms f in auto)
  show ?thesis
    unfolding init_body_def Let_def by (intro ret f g parts) (use assms in simp_all)
qed

lemma dyad_init_empty:
  fixes w :: "('e, 'x) dworld"
  assumes "a_prod_managed_path a = Some p" "a_cons_managed_path a = Some q" "p = [] \<or> q = []"
    and "a_reinit a \<or> cell w = None \<or> \<not> initialized (the (cell w))"
  shows "wp (dyad_init F a) (\<lambda>r _. \<forall>rc. r = Some rc \<longrightarrow> is_error rc) w"
proof -
  have b: "wp (init_body F a) (\<lambda>rc _. is_error rc) w" for w :: "('e, 'x) dworld"
    by (rule init_body_empty [OF assms(1-3), unfolded ensures_def, THEN spec])
  have "wp (do { ok \<leftarrow> sys_malloc;
       if \<not> ok then do { set_cell None; State_Monad.return None }
       else do { rc \<leftarrow> init_body F a; State_Monad.return (Some rc) } }) (\<lambda>r _. \<forall>rc. r = Some rc \<longrightarrow> is_error rc) w" for w :: "('e, 'x) dworld"
    by (simp add: wps, rule wp_total) (use b in \<open>auto simp: wps\<close>)
  then have m: "wp m (\<lambda>_. wp (do { ok \<leftarrow> sys_malloc;
       if \<not> ok then do { set_cell None; State_Monad.return None }
       else do { rc \<leftarrow> init_body F a; State_Monad.return (Some rc) } }) (\<lambda>r _. \<forall>rc. r = Some rc \<longrightarrow> is_error rc)) w" for m :: "('e, 'x, unit) dio" and w
    by (simp add: wp_total)
  show ?thesis
    using assms(4) b m unfolding dyad_init_def by (auto simp: wp_bind wp_cell)
qed

text \<open>
  C40: a set of parameters with one role only has none. The default of \<^verbatim>\<open>dyad_params\<close> for the path of a role one does
  not want is the empty string, but \<^verbatim>\<open>dyad_init\<close> takes an empty path for a mistake and
  fails; the core ends up initialised and neither fetches files nor publishes them, and reports success for each.
\<close>

theorem params_one_role:
  fixes w :: "('e, 'x) dworld"
  assumes "p_prod_managed_path p = [] \<or> p_cons_managed_path p = []"
    and "p_reinit p \<or> cell w = None \<or> \<not> initialized (the (cell w))"
  shows "wp (core_init_params F has_fd p new_stream_core) (\<lambda>r _. \<forall>core path. r = Some core \<longrightarrow>
     (open_sync F fuel core path :: ('e, 'x, bool option) dio) = State_Monad.return (Some True)
     \<and> (close_sync F core path :: ('e, 'x, bool option) dio) = State_Monad.return (Some True)) w"
proof -
  have "wp (dyad_init F (params_args p)) (\<lambda>r _. \<forall>rc. r = Some rc \<longrightarrow> is_error rc) w"
    by (rule dyad_init_empty) (use assms in \<open>simp_all add: params_args_def\<close>)
  then show ?thesis
    unfolding core_init_params_def wp_if_defined
    by (rule wp_mono)
      (auto simp: wps new_stream_core_def open_sync_def close_sync_def simp del: is_error_iff split: option.split)
qed

theorem params_one_role_witness:
  "wp (core_init_params still_flux True (default_params\<lparr>p_prod_managed_path := ''/a'', p_reinit := True\<rparr>) new_stream_core)
     (\<lambda>r _. \<forall>core path. r = Some core \<longrightarrow>
       (open_sync still_flux 9 core path :: (nat, unit, bool option) dio) = State_Monad.return (Some True)
       \<and> (close_sync still_flux core path :: (nat, unit, bool option) dio) = State_Monad.return (Some True))
     (file_world None dyad_ctx_default 0)"
  by (rule params_one_role) (simp_all add: default_params_def file_world_def dyad_ctx_default_def)

section \<open>Buffered output\<close>

text \<open>
  \<open>buffered w fp fd p off old d\<close>: the stream \<open>fp\<close> has the descriptor \<open>fd\<close>, open for writing at \<open>off\<close> in the file \<open>p\<close>, which
  holds \<open>old\<close>; \<open>d\<close> is still in its buffer.
\<close>

definition buffered :: "('e, 'x) dworld \<Rightarrow> nat \<Rightarrow> int \<Rightarrow> string \<Rightarrow> nat \<Rightarrow> bytes \<Rightarrow> bytes \<Rightarrow> bool" where
  "buffered w fp fd p off old d \<longleftrightarrow> good w \<and> streams w fp = Some (fd, d) \<and> fd_at w fd p False True
     \<and> fdata w p = Some old \<and> write_at w fd off"

text \<open>What writing does not concern.\<close>

definition same_dyad :: "('e, 'x) dworld \<Rightarrow> ('e, 'x) dworld \<Rightarrow> bool" where
  "same_dyad w w' \<longleftrightarrow> cell w' = cell w \<and> realpaths w' = realpaths w \<and> flux w' = flux w"

lemma same_dyad_refl [simp]: "same_dyad w w"
  by (simp add: same_dyad_def)

lemma same_dyad_trans: "same_dyad w w' \<Longrightarrow> same_dyad w' w'' \<Longrightarrow> same_dyad w w''"
  by (simp add: same_dyad_def)

lemma same_dyad_more: "world.more w' = world.more w \<Longrightarrow> same_dyad w w'"
  using more_eq_parts [of w' w] by (simp add: same_dyad_def)

lemma stream_parts [simp]:
  fixes w w' :: "('e, 'x) dworld"
  shows "good (w\<lparr>streams := t\<rparr>) = good w" "fdata (w\<lparr>streams := t\<rparr>) = fdata w"
    "fd_at (w\<lparr>streams := t\<rparr>) = fd_at w" "write_at (w\<lparr>streams := t\<rparr>) = write_at w"
    "same_dyad w (w'\<lparr>streams := t\<rparr>) = same_dyad w w'"
proof -
  show "fdata (w\<lparr>streams := t\<rparr>) = fdata w" by (rule same_files; simp)
  show "fd_at (w\<lparr>streams := t\<rparr>) = fd_at w" "write_at (w\<lparr>streams := t\<rparr>) = write_at w"
    by (rule ext, rule ext, rule ext, rule ext, simp add: fd_at_def) (rule ext, rule ext, simp add: write_at_def)
qed (simp_all add: good_def same_dyad_def)

lemma wp_streams [wps]:
  "wp (sys_fileno fp) P w = P (case streams w fp of None \<Rightarrow> - 1 | Some (fd, _) \<Rightarrow> fd) w"
  "wp (stream_rest fp) R w = R (case streams w fp of None \<Rightarrow> [] | Some (_, d) \<Rightarrow> d) w"
  "wp (set_rest fp d) Q w = Q () (w\<lparr>streams := (case streams w fp of None \<Rightarrow> streams w
      | Some (fd, _) \<Rightarrow> (streams w)(fp \<mapsto> (fd, d)))\<rparr>)"
  by (simp_all add: sys_fileno_def stream_rest_def set_rest_def wp_State)

text \<open>After \<open>k\<close> bytes of the buffer have been written.\<close>

definition drained :: "nat \<Rightarrow> ('e, 'x) dworld \<Rightarrow> nat \<Rightarrow> int \<Rightarrow> string \<Rightarrow> nat \<Rightarrow> bytes \<Rightarrow> bytes \<Rightarrow> ('e, 'x) dworld \<Rightarrow> bool" where
  "drained k w fp fd p off old d w' \<longleftrightarrow> k \<le> length d
     \<and> buffered w' fp fd p (off + k) (overlay old off (take k d)) (drop k d)
     \<and> fdata w' = (fdata w)(p \<mapsto> overlay old off (take k d)) \<and> same_dyad w w'
     \<and> (faults w = [] \<longrightarrow> faults w' = [])"

lemma drained_0: "buffered w fp fd p off old d \<Longrightarrow> drained 0 w fp fd p off old d w"
  by (auto simp: drained_def buffered_def)

lemma wp_sys_fflush:
  fixes w :: "('e, 'x) dworld"
  assumes "buffered w fp fd p off old d"
  shows "wp (sys_fflush fp) (\<lambda>r w'. \<exists>k. drained k w fp fd p off old d w' \<and> (r = 0 \<longleftrightarrow> k = length d)
     \<and> (faults w = [] \<longrightarrow> r = 0)) w"
proof (cases "d = []")
  case True
  with assms drained_0 [OF assms] show ?thesis by (auto simp: sys_fflush_def wps buffered_def)
next
  case False
  note b = assms [unfolded buffered_def]
  let ?Q = "\<lambda>n w'. world.more w' = world.more w \<longrightarrow> wp (if n < 0 then State_Monad.return (- 1)
      else do { set_rest fp (drop (nat n) d); State_Monad.return (if n = int (length d) then 0 else - 1) })
      (\<lambda>(r :: int) w'. \<exists>k. drained k w fp fd p off old d w' \<and> (r = 0 \<longleftrightarrow> k = length d) \<and> (faults w = [] \<longrightarrow> r = 0)) w'"
  have wr: "wp (sys_write fd d) ?Q w"
  proof (rule wp_write_view [of w fd p False old off], goal_cases)
    case (5 w')
    then show ?case
      using b False viewD [OF 5(1)] more_eq_parts [of w' w]
      by (auto simp: drained_def buffered_def same_dyad_more intro!: exI [of _ 0])
  next
    case (6 k w')
    then show ?case
      using b False viewD [OF 6(1)] more_eq_parts [of w' w]
      by (auto simp: drained_def buffered_def same_dyad_more wps intro!: exI [of _ k])
  qed (use b in auto)
  have e: "streams w fp = Some (fd, d)" using b by simp
  show ?thesis
    unfolding sys_fflush_def wp_bind wp_streams e option.case prod.case if_not_P [OF False]
    by (rule wp_posix_with [OF posix_sys(6) wr])
qed

lemma drained_trans:
  assumes "drained k w fp fd p off old d w1"
    and "drained m w1 fp fd p (off + k) (overlay old off (take k d)) (drop k d) w2"
  shows "drained (k + m) w fp fd p off old d w2"
proof -
  have k: "k \<le> length d" "m \<le> length d - k" using assms by (auto simp: drained_def)
  have "overlay (overlay old off (take k d)) (off + k) (take m (drop k d)) = overlay old off (take (k + m) d)"
    using overlay_splice [of old off "take k d" "take m (drop k d)"] k(1) by (simp add: take_add)
  with assms k show ?thesis
    by (auto simp: drained_def same_dyad_def add.assoc add.commute add.left_commute)
qed

text \<open>Calls that leave files, offsets and streams alone.\<close>

definition idle :: "('e, 'x) dworld \<Rightarrow> ('e, 'x) dworld \<Rightarrow> bool" where
  "idle w w' \<longleftrightarrow> steady w w' \<and> world.more w' = world.more w \<and> (faults w = [] \<longrightarrow> faults w' = [])"

lemma steady_locks [simp]: "steady w (w'\<lparr>locks := l\<rparr>) = steady w w'"
proof -
  have "fdata (w'\<lparr>locks := l\<rparr>) = fdata w'" by (rule same_files; simp)
  then show ?thesis by (simp add: steady_def good_def wf_world_def)
qed

lemma wp_sys_fsync_idle: "good w \<Longrightarrow> wp (sys_fsync fd) (\<lambda>_ w'. idle w w') w" for w :: "('e, 'x) dworld"
  unfolding sys_fsync_def
  by (rule wp_syscall_cases) (auto simp: idle_def fail_def steady_refl split: fault.split)

text \<open>No lock of this process is left on the file.\<close>

definition released :: "'x world_scheme \<Rightarrow> string \<Rightarrow> bool" where
  "released w p \<longleftrightarrow> (\<forall>n. names w p = Some n \<longrightarrow> locks w n = None)"

lemma wp_file_unlock_idle:
  fixes w :: "('e, 'x) dworld"
  assumes "good w" "fd_at w fd p rd wr" "fdata w p = Some d"
  shows "wp (file_unlock fd) (\<lambda>_ w'. idle w w' \<and> (faults w = [] \<longrightarrow> released w' p)) w"
proof -
  from fd_at_inode [OF assms] obtain f i where f: "inode_of_fd w fd = Some (f, i)" "names w p = Some (o_ino f)" by auto
  have "wp (sys_unlock fd) (\<lambda>_ w'. idle w w' \<and> (faults w = [] \<longrightarrow> released w' p)) w"
    unfolding sys_unlock_def
    by (rule wp_syscall_cases)
      (use f assms(1) in \<open>auto simp: idle_def fail_def steady_refl released_def split: fault.split\<close>)
  then show ?thesis by (simp add: file_unlock_def dyad_release_flock_def wps)
qed

lemma drained_idle:
  assumes "drained k w fp fd p off old d w1" "idle w1 w2"
  shows "drained k w fp fd p off old d w2"
proof -
  have m: "streams w2 = streams w1" "same_dyad w1 w2"
    using assms(2) more_eq_parts [of w2 w1] by (auto simp: idle_def same_dyad_def)
  have v: "good w2" "fdata w2 = fdata w1" "fd_at w1 fd p rd wr \<Longrightarrow> fd_at w2 fd p rd wr" "write_at w2 fd o' = write_at w1 fd o'"
    "faults w1 = [] \<Longrightarrow> faults w2 = []" for rd wr o'
    using assms(2) steadyD [of w1 w2] by (auto simp: idle_def)
  show ?thesis
    using assms(1) m v same_dyad_trans [of w w1 w2] by (simp add: drained_def buffered_def)
qed

lemma wp_on_fd:
  assumes "std_file st = Some fp" "streams w fp = Some (fd, d)"
  shows "wp (on_fd f st) Q w = wp (f fd) (\<lambda>_. Q ()) w"
  using assms by (simp add: on_fd_def wps)

lemma drainedD:
  assumes "drained k w fp fd p off old d w1"
  shows "good w1" "streams w1 fp = Some (fd, drop k d)" "fd_at w1 fd p False True" "k \<le> length d"
    "fdata w1 = (fdata w)(p \<mapsto> overlay old off (take k d))" "cell w1 = cell w" "faults w = [] \<Longrightarrow> faults w1 = []"
  using assms by (auto simp: drained_def buffered_def same_dyad_def)

lemma wp_fsync_ofstream:
  fixes w :: "('e, 'x) dworld"
  assumes "buffered w fp fd p off old d" "std_file st = Some fp" "\<not> std_fail st"
  shows "wp (fsync_ofstream has_fd st) (\<lambda>st' w'. \<exists>k. std_file st' = Some fp \<and> drained k w fp fd p off old d w'
     \<and> (std_fail st' \<longleftrightarrow> k \<noteq> length d) \<and> (faults w = [] \<longrightarrow> \<not> std_fail st')) w"
proof -
  have fl: "wp (std_flush st) (\<lambda>st' w'. \<exists>k. std_file st' = Some fp \<and> drained k w fp fd p off old d w'
     \<and> (std_fail st' \<longleftrightarrow> k \<noteq> length d) \<and> (faults w = [] \<longrightarrow> \<not> std_fail st')) w"
    using wp_sys_fflush [OF assms(1)] assms(2,3) by (auto simp: std_flush_def wps elim!: wp_mono)
  show ?thesis
    unfolding fsync_ofstream_def
  proof (simp add: assms(2) std_is_open_def wp_bind, rule wp_mono [OF fl], elim exE conjE, goal_cases)
    case (1 st' w1 k)
    note d = drainedD [OF 1(2)]
    have sync: "wp (sys_fsync fd) (\<lambda>_ w'. drained k w fp fd p off old d w') w1"
      by (rule wp_mono [OF wp_sys_fsync_idle [OF d(1)]]) (rule drained_idle [OF 1(2)])
    show ?case
    proof (cases has_fd)
      case True
      show ?thesis
        unfolding if_P [OF True] wp_on_fd [OF 1(1) d(2)] by (rule wp_mono [OF sync]) (use 1 in auto)
    qed (use 1 in auto)
  qed
qed

lemma wp_ofstream_release:
  fixes w :: "('e, 'x) dworld"
  assumes b: "buffered w fp fd p off old d" and st: "std_file st = Some fp" "\<not> std_fail st"
    and c: "cell w = Some c" and core: "m_ctx core"
  shows "wp (ofstream_release has_fd core st) (\<lambda>r w'. \<exists>st' k. r = Some st' \<and> std_file st' = Some fp
     \<and> drained k w fp fd p off old d w' \<and> (std_fail st' \<longleftrightarrow> fsync_write c \<and> k \<noteq> length d)
     \<and> (\<not> fsync_write c \<longrightarrow> k = 0) \<and> (faults w = [] \<longrightarrow> \<not> std_fail st' \<and> (has_fd \<longrightarrow> released w' p))) w"
proof -
  have un: "wp (when_fd has_fd unlock_ofstream st') (\<lambda>_ w'. drained k w fp fd p off old d w'
      \<and> (faults w = [] \<and> has_fd \<longrightarrow> released w' p)) w1"
    if "std_file st' = Some fp" and dr: "drained k w fp fd p off old d w1" for st' k w1
  proof (cases has_fd)
    case True
    note d = drainedD [OF dr]
    have "fdata w1 p = Some (overlay old off (take k d))" using d(5) by simp
    from wp_file_unlock_idle [OF d(1,3) this] show ?thesis
      unfolding when_fd_def if_P [OF True] unlock_ofstream_def wp_on_fd [OF that(1) d(2)]
      by (rule wp_mono) (use drained_idle [OF dr] d(7) in auto)
  qed (use dr in \<open>simp add: when_fd_def\<close>)
  have sync: "wp (if fsync_write c then fsync_ofstream has_fd st else State_Monad.return st)
     (\<lambda>st' w'. \<exists>k. std_file st' = Some fp \<and> drained k w fp fd p off old d w'
       \<and> (std_fail st' \<longleftrightarrow> fsync_write c \<and> k \<noteq> length d) \<and> (\<not> fsync_write c \<longrightarrow> k = 0)
       \<and> (faults w = [] \<longrightarrow> \<not> std_fail st')) w"
    using wp_fsync_ofstream [OF b st] drained_0 [OF b] st by (auto elim!: wp_mono)
  show ?thesis
    unfolding ofstream_release_def wp_if_defined chk_fsync_write_def wp_bind wp_cell wp_return c if_P [OF core]
      option.map option.case
  proof (rule wp_mono [OF sync], elim exE conjE, goal_cases)
    case (1 st' w1 k)
    show ?case by (rule wp_mono [OF un [OF 1(1,2)]]) (use 1 in auto)
  qed
qed

section \<open>An open file\<close>

text \<open>The file \<^verbatim>\<open>/a/f\<close>, which holds one byte, open for writing behind it, with two bytes in the buffer.\<close>

definition out_world :: "dyad_ctx \<Rightarrow> 'e \<Rightarrow> ('e, unit) dworld" where
  "out_world c s = (file_world (Some [1]) c s)\<lparr>
     fds := [3 \<mapsto> \<lparr>o_ino = 3, o_rd = False, o_wr = True, o_app = False, o_off = 1, o_path = ''/a/f''\<rparr>],
     next_fd := 4, streams := [0 \<mapsto> (3, [2, 3])], next_stream := 1\<rparr>"

lemma out_world_buffered: "buffered (out_world c s) 0 3 ''/a/f'' 1 [1] [2, 3]"
  by (auto simp: buffered_def out_world_def file_world_def good_def wf_world_def fd_at_def fdata_def inode_of_path_def
      write_at_def file_inode_def split: option.split if_splits)

lemma out_world_parts [simp]: "cell (out_world c s) = Some c" "realpaths (out_world c s) q = None" "faults (out_world c s) = []"
  by (simp_all add: out_world_def file_world_def)


definition producer_stream :: dyad_stream where
  "producer_stream = \<lparr>m_core = new_stream_core\<lparr>m_ctx := True, m_initialized := True, m_is_prod := True\<rparr>,
     m_stream = Some \<lparr>std_file = Some 0, std_fail = False\<rparr>, m_filename = ''f''\<rparr>"



section \<open>Closing and publishing\<close>

lemma wp_sys_close:
  fixes w :: "('e, 'x) dworld"
  assumes "good w" "fd_at w fd p rd wr"
  shows "wp (sys_close fd) (\<lambda>r w'. closed fd w w' \<and> same_dyad w w' \<and> (faults w = [] \<longrightarrow> r = 0)) w"
proof -
  have "wp (sys_close fd) (\<lambda>r w'. closed fd w w' \<and> world.more w' = world.more w) w"
    by (rule wp_posix [OF posix_sys(3) wp_close_view]) (use assms in \<open>auto simp: fd_at_def\<close>)
  moreover have "wp (sys_close fd) (\<lambda>r _. faults w = [] \<longrightarrow> r = 0) w"
    using assms by (auto simp: sys_close_def wp_syscall fd_at_def split: list.split fault.split intro: wp_total)
  ultimately show ?thesis
    using wp_conj by (fastforce intro: same_dyad_more elim: wp_mono)
qed

text \<open>Closing a stream writes out its buffer, or the stream has failed.\<close>

definition written :: "('e, 'x) dworld \<Rightarrow> string \<Rightarrow> bytes \<Rightarrow> std_stream \<Rightarrow> ('e, 'x) dworld \<Rightarrow> bool" where
  "written w p data st w' \<longleftrightarrow> std_file st = None \<and> good w' \<and> same_dyad w w'
     \<and> (std_fail st \<or> fdata w' = (fdata w)(p \<mapsto> data)) \<and> (faults w = [] \<longrightarrow> \<not> std_fail st)"

lemma wp_std_close:
  fixes w :: "('e, 'x) dworld"
  assumes b: "buffered w fp fd p off old d" and st: "std_file st = Some fp"
  shows "wp (std_close st) (\<lambda>st' w'. std_file st' = None \<and> good w' \<and> same_dyad w w'
     \<and> (\<not> std_fail st' \<longrightarrow> \<not> std_fail st \<and> fdata w' = (fdata w)(p \<mapsto> overlay old off d))
     \<and> (faults w = [] \<and> \<not> std_fail st \<longrightarrow> \<not> std_fail st')) w"
proof -
  let ?Q = "\<lambda>r w'. good w' \<and> same_dyad w w' \<and> (r = 0 \<longrightarrow> fdata w' = (fdata w)(p \<mapsto> overlay old off d))
     \<and> (faults w = [] \<longrightarrow> r = 0)"
  have "wp (sys_fclose fp) ?Q w"
    unfolding sys_fclose_def wp_bind
  proof (rule wp_mono [OF wp_sys_fflush [OF b]], elim exE conjE, goal_cases)
    case (1 r w1 k)
    note d = drainedD [OF 1(1)]
    have m: "same_dyad w w1" using 1(1) by (simp add: drained_def)
    show ?case
      unfolding wp_streams d(2) option.case prod.case
      by (rule wp_mono [OF wp_sys_close [OF d(1,3)]])
        (use 1 d m in \<open>auto simp: wps closed_def intro: same_dyad_trans split: if_splits\<close>)
  qed
  then show ?thesis
    using st by (auto simp: std_close_def wps elim!: wp_mono)
qed

lemma wp_release_close:
  fixes w :: "('e, 'x) dworld"
  assumes b: "buffered w fp fd p off old d" and st: "std_file st = Some fp" "\<not> std_fail st"
    and c: "cell w = Some c" and core: "m_ctx core"
  shows "wp (ofstream_release has_fd core st) (\<lambda>r w1. \<exists>st1. r = Some st1
     \<and> wp (std_close st1) (written w p (overlay old off d)) w1) w"
proof (rule wp_mono [OF wp_ofstream_release [OF assms]], elim exE conjE, goal_cases)
  case (1 r w1 st1 k)
  have b1: "buffered w1 fp fd p (off + k) (overlay old off (take k d)) (drop k d)" and m: "same_dyad w w1"
    using 1(3) by (simp_all add: drained_def)
  have o: "overlay (overlay old off (take k d)) (off + k) (drop k d) = overlay old off d"
    using overlay_splice [of old off "take k d" "drop k d"] drainedD(4) [OF 1(3)] by simp
  have "(fdata w1)(p \<mapsto> x) = (fdata w)(p \<mapsto> x)" for x using drainedD(5) [OF 1(3)] by simp
  with wp_std_close [OF b1 1(2)] 1 m o show ?case
    by (auto simp: written_def drainedD(7) [OF 1(3)] elim!: wp_mono intro: same_dyad_trans)
qed

lemma managed_path_same:
  assumes "cell w' = cell w" "realpaths w' = realpaths w"
  shows "managed_path w' b fname = managed_path w b fname"
  using assms by (auto simp: managed_path_def managed_upath_def get_realpaths_def the_ctx_def)

text \<open>
  \<open>closed_output s data w p r w'\<close>: the object \<open>s\<close> has been closed, and then the file has been produced from a world in which it
  holds \<open>data\<close>, or in which the stream has failed.
\<close>

definition closed_output ::
  "'e flux_ops \<Rightarrow> dyad_stream \<Rightarrow> bytes \<Rightarrow> ('e, 'x) dworld \<Rightarrow> string \<Rightarrow> (dyad_rc \<Rightarrow> 'e \<Rightarrow> bool) \<Rightarrow> dyad_stream option
     \<Rightarrow> ('e, 'x) dworld \<Rightarrow> bool" where
  "closed_output F s data w p P r w' \<longleftrightarrow> (\<exists>st w1 rc. r = Some (s\<lparr>m_stream := Some st\<rparr>) \<and> written w p data st w1
     \<and> run_state (dyad_produce F (m_filename s)) w1 = (Some rc, w') \<and> P rc (flux w'))"

lemma wp_ofstream_close:
  fixes w :: "('e, 'x) dworld"
  assumes b: "buffered w fp fd p off old d" and st: "m_stream s = Some st" "std_file st = Some fp" "\<not> std_fail st"
    and c: "cell w = Some c" and core: "m_ctx (m_core s)" "m_initialized (m_core s)" "m_is_prod (m_core s)"
    and prod: "\<And>w1 :: ('e, 'x) dworld. good w1 \<Longrightarrow> same_dyad w w1 \<Longrightarrow>
      wp (dyad_produce F (m_filename s)) (\<lambda>r w'. \<exists>rc. r = Some rc \<and> P rc (flux w')) w1"
  shows "wp (ofstream_close F has_fd s) (closed_output F s (overlay old off d) w p P) w"
proof -
  have sync: "wp (close_sync F (m_core s) (m_filename s)) (\<lambda>r w'. r \<noteq> None
      \<and> closed_output F s (overlay old off d) w p P (Some (s\<lparr>m_stream := Some st2\<rparr>)) w') w2"
    if wr: "written w p (overlay old off d) st2 w2" for st2 and w2 :: "('e, 'x) dworld"
  proof -
    have eq: "(close_sync F (m_core s) (m_filename s) :: ('e, 'x, bool option) dio)
        = if_defined (dyad_produce F (m_filename s)) (\<lambda>rc. State_Monad.return (Some (\<not> is_error rc)))"
      using core by (simp add: close_sync_def)
    obtain r w' where run: "run_state (dyad_produce F (m_filename s)) w2 = (r, w')" by fastforce
    moreover have "wp (dyad_produce F (m_filename s)) (\<lambda>r w'. \<exists>rc. r = Some rc \<and> P rc (flux w')) w2"
      by (rule prod) (use wr in \<open>simp_all add: written_def\<close>)
    ultimately show ?thesis
      unfolding eq wp_if_defined using wr by (auto simp: wp_def closed_output_def) blast
  qed
  show ?thesis
    unfolding ofstream_close_def st(1) option.case wp_if_defined
  proof (rule wp_mono [OF wp_release_close [OF b st(2,3) c core(1)]], elim exE conjE, goal_cases)
    case (1 r w1 st1)
    show ?case
      unfolding 1(1) option.case wp_bind
    proof (rule wp_mono [OF 1(2)], goal_cases)
      case (1 st2 w2)
      show ?case unfolding wp_if_defined by (rule wp_mono [OF sync [OF 1]]) auto
    qed
  qed
qed

text \<open>
  C37: an output stream publishes its file after it has written it. \<^verbatim>\<open>close\<close> of an \<^verbatim>\<open>ofstream_dyad\<close> with data in its buffer
  writes the data, closes the file and then runs \<^verbatim>\<open>dyad_produce\<close> on its name, which commits the rank
  of the producer when it succeeds. The file then holds the data, unless a system call has failed: the stream says
  so, but the file is published all the same.
\<close>

theorem ofstream_close_publishes:
  fixes w :: "('e, 'x) dworld"
  assumes "buffered w fp fd p off old d" "m_stream s = Some st" "std_file st = Some fp" "\<not> std_fail st"
    and "cell w = Some c" "m_ctx (m_core s)" "m_initialized (m_core s)" "m_is_prod (m_core s)"
    and "commit_laws F committed" "gen_path_key upath PATH_MAX (key_depth c) (key_bins c) = Some (n, topic)"
    and "ctx_h c \<noteq> None" "prod_managed_path c \<noteq> None" "managed_path w True (m_filename s) = Match upath"
  shows "wp (ofstream_close F has_fd s) (closed_output F s (overlay old off d) w p
     (\<lambda>rc x. rc = RC_OK \<longrightarrow> committed x (kvs_namespace c) topic (sint (ctx_rank c)))) w"
proof (rule wp_ofstream_close [OF assms(1-8)], goal_cases)
  case (1 w1)
  have "cell w1 = Some c" "managed_path w1 True (m_filename s) = Match upath"
    using 1(2) assms(5,13) managed_path_same [of w1 w] by (simp_all add: same_dyad_def)
  from wp_produce [OF submits_commit [OF assms(9)] this(1) assms(10,11,12) this(2)] show ?case
    by (rule wp_mono) (auto simp: produced_def)
qed

theorem ofstream_close_publishes_witness:
  "wp (ofstream_close producer_flux True producer_stream) (closed_output producer_flux producer_stream [1, 2, 3]
     (out_world producer_ctx (None, {})) ''/a/f'' (\<lambda>rc x. rc = RC_OK \<longrightarrow> (Some ''ns'', ''f'', 6) \<in> snd x))
     (out_world producer_ctx (None, {}))"
proof -
  have "gen_path_key ''f'' PATH_MAX (key_depth producer_ctx) (key_bins producer_ctx) = Some (0, ''f'')" by code_simp
  moreover have "managed_path (out_world producer_ctx (None, {})) True (m_filename producer_stream) = Match ''f''" by code_simp
  moreover have o: "overlay [1] 1 [2, 3] = ([1, 2, 3] :: bytes)" by (simp add: overlay_def)
  moreover have k: "kvs_namespace producer_ctx = Some ''ns''" "sint (ctx_rank producer_ctx) = 6"
    by (simp_all add: producer_ctx_def sample_ctx_def dyad_ctx_default_def)
  ultimately show ?thesis
    using ofstream_close_publishes [OF out_world_buffered [of producer_ctx "(None, {})"] _ _ _ out_world_parts(1) _ _ _
        producer_flux_laws, where s = producer_stream and st = "\<lparr>std_file = Some 0, std_fail = False\<rparr>" and has_fd = True,
        unfolded o k]
    by (simp add: producer_stream_def producer_ctx_def [THEN arg_cong [where f = ctx_h]]
        producer_ctx_def [THEN arg_cong [where f = prod_managed_path]] sample_ctx_def)
qed

text \<open>A name that is not managed is not published.\<close>

lemma wp_produce_unmanaged:
  fixes w :: "('e, 'x) dworld"
  assumes c: "cell w = Some c" and path: "managed_path w True fname = No_match"
  shows "wp (dyad_produce F fname) (\<lambda>r w'. \<exists>rc. r = Some rc \<and> flux w' = flux w) w"
proof -
  let ?w = "w\<lparr>cell := Some (c\<lparr>ctx_fname := Some fname\<rparr>)\<rparr>"
  have "managed_path ?w True fname = managed_path w True fname"
    using c by (simp add: managed_path_def managed_upath_def get_realpaths_def the_ctx_def cmp_canonical_path_prefix_def)
  with path have path': "managed_path ?w True fname = No_match" by simp
  have ev: "wp (dyad_cache_maybe_evict x m) (\<lambda>_ w'. flux w' = flux w) w1" if "flux w1 = flux w" for x m and w1 :: "('e, 'x) dworld"
    by (rule wp_mono [OF posix_onlyD [OF posix_evict]]) (use that more_eq_parts(6) in fastforce)
  have commit: "wp (dyad_commit F fname) (\<lambda>r w'. r = Some RC_OK \<and> flux w' = flux w) ?w"
    unfolding dyad_commit_def wp_bind wp_managed_upath path' by (simp add: wps report_check_def)
  show ?thesis
    unfolding dyad_produce_def
    by (simp add: wps c, intro impI wp_mono [OF commit]) (auto simp: wps intro!: wp_mono [OF ev])
qed

lemma empty_not_managed:
  assumes ok: "ctx_paths_ok True c" and set: "prod_managed_path c \<noteq> None" and rp: "rp '''' = None"
  shows "cmp_canonical_path_prefix rp (Some c) True '''' n = No_match"
proof -
  have "try_prefix len h (Some q) '''' n = No_match" if f: "path_field_ok (Some q) len h" for q len h
  proof -
    have "extract_user_path True q '''' PATH_DELIM n = None"
    proof (rule ccontr)
      assume "extract_user_path True q '''' PATH_DELIM n \<noteq> None"
      then obtain u where "under_dir q '''' u" by (auto simp: extract_user_path_iff)
      with f show False by (simp add: under_dir_def path_field_ok_def)
    qed
    then show ?thesis by (simp add: try_prefix_eq [OF f])
  qed
  with assms show ?thesis
    by (cases "prod_real_path c") (auto simp: cmp_canonical_path_prefix_def try_both_def ctx_paths_ok_def path_field_ok_def Let_def)
qed

text \<open>
  C39: a stream that has been moved does not publish its file. The move constructor of \<^verbatim>\<open>ofstream_dyad\<close> takes over the
  stream and the core but not the name of the file, so closing the new object writes the file and
  then produces the empty path: Flux is left as it was, and a consumer waits for the file in vain.
\<close>

theorem ofstream_move_unpublished:
  fixes w :: "('e, 'x) dworld"
  assumes "buffered w fp fd p off old d" "m_stream s = Some st" "std_file st = Some fp" "\<not> std_fail st"
    and "cell w = Some c" "m_ctx (m_core s)" "m_initialized (m_core s)" "m_is_prod (m_core s)"
    and "ctx_paths_ok True c" "prod_managed_path c \<noteq> None" "\<not> relative_to_managed_path c" "realpaths w '''' = None"
  shows "wp (ofstream_close F has_fd (fst (ofstream_move s))) (closed_output F (fst (ofstream_move s)) (overlay old off d) w p
     (\<lambda>_ x. x = flux w)) w"
proof (rule wp_ofstream_close [OF assms(1) _ assms(3-5)], goal_cases)
  case (5 w1)
  have "managed_path w True '''' = No_match"
    using assms(5,11) empty_not_managed [OF assms(9,10), of "realpaths w"] assms(12)
    by (simp add: managed_path_def managed_upath_def get_realpaths_def the_ctx_def)
  with 5 assms(5) managed_path_same [of w1 w] have "cell w1 = Some c" "managed_path w1 True '''' = No_match" "flux w1 = flux w"
    by (simp_all add: same_dyad_def)
  with wp_produce_unmanaged [OF this(1,2), of F] show ?case
    by (simp add: ofstream_move_def stream_move_def)
qed (use assms in \<open>simp_all add: ofstream_move_def stream_move_def\<close>)

theorem ofstream_move_unpublished_witness:
  "wp (ofstream_close producer_flux True (fst (ofstream_move producer_stream)))
     (closed_output producer_flux (fst (ofstream_move producer_stream)) [1, 2, 3] (out_world sample_ctx (None, {})) ''/a/f''
       (\<lambda>_ x. x = (None, {}))) (out_world sample_ctx (None, {}))"
proof -
  have f: "flux (out_world sample_ctx ((None, {}) :: store)) = (None, {})"
    by (simp add: out_world_def file_world_def)
  have o: "overlay [1] 1 [2, 3] = ([1, 2, 3] :: bytes)" by (simp add: overlay_def)
  show ?thesis
    by (rule ofstream_move_unpublished [OF out_world_buffered [of sample_ctx "(None, {}) :: store"] _ _ _ out_world_parts(1) _ _ _ sample_ctx_paths,
          where st = "\<lparr>std_file = Some 0, std_fail = False\<rparr>", unfolded o f])
      (simp_all add: producer_stream_def sample_ctx_def dyad_ctx_default_def)
qed

end
