(* ===== verification/Spec2Isabelle.thy ===== *)
theory Spec2Isabelle
  imports Murmur3 Base64 Wrapper Ctx_Correct Pool_Correct Client_Live Margo_Correct Ucx_Correct Stream_Correct
begin

text \<open>
  DYAD moves files between the nodes of a workflow. A producer writes a file under a managed
  directory of its node and publishes its rank in the key-value store of Flux; a consumer on
  another node looks the rank up, waiting for it when need be, asks the broker module of that rank
  for the data, and stores the data in its own managed directory. Files that share a node or a
  file system are not copied but synchronised by record locks. Applications get this from a
  preloaded library that intercepts \<^verbatim>\<open>open\<close> and \<^verbatim>\<open>close\<close>, from C++ streams, or from the client API.

  \<^bold>\<open>How the program is modelled.\<close> Machine integers are words, and C strings lists of characters
  without the final zero. Everything that has an effect is a function in the state monad. The
  state (\<open>Posix\<close>, \<open>Dyad_World\<close>) holds inodes, paths, descriptors and record locks, \<^verbatim>\<open>errno\<close>, the
  environment, the thread-local context of DYAD, the streams of the C library, and a state of Flux of
  an arbitrary type. Every world has a schedule of faults: the next entry says whether the next
  system call succeeds, fails with a given error, or transfers only some bytes, so a theorem about all
  worlds is one about all failures and all short transfers. A world also has an environment of
  other processes, which may change files exactly where the process waits for a lock. A failing C
  function returns the same code as in the source; code that dereferences a null pointer or reads out of
  bounds is \<open>None\<close>, and likewise a loop out of fuel, an assertion that does not hold and a wait that does not end, so
  a theorem with result \<open>Some\<close> says also that none of this happens.

  \<^bold>\<open>Which theory models what\<close> (sources under \<^verbatim>\<open>src/src/dyad\<close> unless said otherwise):

  \<^item> \<open>Dyad_Base\<close>, \<open>Structures\<close>: the prelude with its fact collections, return codes, modes and the
    structures the components share, \<^verbatim>\<open>include/dyad/common\<close>, \<^verbatim>\<open>common/dyad_structures_int.h\<close>.
  \<^item> \<open>Posix\<close>, \<open>Posix_Rules\<close>, \<open>File_View\<close>: the system calls the code makes, with weakest
    preconditions (\<open>wp\<close>), and the view of the file system as a map from paths to contents.
  \<^item> \<open>Dyad_World\<close>, \<open>Flux\<close>: the context pointer, and the calls to Flux as fields of a record \<open>flux_ops\<close>,
    an argument of each definition that makes them. Flux is not in the repository; what a theorem
    relies on is a named hypothesis about the record (\<open>client_laws\<close>, \<open>journal_laws\<close>, \<open>commit_laws\<close>, \<open>reply_laws\<close>,
    \<open>replies_work\<close>, \<open>stream_laws\<close>, \<open>ends_taken\<close>). Where a property is about what Flux was told, its conclusion
    speaks of a log in the state of Flux (\<open>journal\<close> for commits, \<open>sent\<close> for answers) that only calls to Flux
    can extend. \<open>Samples\<close> holds instances for the witnesses.
  \<^item> \<open>Murmur3\<close>: \<^verbatim>\<open>utils/murmur3.c\<close>, all three variants. \<open>Base64\<close>: \<^verbatim>\<open>utils/base64/base64.c\<close>.
  \<^item> \<open>Path_Utils\<close>, \<open>Path_Key\<close>: the path functions of \<^verbatim>\<open>utils/utils.c\<close> and \<^verbatim>\<open>gen_path_key\<close> of
    \<^verbatim>\<open>client/dyad_client.c\<close>.
  \<^item> \<open>Fs_Utils\<close>: directories, locks and sizes of \<^verbatim>\<open>utils/utils.c\<close>, and \<^verbatim>\<open>utils/read_all.c\<close>.
  \<^item> \<open>Range_Cache\<close>, \<open>Range_Cache_Correct\<close>: \<^verbatim>\<open>utils/range_cache.c\<close>.
  \<^item> \<open>Cache_Policy\<close>, \<open>Cache_Evict\<close>: the directory \<^verbatim>\<open>cache\<close>.
  \<^item> \<open>Flux_Dtl\<close>: \<^verbatim>\<open>dtl/flux_dtl.c\<close> and \<^verbatim>\<open>dtl/dyad_dtl_api.c\<close>. \<open>Frames\<close>: what POSIX and Flux
    operations leave alone, and which results they can have.
  \<^item> \<open>Ctx\<close>, \<open>Ctx_Correct\<close>: \<^verbatim>\<open>core/dyad_ctx.c\<close>.
  \<^item> \<open>Client\<close>: \<^verbatim>\<open>client/dyad_client.c\<close>. \<open>Client_Fetch\<close> and \<open>Client_Store\<close> say what its parts do,
    \<open>Client_Produce\<close> and \<open>Client_Consume\<close> what the calls do, \<open>Client_Live\<close> that \<^verbatim>\<open>dyad_consume\<close> terminates and
    succeeds when nothing fails.
  \<^item> \<open>Margo\<close>, \<open>Margo_Correct\<close>: \<^verbatim>\<open>dtl/margo_dtl.c\<close>. \<open>Ucx\<close>, \<open>Ucx_Correct\<close>: \<^verbatim>\<open>dtl/ucx_dtl.c\<close> and
    \<^verbatim>\<open>dtl/ucx_ep_cache.cpp\<close>. The calls into Margo and UCX are fields of records, like those to Flux, and the states of
    the libraries are part of the same \<open>'e\<close>; what a theorem relies on is again a named hypothesis.
  \<^item> \<open>Wrapper\<close>: \<^verbatim>\<open>wrapper/wrapper.c\<close>.
  \<^item> \<open>Stream_Core\<close>, \<open>Stream_Api\<close>, \<open>Stream_Correct\<close>: the C++ streams, \<^verbatim>\<open>stream/dyad_stream_core.cpp\<close> and
    \<^verbatim>\<open>include/dyad/stream\<close>, with the file streams of the C++ library as far as they are used.
  \<^item> \<open>Getopt\<close>, \<open>Module_Args\<close>: the options of the module and the command line tool
    \<^verbatim>\<open>service/dyad_exe.c\<close>, with \<^verbatim>\<open>getopt_long\<close> of the C library as far as they use it.
  \<^item> \<open>Service\<close>: \<^verbatim>\<open>service/flux_module/dyad.c\<close>. \<open>Service_Files\<close> is about requests for a file,
    \<open>Service_Ranges\<close> about what a worker reads for a range, \<open>Stream_Ends\<close> about which operations end the stream of
    answers to a request, \<open>Fetch_Pool\<close> has the steps of the
    module's threads as a relation, and \<open>Pool_Correct\<close> their properties.

  Definitions keep the names of the C functions and fields. A C function that is long, or that
  jumps to labels, is several definitions, one per label or phase, called in the order of the source.

  \<^bold>\<open>What is shown.\<close>

  \<^item> \<^emph>\<open>End to end\<close>: this theory joins the module, the transport and the client: a consumer
    that reports success for less than 1 GiB of data holds what the producer wrote. Client theories say what happens to the
    file and to all other files for each outcome, and that the call returns the data when nothing fails.
    A producer submits exactly its entry to the key-value store and waits for the answer in synchronous mode, but
    does not look at it.
  \<^item> \<^emph>\<open>The optional transports\<close>: with Margo the consumer gets exactly what the producer has exposed, or does not
    return, and registrations of memory balance. With UCX requests survive packing and unpacking, and a ledger of the
    resources of the library shows that finalising gives each one back once and in an order that respects which depends on which,
    unless endpoints are open beside the handle, as initialising a producer leaves one.
  \<^item> \<^emph>\<open>The streams\<close>: closing an output stream writes its buffer and then publishes the file, and what has
    been written when the lock is released.
  \<^item> \<^emph>\<open>The module\<close>: whatever the faults, data sent is the whole file; a file that can be read is
    served. The worker pool refines a contract in which each request becomes pending or has its stream ended at once, and
    the stream of a pending one is ended once, counted by the answers Flux has taken; no wakeup is lost while the pool runs, and
    unless the pool is stopped everything is answered, with an
    explicit bound on the number of steps. A stopped pool answers nothing any more.
  \<^item> \<^emph>\<open>The block cache\<close>: an invariant ties bitmap, local copy and origin, each step keeps it for
    every schedule of faults, so a range reported as cached is that of the origin.
  \<^item> \<^emph>\<open>Paths\<close>: the hashed test for managed paths equals the plain prefix test; the context
    keeps paths, lengths and hashes in step, also through \<^verbatim>\<open>dyad_init\<close>.
  \<^item> \<^emph>\<open>Codecs and hashes\<close>: round trip of base64, and that its decoder, whose every write into the buffer is modelled,
    never leaves the buffer; injectivity of keys and of hashing a block.
  \<^item> \<^emph>\<open>Interfaces\<close> are locales, interpreted on the model where it provides them: base64 maps,
    recency keys of policies, the sort by recency, and the two managed sides of a context.
  \<^item> \<^emph>\<open>Defects\<close> that modelling showed are theorems too: what a failed write in the loop for large
    data does, the tail of the hash, the second initialisation, the stopped pool, the file mode mask,
    stale bitmaps, the address that Margo is made to free twice, the warm-up and the colliding endpoints of UCX, streams that
    are moved, parameters with one role.

  \<^bold>\<open>Fuel and bounds.\<close> \<open>read_loop\<close> and \<open>pread_loop\<close> get one unit of fuel per byte to transfer, which is enough,
  because an iteration transfers a byte or leaves the loop. \<open>mkpath\<close>, \<open>write_all\<close> and \<open>store_loop\<close>
  may run for ever in the source (each retries or goes on after a failure), and take their fuel as an argument that
  the calls above them pass on: one unit per byte, per component of a path and per scheduled fault
  is enough (\<open>write_all_complete\<close>, \<open>mkdir_as_needed_creates\<close>). The other loops are structural: over retries,
  names, entries, blocks and queues. The
  granularity of transfers is the constant of the source, \<open>1024 ^ 3\<close> bytes; \<open>DYAD_SPIN_WAIT\<close> and
  \<open>DYAD_SYNC_DIR\<close> have the values of a default build, \<open>PATH_MAX\<close> is that of Linux, and the pipe of the module
  holds \<open>PIPE_CAPACITY\<close> bytes, as on Linux.

  Waiting for UCX and for Margo's announcement has fuel too, the number of times the library is
  asked; no fixed number can be enough there, so the theorems say what holds when the requests settle within the
  fuel (\<open>settles\<close>, \<open>finishes\<close>) and that the call returns then.

  \<^bold>\<open>Not modelled.\<close> The client, the module and the choice of a transport are modelled as they are built
  without UCX and Margo; the two transports stand on their own, behind the same operations. The
  Python bindings call the client API through \<^verbatim>\<open>ctypes\<close>. The streams are those of C++11 and later, without exceptions;
  the pointer a stream keeps to a context that a later reinitialisation frees counts as the new context.
  Logging and profiling have no effect on results and are left out
  of all definitions. Signals, threads of one client that share a context, and the internals of the kernel
  below the calls listed in \<open>Posix\<close> are outside the model. So are the mutex of the block cache, which orders the threads of
  one process, the middle of a Margo handler as seen by the thread that waits for it (\<open>await_ready\<close>), keys of 2 GiB
  and more for the hash functions, and ranges of \<open>2 ^ 63\<close> bytes and more once an item is made for them (\<open>item_data\<close>).
\<close>

section \<open>From the producer's node to the consumer's file\<close>

text \<open>
  A reply of the module: running the handler on a request for the path has sent \<open>d\<close>, and the file
  holds \<open>D\<close> at the end.
\<close>

definition module_reply ::
  "'e flux_ops \<Rightarrow> ('e \<Rightarrow> reply list) \<Rightarrow> string \<Rightarrow> string \<Rightarrow> bytes \<Rightarrow> bytes \<Rightarrow> ('e, 'x) dworld \<Rightarrow> bool" where
  "module_reply M sent managed upath D d w \<longleftrightarrow> (\<exists>h msg w'. reply_laws M sent \<and> request_for M msg upath \<and> good w
     \<and> module_ready w managed \<and> \<not> is_dir w (prod_file_path managed upath)
     \<and> run_state (dyad_fetch_request_cb M h msg) w = (Some (), w') \<and> fdata w' (prod_file_path managed upath) = Some D
     \<and> (msg, Inl d) \<in> set (drop (length (sent (flux w))) (sent (flux w'))))"

lemma module_reply_content:
  assumes "module_reply M sent managed upath D d w"
  shows "d = D"
proof -
  from assms obtain h msg w' where m: "reply_laws M sent" "request_for M msg upath" "good w" "module_ready w managed"
    "\<not> is_dir w (prod_file_path managed upath)" "run_state (dyad_fetch_request_cb M h msg) w = (Some (), w')"
    "fdata w' (prod_file_path managed upath) = Some D"
    "(msg, Inl d) \<in> set (drop (length (sent (flux w))) (sent (flux w')))"
    by (auto simp: module_reply_def)
  from wp_fetch_request [OF m(1-5), of h] m(6,7) have "answered sent msg (Some D) (flux w) (flux w')"
    by (simp add: wp_def serves_def)
  with m(8) show ?thesis by (auto simp: answered_def)
qed

lemmas module_defs = dyad_fetch_request_cb_def serve_file_def serve_locked_def read_file_def send_and_end_def
  DYAD_SPIN_WAIT_def dyad_dtl_flux_rpc_unpack_def dyad_dtl_flux_rpc_respond_def dyad_dtl_flux_get_buffer_def
  dyad_dtl_flux_establish_connection_def dyad_dtl_flux_send_def dyad_dtl_flux_close_connection_def
  dyad_dtl_flux_return_buffer_def dyad_shared_flock_def dyad_release_flock_def get_file_size_def
  sys_read_def member_str_def

lemma module_run:
  "wp (dyad_fetch_request_cb reply_flux 5 9) (\<lambda>r w'. r = Some () \<and> fdata w' ''/a/f'' = Some [1, 2, 3]
     \<and> flux w' = [(9, Inl [1, 2, 3]), (9, Inr ENODATA)]) (file_world (Some [1, 2, 3]) sample_ctx [])"
proof -
  have p: "prod_file_path ''/a'' ''f'' = ''/a/f''" by code_simp
  show ?thesis
    by (simp add: module_defs sys_defs wps wp_flux_call reply_flux_def no_flux_def p file_world_def oflag_defs
        sample_ctx_def sample_dtl_def dyad_ctx_default_def flux_failed_def dir_inode_def file_inode_def
        TRANSFER_GRANULARITY_def fdata_def Let_def)
qed

text \<open>
  C1: what is consumed is what was produced, for files of less than 1 GiB. A consumer on another node, whose Flux delivers for a
  request what some run of the owner's module has sent for it, and looks the owner up under the
  key of the path, ends up with the content \<open>D\<close> of the producer's file in its own copy and with no
  other file changed, whenever \<^verbatim>\<open>dyad_consume\<close> reports success, whatever system calls have failed or
  were cut short on either side. The consumer starts without a copy of the file, no other process makes one while it waits for a
  lock, storage is not shared, and the consumer's context does not evict. (From 1 GiB on a failing write can corrupt the copy unnoticed, see C22.)
\<close>

theorem produced_reaches_consumer:
  fixes w :: "('e, 'x) dworld"
  assumes "client_laws F answers owner" and "good w" and "fdata w p = None" "\<not> is_dir w p"
    and "\<And>d. \<not> left_by_other w p d" and "consumer w c upath topic" and "\<not> shared_storage c"
    and "ctx_h c \<noteq> None" "cons_managed_path c \<noteq> None" "managed_path w False p = Match upath"
    and "\<not> owned_here owner c topic upath" and "length D < TRANSFER_GRANULARITY"
    and "\<And>r d. owner (kvs_namespace c) topic r \<Longrightarrow> answers (of_int r) DYAD_DTL_RPC_NAME (fetch_payload upath) d
       \<Longrightarrow> \<exists>v :: ('m, 'x) dworld. module_reply M sent managed upath D d v"
  shows "wp (dyad_consume F fuel p) (\<lambda>r w'. r = Some RC_OK \<longrightarrow> fdata w' = (fdata w)(p \<mapsto> D)) w"
proof (rule wp_mono [OF wp_dyad_consume [OF assms(1,2,4,6-10)]], intro impI ext, goal_cases)
  case (1 r w' q)
  have D: "x = D" if "from_owner owner answers c topic upath x" for x
    using that assms(13) module_reply_content by (fastforce simp: from_owner_def found_def)
  from 1 obtain old d where *: "starts_with w p old" "fdata w' p = Some d"
    "d = old \<and> (use_fs_locks c \<and> old \<noteq> [] \<or> owned_here owner c topic upath) \<or>
     (\<exists>x. from_owner owner answers c topic upath x \<and> (length x < TRANSFER_GRANULARITY \<longrightarrow> d = overlay old 0 x))"
    by (auto simp: consumed_def)
  from *(1) assms(3,5) have "old = []" by (simp add: starts_with_def)
  with *(3) assms(11,12) D have "d = D" by (auto simp: overlay_def)
  with *(2) 1 show ?case by (simp add: consumed_def)
qed

theorem produced_reaches_consumer_witness:
  "wp (dyad_consume consumer_flux 9 ''f'') (\<lambda>r w'. r = Some RC_OK
     \<and> (r = Some RC_OK \<longrightarrow> fdata w' = (fdata (file_world None consumer_ctx (0 :: nat)))(''f'' \<mapsto> [1, 2, 3])))
     (file_world None consumer_ctx 0)"
proof -
  let ?v = "file_world (Some [1, 2, 3]) sample_ctx ([] :: reply list)"
  obtain r v' where run: "run_state (dyad_fetch_request_cb reply_flux 5 9) ?v = (r, v')" by fastforce
  have path: "prod_file_path ''/a'' ''f'' = ''/a/f''" by code_simp
  have "module_ready ?v ''/a''" "\<not> is_dir ?v ''/a/f''"
    by (simp_all add: module_ready_def file_world_def sample_ctx_def sample_dtl_def is_dir_def inode_of_path_def file_inode_def)
  with module_run run path have reply: "module_reply reply_flux (\<lambda>s. s) ''/a'' ''f'' [1, 2, 3] [1, 2, 3] ?v"
    unfolding module_reply_def
    by (intro exI [of _ 5] exI [of _ 9] exI [of _ v'] conjI reply_flux_ok file_world_good)
      (simp_all add: wp_def file_world_def)
  have "wp (dyad_consume consumer_flux 9 ''f'') (\<lambda>r w'. r = Some RC_OK
     \<longrightarrow> fdata w' = (fdata (file_world None consumer_ctx (0 :: nat)))(''f'' \<mapsto> [1, 2, 3])) (file_world None consumer_ctx 0)"
  proof (rule produced_reaches_consumer [OF consumer_flux_laws file_world_good _ consumer_ready(2) _ consumer_ready(1)
        _ _ _ consumer_ready(3), where M = reply_flux and sent = "\<lambda>s. s" and managed = "''/a''"], goal_cases)
    case (8 r d)
    with reply show ?case by auto
  qed (auto simp: consumer_ctx_def sample_ctx_def dyad_ctx_default_def
      owned_here_def found_def TRANSFER_GRANULARITY_def fdata_def inode_of_path_def file_world_def left_by_other_def)
  from wp_conj [OF consumer_run this] show ?thesis by (rule wp_mono) simp
qed

end
